(* ===== verification/Prelude.thy ===== *)
theory Prelude
  imports
    Complex_Main
    "HOL-Library.AList"
    "HOL-Library.Char_ord"
    "HOL-Library.List_Lexorder"
    "HOL-Library.Multiset"
    "HOL-Library.Sublist"
begin

text \<open>
  The vocabulary every component shares.

  \<^item> Go errors as values of one datatype (the error structs of
    \<^verbatim>\<open>src/api/internal/domain/repository.go\<close>, \<^verbatim>\<open>domain/user.go\<close> and \<^verbatim>\<open>domain/rule.go\<close>, and
    \<^verbatim>\<open>fmt.Errorf\<close>/\<^verbatim>\<open>errors.New\<close> texts), and results as \<open>go_error + 'a\<close>.
  \<^item> Go strings as byte lists with the ASCII part of \<^verbatim>\<open>strings.TrimSpace\<close>,
    \<^verbatim>\<open>strings.ToLower\<close> and \<^verbatim>\<open>strings.EqualFold\<close>; \<^verbatim>\<open><\<close> on strings is the bytewise
    lexicographic order of \<open>List_Lexorder\<close>.
  \<^item> \<^verbatim>\<open>time.Time\<close> as the integer number of nanoseconds since Go's zero time
    (1 January of year 1, UTC), so that \<^verbatim>\<open>IsZero\<close> is \<open>t = 0\<close>, \<^verbatim>\<open>Before\<close>/\<^verbatim>\<open>After\<close>/\<^verbatim>\<open>Equal\<close> are
    \<open><\<close>/\<open>>\<close>/\<open>=\<close> and \<^verbatim>\<open>UTC()\<close> is the identity. \<^verbatim>\<open>time.Now()\<close> is an argument of the
    operation that reads the clock.
  \<^item> Go maps keyed by an identifier as association lists with distinct keys
    (\<open>tbl\<close>). The list order is the order one \<^verbatim>\<open>range\<close> loop visits the map; theorems
    quantify over the table, hence over every such order.
  \<^item> \<^verbatim>\<open>sort.Slice\<close>/\<^verbatim>\<open>sort.SliceStable\<close> with a comparator (\<open>go_sort\<close>), and the
    contract of a comparator as the locale \<open>go_less\<close>.
\<close>

named_theorems tbl_simps \<open>association-table rewrite rules\<close>
named_theorems status_simps \<open>status predicates and transition tables, unfolded\<close>

subsection \<open>Errors and results\<close>

datatype go_error =
    ErrNotFound string string \<comment> \<open>entity, id\<close>
  | ErrConflict string string string \<comment> \<open>entity, id, reason\<close>
  | ErrInvalidStateTransition string string string string \<comment> \<open>entity, id, from, to\<close>
  | ErrSeparationOfDuties string int string string \<comment> \<open>rule, version, author, reason\<close>
  | ErrRefreshTokenReuse
  | ErrRefreshTokenExpired
  | ErrSessionAuthorityChanged
  | ErrField string string \<comment> \<open>path and message of a configuration error\<close>
  | ErrWrap string go_error \<comment> \<open>\<^verbatim>\<open>fmt.Errorf\<close> with \<^verbatim>\<open>%w\<close>\<close>
  | ErrText string \<comment> \<open>\<^verbatim>\<open>fmt.Errorf\<close> and \<^verbatim>\<open>errors.New\<close>\<close>

type_synonym 'a result = "go_error + 'a"

fun is_conflict :: "go_error \<Rightarrow> bool" where
  "is_conflict (ErrConflict _ _ _) = True"
| "is_conflict _ = False"

definition is_ok :: "'a result \<Rightarrow> bool" where
  "is_ok r = (case r of Inl _ \<Rightarrow> False | Inr _ \<Rightarrow> True)"

lemma is_ok_simps [simp]: "is_ok (Inr x)" "\<not> is_ok (Inl e)"
  by (simp_all add: is_ok_def)

lemma is_ok_iff: "is_ok r \<longleftrightarrow> (\<exists>x. r = Inr x)"
  by (cases r) simp_all

subsection \<open>Time\<close>

type_synonym time = int
type_synonym duration = int

abbreviation IsZero :: "time \<Rightarrow> bool" where "IsZero t \<equiv> t = 0"
abbreviation Microsecond :: duration where "Microsecond \<equiv> 1000"
abbreviation Second :: duration where "Second \<equiv> 1000000000"
abbreviation Hour :: duration where "Hour \<equiv> 3600000000000"
abbreviation Day :: duration where "Day \<equiv> 86400000000000"

text \<open>\<^verbatim>\<open>Time.Truncate\<close>: round down to a multiple of \<open>d\<close> since the zero time.\<close>

definition Truncate :: "time \<Rightarrow> duration \<Rightarrow> time" where
  "Truncate t d = (if d \<le> 0 then t else t - t mod d)"

lemma Truncate_idem [simp]: "Truncate (Truncate t d) d = Truncate t d"
  by (auto simp: Truncate_def minus_mod_eq_mult_div)

lemma Truncate_le: "Truncate t d \<le> t"
  by (simp add: Truncate_def)

lemma Truncate_mono: "t \<le> t' \<Longrightarrow> Truncate t d \<le> Truncate t' d"
  by (auto simp: Truncate_def minus_mod_eq_mult_div zdiv_mono1 mult_left_mono)

text \<open>\<^verbatim>\<open>time.Unix(0, 0)\<close>, and the seconds since then (\<^verbatim>\<open>Time.Unix\<close>, rounded down).\<close>

definition unix_epoch :: time where "unix_epoch = 719162 * Day"

definition Unix :: "time \<Rightarrow> int" where
  "Unix t = (t - unix_epoch) div Second"

subsection \<open>64-bit integers\<close>

text \<open>
  Go's \<^verbatim>\<open>int\<close> and \<^verbatim>\<open>time.Duration\<close> are 64-bit two's complement. Where a product can leave that
  range the wrap-around is written out with \<open>int64\<close>; elsewhere the values are mathematical integers.
\<close>

definition int64 :: "int \<Rightarrow> int" where
  "int64 x = (x + 2 ^ 63) mod 2 ^ 64 - 2 ^ 63"

lemma int64_id: "- (2 ^ 63) \<le> x \<Longrightarrow> x < 2 ^ 63 \<Longrightarrow> int64 x = x"
  by (simp add: int64_def mod_pos_pos_trivial)

subsection \<open>Floating point values\<close>

text \<open>
  \<^verbatim>\<open>float64\<close> values as the code compares them: a finite value, an infinity or NaN (the two
  zeros compare equal in Go and are one value here). Comparisons with NaN are false.
\<close>

datatype float64 = F64_NaN | F64_NegInf | F64 rat | F64_PosInf

fun f64_lt :: "float64 \<Rightarrow> float64 \<Rightarrow> bool" where
  "f64_lt F64_NaN _ = False"
| "f64_lt _ F64_NaN = False"
| "f64_lt F64_NegInf y = (y \<noteq> F64_NegInf)"
| "f64_lt _ F64_NegInf = False"
| "f64_lt F64_PosInf _ = False"
| "f64_lt _ F64_PosInf = True"
| "f64_lt (F64 a) (F64 b) = (a < b)"

definition f64_eq :: "float64 \<Rightarrow> float64 \<Rightarrow> bool" where
  "f64_eq x y \<longleftrightarrow> x \<noteq> F64_NaN \<and> x = y"

definition f64_le :: "float64 \<Rightarrow> float64 \<Rightarrow> bool" where
  "f64_le x y \<longleftrightarrow> f64_lt x y \<or> f64_eq x y"

lemma f64_lt_irrefl [simp]: "\<not> f64_lt x x"
  by (cases x) simp_all

lemma f64_lt_trans: "f64_lt x y \<Longrightarrow> f64_lt y z \<Longrightarrow> f64_lt x z"
  by (cases x; cases y; cases z) auto

lemma f64_le_trans: "f64_le x y \<Longrightarrow> f64_le y z \<Longrightarrow> f64_le x z"
  by (auto simp: f64_le_def f64_eq_def dest: f64_lt_trans)

lemma f64_not_lt_iff: "x \<noteq> F64_NaN \<Longrightarrow> y \<noteq> F64_NaN \<Longrightarrow> \<not> f64_lt x y \<longleftrightarrow> f64_le y x"
  by (cases x; cases y) (auto simp: f64_le_def f64_eq_def)

lemma f64_le_lt_trans: "f64_le x y \<Longrightarrow> f64_lt y z \<Longrightarrow> f64_lt x z"
  by (auto simp: f64_le_def f64_eq_def dest: f64_lt_trans)

subsection \<open>Decoded JSON values\<close>

text \<open>What an \<^verbatim>\<open>any\<close> holds after JSON or YAML decoding; an object lists its keys once.\<close>

datatype any =
    JNull
  | JBool bool
  | JNumber float64
  | JString string
  | JArray "any list"
  | JObject "(string \<times> any) list"

subsection \<open>Strings\<close>

definition is_space :: "char \<Rightarrow> bool" where
  "is_space c \<longleftrightarrow> c \<in> {CHR '' '', CHR 0x09, CHR 0x0A, CHR 0x0B, CHR 0x0C, CHR 0x0D}"

definition TrimSpace :: "string \<Rightarrow> string" where
  "TrimSpace s = rev (dropWhile is_space (rev (dropWhile is_space s)))"

definition lower_char :: "char \<Rightarrow> char" where
  "lower_char c =
     (case map_of (zip ''ABCDEFGHIJKLMNOPQRSTUVWXYZ'' ''abcdefghijklmnopqrstuvwxyz'') c of
        Some d \<Rightarrow> d | None \<Rightarrow> c)"

definition ToLower :: "string \<Rightarrow> string" where
  "ToLower s = map lower_char s"

definition EqualFold :: "string \<Rightarrow> string \<Rightarrow> bool" where
  "EqualFold s t \<longleftrightarrow> ToLower s = ToLower t"

lemma lower_char_idem [simp]: "lower_char (lower_char c) = lower_char c"
  by (auto simp: lower_char_def split: option.splits)

lemma ToLower_idem [simp]: "ToLower (ToLower s) = ToLower s"
  by (simp add: ToLower_def)

lemma length_ToLower [simp]: "length (ToLower s) = length s"
  by (simp add: ToLower_def)

lemma dropWhile_hd_not: "dropWhile P xs = y # ys \<Longrightarrow> \<not> P y"
  by (metis hd_dropWhile list.distinct(1) list.sel(1))

lemma dropWhile_idem_rev:
  "dropWhile P (rev (dropWhile P (rev (dropWhile P s)))) = rev (dropWhile P (rev (dropWhile P s)))"
proof (cases "dropWhile P s")
  case Nil
  then show ?thesis by (simp del: dropWhile_eq_Nil_conv)
next
  case (Cons y ys)
  then have "\<not> P y" by (rule dropWhile_hd_not)
  then have "dropWhile P (rev (y # ys)) = dropWhile P (rev ys) @ [y] \<or>
      dropWhile P (rev (y # ys)) = [y]"
    by (cases "dropWhile P (rev ys) = []") (simp_all add: dropWhile_append)
  with Cons \<open>\<not> P y\<close> show ?thesis by auto
qed

lemma TrimSpace_idem [simp]: "TrimSpace (TrimSpace s) = TrimSpace s"
  by (simp add: TrimSpace_def dropWhile_idem_rev)

lemma TrimSpace_Nil [simp]: "TrimSpace [] = []"
  by (simp add: TrimSpace_def)

lemma EqualFold_refl [simp]: "EqualFold s s"
  by (simp add: EqualFold_def)

lemma EqualFold_sym: "EqualFold s t \<longleftrightarrow> EqualFold t s"
  by (auto simp: EqualFold_def)

lemma EqualFold_trans: "EqualFold s t \<Longrightarrow> EqualFold t u \<Longrightarrow> EqualFold s u"
  by (simp add: EqualFold_def)

subsection \<open>Maps keyed by an identifier\<close>

type_synonym 'v tbl = "(string \<times> 'v) list"

abbreviation tbl_get :: "'v tbl \<Rightarrow> string \<Rightarrow> 'v option" where "tbl_get t k \<equiv> map_of t k"
abbreviation tbl_put :: "string \<Rightarrow> 'v \<Rightarrow> 'v tbl \<Rightarrow> 'v tbl" where "tbl_put k v t \<equiv> AList.update k v t"
abbreviation tbl_vals :: "'v tbl \<Rightarrow> 'v list" where "tbl_vals t \<equiv> map snd t"

definition tbl_wf :: "'v tbl \<Rightarrow> bool" where
  "tbl_wf t \<longleftrightarrow> distinct (map fst t)"

text \<open>A loop \<^verbatim>\<open>for _, v := range m { mutate v }\<close> over a map of pointers.\<close>

definition tbl_map :: "('v \<Rightarrow> 'v) \<Rightarrow> 'v tbl \<Rightarrow> 'v tbl" where
  "tbl_map f t = map (\<lambda>(k, v). (k, f v)) t"

lemma tbl_wf_Nil [simp]: "tbl_wf []"
  by (simp add: tbl_wf_def)

lemma tbl_wf_put [simp]: "tbl_wf t \<Longrightarrow> tbl_wf (tbl_put k v t)"
  by (simp add: tbl_wf_def distinct_update)

lemma fst_tbl_map [simp]: "map fst (tbl_map f t) = map fst t"
  by (simp add: tbl_map_def split_def)

lemma tbl_wf_map [simp]: "tbl_wf (tbl_map f t) \<longleftrightarrow> tbl_wf t"
  by (simp add: tbl_wf_def)

lemma tbl_vals_map [simp]: "tbl_vals (tbl_map f t) = map f (tbl_vals t)"
  by (simp add: tbl_map_def split_def)

lemma tbl_get_map [tbl_simps]: "tbl_get (tbl_map f t) k = map_option f (tbl_get t k)"
  by (induction t) (auto simp: tbl_map_def)

lemma tbl_get_put [tbl_simps]: "tbl_get (tbl_put k v t) k' = (if k' = k then Some v else tbl_get t k')"
  by (simp add: update_conv')

lemma tbl_put_same [tbl_simps]: "tbl_get (tbl_put k v t) k = Some v"
  by (simp add: update_conv')

lemma tbl_get_in_vals: "tbl_get t k = Some v \<Longrightarrow> v \<in> set (tbl_vals t)"
  by (force dest: map_of_SomeD)

lemma tbl_vals_get: "tbl_wf t \<Longrightarrow> v \<in> set (tbl_vals t) \<Longrightarrow> \<exists>k. tbl_get t k = Some v"
  by (force simp: tbl_wf_def)

text \<open>The values after a store: the other keys' values are kept.\<close>

lemma tbl_vals_put_iff:
  assumes "tbl_wf t"
  shows "w \<in> set (tbl_vals (tbl_put k v t)) \<longleftrightarrow> w = v \<or> (\<exists>k'. k' \<noteq> k \<and> tbl_get t k' = Some w)"
proof -
  have wf: "tbl_wf (tbl_put k v t)" using assms by simp
  have "w \<in> set (tbl_vals (tbl_put k v t)) \<longleftrightarrow> (\<exists>k'. tbl_get (tbl_put k v t) k' = Some w)"
    using tbl_vals_get [OF wf] tbl_get_in_vals by metis
  then show ?thesis by (auto simp: tbl_simps)
qed

lemma tbl_put_vals_subset: "set (tbl_vals (tbl_put k v t)) \<subseteq> insert v (set (tbl_vals t))"
  by (induction t) auto

lemma tbl_put_new: "tbl_get t k = None \<Longrightarrow> tbl_put k v t = t @ [(k, v)]"
  by (induction t) (auto split: if_splits)

lemma length_filter_tbl_put_new:
  "tbl_get t k = None \<Longrightarrow>
   length (filter P (tbl_vals (tbl_put k v t))) =
     length (filter P (tbl_vals t)) + (if P v then 1 else 0)"
  by (induction t) (auto split: if_splits)

text \<open>
  The contract of a keyed store, as the clients of a repository rely on it: what is
  stored is read back, other keys are unaffected, and the representation invariant is
  kept. Every in-memory repository of the program is a client of this contract.
\<close>

locale keyed_store =
  fixes get :: "'t \<Rightarrow> 'k \<Rightarrow> 'v option"
    and put :: "'k \<Rightarrow> 'v \<Rightarrow> 't \<Rightarrow> 't"
    and vals :: "'t \<Rightarrow> 'v list"
    and wf :: "'t \<Rightarrow> bool"
  assumes get_put: "get (put k v t) k' = (if k' = k then Some v else get t k')"
    and wf_put: "wf t \<Longrightarrow> wf (put k v t)"
    and vals_get: "wf t \<Longrightarrow> v \<in> set (vals t) \<longleftrightarrow> (\<exists>k. get t k = Some v)"
begin

lemma put_keeps_all:
  assumes "wf t" and "\<forall>v \<in> set (vals t). P v" and "P w"
  shows "\<forall>v \<in> set (vals (put k w t)). P v"
proof
  fix v assume "v \<in> set (vals (put k w t))"
  then obtain k' where "get (put k w t) k' = Some v"
    using vals_get [OF wf_put [OF assms(1)]] by blast
  then have "v = w \<or> get t k' = Some v"
    by (auto simp: get_put split: if_splits)
  then show "P v"
    using assms vals_get by blast
qed

lemma put_twice: "get (put k w (put k v t)) = get (put k w t)"
  by (rule ext) (simp add: get_put)

lemma put_commute: "k \<noteq> k' \<Longrightarrow> get (put k v (put k' v' t)) = get (put k' v' (put k v t))"
  by (rule ext) (auto simp: get_put)

end

lemma tbl_vals_iff: "tbl_wf t \<Longrightarrow> v \<in> set (tbl_vals t) \<longleftrightarrow> (\<exists>k. tbl_get t k = Some v)"
  using tbl_vals_get tbl_get_in_vals by metis

interpretation go_map: keyed_store "map_of :: 'v tbl \<Rightarrow> string \<Rightarrow> 'v option" AList.update tbl_vals tbl_wf
  by unfold_locales (rule tbl_get_put, erule tbl_wf_put, erule tbl_vals_iff)

subsection \<open>Sorting with a comparator\<close>

text \<open>
  \<^verbatim>\<open>sort.SliceStable(xs, lt)\<close>: insertion that keeps the order of elements the
  comparator does not distinguish. \<^verbatim>\<open>sort.Slice\<close> may permute such elements; the lemma
  \<open>go_sort_unique\<close> shows that where the comparator is total on the elements there is
  only one sorted permutation, so the two functions agree there.
\<close>

fun go_insert :: "('a \<Rightarrow> 'a \<Rightarrow> bool) \<Rightarrow> 'a \<Rightarrow> 'a list \<Rightarrow> 'a list" where
  "go_insert lt x [] = [x]"
| "go_insert lt x (y # ys) = (if lt y x then y # go_insert lt x ys else x # y # ys)"

definition go_sort :: "('a \<Rightarrow> 'a \<Rightarrow> bool) \<Rightarrow> 'a list \<Rightarrow> 'a list" where
  "go_sort lt xs = foldr (go_insert lt) xs []"

lemma go_sort_simps [simp]:
  "go_sort lt [] = []"
  "go_sort lt (x # xs) = go_insert lt x (go_sort lt xs)"
  by (simp_all add: go_sort_def)

lemma mset_go_insert [simp]: "mset (go_insert lt x xs) = add_mset x (mset xs)"
  by (induction xs) auto

lemma mset_go_sort [simp]: "mset (go_sort lt xs) = mset xs"
  by (induction xs) auto

lemma set_go_sort [simp]: "set (go_sort lt xs) = set xs"
  by (metis mset_go_sort set_mset_mset)

lemma set_go_insert [simp]: "set (go_insert lt x xs) = insert x (set xs)"
  by (metis mset_go_insert set_mset_add_mset_insert set_mset_mset)

lemma length_go_sort [simp]: "length (go_sort lt xs) = length xs"
  by (metis mset_go_sort size_mset)

lemma distinct_go_sort [simp]: "distinct (go_sort lt xs) = distinct xs"
  by (metis mset_eq_imp_distinct_iff mset_go_sort)

locale go_less =
  fixes lt :: "'a \<Rightarrow> 'a \<Rightarrow> bool"
  assumes lt_irrefl: "\<not> lt x x"
    and lt_trans: "lt x y \<Longrightarrow> lt y z \<Longrightarrow> lt x z"
    and lt_split: "lt x z \<Longrightarrow> lt x y \<or> lt y z"
begin

lemma lt_asym: "lt x y \<Longrightarrow> \<not> lt y x"
  using lt_irrefl lt_trans by blast

lemma go_insert_sorted:
  "sorted_wrt (\<lambda>x y. \<not> lt y x) ys \<Longrightarrow> sorted_wrt (\<lambda>x y. \<not> lt y x) (go_insert lt x ys)"
proof (induction ys)
  case (Cons y ys)
  show ?case
  proof (cases "lt y x")
    case True
    with Cons show ?thesis by (auto dest: lt_asym)
  next
    case False
    with Cons.prems show ?thesis by (auto dest: lt_split)
  qed
qed simp

lemma go_sort_sorted: "sorted_wrt (\<lambda>x y. \<not> lt y x) (go_sort lt xs)"
  by (induction xs) (auto intro: go_insert_sorted)

lemma sorted_perm_unique:
  assumes "sorted_wrt (\<lambda>x y. \<not> lt y x) xs" and "sorted_wrt (\<lambda>x y. \<not> lt y x) ys"
    and "mset xs = mset ys"
    and "\<And>x y. x \<in> set xs \<Longrightarrow> y \<in> set xs \<Longrightarrow> x \<noteq> y \<Longrightarrow> lt x y \<or> lt y x"
  shows "xs = ys"
  using assms
proof (induction xs arbitrary: ys)
  case (Cons x xs)
  then obtain y ys' where ys: "ys = y # ys'" by (cases ys) auto
  have "y \<in> set (x # xs)" "x \<in> set (y # ys')"
    using Cons.prems(3) ys by (metis list.set_intros(1) set_mset_mset)+
  then have "\<not> lt x y" if "x \<noteq> y" using that Cons.prems(2) ys by auto
  moreover have "\<not> lt y x" if "x \<noteq> y" using that Cons.prems(1) \<open>y \<in> set (x # xs)\<close> by auto
  ultimately have "x = y"
    using Cons.prems(4) \<open>y \<in> set (x # xs)\<close> by (metis list.set_intros(1))
  moreover have "xs = ys'"
    using Cons \<open>x = y\<close> ys by auto
  ultimately show ?case using ys by simp
qed simp

lemma filter_go_insert:
  "sorted_wrt (\<lambda>x y. \<not> lt y x) ys \<Longrightarrow>
   filter P (go_insert lt x ys) = (if P x then go_insert lt x (filter P ys) else filter P ys)"
proof (induction ys)
  case (Cons y ys)
  show ?case
  proof (cases "lt y x")
    case True
    with Cons show ?thesis by auto
  next
    case False
    then have "\<forall>z \<in> set ys. \<not> lt z x" using Cons.prems lt_split by auto
    then have "go_insert lt x (filter P ys) = x # filter P ys"
      by (cases "filter P ys") (auto dest!: filter_eq_ConsD)
    with False show ?thesis by simp
  qed
qed simp

text \<open>Selecting before or after sorting gives the same list.\<close>

lemma go_sort_filter: "go_sort lt (filter P xs) = filter P (go_sort lt xs)"
  by (induction xs) (simp_all add: filter_go_insert go_sort_sorted)

text \<open>Keyset position: the elements strictly after the one at index \<open>k\<close> are the tail.\<close>

lemma filter_after_nth:
  assumes "sorted_wrt lt xs" and "k < length xs"
  shows "filter (lt (xs ! k)) xs = drop (Suc k) xs"
proof -
  have xs: "xs = take (Suc k) xs @ drop (Suc k) xs" by simp
  have "\<forall>y \<in> set (take (Suc k) xs). \<not> lt (xs ! k) y"
  proof
    fix y assume "y \<in> set (take (Suc k) xs)"
    then obtain j where j: "j \<le> k" "y = xs ! j" using assms(2) by (auto simp: in_set_conv_nth less_Suc_eq_le)
    then show "\<not> lt (xs ! k) y"
      using assms sorted_wrt_nth_less [of lt xs j k] lt_asym lt_irrefl
      by (cases "j = k") auto
  qed
  moreover have "\<forall>y \<in> set (drop (Suc k) xs). lt (xs ! k) y"
    using assms sorted_wrt_nth_less [of lt xs k] by (fastforce simp: in_set_conv_nth)
  ultimately have "filter (lt (xs ! k)) (take (Suc k) xs) = []"
    and "filter (lt (xs ! k)) (drop (Suc k) xs) = drop (Suc k) xs"
    by (simp_all add: filter_empty_conv filter_id_conv)
  then show ?thesis by (metis append_Nil filter_append xs)
qed

lemma sorted_strict:
  assumes "sorted_wrt (\<lambda>x y. \<not> lt y x) xs" and "distinct xs"
    and "\<And>x y. x \<in> set xs \<Longrightarrow> y \<in> set xs \<Longrightarrow> x \<noteq> y \<Longrightarrow> lt x y \<or> lt y x"
  shows "sorted_wrt lt xs"
  using assms by (induction xs) auto

lemma go_sort_unique:
  assumes "mset xs = mset ys"
    and "\<And>x y. x \<in> set xs \<Longrightarrow> y \<in> set xs \<Longrightarrow> x \<noteq> y \<Longrightarrow> lt x y \<or> lt y x"
  shows "go_sort lt xs = go_sort lt ys"
  by (rule sorted_perm_unique) (use assms in \<open>simp_all add: go_sort_sorted\<close>)

end

text \<open>
  The two comparators of the program: descending \<open>(created_at, id)\<close> (every operator list)
  and ascending \<open>(at, id)\<close> (work queues, event history, session eviction).
\<close>

definition desc_less :: "('a \<Rightarrow> time) \<Rightarrow> ('a \<Rightarrow> string) \<Rightarrow> 'a \<Rightarrow> 'a \<Rightarrow> bool" where
  "desc_less tm ident x y \<longleftrightarrow> (if tm x \<noteq> tm y then tm x > tm y else ident x > ident y)"

definition asc_less :: "('a \<Rightarrow> time) \<Rightarrow> ('a \<Rightarrow> string) \<Rightarrow> 'a \<Rightarrow> 'a \<Rightarrow> bool" where
  "asc_less tm ident x y \<longleftrightarrow> (if tm x = tm y then ident x < ident y else tm x < tm y)"

interpretation desc: go_less "desc_less tm ident" for tm :: "'a \<Rightarrow> time" and ident :: "'a \<Rightarrow> string"
  by unfold_locales (auto simp: desc_less_def split: if_splits)

interpretation asc: go_less "asc_less tm ident" for tm :: "'a \<Rightarrow> time" and ident :: "'a \<Rightarrow> string"
  by unfold_locales (auto simp: asc_less_def split: if_splits)

lemma asc_less_total: "ident x \<noteq> ident y \<Longrightarrow> asc_less tm ident x y \<or> asc_less tm ident y x"
  by (auto simp: asc_less_def)

lemma desc_less_total: "ident x \<noteq> ident y \<Longrightarrow> desc_less tm ident x y \<or> desc_less tm ident y x"
  by (auto simp: desc_less_def)

end
