(* ===== verification/Identifiers.thy ===== *)
theory Identifiers
  imports Prelude
begin

text \<open>
  Identifier normalisation, \<^verbatim>\<open>src/api/internal/domain/uuid.go\<close>. Records are referenced by
  UUIDs that arrive compact or hyphenated, in either case; every repository compares
  them through \<^verbatim>\<open>CanonicalIdentifier\<close>. The lemmas show that normalisation is idempotent,
  that the hyphenated and the compact spelling of one UUID meet, and that
  \<^verbatim>\<open>SameIdentifier\<close> is an equivalence that canonicalisation respects.
\<close>

text \<open>\<^verbatim>\<open>strings.Split(s, sep)\<close> for a one-byte separator: always at least one part.\<close>

fun split_on :: "char \<Rightarrow> string \<Rightarrow> string list" where
  "split_on sep [] = [[]]"
| "split_on sep (c # s) =
     (if c = sep then [] # split_on sep s
      else case split_on sep s of [] \<Rightarrow> [[c]] | p # ps \<Rightarrow> (c # p) # ps)"

text \<open>The bytes \<^verbatim>\<open>hex.DecodeString\<close> accepts.\<close>

definition is_hex :: "char \<Rightarrow> bool" where
  "is_hex c \<longleftrightarrow> c \<in> set ''0123456789abcdefABCDEF''"

definition hex_decodes :: "string \<Rightarrow> bool" where
  "hex_decodes s \<longleftrightarrow> even (length s) \<and> list_all is_hex s"

definition NormalizeUUID :: "string \<Rightarrow> string result" where
  "NormalizeUUID value =
    (let raw = ToLower (TrimSpace value);
         bad = Inl (ErrText (''invalid UUID '' @ value));
         parts = split_on (CHR ''-'') raw
     in if CHR ''-'' \<in> set raw \<and> length parts \<noteq> 5 then bad
        else if CHR ''-'' \<in> set raw \<and> map length parts \<noteq> [8, 4, 4, 4, 12] then bad
        else let compact = filter (\<lambda>c. c \<noteq> CHR ''-'') raw
             in if length compact \<noteq> 32 then bad
                else if \<not> hex_decodes compact then bad
                else Inr compact)"

definition CanonicalUUID :: "string \<Rightarrow> string" where
  "CanonicalUUID value = (case NormalizeUUID value of Inr n \<Rightarrow> n | Inl _ \<Rightarrow> TrimSpace value)"

definition CanonicalIdentifier :: "string \<Rightarrow> string" where
  "CanonicalIdentifier value = CanonicalUUID value"

definition SameIdentifier :: "string \<Rightarrow> string \<Rightarrow> bool" where
  "SameIdentifier l r \<longleftrightarrow> CanonicalIdentifier l = CanonicalIdentifier r"

subsection \<open>The normal form\<close>

definition is_lower_hex :: "char \<Rightarrow> bool" where
  "is_lower_hex c \<longleftrightarrow> c \<in> set ''0123456789abcdef''"

definition uuid_compact :: "string \<Rightarrow> bool" where
  "uuid_compact s \<longleftrightarrow> length s = 32 \<and> list_all is_lower_hex s"

lemma lower_char_hex: "is_hex (lower_char c) \<Longrightarrow> is_lower_hex (lower_char c)"
  by (auto simp: is_hex_def is_lower_hex_def lower_char_def split: option.splits if_splits)

lemma lower_hex_table:
  "list_all (\<lambda>c. lower_char c = c \<and> \<not> is_space c \<and> c \<noteq> CHR ''-'' \<and> is_hex c) ''0123456789abcdef''"
  by (simp add: lower_char_def is_space_def is_hex_def)

lemma lower_hex_facts:
  assumes "is_lower_hex c"
  shows "lower_char c = c" and "\<not> is_space c" and "c \<noteq> CHR ''-''" and "is_hex c"
  using assms lower_hex_table unfolding is_lower_hex_def list_all_iff by blast+

lemma lower_hex_ToLower: "list_all is_lower_hex s \<Longrightarrow> ToLower s = s"
  by (induction s) (simp_all add: ToLower_def lower_hex_facts)

lemma dropWhile_none: "\<forall>c \<in> set s. \<not> P c \<Longrightarrow> dropWhile P s = s"
  by (cases s) auto

lemma TrimSpace_no_space: "\<forall>c \<in> set s. \<not> is_space c \<Longrightarrow> TrimSpace s = s"
  by (simp add: TrimSpace_def dropWhile_none)

lemma lower_hex_TrimSpace: "list_all is_lower_hex s \<Longrightarrow> TrimSpace s = s"
  by (rule TrimSpace_no_space) (auto simp: list_all_iff lower_hex_facts)

lemma NormalizeUUID_compact [simp]:
  assumes "uuid_compact s"
  shows "NormalizeUUID s = Inr s"
proof -
  from assms have len: "length s = 32" and hex: "list_all is_lower_hex s"
    by (simp_all add: uuid_compact_def)
  have no_dash: "CHR ''-'' \<notin> set s" using hex lower_hex_facts(3) by (auto simp: list_all_iff)
  have "filter (\<lambda>c. c \<noteq> CHR ''-'') s = s" using no_dash by (induction s) auto
  moreover have "hex_decodes s"
    using len hex lower_hex_facts(4) by (auto simp: hex_decodes_def list_all_iff)
  ultimately show ?thesis
    using len no_dash hex
    by (simp add: NormalizeUUID_def lower_hex_TrimSpace lower_hex_ToLower)
qed

lemma NormalizeUUID_normal_form:
  assumes "NormalizeUUID v = Inr s"
  shows "uuid_compact s"
proof -
  let ?raw = "ToLower (TrimSpace v)"
  from assms have s: "s = filter (\<lambda>c. c \<noteq> CHR ''-'') ?raw" and "length s = 32" and "hex_decodes s"
    by (auto simp: NormalizeUUID_def Let_def split: if_splits)
  have "\<forall>c \<in> set s. is_lower_hex c"
    using \<open>hex_decodes s\<close> s lower_char_hex
    by (fastforce simp: hex_decodes_def list_all_iff ToLower_def)
  with \<open>length s = 32\<close> show ?thesis by (simp add: uuid_compact_def list_all_iff)
qed

lemma NormalizeUUID_trim: "is_ok (NormalizeUUID (TrimSpace v)) = is_ok (NormalizeUUID v)"
  by (simp add: NormalizeUUID_def Let_def)

lemma CanonicalUUID_cases:
  "CanonicalUUID v = TrimSpace v \<and> \<not> is_ok (NormalizeUUID v) \<or>
   uuid_compact (CanonicalUUID v) \<and> NormalizeUUID v = Inr (CanonicalUUID v)"
  by (cases "NormalizeUUID v") (auto simp: CanonicalUUID_def NormalizeUUID_normal_form)

lemma CanonicalUUID_idem [simp]: "CanonicalUUID (CanonicalUUID v) = CanonicalUUID v"
proof (cases "NormalizeUUID v")
  case (Inl e)
  then have "\<not> is_ok (NormalizeUUID (TrimSpace v))" by (simp add: NormalizeUUID_trim)
  then show ?thesis using Inl by (cases "NormalizeUUID (TrimSpace v)") (auto simp: CanonicalUUID_def)
next
  case (Inr s)
  then show ?thesis by (simp add: CanonicalUUID_def NormalizeUUID_normal_form)
qed

lemma CanonicalIdentifier_idem [simp]:
  "CanonicalIdentifier (CanonicalIdentifier v) = CanonicalIdentifier v"
  "CanonicalIdentifier (CanonicalUUID v) = CanonicalIdentifier v"
  "CanonicalUUID (CanonicalIdentifier v) = CanonicalUUID v"
  by (simp_all add: CanonicalIdentifier_def)

lemma SameIdentifier_refl [simp]: "SameIdentifier a a"
  by (simp add: SameIdentifier_def)

lemma SameIdentifier_sym: "SameIdentifier a b \<longleftrightarrow> SameIdentifier b a"
  by (auto simp: SameIdentifier_def)

lemma SameIdentifier_trans: "SameIdentifier a b \<Longrightarrow> SameIdentifier b c \<Longrightarrow> SameIdentifier a c"
  by (simp add: SameIdentifier_def)

lemma SameIdentifier_canonical [simp]:
  "SameIdentifier (CanonicalIdentifier a) b = SameIdentifier a b"
  "SameIdentifier a (CanonicalIdentifier b) = SameIdentifier a b"
  "SameIdentifier (CanonicalUUID a) b = SameIdentifier a b"
  "SameIdentifier a (CanonicalUUID b) = SameIdentifier a b"
  by (simp_all add: SameIdentifier_def)

subsection \<open>The two spellings of one UUID\<close>

text \<open>The hyphenated spelling PostgreSQL returns, as a function of the compact one.\<close>

definition hyphenated :: "string \<Rightarrow> string" where
  "hyphenated s = take 8 s @ ''-'' @ take 4 (drop 8 s) @ ''-'' @ take 4 (drop 12 s) @ ''-'' @
     take 4 (drop 16 s) @ ''-'' @ drop 20 s"

lemma split_on_no_sep: "sep \<notin> set s \<Longrightarrow> split_on sep s = [s]"
  by (induction s) auto

lemma split_on_append: "sep \<notin> set p \<Longrightarrow> split_on sep (p @ sep # s) = p # split_on sep s"
  by (induction p) auto

lemma split_on_hyphenated:
  assumes "CHR ''-'' \<notin> set s"
  shows "split_on (CHR ''-'') (hyphenated s) =
    [take 8 s, take 4 (drop 8 s), take 4 (drop 12 s), take 4 (drop 16 s), drop 20 s]"
proof -
  have "CHR ''-'' \<notin> set (take n s)" "CHR ''-'' \<notin> set (drop n s)"
      "CHR ''-'' \<notin> set (take m (drop n s))" for m n
    using assms by (meson in_set_takeD in_set_dropD)+
  then show ?thesis by (simp add: hyphenated_def split_on_append split_on_no_sep)
qed

lemma filter_id_not: "x \<notin> set s \<Longrightarrow> filter (\<lambda>c. c \<noteq> x) s = s"
  by (induction s) auto

lemma hyphenated_pieces:
  "take 8 s @ take 4 (drop 8 s) @ take 4 (drop 12 s) @ take 4 (drop 16 s) @ drop 20 s = s"
proof -
  have "take 20 s = take 8 s @ take 4 (drop 8 s) @ take 4 (drop 12 s) @ take 4 (drop 16 s)"
    using take_add [of 8 4 s] take_add [of 12 4 s] take_add [of 16 4 s] by simp
  then show ?thesis by (metis append_assoc append_take_drop_id)
qed

text \<open>
  Identifier spellings. The hyphenated and the compact spelling of a UUID, in either
  letter case and with surrounding blanks, normalise to the same 32 lower-case hex digits.
\<close>

theorem uuid_spellings_meet:
  assumes "uuid_compact s" and "ToLower (TrimSpace v) = hyphenated s"
  shows "NormalizeUUID v = Inr s \<and> CanonicalUUID v = CanonicalUUID s"
proof -
  from assms have len: "length s = 32" and hex: "list_all is_lower_hex s"
    by (simp_all add: uuid_compact_def)
  have nd: "CHR ''-'' \<notin> set s" using hex lower_hex_facts(3) by (auto simp: list_all_iff)
  have "filter (\<lambda>c. c \<noteq> CHR ''-'') (hyphenated s) = s"
  proof -
    have "filter (\<lambda>c. c \<noteq> CHR ''-'') (hyphenated s) = filter (\<lambda>c. c \<noteq> CHR ''-'')
       (take 8 s @ take 4 (drop 8 s) @ take 4 (drop 12 s) @ take 4 (drop 16 s) @ drop 20 s)"
      by (simp add: hyphenated_def)
    then show ?thesis by (simp only: hyphenated_pieces filter_id_not [OF nd])
  qed
  moreover have "hex_decodes s"
    using len hex lower_hex_facts(4) by (auto simp: hex_decodes_def list_all_iff)
  ultimately have "NormalizeUUID v = Inr s"
    using assms(2) len nd
    by (simp add: NormalizeUUID_def split_on_hyphenated Let_def)
  then show ?thesis
    using assms(1) by (simp add: CanonicalUUID_def)
qed

theorem uuid_spellings_meet_witness:
  "NormalizeUUID '' 0A1B2C3D-4455-6677-8899-AABBCCDDEEFF '' = Inr ''0a1b2c3d445566778899aabbccddeeff''"
proof -
  have "uuid_compact ''0a1b2c3d445566778899aabbccddeeff''"
    by (simp add: uuid_compact_def is_lower_hex_def)
  moreover have "ToLower (TrimSpace '' 0A1B2C3D-4455-6677-8899-AABBCCDDEEFF '') =
      hyphenated ''0a1b2c3d445566778899aabbccddeeff''"
    by (simp add: ToLower_def TrimSpace_def is_space_def lower_char_def hyphenated_def)
  ultimately show ?thesis using uuid_spellings_meet by blast
qed

text \<open>
  Canonicalisation is a projection: canonical forms are fixed points, and two
  identifiers are the same exactly when their canonical forms are.
\<close>

theorem canonical_identifier_projection:
  "CanonicalIdentifier (CanonicalIdentifier v) = CanonicalIdentifier v \<and>
   SameIdentifier v (CanonicalIdentifier v) \<and>
   (is_ok (NormalizeUUID v) = uuid_compact (CanonicalIdentifier v))"
proof -
  have "is_ok (NormalizeUUID v) = uuid_compact (CanonicalUUID v)"
  proof
    assume "uuid_compact (CanonicalUUID v)"
    then have "is_ok (NormalizeUUID (CanonicalUUID v))" by simp
    then show "is_ok (NormalizeUUID v)"
      using CanonicalUUID_cases [of v] NormalizeUUID_trim [of v] by auto
  qed (use CanonicalUUID_cases [of v] in auto)
  then show ?thesis by (simp add: CanonicalIdentifier_def)
qed

end
