(* ===== verification/Status_Lifecycle.thy ===== *)
theory Status_Lifecycle
  imports Prelude
begin

text \<open>
  The status vocabularies and transition tables of alerts, cases and STR reports:
  \<^verbatim>\<open>src/api/internal/domain/alert.go\<close>, \<^verbatim>\<open>case.go\<close>, \<^verbatim>\<open>report.go\<close> and \<^verbatim>\<open>risk.go\<close>. The Go types are
  strings; the datatypes below have one constructor per declared constant and one for
  every other string. The locale \<open>status_machine\<close> states what the workflow code relies
  on; it is interpreted on the three transition functions.
\<close>

subsection \<open>Alerts\<close>

datatype AlertSeverity =
  AlertSeverityLow | AlertSeverityMedium | AlertSeverityHigh | AlertSeverityCritical
| AlertSeverityOther string

datatype AlertStatus =
  AlertStatusOpen | AlertStatusInvestigating | AlertStatusEscalated
| AlertStatusClosedTruePositive | AlertStatusClosedFalsePositive | AlertStatusSuppressed
| AlertStatusOther string

fun AlertStatus_string :: "AlertStatus \<Rightarrow> string" where
  "AlertStatus_string AlertStatusOpen = ''open''"
| "AlertStatus_string AlertStatusInvestigating = ''investigating''"
| "AlertStatus_string AlertStatusEscalated = ''escalated''"
| "AlertStatus_string AlertStatusClosedTruePositive = ''closed_true_positive''"
| "AlertStatus_string AlertStatusClosedFalsePositive = ''closed_false_positive''"
| "AlertStatus_string AlertStatusSuppressed = ''suppressed''"
| "AlertStatus_string (AlertStatusOther s) = s"

fun IsAlertUnresolved :: "AlertStatus \<Rightarrow> bool" where
  "IsAlertUnresolved AlertStatusOpen = True"
| "IsAlertUnresolved AlertStatusInvestigating = True"
| "IsAlertUnresolved AlertStatusEscalated = True"
| "IsAlertUnresolved _ = False"

definition AllAlertStatuses :: "AlertStatus list" where
  "AllAlertStatuses =
    [AlertStatusOpen, AlertStatusInvestigating, AlertStatusEscalated,
     AlertStatusClosedTruePositive, AlertStatusClosedFalsePositive, AlertStatusSuppressed]"

fun IsAlertTerminal :: "AlertStatus \<Rightarrow> bool" where
  "IsAlertTerminal AlertStatusClosedTruePositive = True"
| "IsAlertTerminal AlertStatusClosedFalsePositive = True"
| "IsAlertTerminal _ = False"

fun ValidAlertStatusTransition :: "AlertStatus \<Rightarrow> AlertStatus \<Rightarrow> bool" where
  "ValidAlertStatusTransition AlertStatusOpen to =
     (to = AlertStatusInvestigating \<or> to = AlertStatusEscalated)"
| "ValidAlertStatusTransition AlertStatusInvestigating to =
     (to = AlertStatusEscalated \<or> IsAlertTerminal to)"
| "ValidAlertStatusTransition AlertStatusEscalated to =
     (to = AlertStatusInvestigating \<or> IsAlertTerminal to)"
| "ValidAlertStatusTransition AlertStatusClosedTruePositive to = (to = AlertStatusInvestigating)"
| "ValidAlertStatusTransition AlertStatusClosedFalsePositive to = (to = AlertStatusInvestigating)"
| "ValidAlertStatusTransition _ to = False"

definition ValidAlertStatusTransitionForCaseFiling :: "AlertStatus \<Rightarrow> AlertStatus \<Rightarrow> bool" where
  "ValidAlertStatusTransitionForCaseFiling from to \<longleftrightarrow>
     IsAlertUnresolved from \<and> to = AlertStatusClosedTruePositive"

fun AlertSeverityRank :: "AlertSeverity \<Rightarrow> int" where
  "AlertSeverityRank AlertSeverityCritical = 4"
| "AlertSeverityRank AlertSeverityHigh = 3"
| "AlertSeverityRank AlertSeverityMedium = 2"
| "AlertSeverityRank AlertSeverityLow = 1"
| "AlertSeverityRank _ = 0"

subsection \<open>Cases\<close>

datatype CaseStatus =
  CaseStatusOpen | CaseStatusNew | CaseStatusInvestigating | CaseStatusEscalated
| CaseStatusClosed | CaseStatusReopened | CaseStatusStrFiled | CaseStatusOther string

fun CaseStatus_string :: "CaseStatus \<Rightarrow> string" where
  "CaseStatus_string CaseStatusOpen = ''open''"
| "CaseStatus_string CaseStatusNew = ''new''"
| "CaseStatus_string CaseStatusInvestigating = ''investigating''"
| "CaseStatus_string CaseStatusEscalated = ''escalated''"
| "CaseStatus_string CaseStatusClosed = ''closed''"
| "CaseStatus_string CaseStatusReopened = ''reopened''"
| "CaseStatus_string CaseStatusStrFiled = ''str_filed''"
| "CaseStatus_string (CaseStatusOther s) = s"

definition normalizeCaseStatus :: "CaseStatus \<Rightarrow> CaseStatus" where
  "normalizeCaseStatus s = (if s = CaseStatusOpen then CaseStatusNew else s)"

text \<open>The Go map literal: a key that is absent reads as the empty list.\<close>

fun caseStatusTransitions :: "CaseStatus \<Rightarrow> CaseStatus list" where
  "caseStatusTransitions CaseStatusNew = [CaseStatusInvestigating]"
| "caseStatusTransitions CaseStatusInvestigating =
     [CaseStatusEscalated, CaseStatusClosed, CaseStatusStrFiled]"
| "caseStatusTransitions CaseStatusEscalated = [CaseStatusInvestigating]"
| "caseStatusTransitions CaseStatusClosed = [CaseStatusReopened]"
| "caseStatusTransitions CaseStatusReopened = [CaseStatusInvestigating]"
| "caseStatusTransitions CaseStatusStrFiled = []"
| "caseStatusTransitions _ = []"

definition ValidCaseStatusTransition :: "CaseStatus \<Rightarrow> CaseStatus \<Rightarrow> bool" where
  "ValidCaseStatusTransition from to \<longleftrightarrow>
     normalizeCaseStatus to \<in> set (caseStatusTransitions (normalizeCaseStatus from))"

definition IsCaseUnresolved :: "CaseStatus \<Rightarrow> bool" where
  "IsCaseUnresolved s \<longleftrightarrow> normalizeCaseStatus s \<in>
     {CaseStatusNew, CaseStatusInvestigating, CaseStatusEscalated, CaseStatusReopened}"

definition IsCaseTerminal :: "CaseStatus \<Rightarrow> bool" where
  "IsCaseTerminal s \<longleftrightarrow> s = CaseStatusClosed \<or> s = CaseStatusStrFiled"

definition CompatibleCaseAlertState :: "CaseStatus \<Rightarrow> AlertStatus \<Rightarrow> bool" where
  "CompatibleCaseAlertState cs as =
    (if IsCaseTerminal cs then IsAlertTerminal as
     else if \<not> IsCaseUnresolved cs then False
     else IsAlertUnresolved as \<or> IsAlertTerminal as)"

definition CanAttachAlertToCase :: "CaseStatus \<Rightarrow> AlertStatus \<Rightarrow> bool" where
  "CanAttachAlertToCase cs as \<longleftrightarrow> IsCaseUnresolved cs \<and> IsAlertUnresolved as"

datatype CasePriority =
  CasePriorityLow | CasePriorityMedium | CasePriorityHigh | CasePriorityCritical
| CasePriorityOther string

fun CasePriorityRank :: "CasePriority \<Rightarrow> int" where
  "CasePriorityRank CasePriorityCritical = 4"
| "CasePriorityRank CasePriorityHigh = 3"
| "CasePriorityRank CasePriorityMedium = 2"
| "CasePriorityRank CasePriorityLow = 1"
| "CasePriorityRank _ = 0"

subsection \<open>Reports\<close>

datatype ReportType = ReportTypeSTR | ReportTypeOther string

datatype ReportStatus = ReportStatusDraft | ReportStatusSubmitted | ReportStatusOther string

fun ReportStatus_string :: "ReportStatus \<Rightarrow> string" where
  "ReportStatus_string ReportStatusDraft = ''draft''"
| "ReportStatus_string ReportStatusSubmitted = ''submitted''"
| "ReportStatus_string (ReportStatusOther s) = s"

definition ValidReportStatusTransition :: "ReportStatus \<Rightarrow> ReportStatus \<Rightarrow> bool" where
  "ValidReportStatusTransition from to \<longleftrightarrow> from = ReportStatusDraft \<and> to = ReportStatusSubmitted"

lemmas status_defs [status_simps] =
  normalizeCaseStatus_def ValidCaseStatusTransition_def IsCaseUnresolved_def IsCaseTerminal_def
  CompatibleCaseAlertState_def CanAttachAlertToCase_def ValidAlertStatusTransitionForCaseFiling_def
  ValidReportStatusTransition_def

subsection \<open>The contract of a status machine\<close>

text \<open>
  What the queues and the disposition code rely on: work that is finished is not in the
  active queue, finishing starts from active work, and a transition never produces a
  status that is neither active nor finished.
\<close>

locale status_machine =
  fixes valid :: "'s \<Rightarrow> 's \<Rightarrow> bool"
    and unresolved :: "'s \<Rightarrow> bool"
    and terminal :: "'s \<Rightarrow> bool"
  assumes terminal_resolved: "terminal s \<Longrightarrow> \<not> unresolved s"
    and finish_from_active: "valid s t \<Longrightarrow> terminal t \<Longrightarrow> unresolved s"
    and valid_known: "valid s t \<Longrightarrow> unresolved t \<or> terminal t"
    and valid_from_known: "valid s t \<Longrightarrow> unresolved s \<or> terminal s"
begin

lemma reaches_known:
  assumes "valid\<^sup>*\<^sup>* s t" and "unresolved s"
  shows "unresolved t \<or> terminal t"
  using assms by (induction rule: rtranclp_induct) (auto dest: valid_known)

text \<open>Two dispositions of the same item are separated by a return to active work.\<close>

lemma no_disposition_swap: "valid s t \<Longrightarrow> terminal s \<Longrightarrow> \<not> terminal t"
  using finish_from_active terminal_resolved by blast

lemma reopened_before_next_disposition:
  assumes "valid\<^sup>*\<^sup>* s t" and "terminal s" and "terminal t" and "s \<noteq> t"
  shows "\<exists>u. valid s u \<and> unresolved u \<and> valid\<^sup>*\<^sup>* u t"
proof -
  from assms(1,4) obtain u where su: "valid s u" and ut: "valid\<^sup>*\<^sup>* u t"
    by (metis converse_rtranclpE)
  from su assms(2) have "\<not> terminal u" by (rule no_disposition_swap)
  with su have "unresolved u" using valid_known by blast
  with su ut show ?thesis by blast
qed

end

interpretation alert: status_machine ValidAlertStatusTransition IsAlertUnresolved IsAlertTerminal
proof unfold_locales
  fix s t
  show "IsAlertTerminal s \<Longrightarrow> \<not> IsAlertUnresolved s" by (cases s) simp_all
  show "ValidAlertStatusTransition s t \<Longrightarrow> IsAlertTerminal t \<Longrightarrow> IsAlertUnresolved s"
    by (cases s) auto
  show "ValidAlertStatusTransition s t \<Longrightarrow> IsAlertUnresolved t \<or> IsAlertTerminal t"
    by (cases s) auto
  show "ValidAlertStatusTransition s t \<Longrightarrow> IsAlertUnresolved s \<or> IsAlertTerminal s"
    by (cases s) auto
qed

interpretation cases: status_machine ValidCaseStatusTransition IsCaseUnresolved IsCaseTerminal
proof unfold_locales
  fix s t
  show "IsCaseTerminal s \<Longrightarrow> \<not> IsCaseUnresolved s" by (auto simp: status_simps)
  show "ValidCaseStatusTransition s t \<Longrightarrow> IsCaseTerminal t \<Longrightarrow> IsCaseUnresolved s"
    by (cases s) (auto simp: status_simps split: if_splits)
  show "ValidCaseStatusTransition s t \<Longrightarrow> IsCaseUnresolved t \<or> IsCaseTerminal t"
    by (cases s) (auto simp: status_simps split: if_splits)
  show "ValidCaseStatusTransition s t \<Longrightarrow> IsCaseUnresolved s \<or> IsCaseTerminal s"
    by (cases s) (auto simp: status_simps split: if_splits)
qed

interpretation report: status_machine ValidReportStatusTransition
    "\<lambda>s. s = ReportStatusDraft" "\<lambda>s. s = ReportStatusSubmitted"
  by unfold_locales (auto simp: status_simps)

subsection \<open>Reachability\<close>

lemma case_into_closed: "ValidCaseStatusTransition s CaseStatusClosed \<longleftrightarrow> s = CaseStatusInvestigating"
  by (cases s) (auto simp: status_simps)

lemma case_into_filed: "ValidCaseStatusTransition s CaseStatusStrFiled \<longleftrightarrow> s = CaseStatusInvestigating"
  by (cases s) (auto simp: status_simps)

lemma case_from_filed: "\<not> ValidCaseStatusTransition CaseStatusStrFiled t"
  by (simp add: status_simps)

lemma case_from_closed: "ValidCaseStatusTransition CaseStatusClosed t \<longleftrightarrow> t = CaseStatusReopened"
  by (cases t) (auto simp: status_simps)

lemma case_reaches_from_filed: "ValidCaseStatusTransition\<^sup>*\<^sup>* CaseStatusStrFiled t \<longleftrightarrow> t = CaseStatusStrFiled"
  by (metis case_from_filed converse_rtranclpE rtranclp.rtrancl_refl)

text \<open>
  The case workflow. A filed STR is final; a case that ends (closed or filed) was under
  investigation in the step before; a closed case can only be reopened; and the legacy status
  \<open>open\<close> has exactly the transitions of \<open>new\<close>.
\<close>

theorem case_workflow:
  "(\<forall>t. ValidCaseStatusTransition\<^sup>*\<^sup>* CaseStatusStrFiled t \<longleftrightarrow> t = CaseStatusStrFiled) \<and>
   (\<forall>s t. ValidCaseStatusTransition s t \<and> IsCaseTerminal t \<longleftrightarrow>
      s = CaseStatusInvestigating \<and> t \<in> {CaseStatusClosed, CaseStatusStrFiled}) \<and>
   (\<forall>t. ValidCaseStatusTransition CaseStatusClosed t \<longleftrightarrow> t = CaseStatusReopened) \<and>
   ValidCaseStatusTransition CaseStatusOpen = ValidCaseStatusTransition CaseStatusNew"
proof (intro conjI allI)
  show "ValidCaseStatusTransition s t \<and> IsCaseTerminal t \<longleftrightarrow>
      s = CaseStatusInvestigating \<and> t \<in> {CaseStatusClosed, CaseStatusStrFiled}" for s t
    by (auto simp: IsCaseTerminal_def case_into_closed case_into_filed)
  show "ValidCaseStatusTransition CaseStatusOpen = ValidCaseStatusTransition CaseStatusNew"
    by (simp add: fun_eq_iff status_simps)
qed (simp_all add: case_reaches_from_filed case_from_closed)

text \<open>
  Alert dispositions. An alert that moves from one terminal disposition to the other,
  over any number of valid transitions, was back under investigation in between; an open
  alert is never closed in one step, except by the case-filing exception, which only closes
  unresolved alerts as true positives.
\<close>

theorem alert_disposition_reversal:
  "(ValidAlertStatusTransition\<^sup>*\<^sup>* s t \<and> IsAlertTerminal s \<and> IsAlertTerminal t \<and> s \<noteq> t \<longrightarrow>
      ValidAlertStatusTransition s AlertStatusInvestigating \<and>
      ValidAlertStatusTransition\<^sup>*\<^sup>* AlertStatusInvestigating t) \<and>
   (IsAlertTerminal t \<longrightarrow> \<not> ValidAlertStatusTransition AlertStatusOpen t) \<and>
   (ValidAlertStatusTransitionForCaseFiling s t \<longrightarrow> IsAlertUnresolved s \<and> IsAlertTerminal t)"
proof (intro conjI impI)
  assume a: "ValidAlertStatusTransition\<^sup>*\<^sup>* s t \<and> IsAlertTerminal s \<and> IsAlertTerminal t \<and> s \<noteq> t"
  then obtain u where u: "ValidAlertStatusTransition s u" "ValidAlertStatusTransition\<^sup>*\<^sup>* u t"
    using alert.reopened_before_next_disposition by blast
  from a u(1) have "u = AlertStatusInvestigating" by (cases s) auto
  with u show "ValidAlertStatusTransition s AlertStatusInvestigating"
    and "ValidAlertStatusTransition\<^sup>*\<^sup>* AlertStatusInvestigating t" by simp_all
qed (auto simp: status_simps)

theorem alert_disposition_reversal_witness:
  "ValidAlertStatusTransition\<^sup>*\<^sup>* AlertStatusInvestigating AlertStatusClosedFalsePositive"
proof -
  have "ValidAlertStatusTransition\<^sup>*\<^sup>* AlertStatusClosedTruePositive AlertStatusClosedFalsePositive"
    by (rule converse_rtranclp_into_rtranclp [of _ _ AlertStatusInvestigating]) auto
  then show ?thesis using alert_disposition_reversal by fastforce
qed

end
