(* ===== verification/Paging.thy ===== *)
theory Paging
  imports Prelude
begin

text \<open>
  The list contracts shared by the in-memory repositories and the HTTP layer: offset pages,
  keyset (cursor) pages in \<open>(created_at, id)\<close> order and in risk order
  (\<^verbatim>\<open>src/api/internal/store/memory.go\<close>), and the one-row look-ahead of
  \<^verbatim>\<open>src/api/internal/server/pagination.go\<close>. A slice expression that would panic in Go is
  \<open>None\<close>. The theorem \<open>cursor_walk_complete\<close> shows that following \<^verbatim>\<open>next_cursor\<close> visits every
  item once, in order.
\<close>

record Cursor =
  cur_CreatedAt :: time
  cur_ID :: string
  cur_Sort :: string
  cur_Rank :: int
  cur_Filter :: string

definition sortByCreatedAtDesc :: "'a list \<Rightarrow> ('a \<Rightarrow> time) \<Rightarrow> ('a \<Rightarrow> string) \<Rightarrow> 'a list" where
  "sortByCreatedAtDesc items createdAt ident = go_sort (desc_less createdAt ident) items"

definition pageByOffset :: "'a list \<Rightarrow> int \<Rightarrow> int \<Rightarrow> 'a list option" where
  "pageByOffset items limit offset =
    (if offset \<ge> int (length items) then Some []
     else let e = offset + limit; e = (if e > int (length items) then int (length items) else e)
          in if 0 \<le> offset \<and> offset \<le> e then Some (drop (nat offset) (take (nat e) items)) else None)"

definition limit_page :: "int \<Rightarrow> 'a list \<Rightarrow> 'a list" where
  "limit_page limit items =
     (if limit \<ge> 0 \<and> limit < int (length items) then take (nat limit) items else items)"

definition cursor_passed :: "('a \<Rightarrow> time) \<Rightarrow> ('a \<Rightarrow> string) \<Rightarrow> Cursor \<Rightarrow> 'a \<Rightarrow> bool" where
  "cursor_passed createdAt ident c it \<longleftrightarrow>
     createdAt it < cur_CreatedAt c \<or> createdAt it = cur_CreatedAt c \<and> ident it < cur_ID c"

definition sortAndPageByCursor ::
  "'a list \<Rightarrow> int \<Rightarrow> Cursor option \<Rightarrow> ('a \<Rightarrow> time) \<Rightarrow> ('a \<Rightarrow> string) \<Rightarrow> 'a list" where
  "sortAndPageByCursor items limit after createdAt ident =
    (let items = sortByCreatedAtDesc items createdAt ident;
         items = (case after of None \<Rightarrow> items | Some c \<Rightarrow> filter (cursor_passed createdAt ident c) items)
     in limit_page limit items)"

definition risk_less :: "('a \<Rightarrow> int) \<Rightarrow> ('a \<Rightarrow> time) \<Rightarrow> ('a \<Rightarrow> string) \<Rightarrow> 'a \<Rightarrow> 'a \<Rightarrow> bool" where
  "risk_less rank createdAt ident x y \<longleftrightarrow>
     (if rank x \<noteq> rank y then rank x > rank y else desc_less createdAt ident x y)"

definition sortByRiskDesc ::
  "'a list \<Rightarrow> ('a \<Rightarrow> int) \<Rightarrow> ('a \<Rightarrow> time) \<Rightarrow> ('a \<Rightarrow> string) \<Rightarrow> 'a list" where
  "sortByRiskDesc items rank createdAt ident = go_sort (risk_less rank createdAt ident) items"

definition risk_cursor_passed ::
  "('a \<Rightarrow> int) \<Rightarrow> ('a \<Rightarrow> time) \<Rightarrow> ('a \<Rightarrow> string) \<Rightarrow> Cursor \<Rightarrow> 'a \<Rightarrow> bool" where
  "risk_cursor_passed rank createdAt ident c it \<longleftrightarrow>
     rank it < cur_Rank c \<or> rank it = cur_Rank c \<and> cursor_passed createdAt ident c it"

definition sortAndPageByRiskCursor ::
  "'a list \<Rightarrow> int \<Rightarrow> Cursor option \<Rightarrow> ('a \<Rightarrow> int) \<Rightarrow> ('a \<Rightarrow> time) \<Rightarrow> ('a \<Rightarrow> string) \<Rightarrow> 'a list" where
  "sortAndPageByRiskCursor items limit after rank createdAt ident =
    (let items = sortByRiskDesc items rank createdAt ident;
         items = (case after of None \<Rightarrow> items
                  | Some c \<Rightarrow> filter (risk_cursor_passed rank createdAt ident c) items)
     in limit_page limit items)"

text \<open>
  \<^verbatim>\<open>BuildPaginationMeta\<close>: the page and, when there is more, the next cursor (\<^verbatim>\<open>HasMore\<close> is
  that the cursor is present). The opaque base64 encoding of the cursor is left out.
\<close>

definition BuildPaginationMeta :: "'a list \<Rightarrow> int \<Rightarrow> ('a \<Rightarrow> Cursor) \<Rightarrow> ('a list \<times> Cursor option) option" where
  "BuildPaginationMeta items limit cursorOf =
    (if int (length items) \<le> limit then Some (items, None)
     else if limit < 0 then None
     else let trimmed = take (nat limit) items
          in if trimmed = [] then None else Some (trimmed, Some (cursorOf (last trimmed))))"

interpretation risk: go_less "risk_less rank createdAt ident"
    for rank :: "'a \<Rightarrow> int" and createdAt :: "'a \<Rightarrow> time" and ident :: "'a \<Rightarrow> string"
  by unfold_locales
    (auto simp: risk_less_def desc.lt_irrefl dest: desc.lt_trans desc.lt_split split: if_splits)

lemma risk_less_total:
  "ident x \<noteq> ident y \<Longrightarrow> risk_less rank tm ident x y \<or> risk_less rank tm ident y x"
  using desc_less_total [of ident x y tm] by (auto simp: risk_less_def)

subsection \<open>Offset pages\<close>

lemma pageByOffset_eq:
  assumes "0 \<le> offset" and "0 \<le> limit"
  shows "pageByOffset items limit offset = Some (take (nat limit) (drop (nat offset) items))"
proof (cases "offset \<ge> int (length items)")
  case True
  then show ?thesis by (simp add: pageByOffset_def)
next
  case False
  have "nat (offset + limit) = nat offset + nat limit" using assms by (simp add: nat_add_distrib)
  then show ?thesis
    using False assms by (auto simp: pageByOffset_def Let_def drop_take)
qed

subsection \<open>Following the cursor\<close>

text \<open>A client that keeps asking for the next page until there is none.\<close>

fun walk_pages ::
  "nat \<Rightarrow> (Cursor option \<Rightarrow> 'a list) \<Rightarrow> int \<Rightarrow> ('a \<Rightarrow> Cursor) \<Rightarrow> Cursor option \<Rightarrow> 'a list option" where
  "walk_pages 0 fetch limit cursorOf after = None"
| "walk_pages (Suc n) fetch limit cursorOf after =
     (case BuildPaginationMeta (fetch after) limit cursorOf of
        None \<Rightarrow> None
      | Some (page, None) \<Rightarrow> Some page
      | Some (page, Some c) \<Rightarrow> map_option (append page) (walk_pages n fetch limit cursorOf (Some c)))"

lemma limit_page_take: "0 \<le> n \<Longrightarrow> limit_page n xs = take (nat n) xs"
  by (auto simp: limit_page_def)

lemma walk_pages_from:
  assumes "1 \<le> limit"
    and next_page: "\<And>k. k < length xs \<Longrightarrow>
      fetch (Some (cursorOf (xs ! k))) = take (Suc (nat limit)) (drop (Suc k) xs)"
    and "fetch after = take (Suc (nat limit)) (drop m xs)"
    and "length xs - m < fuel"
  shows "walk_pages fuel fetch limit cursorOf after = Some (drop m xs)"
  using assms(3,4)
proof (induction fuel arbitrary: after m)
  case (Suc fuel)
  let ?n = "nat limit"
  show ?case
  proof (cases "length xs - m \<le> ?n")
    case True
    then have "fetch after = drop m xs" using Suc.prems(1) by simp
    moreover have "int (length (drop m xs)) \<le> limit" using True assms(1) by simp
    ultimately show ?thesis by (simp add: BuildPaginationMeta_def)
  next
    case False
    define k where "k = m + ?n - 1"
    have k: "k < length xs" "Suc k = m + ?n" using False assms(1) by (auto simp: k_def)
    have page: "take ?n (fetch after) = take ?n (drop m xs)" using Suc.prems(1) by simp
    have "last (take ?n (drop m xs)) = xs ! k"
      using False assms(1) by (subst last_conv_nth) (auto simp: k_def min_def)
    moreover have "\<not> int (length (fetch after)) \<le> limit" using Suc.prems(1) False assms(1) by auto
    moreover have "take ?n (drop m xs) \<noteq> []" using False assms(1) by auto
    ultimately have "BuildPaginationMeta (fetch after) limit cursorOf =
        Some (take ?n (drop m xs), Some (cursorOf (xs ! k)))"
      using page assms(1) by (simp add: BuildPaginationMeta_def)
    moreover have "walk_pages fuel fetch limit cursorOf (Some (cursorOf (xs ! k))) = Some (drop (Suc k) xs)"
      using Suc.prems(2) k False assms(1) by (intro Suc.IH next_page) auto
    moreover have "take ?n (drop m xs) @ drop (Suc k) xs = drop m xs"
      using k(2) by (metis append_take_drop_id drop_drop add.commute)
    ultimately show ?thesis by simp
  qed
qed simp

lemma sort_strict_desc:
  assumes "distinct (map ident items)"
  shows "sorted_wrt (desc_less tm ident) (sortByCreatedAtDesc items tm ident)"
  unfolding sortByCreatedAtDesc_def
proof (rule desc.sorted_strict [OF desc.go_sort_sorted])
  show "distinct (go_sort (desc_less tm ident) items)" using assms by (simp add: distinct_map)
  fix x y assume "x \<in> set (go_sort (desc_less tm ident) items)"
    "y \<in> set (go_sort (desc_less tm ident) items)" "x \<noteq> y"
  then have "ident x \<noteq> ident y" using assms by (auto simp: distinct_map dest: inj_onD)
  then show "desc_less tm ident x y \<or> desc_less tm ident y x" by (rule desc_less_total)
qed

lemma sort_strict_risk:
  assumes "distinct (map ident items)"
  shows "sorted_wrt (risk_less rank tm ident) (sortByRiskDesc items rank tm ident)"
  unfolding sortByRiskDesc_def
proof (rule risk.sorted_strict [OF risk.go_sort_sorted])
  show "distinct (go_sort (risk_less rank tm ident) items)" using assms by (simp add: distinct_map)
  fix x y assume "x \<in> set (go_sort (risk_less rank tm ident) items)"
    "y \<in> set (go_sort (risk_less rank tm ident) items)" "x \<noteq> y"
  then have "ident x \<noteq> ident y" using assms by (auto simp: distinct_map dest: inj_onD)
  then show "risk_less rank tm ident x y \<or> risk_less rank tm ident y x" by (rule risk_less_total)
qed

lemma cursor_passed_iff:
  "cur_CreatedAt c = tm x \<Longrightarrow> cur_ID c = ident x \<Longrightarrow> cursor_passed tm ident c = desc_less tm ident x"
  by (auto simp: cursor_passed_def desc_less_def fun_eq_iff)

lemma risk_cursor_passed_iff:
  "cur_CreatedAt c = tm x \<Longrightarrow> cur_ID c = ident x \<Longrightarrow> cur_Rank c = rank x \<Longrightarrow>
   risk_cursor_passed rank tm ident c = risk_less rank tm ident x"
  by (auto simp: risk_cursor_passed_def risk_less_def cursor_passed_iff fun_eq_iff)

text \<open>
  Cursor pagination is complete. For items with distinct identifiers and a positive page
  size, a client that follows \<open>next_cursor\<close> until there is no more receives, after at most one
  request per item and one more, exactly the sorted list: every item once, in
  \<open>(created_at, id)\<close> descending order, for whatever order the map was read in.
\<close>

theorem cursor_walk_complete:
  assumes "distinct (map ident items)" and "1 \<le> limit"
    and "\<And>x. cur_CreatedAt (cursorOf x) = tm x \<and> cur_ID (cursorOf x) = ident x"
    and "length items < fuel"
  shows "walk_pages fuel (\<lambda>after. sortAndPageByCursor items (limit + 1) after tm ident)
      limit cursorOf None = Some (sortByCreatedAtDesc items tm ident)"
proof -
  let ?xs = "sortByCreatedAtDesc items tm ident"
  have lim: "nat (limit + 1) = Suc (nat limit)" using assms(2) by simp
  have "walk_pages fuel (\<lambda>after. sortAndPageByCursor items (limit + 1) after tm ident)
      limit cursorOf None = Some (drop 0 ?xs)"
  proof (rule walk_pages_from [OF assms(2)])
    fix k assume k: "k < length ?xs"
    have "filter (cursor_passed tm ident (cursorOf (?xs ! k))) ?xs = drop (Suc k) ?xs"
      using desc.filter_after_nth [OF sort_strict_desc [OF assms(1)] k] assms(3)
      by (simp add: cursor_passed_iff)
    then show "sortAndPageByCursor items (limit + 1) (Some (cursorOf (?xs ! k))) tm ident =
        take (Suc (nat limit)) (drop (Suc k) ?xs)"
      using assms(2) by (simp add: sortAndPageByCursor_def limit_page_take lim)
  next
    show "sortAndPageByCursor items (limit + 1) None tm ident = take (Suc (nat limit)) (drop 0 ?xs)"
      using assms(2) by (simp add: sortAndPageByCursor_def limit_page_take lim)
  next
    show "length ?xs - 0 < fuel" using assms(4) by (simp add: sortByCreatedAtDesc_def)
  qed
  then show ?thesis by simp
qed

theorem cursor_walk_complete_witness:
  "walk_pages 4 (\<lambda>after. sortAndPageByCursor [(5, ''b''), (7, ''a''), (5, ''c'')] (1 + 1) after fst snd) 1
     (\<lambda>x. \<lparr>cur_CreatedAt = fst x, cur_ID = snd x, cur_Sort = [], cur_Rank = 0, cur_Filter = []\<rparr>) None =
   Some (sortByCreatedAtDesc [(5, ''b''), (7, ''a''), (5, ''c'')] fst snd)"
  by (rule cursor_walk_complete) simp_all

text \<open>
  The risk-ordered queue has the same guarantee: the rank carried in the cursor keeps the
  walk from skipping lower-risk items at a page break, so the pages concatenate to the whole
  queue ordered by rank, then creation time, then identifier.
\<close>

theorem risk_cursor_walk_complete:
  assumes "distinct (map ident items)" and "1 \<le> limit"
    and "\<And>x. cur_CreatedAt (cursorOf x) = tm x \<and> cur_ID (cursorOf x) = ident x \<and>
      cur_Rank (cursorOf x) = rank x"
    and "length items < fuel"
  shows "walk_pages fuel (\<lambda>after. sortAndPageByRiskCursor items (limit + 1) after rank tm ident)
      limit cursorOf None = Some (sortByRiskDesc items rank tm ident)"
proof -
  let ?xs = "sortByRiskDesc items rank tm ident"
  have lim: "nat (limit + 1) = Suc (nat limit)" using assms(2) by simp
  have "walk_pages fuel (\<lambda>after. sortAndPageByRiskCursor items (limit + 1) after rank tm ident)
      limit cursorOf None = Some (drop 0 ?xs)"
  proof (rule walk_pages_from [OF assms(2)])
    fix k assume k: "k < length ?xs"
    have "filter (risk_cursor_passed rank tm ident (cursorOf (?xs ! k))) ?xs = drop (Suc k) ?xs"
      using risk.filter_after_nth [OF sort_strict_risk [OF assms(1)] k] assms(3)
      by (simp add: risk_cursor_passed_iff)
    then show "sortAndPageByRiskCursor items (limit + 1) (Some (cursorOf (?xs ! k))) rank tm ident =
        take (Suc (nat limit)) (drop (Suc k) ?xs)"
      using assms(2) by (simp add: sortAndPageByRiskCursor_def limit_page_take lim)
  next
    show "sortAndPageByRiskCursor items (limit + 1) None rank tm ident =
        take (Suc (nat limit)) (drop 0 ?xs)"
      using assms(2) by (simp add: sortAndPageByRiskCursor_def limit_page_take lim)
  next
    show "length ?xs - 0 < fuel" using assms(4) by (simp add: sortByRiskDesc_def)
  qed
  then show ?thesis by simp
qed

theorem risk_cursor_walk_complete_witness:
  "walk_pages 4 (\<lambda>after. sortAndPageByRiskCursor [(5, ''b''), (7, ''a''), (5, ''c'')] (1 + 1) after
       (\<lambda>x. fst x mod 7) fst snd) 1
     (\<lambda>x. \<lparr>cur_CreatedAt = fst x, cur_ID = snd x, cur_Sort = ''risk'', cur_Rank = fst x mod 7,
        cur_Filter = []\<rparr>) None =
   Some (sortByRiskDesc [(5, ''b''), (7, ''a''), (5, ''c'')] (\<lambda>x. fst x mod 7) fst snd)"
  by (rule risk_cursor_walk_complete) simp_all

end
