(* ===== verification/Alert_Store.thy ===== *)
theory Alert_Store
  imports Identifiers Status_Lifecycle Paging
begin

text \<open>
  The alert record (\<^verbatim>\<open>src/api/internal/domain/alert.go\<close>) and the in-memory alert repository
  (\<^verbatim>\<open>MemoryAlertRepo\<close> of \<^verbatim>\<open>src/api/internal/store/memory.go\<close>, \<^verbatim>\<open>UpdateQueue\<close> of
  \<^verbatim>\<open>store/queue.go\<close>). Each method is a function from the repository to a result and the
  repository after the call; the clock is the argument \<open>now\<close>. The two invariants are that
  the per-customer index and the records agree and hold at most one alert per
  (customer, scenario, window), and that terminal alerts, and only they, carry resolution
  evidence.
\<close>

datatype ProvenanceAvailability =
  ProvenanceAvailable | ProvenanceRestricted | ProvenanceMissing | ProvenanceNotCaptured | ProvenanceOther string

record AlertProvenance =
  pv_ScenarioID :: string
  pv_ConfigDigests :: "(string \<times> string) list"
  pv_EngineVersion :: string
  pv_EvaluationMode :: string
  pv_EvaluatedAt :: "time option"
  pv_WindowFrom :: "time option"
  pv_WindowTo :: "time option"
  pv_AppliedThreshold :: "float64 option"
  pv_RuleName :: string
  pv_RuleVersion :: "int option"
  pv_RuleDigest :: string
  pv_Availability :: ProvenanceAvailability

record Alert =
  al_ID :: string
  al_CustomerID :: string
  al_ScenarioID :: string
  al_Severity :: AlertSeverity
  al_Status :: AlertStatus
  al_Score :: float64
  al_Description :: string
  al_TransactionIDs :: "string list"
  al_DetectedAt :: time
  al_ResolvedAt :: "time option"
  al_ResolvedBy :: string
  al_Suppressed :: bool
  al_SuppressionReason :: string
  al_AggregationWindowStart :: "time option"
  al_BatchRunID :: string
  al_BatchReviewedAt :: "time option"
  al_AssignedTo :: string
  al_AssignedTeam :: string
  al_DueAt :: "time option"
  al_Disposition :: string
  al_DispositionRationale :: string
  al_Provenance :: "AlertProvenance option"
  al_CreatedAt :: time
  al_UpdatedAt :: time

record MemoryAlertRepo =
  ar_data :: "Alert tbl"
  ar_byCustomer :: "string list tbl"

definition NewMemoryAlertRepo :: MemoryAlertRepo where
  "NewMemoryAlertRepo = \<lparr>ar_data = [], ar_byCustomer = []\<rparr>"

text \<open>A map read: the zero value where the key is absent.\<close>

definition ar_index :: "MemoryAlertRepo \<Rightarrow> string \<Rightarrow> string list" where
  "ar_index r cid = (case tbl_get (ar_byCustomer r) cid of None \<Rightarrow> [] | Some ids \<Rightarrow> ids)"

text \<open>
  The records an index entry points at. The code dereferences \<^verbatim>\<open>r.data[id]\<close> without a check;
  \<open>alert_index_ok\<close> below shows that the record is always there.
\<close>

definition ar_indexed :: "MemoryAlertRepo \<Rightarrow> string \<Rightarrow> Alert list" where
  "ar_indexed r cid = List.map_filter (tbl_get (ar_data r)) (ar_index r cid)"

subsection \<open>Reads\<close>

definition Alert_Get :: "MemoryAlertRepo \<Rightarrow> string \<Rightarrow> Alert result" where
  "Alert_Get r i =
    (let i = CanonicalUUID i in
     case tbl_get (ar_data r) i of None \<Rightarrow> Inl (ErrNotFound ''alert'' i) | Some a \<Rightarrow> Inr a)"

definition Alert_ListByCustomer :: "MemoryAlertRepo \<Rightarrow> string \<Rightarrow> int \<Rightarrow> int \<Rightarrow> Alert list option" where
  "Alert_ListByCustomer r cid limit offset =
     pageByOffset (sortByCreatedAtDesc (ar_indexed r (CanonicalUUID cid)) al_CreatedAt al_ID) limit offset"

definition Alert_CountByCustomer :: "MemoryAlertRepo \<Rightarrow> string \<Rightarrow> nat" where
  "Alert_CountByCustomer r cid = length (ar_index r (CanonicalUUID cid))"

definition Alert_ListByCustomerRisk :: "MemoryAlertRepo \<Rightarrow> string \<Rightarrow> int \<Rightarrow> int \<Rightarrow> Alert list option" where
  "Alert_ListByCustomerRisk r cid limit offset =
     pageByOffset (sortByRiskDesc (ar_indexed r (CanonicalUUID cid))
       (\<lambda>a. AlertSeverityRank (al_Severity a)) al_CreatedAt al_ID) limit offset"

definition open_alerts :: "MemoryAlertRepo \<Rightarrow> Alert list" where
  "open_alerts r = filter (\<lambda>a. IsAlertUnresolved (al_Status a)) (tbl_vals (ar_data r))"

definition Alert_ListOpen :: "MemoryAlertRepo \<Rightarrow> int \<Rightarrow> int \<Rightarrow> Alert list option" where
  "Alert_ListOpen r limit offset =
     pageByOffset (sortByCreatedAtDesc (open_alerts r) al_CreatedAt al_ID) limit offset"

definition Alert_ListOpenByRisk :: "MemoryAlertRepo \<Rightarrow> int \<Rightarrow> int \<Rightarrow> Alert list option" where
  "Alert_ListOpenByRisk r limit offset =
     pageByOffset (sortByRiskDesc (open_alerts r)
       (\<lambda>a. AlertSeverityRank (al_Severity a)) al_CreatedAt al_ID) limit offset"

definition Alert_ListByCustomerCursor :: "MemoryAlertRepo \<Rightarrow> string \<Rightarrow> int \<Rightarrow> Cursor option \<Rightarrow> Alert list" where
  "Alert_ListByCustomerCursor r cid limit after =
     sortAndPageByCursor (ar_indexed r (CanonicalUUID cid)) limit after al_CreatedAt al_ID"

definition Alert_ListByCustomerRiskCursor ::
  "MemoryAlertRepo \<Rightarrow> string \<Rightarrow> int \<Rightarrow> Cursor option \<Rightarrow> Alert list" where
  "Alert_ListByCustomerRiskCursor r cid limit after =
     sortAndPageByRiskCursor (ar_indexed r (CanonicalUUID cid)) limit after
       (\<lambda>a. AlertSeverityRank (al_Severity a)) al_CreatedAt al_ID"

definition Alert_ListOpenByCursor :: "MemoryAlertRepo \<Rightarrow> int \<Rightarrow> Cursor option \<Rightarrow> Alert list" where
  "Alert_ListOpenByCursor r limit after =
     sortAndPageByCursor (open_alerts r) limit after al_CreatedAt al_ID"

definition Alert_ListOpenByRiskCursor :: "MemoryAlertRepo \<Rightarrow> int \<Rightarrow> Cursor option \<Rightarrow> Alert list" where
  "Alert_ListOpenByRiskCursor r limit after =
     sortAndPageByRiskCursor (open_alerts r) limit after
       (\<lambda>a. AlertSeverityRank (al_Severity a)) al_CreatedAt al_ID"

record AlertBulkFilter =
  bf_ScenarioID :: string
  bf_PeriodFrom :: "time option"
  bf_PeriodTo :: "time option"
  bf_Severity :: AlertSeverity

definition Alert_ListByFilter :: "MemoryAlertRepo \<Rightarrow> AlertBulkFilter \<Rightarrow> Alert list" where
  "Alert_ListByFilter r f =
     sortByCreatedAtDesc
       (filter (\<lambda>a. \<not> (bf_ScenarioID f \<noteq> [] \<and> al_ScenarioID a \<noteq> bf_ScenarioID f)
            \<and> \<not> (bf_Severity f \<noteq> AlertSeverityOther [] \<and> al_Severity a \<noteq> bf_Severity f)
            \<and> \<not> (case bf_PeriodFrom f of None \<Rightarrow> False | Some t \<Rightarrow> al_DetectedAt a < t)
            \<and> \<not> (case bf_PeriodTo f of None \<Rightarrow> False | Some t \<Rightarrow> al_DetectedAt a > t))
          (tbl_vals (ar_data r)))
       al_CreatedAt al_ID"

subsection \<open>Creation\<close>

text \<open>The canonicalisation both creation paths start with.\<close>

definition canonical_alert :: "Alert \<Rightarrow> Alert" where
  "canonical_alert a = a\<lparr>al_ID := CanonicalUUID (al_ID a), al_CustomerID := CanonicalUUID (al_CustomerID a),
     al_TransactionIDs := map CanonicalUUID (al_TransactionIDs a)\<rparr>"

text \<open>The two writes both creation paths end with.\<close>

definition insert_alert :: "Alert \<Rightarrow> MemoryAlertRepo \<Rightarrow> MemoryAlertRepo" where
  "insert_alert a r =
     r\<lparr>ar_data := tbl_put (al_ID a) a (ar_data r),
       ar_byCustomer := tbl_put (al_CustomerID a) (ar_index r (al_CustomerID a) @ [al_ID a]) (ar_byCustomer r)\<rparr>"

definition Alert_Create :: "MemoryAlertRepo \<Rightarrow> Alert \<Rightarrow> unit result \<times> MemoryAlertRepo" where
  "Alert_Create r a = (Inr (), insert_alert (canonical_alert a) r)"

definition dedupConflict :: "MemoryAlertRepo \<Rightarrow> Alert \<Rightarrow> Alert option" where
  "dedupConflict r a =
    (case al_AggregationWindowStart a of
       None \<Rightarrow> None
     | Some w \<Rightarrow> find (\<lambda>e. al_ScenarioID e = al_ScenarioID a \<and> al_AggregationWindowStart e = Some w)
                   (ar_indexed r (al_CustomerID a)))"

definition CreateIfNotDuplicate ::
  "MemoryAlertRepo \<Rightarrow> Alert \<Rightarrow> (bool \<times> Alert option) result \<times> MemoryAlertRepo" where
  "CreateIfNotDuplicate r a =
    (let a = canonical_alert a in
     case dedupConflict r a of
       Some existing \<Rightarrow> (Inr (False, Some existing), r)
     | None \<Rightarrow> (Inr (True, None), insert_alert a r))"

subsection \<open>Updates\<close>

text \<open>Look a record up, apply a fallible change to it, and store it when it succeeds.\<close>

definition modify_alert ::
  "MemoryAlertRepo \<Rightarrow> string \<Rightarrow> (Alert \<Rightarrow> Alert result) \<Rightarrow> unit result \<times> MemoryAlertRepo" where
  "modify_alert r i f =
    (case tbl_get (ar_data r) i of
       None \<Rightarrow> (Inl (ErrNotFound ''alert'' i), r)
     | Some a \<Rightarrow> (case f a of
         Inl e \<Rightarrow> (Inl e, r)
       | Inr a' \<Rightarrow> (Inr (), r\<lparr>ar_data := tbl_put i a' (ar_data r)\<rparr>)))"

definition AnnotateBatchReviewed ::
  "time \<Rightarrow> MemoryAlertRepo \<Rightarrow> string \<Rightarrow> string \<Rightarrow> unit result \<times> MemoryAlertRepo" where
  "AnnotateBatchReviewed now r alertID batchRunID =
     modify_alert r (CanonicalUUID alertID) (\<lambda>a.
       Inr (a\<lparr>al_BatchReviewedAt := Some now,
              al_BatchRunID := (if al_BatchRunID a = [] then CanonicalUUID batchRunID else al_BatchRunID a),
              al_UpdatedAt := now\<rparr>))"

definition updateMemoryAlertStatus :: "time \<Rightarrow> Alert \<Rightarrow> AlertStatus \<Rightarrow> string \<Rightarrow> Alert result" where
  "updateMemoryAlertStatus now a status resolvedBy =
    (if \<not> ValidAlertStatusTransition (al_Status a) status
     then Inl (ErrInvalidStateTransition ''alert'' (al_ID a) (AlertStatus_string (al_Status a))
                 (AlertStatus_string status))
     else if IsAlertTerminal status \<and> TrimSpace resolvedBy = []
     then Inl (ErrText ''resolved_by is required for terminal alert status'')
     else let a = a\<lparr>al_Status := status\<rparr>;
              a = (if IsAlertTerminal status
                   then a\<lparr>al_ResolvedBy := resolvedBy, al_ResolvedAt := Some now\<rparr>
                   else a\<lparr>al_ResolvedBy := [], al_ResolvedAt := None, al_Disposition := [],
                          al_DispositionRationale := []\<rparr>)
          in Inr (a\<lparr>al_UpdatedAt := now\<rparr>))"

definition Alert_UpdateStatus ::
  "time \<Rightarrow> MemoryAlertRepo \<Rightarrow> string \<Rightarrow> AlertStatus \<Rightarrow> string \<Rightarrow> unit result \<times> MemoryAlertRepo" where
  "Alert_UpdateStatus now r i status resolvedBy =
     modify_alert r (CanonicalUUID i) (\<lambda>a. updateMemoryAlertStatus now a status resolvedBy)"

definition Alert_UpdateStatusIfUnmodified ::
  "time \<Rightarrow> MemoryAlertRepo \<Rightarrow> string \<Rightarrow> AlertStatus \<Rightarrow> string \<Rightarrow> time \<Rightarrow> unit result \<times> MemoryAlertRepo" where
  "Alert_UpdateStatusIfUnmodified now r i status resolvedBy expectedUpdatedAt =
     modify_alert r (CanonicalUUID i) (\<lambda>a.
       if al_UpdatedAt a \<noteq> expectedUpdatedAt
       then Inl (ErrConflict ''alert'' (CanonicalUUID i) ''updated_at mismatch'')
       else updateMemoryAlertStatus now a status resolvedBy)"

text \<open>The optional optimistic-lock check of the paths that take a \<^verbatim>\<open>*time.Time\<close>.\<close>

definition stale :: "time option \<Rightarrow> time \<Rightarrow> bool" where
  "stale expected updatedAt = (case expected of None \<Rightarrow> False | Some t \<Rightarrow> updatedAt \<noteq> t)"

definition UpdateStatusWithRationale ::
  "time \<Rightarrow> MemoryAlertRepo \<Rightarrow> string \<Rightarrow> AlertStatus \<Rightarrow> string \<Rightarrow> string \<Rightarrow> time option \<Rightarrow>
   unit result \<times> MemoryAlertRepo" where
  "UpdateStatusWithRationale now r i status resolvedBy rationale expectedUpdatedAt =
     modify_alert r (CanonicalUUID i) (\<lambda>a.
       if stale expectedUpdatedAt (al_UpdatedAt a)
       then Inl (ErrConflict ''alert'' (CanonicalUUID i) ''updated_at mismatch'')
       else if IsAlertTerminal status \<and> (TrimSpace resolvedBy = [] \<or> TrimSpace rationale = [])
       then Inl (ErrText ''resolved_by and rationale are required for terminal alert status'')
       else case updateMemoryAlertStatus now a status resolvedBy of
              Inl e \<Rightarrow> Inl e
            | Inr a' \<Rightarrow> Inr (if IsAlertTerminal status
                then a'\<lparr>al_Disposition := AlertStatus_string status,
                        al_DispositionRationale := TrimSpace rationale\<rparr>
                else a'\<lparr>al_Disposition := [], al_DispositionRationale := []\<rparr>))"

definition close_false_positive_error :: "string \<Rightarrow> Alert \<Rightarrow> go_error" where
  "close_false_positive_error i a =
     ErrInvalidStateTransition ''alert'' i (AlertStatus_string (al_Status a))
       (AlertStatus_string AlertStatusClosedFalsePositive)"

definition CloseFalsePositiveWithRationale ::
  "time \<Rightarrow> MemoryAlertRepo \<Rightarrow> string \<Rightarrow> string \<Rightarrow> string \<Rightarrow> time option \<Rightarrow> unit result \<times> MemoryAlertRepo" where
  "CloseFalsePositiveWithRationale now r i resolvedBy rationale expectedUpdatedAt =
     modify_alert r (CanonicalUUID i) (\<lambda>a.
       if stale expectedUpdatedAt (al_UpdatedAt a)
       then Inl (ErrConflict ''alert'' (CanonicalUUID i) ''updated_at mismatch'')
       else if \<not> IsAlertUnresolved (al_Status a)
       then Inl (close_false_positive_error (CanonicalUUID i) a)
       else if TrimSpace resolvedBy = [] \<or> TrimSpace rationale = []
       then Inl (ErrText ''resolved_by and rationale are required for bulk false-positive close'')
       else Inr (a\<lparr>al_Status := AlertStatusClosedFalsePositive, al_ResolvedBy := TrimSpace resolvedBy,
                   al_ResolvedAt := Some now,
                   al_Disposition := AlertStatus_string AlertStatusClosedFalsePositive,
                   al_DispositionRationale := TrimSpace rationale, al_UpdatedAt := now\<rparr>))"

definition CloseFalsePositive ::
  "time \<Rightarrow> MemoryAlertRepo \<Rightarrow> string \<Rightarrow> string \<Rightarrow> unit result \<times> MemoryAlertRepo" where
  "CloseFalsePositive now r i resolvedBy =
     modify_alert r (CanonicalUUID i) (\<lambda>a.
       if \<not> IsAlertUnresolved (al_Status a)
       then Inl (close_false_positive_error (CanonicalUUID i) a)
       else if TrimSpace resolvedBy = []
       then Inl (ErrText ''resolved_by is required for terminal alert status'')
       else Inr (a\<lparr>al_Status := AlertStatusClosedFalsePositive, al_ResolvedBy := resolvedBy,
                   al_ResolvedAt := Some now, al_UpdatedAt := now\<rparr>))"

text \<open>Unlike the other methods this one does not canonicalise the identifier.\<close>

definition EscalateSeverity ::
  "time \<Rightarrow> MemoryAlertRepo \<Rightarrow> string \<Rightarrow> AlertSeverity \<Rightarrow> unit result \<times> MemoryAlertRepo" where
  "EscalateSeverity now r i severity =
     modify_alert r i (\<lambda>a. Inr (a\<lparr>al_Severity := severity, al_UpdatedAt := now\<rparr>))"

definition Alert_UpdateQueue ::
  "time \<Rightarrow> MemoryAlertRepo \<Rightarrow> string \<Rightarrow> string option \<Rightarrow> string option \<Rightarrow> time option \<Rightarrow> time option \<Rightarrow>
   unit result \<times> MemoryAlertRepo" where
  "Alert_UpdateQueue now r i assignedTo assignedTeam dueAt expectedUpdatedAt =
     modify_alert r (CanonicalUUID i) (\<lambda>a.
       if stale expectedUpdatedAt (al_UpdatedAt a)
       then Inl (ErrConflict ''alert'' (CanonicalUUID i) ''updated_at mismatch'')
       else let a = (case assignedTo of None \<Rightarrow> a | Some s \<Rightarrow> a\<lparr>al_AssignedTo := TrimSpace s\<rparr>);
                a = (case assignedTeam of None \<Rightarrow> a | Some s \<Rightarrow> a\<lparr>al_AssignedTeam := TrimSpace s\<rparr>)
            in Inr (a\<lparr>al_DueAt := dueAt, al_UpdatedAt := now\<rparr>))"

subsection \<open>The repository invariant\<close>

definition alert_index_ok :: "MemoryAlertRepo \<Rightarrow> bool" where
  "alert_index_ok r \<longleftrightarrow> tbl_wf (ar_data r) \<and>
     (\<forall>k a. tbl_get (ar_data r) k = Some a \<longrightarrow> al_ID a = k \<and> k \<in> set (ar_index r (al_CustomerID a))) \<and>
     (\<forall>cid k. k \<in> set (ar_index r cid) \<longrightarrow> (\<exists>a. tbl_get (ar_data r) k = Some a \<and> al_CustomerID a = cid))"

definition same_window :: "Alert \<Rightarrow> Alert \<Rightarrow> bool" where
  "same_window a b \<longleftrightarrow> al_CustomerID a = al_CustomerID b \<and> al_ScenarioID a = al_ScenarioID b \<and>
     al_AggregationWindowStart a = al_AggregationWindowStart b \<and> al_AggregationWindowStart b \<noteq> None"

definition alert_dedup_ok :: "MemoryAlertRepo \<Rightarrow> bool" where
  "alert_dedup_ok r \<longleftrightarrow> (\<forall>k k' a b. tbl_get (ar_data r) k = Some a \<longrightarrow> tbl_get (ar_data r) k' = Some b \<longrightarrow>
     same_window a b \<longrightarrow> k = k')"

definition evidence_ok :: "Alert \<Rightarrow> bool" where
  "evidence_ok a = (if IsAlertTerminal (al_Status a)
     then TrimSpace (al_ResolvedBy a) \<noteq> [] \<and> al_ResolvedAt a \<noteq> None
     else al_ResolvedBy a = [] \<and> al_ResolvedAt a = None)"

definition alert_repo_ok :: "MemoryAlertRepo \<Rightarrow> bool" where
  "alert_repo_ok r \<longleftrightarrow> alert_index_ok r \<and> alert_dedup_ok r \<and>
     (\<forall>k a. tbl_get (ar_data r) k = Some a \<longrightarrow> evidence_ok a)"

text \<open>The fields no update writes: identity, owner, and the deduplication key.\<close>

definition same_identity :: "Alert \<Rightarrow> Alert \<Rightarrow> bool" where
  "same_identity a b \<longleftrightarrow> al_ID a = al_ID b \<and> al_CustomerID a = al_CustomerID b \<and>
     al_ScenarioID a = al_ScenarioID b \<and> al_AggregationWindowStart a = al_AggregationWindowStart b"

lemma same_identity_window: "same_identity a a' \<Longrightarrow> same_identity b b' \<Longrightarrow> same_window a' b' \<Longrightarrow> same_window a b"
  by (simp add: same_identity_def same_window_def)

lemma index_entry:
  "alert_index_ok r \<Longrightarrow> k \<in> set (ar_index r cid) \<Longrightarrow>
   \<exists>a. tbl_get (ar_data r) k = Some a \<and> al_CustomerID a = cid"
  by (simp add: alert_index_ok_def)

lemma put_alert_index_ok:
  assumes ok: "alert_index_ok r" and k: "tbl_get (ar_data r) k = Some a" and same: "same_identity a a'"
  shows "alert_index_ok (r\<lparr>ar_data := tbl_put k a' (ar_data r)\<rparr>)" (is "alert_index_ok ?r")
proof -
  have idx: "ar_index ?r = ar_index r" by (simp add: ar_index_def fun_eq_iff)
  have ids: "al_ID a = k" "k \<in> set (ar_index r (al_CustomerID a))"
    using ok k by (auto simp: alert_index_ok_def)
  have "\<exists>b. tbl_get (tbl_put k a' (ar_data r)) k' = Some b \<and> al_CustomerID b = cid"
    if "k' \<in> set (ar_index r cid)" for cid k'
    using index_entry [OF ok that] k same by (cases "k' = k") (auto simp: tbl_simps same_identity_def)
  moreover have "al_ID b = k' \<and> k' \<in> set (ar_index r (al_CustomerID b))"
    if "tbl_get (tbl_put k a' (ar_data r)) k' = Some b" for k' b
    using that ids same ok
    by (auto simp: tbl_simps alert_index_ok_def same_identity_def split: if_splits)
  ultimately show ?thesis
    using ok unfolding alert_index_ok_def idx by (simp add: alert_index_ok_def)
qed

lemma put_alert_ok:
  assumes ok: "alert_repo_ok r" and k: "tbl_get (ar_data r) k = Some a"
    and same: "same_identity a a'" and ev: "evidence_ok a'"
  shows "alert_repo_ok (r\<lparr>ar_data := tbl_put k a' (ar_data r)\<rparr>)" (is "alert_repo_ok ?r")
proof -
  from ok have parts: "alert_index_ok r" "alert_dedup_ok r"
      "\<forall>k a. tbl_get (ar_data r) k = Some a \<longrightarrow> evidence_ok a"
    by (simp_all add: alert_repo_ok_def)
  have before: "\<exists>b. tbl_get (ar_data r) k' = Some b \<and> same_identity b b'"
    if "tbl_get (ar_data ?r) k' = Some b'" for k' b'
    using that k same by (auto simp: tbl_simps same_identity_def split: if_splits)
  have "alert_dedup_ok ?r"
    unfolding alert_dedup_ok_def
  proof (intro allI impI)
    fix k1 k2 b c
    assume "tbl_get (ar_data ?r) k1 = Some b" "tbl_get (ar_data ?r) k2 = Some c" "same_window b c"
    with before obtain b' c' where "tbl_get (ar_data r) k1 = Some b'" "same_identity b' b"
      "tbl_get (ar_data r) k2 = Some c'" "same_identity c' c" by metis
    with \<open>same_window b c\<close> show "k1 = k2"
      using parts(2) same_identity_window unfolding alert_dedup_ok_def by blast
  qed
  moreover have "\<forall>k' b. tbl_get (ar_data ?r) k' = Some b \<longrightarrow> evidence_ok b"
    using parts(3) ev by (simp add: tbl_simps)
  ultimately show ?thesis
    using put_alert_index_ok [OF parts(1) k same] by (simp add: alert_repo_ok_def)
qed

text \<open>The contract every record update meets.\<close>

definition alert_update_ok :: "(Alert \<Rightarrow> Alert result) \<Rightarrow> bool" where
  "alert_update_ok f \<longleftrightarrow> (\<forall>a a'. evidence_ok a \<longrightarrow> f a = Inr a' \<longrightarrow> same_identity a a' \<and> evidence_ok a')"

lemma modify_alert_ok:
  assumes "alert_repo_ok r" and "alert_update_ok f"
  shows "alert_repo_ok (snd (modify_alert r i f))"
proof (cases "tbl_get (ar_data r) i")
  case None
  with assms(1) show ?thesis by (simp add: modify_alert_def)
next
  case (Some a)
  with assms(1) have "evidence_ok a" by (simp add: alert_repo_ok_def)
  with assms Some show ?thesis
    by (auto simp: modify_alert_def alert_update_ok_def intro: put_alert_ok split: sum.splits)
qed

lemma updateMemoryAlertStatus_ok: "alert_update_ok (\<lambda>a. updateMemoryAlertStatus now a status resolvedBy)"
  by (auto simp: alert_update_ok_def updateMemoryAlertStatus_def Let_def same_identity_def evidence_ok_def
      split: if_splits)

lemma ar_index_insert:
  "ar_index (insert_alert a r) cid = ar_index r cid @ (if cid = al_CustomerID a then [al_ID a] else [])"
  by (simp add: ar_index_def insert_alert_def tbl_simps)

lemma in_ar_indexed:
  "alert_index_ok r \<Longrightarrow> tbl_get (ar_data r) k = Some b \<Longrightarrow> b \<in> set (ar_indexed r (al_CustomerID b))"
  by (force simp: alert_index_ok_def ar_indexed_def List.map_filter_def)

lemma dedupConflict_None:
  assumes "dedupConflict r a = None" and "alert_index_ok r" and "tbl_get (ar_data r) k = Some b"
  shows "\<not> same_window a b"
proof
  assume sw: "same_window a b"
  then have "b \<in> set (ar_indexed r (al_CustomerID a))"
    using in_ar_indexed [OF assms(2,3)] by (simp add: same_window_def)
  with sw assms(1) show False
    by (auto simp: dedupConflict_def same_window_def find_None_iff split: option.splits)
qed

lemma dedupConflict_Some:
  assumes "dedupConflict r a = Some e" and "alert_index_ok r"
  shows "tbl_get (ar_data r) (al_ID e) = Some e \<and> same_window a e"
proof -
  from assms(1) obtain w where w: "al_AggregationWindowStart a = Some w"
    and f: "find (\<lambda>e. al_ScenarioID e = al_ScenarioID a \<and> al_AggregationWindowStart e = Some w)
        (ar_indexed r (al_CustomerID a)) = Some e"
    by (auto simp: dedupConflict_def split: option.splits)
  from f have "al_ScenarioID e = al_ScenarioID a" "al_AggregationWindowStart e = Some w"
      and "e \<in> set (ar_indexed r (al_CustomerID a))"
    by (auto simp: find_Some_iff in_set_conv_nth)
  moreover from this(3) obtain k where "k \<in> set (ar_index r (al_CustomerID a))"
      "tbl_get (ar_data r) k = Some e"
    by (auto simp: ar_indexed_def List.map_filter_def)
  ultimately show ?thesis
    using assms(2) w by (fastforce simp: alert_index_ok_def same_window_def)
qed

lemma insert_alert_ok:
  assumes ok: "alert_repo_ok r" and fresh: "tbl_get (ar_data r) (al_ID a) = None"
    and nodup: "dedupConflict r a = None" and ev: "evidence_ok a"
  shows "alert_repo_ok (insert_alert a r)"
proof -
  from ok have ix: "alert_index_ok r" and dd: "alert_dedup_ok r" by (simp_all add: alert_repo_ok_def)
  have get: "tbl_get (ar_data (insert_alert a r)) k = (if k = al_ID a then Some a else tbl_get (ar_data r) k)" for k
    by (simp add: insert_alert_def tbl_simps)
  have new: "\<not> same_window a b" "\<not> same_window b a" if "tbl_get (ar_data r) k = Some b" for k b
    using dedupConflict_None [OF nodup ix that] by (auto simp: same_window_def)
  have "alert_index_ok (insert_alert a r)"
    unfolding alert_index_ok_def get ar_index_insert
    using ix fresh index_entry [OF ix] by (fastforce simp: alert_index_ok_def insert_alert_def split: if_splits)
  moreover have "alert_dedup_ok (insert_alert a r)"
    unfolding alert_dedup_ok_def get
    using dd new by (auto simp: alert_dedup_ok_def split: if_splits)
  ultimately show ?thesis
    using ok ev by (auto simp: alert_repo_ok_def get split: if_splits)
qed

lemma evidence_ok_canonical [simp]: "evidence_ok (canonical_alert a) = evidence_ok a"
  by (simp add: evidence_ok_def canonical_alert_def)

lemma CreateIfNotDuplicate_ok:
  assumes "alert_repo_ok r" and "tbl_get (ar_data r) (CanonicalUUID (al_ID a)) = None" and "evidence_ok a"
  shows "alert_repo_ok (snd (CreateIfNotDuplicate r a))"
  using assms insert_alert_ok [of r "canonical_alert a"]
  by (auto simp: CreateIfNotDuplicate_def Let_def canonical_alert_def [of a] evidence_ok_def split: option.splits)

subsection \<open>Every operation keeps the invariant\<close>

lemma Alert_Create_unwindowed:
  "al_AggregationWindowStart a = None \<Longrightarrow> snd (Alert_Create r a) = snd (CreateIfNotDuplicate r a)"
  by (simp add: Alert_Create_def CreateIfNotDuplicate_def dedupConflict_def canonical_alert_def)

text \<open>
  One rule per mutating method of the repository, used the way the server uses it. Alerts are created
  under freshly generated identifiers: the monitoring paths go through \<^verbatim>\<open>CreateIfNotDuplicate\<close>; the
  handler of tier changes calls \<^verbatim>\<open>Create\<close>, which does not look for duplicates, on alerts as the engine
  makes them, which have no aggregation window (\<open>evaluated_alert_unwindowed\<close>).
\<close>

inductive alert_step :: "MemoryAlertRepo \<Rightarrow> MemoryAlertRepo \<Rightarrow> bool" where
  create: "tbl_get (ar_data r) (CanonicalUUID (al_ID a)) = None \<Longrightarrow> evidence_ok a \<Longrightarrow>
     alert_step r (snd (CreateIfNotDuplicate r a))"
| plain_create: "tbl_get (ar_data r) (CanonicalUUID (al_ID a)) = None \<Longrightarrow> evidence_ok a \<Longrightarrow> al_AggregationWindowStart a = None \<Longrightarrow>
     alert_step r (snd (Alert_Create r a))"
| annotate: "alert_step r (snd (AnnotateBatchReviewed now r i run))"
| update_status: "alert_step r (snd (Alert_UpdateStatus now r i status who))"
| update_unmodified: "alert_step r (snd (Alert_UpdateStatusIfUnmodified now r i status who expected))"
| update_rationale: "alert_step r (snd (UpdateStatusWithRationale now r i status who why expected'))"
| close_rationale: "alert_step r (snd (CloseFalsePositiveWithRationale now r i who why expected'))"
| close_fp: "alert_step r (snd (CloseFalsePositive now r i who))"
| escalate: "alert_step r (snd (EscalateSeverity now r i severity))"
| queue: "alert_step r (snd (Alert_UpdateQueue now r i owner team due expected'))"

lemma NewMemoryAlertRepo_ok: "alert_repo_ok NewMemoryAlertRepo"
  by (simp add: alert_repo_ok_def NewMemoryAlertRepo_def alert_index_ok_def alert_dedup_ok_def ar_index_def)

lemma update_with_rationale_ok:
  "alert_update_ok (\<lambda>a. case updateMemoryAlertStatus now a status who of Inl e \<Rightarrow> Inl e
     | Inr a' \<Rightarrow> Inr (if c then a'\<lparr>al_Disposition := d, al_DispositionRationale := w\<rparr>
                     else a'\<lparr>al_Disposition := [], al_DispositionRationale := []\<rparr>))"
  unfolding alert_update_ok_def
proof (intro allI impI)
  fix a a'
  assume "evidence_ok a" and f: "(case updateMemoryAlertStatus now a status who of Inl e \<Rightarrow> Inl e
     | Inr b \<Rightarrow> Inr (if c then b\<lparr>al_Disposition := d, al_DispositionRationale := w\<rparr>
                     else b\<lparr>al_Disposition := [], al_DispositionRationale := []\<rparr>)) = Inr a'"
  then obtain b where b: "updateMemoryAlertStatus now a status who = Inr b"
    by (auto split: sum.splits)
  then have "same_identity a b" "evidence_ok b"
    using updateMemoryAlertStatus_ok [of now status who] \<open>evidence_ok a\<close>
    by (simp_all add: alert_update_ok_def)
  then show "same_identity a a' \<and> evidence_ok a'"
    using b f by (cases c) (auto simp: same_identity_def evidence_ok_def)
qed

lemma guarded_update_ok: "alert_update_ok f \<Longrightarrow> alert_update_ok (\<lambda>a. if g a then Inl (e a) else f a)"
  by (simp add: alert_update_ok_def)

text \<open>A step either stores a fresh alert or is an update that meets the update contract.\<close>

lemma updateI: "alert_update_ok f \<Longrightarrow> P \<or> (\<exists>j g. alert_update_ok g \<and> snd (modify_alert r i f) = snd (modify_alert r j g))"
  by blast

lemma alert_step_shape:
  "alert_step r r' \<Longrightarrow>
   (\<exists>a. tbl_get (ar_data r) (CanonicalUUID (al_ID a)) = None \<and> evidence_ok a \<and>
        r' = snd (CreateIfNotDuplicate r a)) \<or>
   (\<exists>i f. alert_update_ok f \<and> r' = snd (modify_alert r i f))"
proof (induction rule: alert_step.induct)
  case (plain_create r a)
  then show ?case using Alert_Create_unwindowed [of a r] by blast
next
  case (annotate r now i run)
  show ?case unfolding AnnotateBatchReviewed_def
    by (rule updateI) (auto simp: alert_update_ok_def same_identity_def evidence_ok_def)
next
  case (update_status r now i status who)
  show ?case unfolding Alert_UpdateStatus_def by (intro updateI updateMemoryAlertStatus_ok)
next
  case (update_unmodified r now i status who expected)
  show ?case unfolding Alert_UpdateStatusIfUnmodified_def
    by (intro updateI guarded_update_ok updateMemoryAlertStatus_ok)
next
  case (update_rationale r now i status who why expected')
  show ?case unfolding UpdateStatusWithRationale_def
    by (intro updateI guarded_update_ok update_with_rationale_ok)
next
  case (close_rationale r now i who why expected')
  show ?case unfolding CloseFalsePositiveWithRationale_def
    by (rule updateI) (auto simp: alert_update_ok_def same_identity_def evidence_ok_def split: if_splits)
next
  case (close_fp r now i who)
  show ?case unfolding CloseFalsePositive_def
    by (rule updateI) (auto simp: alert_update_ok_def same_identity_def evidence_ok_def split: if_splits)
next
  case (escalate r now i severity)
  show ?case unfolding EscalateSeverity_def
    by (rule updateI) (auto simp: alert_update_ok_def same_identity_def evidence_ok_def)
next
  case (queue r now i owner team due expected')
  show ?case unfolding Alert_UpdateQueue_def
    by (rule updateI)
      (auto simp: alert_update_ok_def same_identity_def evidence_ok_def Let_def split: if_splits option.splits)
qed blast

lemma alert_step_ok: "alert_step r r' \<Longrightarrow> alert_repo_ok r \<Longrightarrow> alert_repo_ok r'"
  using alert_step_shape CreateIfNotDuplicate_ok modify_alert_ok by metis

text \<open>No step removes an alert or changes its identity or owner.\<close>

lemma alert_step_keeps:
  assumes "alert_step r r'" and "alert_repo_ok r" and k: "tbl_get (ar_data r) k = Some a"
  shows "\<exists>a'. tbl_get (ar_data r') k = Some a' \<and> same_identity a a'"
  using alert_step_shape [OF assms(1)]
proof (elim disjE exE conjE)
  fix b assume "tbl_get (ar_data r) (CanonicalUUID (al_ID b)) = None" "r' = snd (CreateIfNotDuplicate r b)"
  with k show ?thesis
    by (auto simp: CreateIfNotDuplicate_def Let_def insert_alert_def canonical_alert_def tbl_simps
        same_identity_def split: option.splits)
next
  fix i f assume f: "alert_update_ok f" and r': "r' = snd (modify_alert r i f)"
  have "evidence_ok a" using assms(2) k by (simp add: alert_repo_ok_def)
  with f have upd: "f a = Inr b \<Longrightarrow> same_identity a b" for b by (simp add: alert_update_ok_def)
  have self: "same_identity a a" by (simp add: same_identity_def)
  show ?thesis
  proof (cases "k = i")
    case True
    with r' k upd self show ?thesis by (cases "f a") (simp_all add: modify_alert_def tbl_simps)
  next
    case False
    with r' k self show ?thesis
      by (cases "tbl_get (ar_data r) i")
        (simp_all add: modify_alert_def tbl_simps split: sum.split)
  qed
qed

text \<open>
  Alert repository invariant. After any sequence of the repository's operations the
  per-customer index and the records agree (no dangling index entry), there is at most one
  alert per (customer, scenario, aggregation window), and exactly the alerts with a terminal
  status carry who resolved them and when.
\<close>

theorem alert_repo_invariant:
  assumes "alert_step\<^sup>*\<^sup>* NewMemoryAlertRepo r"
  shows "alert_repo_ok r"
  using assms
  by (induction rule: rtranclp_induct) (auto intro: NewMemoryAlertRepo_ok alert_step_ok)

definition sample_alert :: Alert where
  "sample_alert = \<lparr>al_ID = ''a1'', al_CustomerID = ''c1'', al_ScenarioID = ''tm_structuring'',
     al_Severity = AlertSeverityHigh, al_Status = AlertStatusOpen, al_Score = F64 0, al_Description = [],
     al_TransactionIDs = [], al_DetectedAt = 10, al_ResolvedAt = None, al_ResolvedBy = [],
     al_Suppressed = False, al_SuppressionReason = [], al_AggregationWindowStart = Some 5,
     al_BatchRunID = [], al_BatchReviewedAt = None, al_AssignedTo = [], al_AssignedTeam = [],
     al_DueAt = None, al_Disposition = [], al_DispositionRationale = [], al_Provenance = None,
     al_CreatedAt = 10, al_UpdatedAt = 10\<rparr>"

theorem alert_repo_invariant_witness:
  "alert_repo_ok (snd (CreateIfNotDuplicate NewMemoryAlertRepo sample_alert))"
proof -
  have "alert_step NewMemoryAlertRepo (snd (CreateIfNotDuplicate NewMemoryAlertRepo sample_alert))"
    by (rule alert_step.create) (simp_all add: NewMemoryAlertRepo_def sample_alert_def evidence_ok_def)
  then show ?thesis by (intro alert_repo_invariant r_into_rtranclp)
qed

text \<open>
  Deduplication is exact. On a repository that meets the invariant,
  \<open>CreateIfNotDuplicate\<close> reports an existing alert exactly when some stored alert has the same
  customer, scenario and window; it then returns such an alert and changes nothing, and
  otherwise it stores the new alert. An alert without a window is always stored.
\<close>

theorem CreateIfNotDuplicate_exact:
  assumes "alert_repo_ok r"
  shows "(\<exists>e. CreateIfNotDuplicate r a = (Inr (False, Some e), r) \<and>
            tbl_get (ar_data r) (al_ID e) = Some e \<and> same_window (canonical_alert a) e) \<or>
         (\<forall>e \<in> set (tbl_vals (ar_data r)). \<not> same_window (canonical_alert a) e) \<and>
            fst (CreateIfNotDuplicate r a) = Inr (True, None) \<and>
            Alert_Get (snd (CreateIfNotDuplicate r a)) (al_ID a) = Inr (canonical_alert a)"
proof -
  have ix: "alert_index_ok r" using assms by (simp add: alert_repo_ok_def)
  show ?thesis
  proof (cases "dedupConflict r (canonical_alert a)")
    case (Some e)
    then show ?thesis
      using dedupConflict_Some [OF Some ix] by (auto simp: CreateIfNotDuplicate_def Let_def)
  next
    case None
    have "\<forall>e \<in> set (tbl_vals (ar_data r)). \<not> same_window (canonical_alert a) e"
      using dedupConflict_None [OF None ix] tbl_vals_get ix by (metis alert_index_ok_def)
    then show ?thesis
      using None by (simp add: CreateIfNotDuplicate_def Let_def Alert_Get_def insert_alert_def
          canonical_alert_def tbl_simps)
  qed
qed

theorem CreateIfNotDuplicate_exact_witness:
  "alert_repo_ok NewMemoryAlertRepo \<and>
   fst (CreateIfNotDuplicate NewMemoryAlertRepo sample_alert) = Inr (True, None)"
  using CreateIfNotDuplicate_exact [OF NewMemoryAlertRepo_ok, of sample_alert] NewMemoryAlertRepo_ok
  by (auto simp: NewMemoryAlertRepo_def)

end
