(* ===== verification/Case_Lifecycle.thy ===== *)
theory Case_Lifecycle
  imports Alert_Store
begin

text \<open>
  Cases (\<^verbatim>\<open>src/api/internal/domain/case.go\<close>), the in-memory case repository
  (\<^verbatim>\<open>MemoryCaseRepo\<close> of \<^verbatim>\<open>src/api/internal/store/memory.go\<close>) and the repository that
  coordinates cases with their linked alerts (\<^verbatim>\<open>MemoryCaseAlertLifecycleRepo\<close> of
  \<^verbatim>\<open>src/api/internal/store/lifecycle.go\<close>). A Go pointer argument that the method
  normalises or stamps is returned as the value it has after the call; a stored pointer
  is the stored value.
\<close>

subsection \<open>Cases and their repository\<close>

record CaseNote =
  cn_ID :: string
  cn_Author :: string
  cn_Content :: string
  cn_CreatedAt :: time

record Case =
  ca_ID :: string
  ca_CustomerID :: string
  ca_AlertIDs :: "string list"
  ca_Status :: CaseStatus
  ca_Priority :: CasePriority
  ca_AssignedTo :: string
  ca_AssignedTeam :: string
  ca_DueAt :: "time option"
  ca_Summary :: string
  ca_Notes :: "CaseNote list"
  ca_ReopenReason :: string
  ca_RelatedCaseIDs :: "string list"
  ca_InvestigationDisposition :: string
  ca_STRCandidate :: bool
  ca_DispositionRationale :: string
  ca_STRReportID :: string
  ca_STRFiledAt :: "time option"
  ca_STRFiledBy :: string
  ca_STRFilingChannel :: string
  ca_STRDestination :: string
  ca_STRExternalReference :: string
  ca_CreatedAt :: time
  ca_UpdatedAt :: time
  ca_ClosedAt :: "time option"

type_synonym MemoryCaseRepo = "Case tbl"

definition normalizeMemoryCase :: "Case \<Rightarrow> Case" where
  "normalizeMemoryCase c =
     c\<lparr>ca_ID := CanonicalIdentifier (ca_ID c),
       ca_CustomerID := CanonicalUUID (ca_CustomerID c),
       ca_AlertIDs := map CanonicalUUID (ca_AlertIDs c),
       ca_RelatedCaseIDs := map CanonicalIdentifier (ca_RelatedCaseIDs c),
       ca_STRReportID := CanonicalIdentifier (ca_STRReportID c)\<rparr>"

lemma normalizeMemoryCase_idem [simp]: "normalizeMemoryCase (normalizeMemoryCase c) = normalizeMemoryCase c"
  by (simp add: normalizeMemoryCase_def comp_def)

lemma normalizeMemoryCase_sel [simp]:
  "ca_ID (normalizeMemoryCase c) = CanonicalIdentifier (ca_ID c)"
  "ca_CustomerID (normalizeMemoryCase c) = CanonicalUUID (ca_CustomerID c)"
  "ca_AlertIDs (normalizeMemoryCase c) = map CanonicalUUID (ca_AlertIDs c)"
  "ca_Status (normalizeMemoryCase c) = ca_Status c"
  "ca_UpdatedAt (normalizeMemoryCase c) = ca_UpdatedAt c"
  "ca_CreatedAt (normalizeMemoryCase c) = ca_CreatedAt c"
  by (simp_all add: normalizeMemoryCase_def)

definition Case_Get :: "MemoryCaseRepo \<Rightarrow> string \<Rightarrow> Case result" where
  "Case_Get r i =
    (let i = CanonicalIdentifier i in
     case tbl_get r i of None \<Rightarrow> Inl (ErrNotFound ''case'' i) | Some c \<Rightarrow> Inr (normalizeMemoryCase c))"

definition customer_cases :: "MemoryCaseRepo \<Rightarrow> string \<Rightarrow> Case list" where
  "customer_cases r cid =
     map normalizeMemoryCase (filter (\<lambda>c. SameIdentifier (ca_CustomerID c) cid) (tbl_vals r))"

definition Case_ListByCustomer :: "MemoryCaseRepo \<Rightarrow> string \<Rightarrow> Case list" where
  "Case_ListByCustomer r cid =
     sortByCreatedAtDesc (customer_cases r (CanonicalUUID cid)) ca_CreatedAt ca_ID"

definition Case_ListByCustomerOffset :: "MemoryCaseRepo \<Rightarrow> string \<Rightarrow> int \<Rightarrow> int \<Rightarrow> Case list option" where
  "Case_ListByCustomerOffset r cid limit offset =
     pageByOffset (Case_ListByCustomer r cid) limit offset"

definition Case_Create :: "MemoryCaseRepo \<Rightarrow> Case \<Rightarrow> Case result \<times> MemoryCaseRepo" where
  "Case_Create r c = (let c = normalizeMemoryCase c in (Inr c, tbl_put (ca_ID c) c r))"

definition case_transition_error :: "Case \<Rightarrow> Case \<Rightarrow> go_error" where
  "case_transition_error existing c =
     ErrInvalidStateTransition ''case'' (ca_ID c) (CaseStatus_string (ca_Status existing))
       (CaseStatus_string (ca_Status c))"

definition Case_Update :: "time \<Rightarrow> MemoryCaseRepo \<Rightarrow> Case \<Rightarrow> Case result \<times> MemoryCaseRepo" where
  "Case_Update now r c =
    (let c = normalizeMemoryCase c in
     case tbl_get r (ca_ID c) of
       None \<Rightarrow> (Inl (ErrNotFound ''case'' (ca_ID c)), r)
     | Some existing \<Rightarrow>
         if ca_Status existing \<noteq> ca_Status c \<and> \<not> ValidCaseStatusTransition (ca_Status existing) (ca_Status c)
         then (Inl (case_transition_error existing c), r)
         else let c = c\<lparr>ca_UpdatedAt := now\<rparr> in (Inr c, tbl_put (ca_ID c) c r))"

definition Case_UpdateIfUnmodified ::
  "time \<Rightarrow> MemoryCaseRepo \<Rightarrow> Case \<Rightarrow> time \<Rightarrow> Case result \<times> MemoryCaseRepo" where
  "Case_UpdateIfUnmodified now r c expectedUpdatedAt =
    (let c = normalizeMemoryCase c in
     case tbl_get r (ca_ID c) of
       None \<Rightarrow> (Inl (ErrNotFound ''case'' (ca_ID c)), r)
     | Some existing \<Rightarrow>
         if ca_UpdatedAt existing \<noteq> expectedUpdatedAt
         then (Inl (ErrConflict ''case'' (ca_ID c) ''updated_at mismatch''), r)
         else if ca_Status existing \<noteq> ca_Status c \<and> \<not> ValidCaseStatusTransition (ca_Status existing) (ca_Status c)
         then (Inl (case_transition_error existing c), r)
         else let c = c\<lparr>ca_UpdatedAt := now\<rparr> in (Inr c, tbl_put (ca_ID c) c r))"

definition Case_AddNote :: "time \<Rightarrow> MemoryCaseRepo \<Rightarrow> string \<Rightarrow> CaseNote \<Rightarrow> unit result \<times> MemoryCaseRepo" where
  "Case_AddNote now r caseID note =
    (let i = CanonicalIdentifier caseID in
     case tbl_get r i of
       None \<Rightarrow> (Inl (ErrNotFound ''case'' i), r)
     | Some c \<Rightarrow> (Inr (), tbl_put i (c\<lparr>ca_Notes := ca_Notes c @ [note], ca_UpdatedAt := now\<rparr>) r))"

subsection \<open>The coordinated repository\<close>

record LifecycleRepo =
  lc_configured :: bool \<comment> \<open>receiver and both repositories are non-nil\<close>
  lc_cases :: MemoryCaseRepo
  lc_alerts :: MemoryAlertRepo

record AlertStatusTransition =
  tr_ID :: string
  tr_From :: AlertStatus
  tr_To :: AlertStatus
  tr_ResolvedBy :: string
  tr_Rationale :: string
  tr_ExpectedUpdatedAt :: time

definition lifecycle_unconfigured :: go_error where
  "lifecycle_unconfigured = ErrText ''case/alert lifecycle repository is not configured''"

definition duplicate_linked :: "string \<Rightarrow> go_error" where
  "duplicate_linked i = ErrText (''duplicate linked alert: '' @ i)"

fun validateMemoryAlertLinks ::
  "Alert tbl \<Rightarrow> string \<Rightarrow> CaseStatus \<Rightarrow> string list \<Rightarrow> string list \<Rightarrow> unit result" where
  "validateMemoryAlertLinks alerts cid status seen [] = Inr ()"
| "validateMemoryAlertLinks alerts cid status seen (i # is) =
    (let i = CanonicalUUID i in
     if i \<in> set seen then Inl (duplicate_linked i)
     else case tbl_get alerts i of
       None \<Rightarrow> Inl (ErrNotFound ''alert'' i)
     | Some a \<Rightarrow>
         if \<not> SameIdentifier (al_CustomerID a) cid
         then Inl (ErrConflict ''alert'' i ''alert belongs to a different customer'')
         else if \<not> CanAttachAlertToCase status (al_Status a)
         then Inl (ErrConflict ''alert'' i ''alert is not active or case cannot receive alerts'')
         else validateMemoryAlertLinks alerts cid status (i # seen) is)"

definition CreateCaseWithAlerts ::
  "go_error option \<Rightarrow> LifecycleRepo \<Rightarrow> Case \<Rightarrow> Case result \<times> LifecycleRepo" where
  "CreateCaseWithAlerts ctx r c =
    (if \<not> lc_configured r then (Inl lifecycle_unconfigured, r)
     else case ctx of Some e \<Rightarrow> (Inl e, r) | None \<Rightarrow>
       let c = normalizeMemoryCase c in
       if tbl_get (lc_cases r) (ca_ID c) \<noteq> None
       then (Inl (ErrConflict ''case'' (ca_ID c) ''already exists''), r)
       else if \<not> IsCaseUnresolved (ca_Status c)
       then (Inl (ErrConflict ''case'' (ca_ID c) ''new alert links require an active case''), r)
       else case validateMemoryAlertLinks (ar_data (lc_alerts r)) (ca_CustomerID c) (ca_Status c) [] (ca_AlertIDs c) of
         Inl e \<Rightarrow> (Inl e, r)
       | Inr _ \<Rightarrow> (Inr c, r\<lparr>lc_cases := tbl_put (ca_ID c) c (lc_cases r)\<rparr>))"

text \<open>The loop that drops identifiers already linked and rejects duplicates in the request.\<close>

fun link_additions :: "string list \<Rightarrow> string list \<Rightarrow> string list \<Rightarrow> string list result" where
  "link_additions existing seen [] = Inr []"
| "link_additions existing seen (i # is) =
    (if i \<in> set seen then Inl (duplicate_linked i)
     else case link_additions existing (i # seen) is of
       Inl e \<Rightarrow> Inl e
     | Inr rest \<Rightarrow> Inr (if i \<in> set existing then rest else i # rest))"

definition AppendAlerts ::
  "go_error option \<Rightarrow> time \<Rightarrow> LifecycleRepo \<Rightarrow> string \<Rightarrow> time \<Rightarrow> string list \<Rightarrow> Case result \<times> LifecycleRepo" where
  "AppendAlerts ctx now r caseID expectedUpdatedAt alertIDs =
    (if \<not> lc_configured r then (Inl lifecycle_unconfigured, r)
     else case ctx of Some e \<Rightarrow> (Inl e, r) | None \<Rightarrow>
       let caseID = CanonicalIdentifier caseID; alertIDs = map CanonicalUUID alertIDs in
       case tbl_get (lc_cases r) caseID of
         None \<Rightarrow> (Inl (ErrNotFound ''case'' caseID), r)
       | Some current \<Rightarrow>
         if ca_UpdatedAt current \<noteq> expectedUpdatedAt
         then (Inl (ErrConflict ''case'' caseID ''updated_at mismatch''), r)
         else if \<not> IsCaseUnresolved (ca_Status current)
         then (Inl (ErrConflict ''case'' caseID ''terminal case cannot receive alerts''), r)
         else case link_additions (ca_AlertIDs current) [] alertIDs of
           Inl e \<Rightarrow> (Inl e, r)
         | Inr additions \<Rightarrow>
           (case validateMemoryAlertLinks (ar_data (lc_alerts r)) (ca_CustomerID current) (ca_Status current) [] additions of
              Inl e \<Rightarrow> (Inl e, r)
            | Inr _ \<Rightarrow>
                let updated = current\<lparr>ca_AlertIDs := ca_AlertIDs current @ additions\<rparr> in
                if additions \<noteq> []
                then let updated = updated\<lparr>ca_UpdatedAt := Truncate now Microsecond\<rparr>
                     in (Inr updated, r\<lparr>lc_cases := tbl_put caseID updated (lc_cases r)\<rparr>)
                else (Inr updated, r)))"

definition sameIdentifierSlices :: "string list \<Rightarrow> string list \<Rightarrow> bool" where
  "sameIdentifierSlices l r \<longleftrightarrow> length l = length r \<and> list_all2 SameIdentifier l r"

text \<open>The checks on one requested transition, in the order of the code.\<close>

definition check_transition ::
  "Alert tbl \<Rightarrow> Case \<Rightarrow> Case \<Rightarrow> string list \<Rightarrow> AlertStatusTransition \<Rightarrow> unit result" where
  "check_transition alerts currentCase c linked tr =
    (if tr_ID tr \<notin> set linked then Inl (ErrText (''alert is not linked to case: '' @ tr_ID tr))
     else case tbl_get alerts (tr_ID tr) of
       None \<Rightarrow> Inl (ErrNotFound ''alert'' (tr_ID tr))
     | Some a \<Rightarrow>
         if al_UpdatedAt a \<noteq> tr_ExpectedUpdatedAt tr \<or> al_Status a \<noteq> tr_From tr
         then Inl (ErrConflict ''alert'' (tr_ID tr) ''linked alert changed concurrently'')
         else if \<not> SameIdentifier (al_CustomerID a) (ca_CustomerID currentCase)
         then Inl (ErrConflict ''alert'' (tr_ID tr) ''linked alert belongs to a different customer'')
         else if tr_From tr \<noteq> tr_To tr \<and> \<not> ValidAlertStatusTransition (tr_From tr) (tr_To tr) \<and>
             \<not> (tr_ResolvedBy tr = ''case-filing'' \<and>
                ValidAlertStatusTransitionForCaseFiling (tr_From tr) (tr_To tr))
         then Inl (ErrInvalidStateTransition ''alert'' (tr_ID tr) (AlertStatus_string (tr_From tr))
                     (AlertStatus_string (tr_To tr)))
         else if tr_From tr \<noteq> tr_To tr \<and> IsAlertTerminal (tr_To tr) \<and> TrimSpace (tr_ResolvedBy tr) = []
         then Inl (ErrText ''resolved_by is required for terminal alert status'')
         else if \<not> CompatibleCaseAlertState (ca_Status c) (tr_To tr)
         then Inl (ErrConflict ''case'' (ca_ID c) ''linked alert state is incompatible with target case status'')
         else Inr ())"

text \<open>The validation loop; the result is the set \<^verbatim>\<open>seen\<close> (as a list without duplicates).\<close>

fun check_transitions ::
  "Alert tbl \<Rightarrow> Case \<Rightarrow> Case \<Rightarrow> string list \<Rightarrow> string list \<Rightarrow> AlertStatusTransition list \<Rightarrow> string list result" where
  "check_transitions alerts currentCase c linked seen [] = Inr seen"
| "check_transitions alerts currentCase c linked seen (tr # trs) =
    (if tr_ID tr \<in> set seen then Inl (duplicate_linked (tr_ID tr))
     else case check_transition alerts currentCase c linked tr of
       Inl e \<Rightarrow> Inl e
     | Inr _ \<Rightarrow> check_transitions alerts currentCase c linked (tr_ID tr # seen) trs)"

text \<open>The first duplicate of the canonical link list, if any.\<close>

fun first_duplicate :: "string list \<Rightarrow> string list \<Rightarrow> string option" where
  "first_duplicate seen [] = None"
| "first_duplicate seen (i # is) = (if i \<in> set seen then Some i else first_duplicate (i # seen) is)"

definition transitioned :: "time \<Rightarrow> AlertStatusTransition \<Rightarrow> Alert \<Rightarrow> Alert" where
  "transitioned now tr a =
    (let a = a\<lparr>al_Status := tr_To tr, al_UpdatedAt := now\<rparr> in
     if IsAlertTerminal (tr_To tr)
     then a\<lparr>al_ResolvedBy := tr_ResolvedBy tr, al_ResolvedAt := Some now,
            al_Disposition := AlertStatus_string (tr_To tr),
            al_DispositionRationale := TrimSpace (tr_Rationale tr)\<rparr>
     else a\<lparr>al_ResolvedBy := [], al_ResolvedAt := None\<rparr>)"

definition apply_transition :: "time \<Rightarrow> AlertStatusTransition \<Rightarrow> Alert tbl \<Rightarrow> Alert tbl" where
  "apply_transition now tr alerts =
    (if tr_From tr = tr_To tr then alerts
     else case tbl_get alerts (tr_ID tr) of
       None \<Rightarrow> alerts
     | Some a \<Rightarrow> tbl_put (tr_ID tr) (transitioned now tr a) alerts)"

definition UpdateCaseAndAlerts ::
  "go_error option \<Rightarrow> time \<Rightarrow> LifecycleRepo \<Rightarrow> Case \<Rightarrow> time \<Rightarrow> AlertStatusTransition list \<Rightarrow>
   Case result \<times> LifecycleRepo" where
  "UpdateCaseAndAlerts ctx now r c expectedUpdatedAt transitions =
    (if \<not> lc_configured r then (Inl lifecycle_unconfigured, r)
     else case ctx of Some e \<Rightarrow> (Inl e, r) | None \<Rightarrow>
       let c = normalizeMemoryCase c;
           transitions = map (\<lambda>tr. tr\<lparr>tr_ID := CanonicalUUID (tr_ID tr)\<rparr>) transitions;
           alerts = ar_data (lc_alerts r)
       in case tbl_get (lc_cases r) (ca_ID c) of
         None \<Rightarrow> (Inl (ErrNotFound ''case'' (ca_ID c)), r)
       | Some currentCase \<Rightarrow>
         if ca_UpdatedAt currentCase \<noteq> expectedUpdatedAt
         then (Inl (ErrConflict ''case'' (ca_ID c) ''updated_at mismatch''), r)
         else if ca_Status currentCase \<noteq> ca_Status c \<and>
             \<not> ValidCaseStatusTransition (ca_Status currentCase) (ca_Status c)
         then (Inl (case_transition_error currentCase c), r)
         else if \<not> SameIdentifier (ca_CustomerID currentCase) (ca_CustomerID c)
         then (Inl (ErrConflict ''case'' (ca_ID c) ''customer_id is immutable''), r)
         else if \<not> sameIdentifierSlices (ca_AlertIDs currentCase) (ca_AlertIDs c)
         then (Inl (ErrConflict ''case'' (ca_ID c)
                 ''alert_ids can only be changed through lifecycle link operations''), r)
         else let linked = map CanonicalUUID (ca_AlertIDs currentCase) in
         case first_duplicate [] linked of
           Some d \<Rightarrow> (Inl (duplicate_linked d), r)
         | None \<Rightarrow>
           (case check_transitions alerts currentCase c linked [] transitions of
              Inl e \<Rightarrow> (Inl e, r)
            | Inr seen \<Rightarrow>
              if length seen \<noteq> length linked
              then (Inl (ErrText ''every linked alert must be validated''), r)
              else let now = Truncate now Microsecond;
                       c = c\<lparr>ca_UpdatedAt := now\<rparr>
                   in (Inr c, r\<lparr>lc_cases := tbl_put (ca_ID c) c (lc_cases r),
                        lc_alerts := (lc_alerts r)\<lparr>ar_data :=
                          fold (apply_transition now) transitions alerts\<rparr>\<rparr>)))"

subsection \<open>What the link checks accept\<close>

definition attachable :: "Alert tbl \<Rightarrow> string \<Rightarrow> CaseStatus \<Rightarrow> string \<Rightarrow> bool" where
  "attachable alerts cid status i =
    (case tbl_get alerts i of
       None \<Rightarrow> False
     | Some a \<Rightarrow> SameIdentifier (al_CustomerID a) cid \<and> CanAttachAlertToCase status (al_Status a))"

lemma validateMemoryAlertLinks_ok:
  "validateMemoryAlertLinks alerts cid status seen is = Inr u \<longleftrightarrow>
     distinct (map CanonicalUUID is) \<and> set (map CanonicalUUID is) \<inter> set seen = {} \<and>
     (\<forall>i \<in> set is. attachable alerts cid status (CanonicalUUID i))"
proof (induction "is" arbitrary: seen)
  case (Cons i "is")
  then show ?case
    by (cases "tbl_get alerts (CanonicalUUID i)") (auto simp: Let_def attachable_def)
qed simp

lemma link_additions_ok:
  "link_additions existing seen is = Inr added \<longleftrightarrow>
     distinct is \<and> set is \<inter> set seen = {} \<and> added = filter (\<lambda>i. i \<notin> set existing) is"
proof (induction "is" arbitrary: seen added)
  case (Cons i "is")
  have "link_additions existing (i # seen) is = Inr added' \<longleftrightarrow>
     distinct is \<and> set is \<inter> set (i # seen) = {} \<and> added' = filter (\<lambda>i. i \<notin> set existing) is" for added'
    by (rule Cons.IH)
  then show ?case by (cases "link_additions existing (i # seen) is") auto
qed auto

lemma first_duplicate_None: "first_duplicate seen is = None \<longleftrightarrow> distinct is \<and> set is \<inter> set seen = {}"
  by (induction "is" arbitrary: seen) auto

lemma check_transitions_ok:
  "check_transitions alerts cur c linked seen trs = Inr out \<longleftrightarrow>
     distinct (map tr_ID trs) \<and> set (map tr_ID trs) \<inter> set seen = {} \<and>
     (\<forall>tr \<in> set trs. check_transition alerts cur c linked tr = Inr ()) \<and>
     out = rev (map tr_ID trs) @ seen"
proof (induction trs arbitrary: seen)
  case (Cons tr trs)
  then show ?case by (cases "check_transition alerts cur c linked tr") auto
qed auto

text \<open>The facts a passed check gives for its alert.\<close>

definition transition_allowed :: "AlertStatusTransition \<Rightarrow> bool" where
  "transition_allowed tr \<longleftrightarrow> tr_From tr = tr_To tr \<or> ValidAlertStatusTransition (tr_From tr) (tr_To tr) \<or>
     tr_ResolvedBy tr = ''case-filing'' \<and> ValidAlertStatusTransitionForCaseFiling (tr_From tr) (tr_To tr)"

definition transition_evidence :: "AlertStatusTransition \<Rightarrow> bool" where
  "transition_evidence tr \<longleftrightarrow> tr_From tr = tr_To tr \<or> \<not> IsAlertTerminal (tr_To tr) \<or> TrimSpace (tr_ResolvedBy tr) \<noteq> []"

lemma check_transition_ok:
  "check_transition alerts cur c linked tr = Inr u \<longleftrightarrow>
     tr_ID tr \<in> set linked \<and>
     (\<exists>a. tbl_get alerts (tr_ID tr) = Some a \<and> al_UpdatedAt a = tr_ExpectedUpdatedAt tr \<and>
          al_Status a = tr_From tr \<and> SameIdentifier (al_CustomerID a) (ca_CustomerID cur)) \<and>
     transition_allowed tr \<and> transition_evidence tr \<and> CompatibleCaseAlertState (ca_Status c) (tr_To tr)"
  by (cases "tbl_get alerts (tr_ID tr)")
    (auto simp: check_transition_def transition_allowed_def transition_evidence_def)

lemma apply_transition_get:
  "tbl_get (apply_transition now tr t) k =
    (if k = tr_ID tr \<and> tr_From tr \<noteq> tr_To tr then map_option (transitioned now tr) (tbl_get t k) else tbl_get t k)"
  by (auto simp: apply_transition_def tbl_simps split: option.splits)

lemma fold_apply_transition_get_other:
  "k \<notin> set (map tr_ID trs) \<Longrightarrow> tbl_get (fold (apply_transition now) trs t) k = tbl_get t k"
  by (induction trs arbitrary: t) (auto simp: apply_transition_get)

lemma fold_apply_transition_get:
  assumes "distinct (map tr_ID trs)" and "tr \<in> set trs"
  shows "tbl_get (fold (apply_transition now) trs t) (tr_ID tr) = tbl_get (apply_transition now tr t) (tr_ID tr)"
  using assms
proof (induction trs arbitrary: t)
  case (Cons x xs)
  show ?case
  proof (cases "tr = x")
    case True
    with Cons.prems have "tr_ID tr \<notin> set (map tr_ID xs)" by auto
    with True show ?thesis by (simp add: fold_apply_transition_get_other)
  next
    case False
    with Cons.prems have "tr \<in> set xs" "tr_ID tr \<noteq> tr_ID x" by (auto simp: image_iff)
    with Cons show ?thesis by (simp add: apply_transition_get)
  qed
qed simp

lemma transitioned_same_identity: "same_identity a (transitioned now tr a)"
  by (simp add: transitioned_def same_identity_def Let_def)

lemma transitioned_evidence:
  "transition_evidence tr \<Longrightarrow> tr_From tr \<noteq> tr_To tr \<Longrightarrow> evidence_ok (transitioned now tr a)"
  by (auto simp: transitioned_def evidence_ok_def transition_evidence_def Let_def)

lemma transitioned_status [simp]: "al_Status (transitioned now tr a) = tr_To tr"
  by (simp add: transitioned_def Let_def)

lemma apply_transition_linked:
  "tbl_get t (tr_ID tr) = Some a \<Longrightarrow> al_Status a = tr_From tr \<Longrightarrow>
   \<exists>a'. tbl_get (apply_transition now tr t) (tr_ID tr) = Some a' \<and> al_Status a' = tr_To tr \<and> same_identity a a'"
  using transitioned_same_identity
  by (cases "tr_From tr = tr_To tr") (auto simp: apply_transition_get same_identity_def)

lemma fold_apply_transition_ok:
  "alert_repo_ok r \<Longrightarrow> \<forall>tr \<in> set trs. transition_evidence tr \<Longrightarrow>
   alert_repo_ok (r\<lparr>ar_data := fold (apply_transition now) trs (ar_data r)\<rparr>)"
proof (induction trs arbitrary: r)
  case (Cons tr trs)
  let ?r = "r\<lparr>ar_data := apply_transition now tr (ar_data r)\<rparr>"
  have "alert_repo_ok ?r"
  proof (cases "tr_From tr = tr_To tr")
    case False
    then show ?thesis
    proof (cases "tbl_get (ar_data r) (tr_ID tr)")
      case (Some a)
      then have "?r = r\<lparr>ar_data := tbl_put (tr_ID tr) (transitioned now tr a) (ar_data r)\<rparr>"
        using False by (simp add: apply_transition_def)
      then show ?thesis
        using put_alert_ok [OF Cons.prems(1) Some transitioned_same_identity transitioned_evidence] False
          Cons.prems(2) by simp
    qed (use Cons.prems False in \<open>simp add: apply_transition_def\<close>)
  qed (use Cons.prems in \<open>simp add: apply_transition_def\<close>)
  from Cons.IH [OF this] Cons.prems(2) show ?case by simp
qed simp

subsection \<open>The operations, characterised\<close>

lemma CreateCaseWithAlerts_ok:
  "CreateCaseWithAlerts ctx r c = (Inr c', r') \<longleftrightarrow>
     lc_configured r \<and> ctx = None \<and> c' = normalizeMemoryCase c \<and> tbl_get (lc_cases r) (ca_ID c') = None \<and>
     IsCaseUnresolved (ca_Status c) \<and> distinct (ca_AlertIDs c') \<and>
     (\<forall>i \<in> set (ca_AlertIDs c'). attachable (ar_data (lc_alerts r)) (ca_CustomerID c') (ca_Status c) i) \<and>
     r' = r\<lparr>lc_cases := tbl_put (ca_ID c') c' (lc_cases r)\<rparr>"
proof -
  have "validateMemoryAlertLinks (ar_data (lc_alerts r)) (CanonicalUUID (ca_CustomerID c)) (ca_Status c) []
      (map CanonicalUUID (ca_AlertIDs c)) = Inr u \<longleftrightarrow>
    distinct (map CanonicalUUID (ca_AlertIDs c)) \<and>
    (\<forall>i \<in> set (map CanonicalUUID (ca_AlertIDs c)).
       attachable (ar_data (lc_alerts r)) (CanonicalUUID (ca_CustomerID c)) (ca_Status c) i)" for u
    by (simp add: validateMemoryAlertLinks_ok comp_def)
  then show ?thesis
    by (auto simp: CreateCaseWithAlerts_def Let_def split: option.splits sum.splits)
qed

lemma lifecycle_error_keeps_state:
  "CreateCaseWithAlerts ctx r c = (Inl e, r') \<Longrightarrow> r' = r"
  "AppendAlerts ctx now r i expected ids = (Inl e, r') \<Longrightarrow> r' = r"
  "UpdateCaseAndAlerts ctx now r c expected trs = (Inl e, r') \<Longrightarrow> r' = r"
  by (auto simp: CreateCaseWithAlerts_def AppendAlerts_def UpdateCaseAndAlerts_def Let_def
      split: if_splits option.splits sum.splits)

text \<open>The identifiers an append adds: requested, in canonical form, not linked yet.\<close>

definition new_links :: "Case \<Rightarrow> string list \<Rightarrow> string list" where
  "new_links c ids = filter (\<lambda>i. i \<notin> set (ca_AlertIDs c)) (map CanonicalUUID ids)"

definition appended :: "time \<Rightarrow> Case \<Rightarrow> string list \<Rightarrow> Case" where
  "appended now c ids =
    (if new_links c ids = [] then c
     else c\<lparr>ca_AlertIDs := ca_AlertIDs c @ new_links c ids, ca_UpdatedAt := Truncate now Microsecond\<rparr>)"

lemma map_CanonicalUUID_new_links [simp]: "map CanonicalUUID (new_links c ids) = new_links c ids"
  by (rule map_idI) (auto simp: new_links_def)

lemma new_links_canonical: "i \<in> set (new_links c ids) \<Longrightarrow> CanonicalUUID i = i"
  by (auto simp: new_links_def)

lemma AppendAlerts_ok:
  "AppendAlerts ctx now r caseID expected ids = (Inr c', r') \<longleftrightarrow>
     lc_configured r \<and> ctx = None \<and>
     (\<exists>c. tbl_get (lc_cases r) (CanonicalIdentifier caseID) = Some c \<and> ca_UpdatedAt c = expected \<and>
        IsCaseUnresolved (ca_Status c) \<and> distinct (map CanonicalUUID ids) \<and>
        (\<forall>i \<in> set (new_links c ids). attachable (ar_data (lc_alerts r)) (ca_CustomerID c) (ca_Status c) i) \<and>
        c' = appended now c ids \<and>
        r' = (if new_links c ids = [] then r
              else r\<lparr>lc_cases := tbl_put (CanonicalIdentifier caseID) c' (lc_cases r)\<rparr>))"
    (is "?app = _ \<longleftrightarrow> _")
proof (cases "tbl_get (lc_cases r) (CanonicalIdentifier caseID)")
  case None
  then show ?thesis by (simp add: AppendAlerts_def Let_def split: option.split)
next
  case (Some c)
  have links: "link_additions (ca_AlertIDs c) [] (map CanonicalUUID ids) = Inr added \<longleftrightarrow>
      distinct (map CanonicalUUID ids) \<and> added = new_links c ids" for added
    by (simp add: link_additions_ok new_links_def)
  have valid: "validateMemoryAlertLinks alerts cid status [] (new_links c ids) = Inr u \<longleftrightarrow>
      distinct (new_links c ids) \<and> (\<forall>i \<in> set (new_links c ids). attachable alerts cid status i)"
    for alerts cid status u
    by (simp add: validateMemoryAlertLinks_ok new_links_canonical cong: ball_cong)
  show ?thesis
  proof (cases "distinct (map CanonicalUUID ids)")
    case False
    with links obtain e where "link_additions (ca_AlertIDs c) [] (map CanonicalUUID ids) = Inl e"
      by (cases "link_additions (ca_AlertIDs c) [] (map CanonicalUUID ids)") auto
    with Some False show ?thesis
      by (simp add: AppendAlerts_def Let_def split: option.split)
  next
    case True
    then have "distinct (new_links c ids)" unfolding new_links_def by (rule distinct_filter)
    let ?v = "validateMemoryAlertLinks (ar_data (lc_alerts r)) (ca_CustomerID c) (ca_Status c) [] (new_links c ids)"
    have v: "?v = Inr () \<longleftrightarrow>
        (\<forall>i \<in> set (new_links c ids). attachable (ar_data (lc_alerts r)) (ca_CustomerID c) (ca_Status c) i)"
      using valid \<open>distinct (new_links c ids)\<close> by simp
    have l: "link_additions (ca_AlertIDs c) [] (map CanonicalUUID ids) = Inr (new_links c ids)"
      using links True by simp
    show ?thesis
    proof (cases ?v)
      case (Inl e)
      with v True Some l show ?thesis by (auto simp: AppendAlerts_def Let_def split: option.split)
    next
      case (Inr u)
      with v True Some l show ?thesis
        by (auto simp: AppendAlerts_def Let_def appended_def split: option.split)
    qed
  qed
qed

definition canonical_transition :: "AlertStatusTransition \<Rightarrow> AlertStatusTransition" where
  "canonical_transition tr = tr\<lparr>tr_ID := CanonicalUUID (tr_ID tr)\<rparr>"

lemma canonical_transition_sel [simp]:
  "tr_ID (canonical_transition tr) = CanonicalUUID (tr_ID tr)" "tr_From (canonical_transition tr) = tr_From tr"
  "tr_To (canonical_transition tr) = tr_To tr" "tr_ResolvedBy (canonical_transition tr) = tr_ResolvedBy tr"
  by (simp_all add: canonical_transition_def)

lemma canonical_transition_checks [simp]:
  "transition_allowed (canonical_transition tr) = transition_allowed tr"
  "transition_evidence (canonical_transition tr) = transition_evidence tr"
  "tr_ExpectedUpdatedAt (canonical_transition tr) = tr_ExpectedUpdatedAt tr"
  by (simp_all add: transition_allowed_def transition_evidence_def canonical_transition_def)

text \<open>
  A set of requested transitions that covers the links of a case: one per linked alert,
  each accepted by the check.
\<close>

definition transitions_cover :: "LifecycleRepo \<Rightarrow> Case \<Rightarrow> Case \<Rightarrow> AlertStatusTransition list \<Rightarrow> bool" where
  "transitions_cover r cur c trs \<longleftrightarrow>
     distinct (map tr_ID trs) \<and> set (map tr_ID trs) = set (map CanonicalUUID (ca_AlertIDs cur)) \<and>
     (\<forall>tr \<in> set trs. check_transition (ar_data (lc_alerts r)) cur c (map CanonicalUUID (ca_AlertIDs cur)) tr = Inr ())"

lemma length_distinct_cover:
  assumes "distinct xs" "distinct ys" "set xs \<subseteq> set ys"
  shows "length xs = length ys \<longleftrightarrow> set xs = set ys"
  using assms by (metis List.finite_set card_subset_eq distinct_card)

lemma sameIdentifierSlices_canonical:
  "sameIdentifierSlices l r \<longleftrightarrow> map CanonicalUUID l = map CanonicalUUID r"
  by (auto simp: sameIdentifierSlices_def SameIdentifier_def CanonicalIdentifier_def list_all2_conv_all_nth
      list_eq_iff_nth_eq)

lemma UpdateCaseAndAlerts_ok:
  "UpdateCaseAndAlerts ctx now r c expected trs = (Inr c', r') \<longleftrightarrow>
     lc_configured r \<and> ctx = None \<and>
     (\<exists>cur. tbl_get (lc_cases r) (CanonicalIdentifier (ca_ID c)) = Some cur \<and> ca_UpdatedAt cur = expected \<and>
        (ca_Status cur = ca_Status c \<or> ValidCaseStatusTransition (ca_Status cur) (ca_Status c)) \<and>
        SameIdentifier (ca_CustomerID cur) (ca_CustomerID c) \<and>
        map CanonicalUUID (ca_AlertIDs cur) = map CanonicalUUID (ca_AlertIDs c) \<and>
        distinct (map CanonicalUUID (ca_AlertIDs cur)) \<and>
        transitions_cover r cur (normalizeMemoryCase c) (map canonical_transition trs) \<and>
        c' = (normalizeMemoryCase c)\<lparr>ca_UpdatedAt := Truncate now Microsecond\<rparr> \<and>
        r' = r\<lparr>lc_cases := tbl_put (CanonicalIdentifier (ca_ID c)) c' (lc_cases r),
                lc_alerts := (lc_alerts r)\<lparr>ar_data :=
                   fold (apply_transition (Truncate now Microsecond)) (map canonical_transition trs)
                     (ar_data (lc_alerts r))\<rparr>\<rparr>)"
proof (cases "tbl_get (lc_cases r) (CanonicalIdentifier (ca_ID c))")
  case None
  then show ?thesis by (simp add: UpdateCaseAndAlerts_def Let_def split: option.split)
next
  case (Some cur)
  let ?trs = "map canonical_transition trs" and ?linked = "map CanonicalUUID (ca_AlertIDs cur)"
  let ?check = "check_transitions (ar_data (lc_alerts r)) cur (normalizeMemoryCase c) ?linked [] ?trs"
  have trs: "map (\<lambda>tr. tr\<lparr>tr_ID := CanonicalUUID (tr_ID tr)\<rparr>) trs = ?trs"
    by (simp add: canonical_transition_def)
  have check: "?check = Inr seen \<and> length seen = length ?linked \<longleftrightarrow>
      seen = rev (map tr_ID ?trs) \<and> transitions_cover r cur (normalizeMemoryCase c) ?trs"
    if "distinct ?linked" for seen
  proof -
    have sub: "\<forall>tr \<in> set ?trs. check_transition (ar_data (lc_alerts r)) cur (normalizeMemoryCase c) ?linked tr = Inr () \<Longrightarrow>
        set (map tr_ID ?trs) \<subseteq> set ?linked"
      by (auto simp: check_transition_ok)
    show ?thesis
      using length_distinct_cover [OF _ that, of "map tr_ID ?trs"] sub
      unfolding transitions_cover_def check_transitions_ok by auto
  qed
  have "?check = Inr seen \<Longrightarrow> length seen = length ?linked \<Longrightarrow> distinct ?linked \<Longrightarrow>
      transitions_cover r cur (normalizeMemoryCase c) ?trs" for seen
    using check by blast
  moreover have "distinct ?linked \<Longrightarrow> transitions_cover r cur (normalizeMemoryCase c) ?trs \<Longrightarrow>
      ?check = Inr (rev (map tr_ID ?trs)) \<and> length (rev (map tr_ID ?trs)) = length ?linked"
    using check by blast
  moreover have "first_duplicate [] ?linked = None \<longleftrightarrow> distinct ?linked"
    by (simp add: first_duplicate_None)
  moreover have "map CanonicalUUID (ca_AlertIDs cur) = map CanonicalUUID (ca_AlertIDs c) \<Longrightarrow>
      length (ca_AlertIDs c) = length (ca_AlertIDs cur)"
    by (metis length_map)
  ultimately show ?thesis
    unfolding UpdateCaseAndAlerts_def trs Let_def
    using Some
    by (auto simp: sameIdentifierSlices_canonical comp_def split: option.splits sum.splits)
qed

subsection \<open>The invariant of the coordinated store\<close>

definition links_ok :: "Alert tbl \<Rightarrow> Case \<Rightarrow> bool" where
  "links_ok alerts c \<longleftrightarrow> distinct (ca_AlertIDs c) \<and>
     (\<forall>i \<in> set (ca_AlertIDs c). CanonicalUUID i = i \<and>
        (\<exists>a. tbl_get alerts i = Some a \<and> SameIdentifier (al_CustomerID a) (ca_CustomerID c)))"

definition lifecycle_ok :: "LifecycleRepo \<Rightarrow> bool" where
  "lifecycle_ok r \<longleftrightarrow> alert_repo_ok (lc_alerts r) \<and> tbl_wf (lc_cases r) \<and>
     (\<forall>k c. tbl_get (lc_cases r) k = Some c \<longrightarrow>
        ca_ID c = k \<and> CanonicalIdentifier k = k \<and> links_ok (ar_data (lc_alerts r)) c)"

lemma links_ok_mono:
  assumes "links_ok t c"
    and "\<And>k a. tbl_get t k = Some a \<Longrightarrow> \<exists>a'. tbl_get t' k = Some a' \<and> same_identity a a'"
  shows "links_ok t' c"
  using assms unfolding links_ok_def same_identity_def by metis

lemma links_ok_attach:
  assumes "links_ok t c" and "distinct is" "set is \<inter> set (ca_AlertIDs c) = {}"
    and "\<forall>i \<in> set is. CanonicalUUID i = i \<and> attachable t (ca_CustomerID c) st i"
  shows "links_ok t (c\<lparr>ca_AlertIDs := ca_AlertIDs c @ is, ca_UpdatedAt := tm\<rparr>)"
  using assms by (fastforce simp: links_ok_def attachable_def split: option.splits)

lemma lifecycle_ok_put_case:
  assumes "lifecycle_ok r" and "ca_ID c = k" "CanonicalIdentifier k = k" and "links_ok (ar_data (lc_alerts r)) c"
  shows "lifecycle_ok (r\<lparr>lc_cases := tbl_put k c (lc_cases r)\<rparr>)"
  using assms by (simp add: lifecycle_ok_def tbl_simps)

lemma lifecycle_ok_alerts:
  assumes "lifecycle_ok r" and "alert_repo_ok as"
    and "\<And>k a. tbl_get (ar_data (lc_alerts r)) k = Some a \<Longrightarrow>
           \<exists>a'. tbl_get (ar_data as) k = Some a' \<and> same_identity a a'"
  shows "lifecycle_ok (r\<lparr>lc_alerts := as\<rparr>)"
proof -
  have "links_ok (ar_data (lc_alerts r)) c \<Longrightarrow> links_ok (ar_data as) c" for c
    by (erule links_ok_mono) (rule assms(3))
  with assms(1,2) show ?thesis by (simp add: lifecycle_ok_def)
qed

lemma apply_transitions_keep:
  "tbl_get t k = Some a \<Longrightarrow> \<exists>a'. tbl_get (fold (apply_transition now) trs t) k = Some a' \<and> same_identity a a'"
proof (induction trs arbitrary: t a)
  case (Cons tr trs)
  have "\<exists>b. tbl_get (apply_transition now tr t) k = Some b \<and> same_identity a b"
    using Cons.prems transitioned_same_identity by (auto simp: apply_transition_get same_identity_def)
  then obtain b where b: "tbl_get (apply_transition now tr t) k = Some b" "same_identity a b" by blast
  from Cons.IH [OF b(1)] b(2) show ?case by (auto simp: same_identity_def)
qed (simp add: same_identity_def)

lemma CreateCaseWithAlerts_keeps:
  assumes ok: "lifecycle_ok r" and run: "CreateCaseWithAlerts ctx r c = (Inr c', r')"
  shows "lifecycle_ok r'"
proof -
  from run have c': "c' = normalizeMemoryCase c" and dist: "distinct (ca_AlertIDs c')"
    and att: "\<forall>i \<in> set (ca_AlertIDs c'). attachable (ar_data (lc_alerts r)) (ca_CustomerID c') (ca_Status c) i"
    and r': "r' = r\<lparr>lc_cases := tbl_put (ca_ID c') c' (lc_cases r)\<rparr>"
    unfolding CreateCaseWithAlerts_ok by blast+
  have "links_ok (ar_data (lc_alerts r)) c'"
    using dist att c' by (fastforce simp: links_ok_def attachable_def split: option.splits)
  moreover have "CanonicalIdentifier (ca_ID c') = ca_ID c'" using c' by simp
  ultimately show ?thesis using lifecycle_ok_put_case [OF ok refl] r' by metis
qed

lemma AppendAlerts_keeps:
  assumes ok: "lifecycle_ok r" and run: "AppendAlerts ctx now r caseID expected ids = (Inr c', r')"
  shows "lifecycle_ok r'"
proof -
  from run obtain c where c: "tbl_get (lc_cases r) (CanonicalIdentifier caseID) = Some c"
    and dist: "distinct (map CanonicalUUID ids)"
    and att: "\<forall>i \<in> set (new_links c ids). attachable (ar_data (lc_alerts r)) (ca_CustomerID c) (ca_Status c) i"
    and c': "c' = appended now c ids"
    and r': "r' = (if new_links c ids = [] then r
        else r\<lparr>lc_cases := tbl_put (CanonicalIdentifier caseID) c' (lc_cases r)\<rparr>)"
    unfolding AppendAlerts_ok by blast
  have cok: "ca_ID c = CanonicalIdentifier caseID" "links_ok (ar_data (lc_alerts r)) c"
    using ok c by (auto simp: lifecycle_ok_def)
  have "distinct (new_links c ids)" using dist unfolding new_links_def by (rule distinct_filter)
  moreover have "set (new_links c ids) \<inter> set (ca_AlertIDs c) = {}" by (auto simp: new_links_def)
  ultimately have "links_ok (ar_data (lc_alerts r)) (appended now c ids)"
    using links_ok_attach [OF cok(2), of "new_links c ids" "ca_Status c"] att cok(2) new_links_canonical
    by (simp add: appended_def)
  moreover have "ca_ID (appended now c ids) = CanonicalIdentifier caseID"
    using cok(1) by (simp add: appended_def)
  ultimately have "lifecycle_ok (r\<lparr>lc_cases := tbl_put (CanonicalIdentifier caseID) c' (lc_cases r)\<rparr>)"
    unfolding c' by (intro lifecycle_ok_put_case ok) simp_all
  with ok r' show ?thesis by simp
qed

lemma UpdateCaseAndAlerts_keeps:
  assumes ok: "lifecycle_ok r" and run: "UpdateCaseAndAlerts ctx now r c expected trs = (Inr c', r')"
  shows "lifecycle_ok r'"
proof -
  let ?trs = "map canonical_transition trs" and ?now = "Truncate now Microsecond"
  let ?as = "(lc_alerts r)\<lparr>ar_data := fold (apply_transition ?now) ?trs (ar_data (lc_alerts r))\<rparr>"
  from run obtain cur where cur: "tbl_get (lc_cases r) (CanonicalIdentifier (ca_ID c)) = Some cur"
    and cust: "SameIdentifier (ca_CustomerID cur) (ca_CustomerID c)"
    and ids: "map CanonicalUUID (ca_AlertIDs cur) = map CanonicalUUID (ca_AlertIDs c)"
    and cover: "transitions_cover r cur (normalizeMemoryCase c) ?trs"
    and c': "c' = (normalizeMemoryCase c)\<lparr>ca_UpdatedAt := ?now\<rparr>"
    and r': "r' = r\<lparr>lc_cases := tbl_put (CanonicalIdentifier (ca_ID c)) c' (lc_cases r), lc_alerts := ?as\<rparr>"
    unfolding UpdateCaseAndAlerts_ok by blast
  have "links_ok (ar_data (lc_alerts r)) cur" using ok cur by (simp add: lifecycle_ok_def)
  moreover from this have "map CanonicalUUID (ca_AlertIDs cur) = ca_AlertIDs cur"
    by (intro map_idI) (simp add: links_ok_def)
  ultimately have "links_ok (ar_data (lc_alerts r)) c'"
    using ids cust c' unfolding links_ok_def by (fastforce intro: SameIdentifier_trans)
  then have ok1: "lifecycle_ok (r\<lparr>lc_cases := tbl_put (CanonicalIdentifier (ca_ID c)) c' (lc_cases r)\<rparr>)"
    by (intro lifecycle_ok_put_case ok) (simp_all add: c')
  have "\<forall>tr \<in> set ?trs. transition_evidence tr"
    using cover by (simp add: transitions_cover_def check_transition_ok)
  then have "alert_repo_ok ?as" using fold_apply_transition_ok ok by (simp add: lifecycle_ok_def)
  then have "lifecycle_ok (r\<lparr>lc_cases := tbl_put (CanonicalIdentifier (ca_ID c)) c' (lc_cases r)\<rparr>\<lparr>lc_alerts := ?as\<rparr>)"
    by (rule lifecycle_ok_alerts [OF ok1]) (simp add: apply_transitions_keep)
  with r' show ?thesis by simp
qed

subsection \<open>Histories of the coordinated store\<close>

text \<open>
  The operations that requests and jobs perform on the store: the three coordinated ones, notes, every
  alert operation, and the plain operations of the case repository the way they are called. A state is
  the store and the versions of cases read so far. Requests update, with \<^verbatim>\<open>Update\<close> or
  \<^verbatim>\<open>UpdateIfUnmodified\<close>, a case they have read at some earlier time and whose identifier, customer and
  links they leave as read; other requests may have changed the stored case since. \<^verbatim>\<open>Create\<close> is used for
  cases without alerts under freshly generated identifiers.
\<close>

definition same_links :: "Case \<Rightarrow> Case \<Rightarrow> bool" where
  "same_links c d \<longleftrightarrow> ca_ID d = ca_ID c \<and> ca_AlertIDs d = ca_AlertIDs c \<and> ca_CustomerID d = ca_CustomerID c"

inductive lifecycle_step :: "LifecycleRepo \<times> Case set \<Rightarrow> LifecycleRepo \<times> Case set \<Rightarrow> bool" where
  create_case: "lifecycle_step (r, reads) (snd (CreateCaseWithAlerts ctx r c), reads)"
| append_alerts: "lifecycle_step (r, reads) (snd (AppendAlerts ctx now r i expected ids), reads)"
| update_case: "lifecycle_step (r, reads) (snd (UpdateCaseAndAlerts ctx now r c expected trs), reads)"
| read_case: "Case_Get (lc_cases r) i = Inr c \<Longrightarrow> lifecycle_step (r, reads) (r, insert c reads)"
| list_cases: "lifecycle_step (r, reads) (r, set (Case_ListByCustomer (lc_cases r) cid) \<union> reads)"
| plain_update: "c \<in> reads \<Longrightarrow> same_links c d \<Longrightarrow>
    lifecycle_step (r, reads) (r\<lparr>lc_cases := snd (Case_Update now (lc_cases r) d)\<rparr>, reads)"
| guarded_update: "c \<in> reads \<Longrightarrow> same_links c d \<Longrightarrow>
    lifecycle_step (r, reads) (r\<lparr>lc_cases := snd (Case_UpdateIfUnmodified now (lc_cases r) d expected)\<rparr>, reads)"
| plain_create: "ca_AlertIDs c = [] \<Longrightarrow> tbl_get (lc_cases r) (CanonicalIdentifier (ca_ID c)) = None \<Longrightarrow>
    lifecycle_step (r, reads) (r\<lparr>lc_cases := snd (Case_Create (lc_cases r) c)\<rparr>, reads)"
| add_note: "lifecycle_step (r, reads) (r\<lparr>lc_cases := snd (Case_AddNote now (lc_cases r) i note)\<rparr>, reads)"
| alert_op: "alert_step (lc_alerts r) as \<Longrightarrow> lifecycle_step (r, reads) (r\<lparr>lc_alerts := as\<rparr>, reads)"

text \<open>
  Atomic sections beside them (\<^verbatim>\<open>store/atomic_memory.go\<close>): the section copies cases and alerts first
  and a failure puts the copies back, with everything others did in between. The section's own
  operations are those above. What was read before a rollback is not written after it.
\<close>

definition restore_lifecycle :: "LifecycleRepo \<Rightarrow> LifecycleRepo \<Rightarrow> LifecycleRepo" where
  "restore_lifecycle snapshot r = r\<lparr>lc_cases := lc_cases snapshot, lc_alerts := lc_alerts snapshot\<rparr>"


definition NewLifecycleRepo :: LifecycleRepo where
  "NewLifecycleRepo = \<lparr>lc_configured = True, lc_cases = [], lc_alerts = NewMemoryAlertRepo\<rparr>"

lemma NewLifecycleRepo_ok: "lifecycle_ok NewLifecycleRepo"
  by (simp add: NewLifecycleRepo_def lifecycle_ok_def NewMemoryAlertRepo_ok)

text \<open>
  What remains true of a case once read: its links are sound and a case of the same customer is
  stored under its identifier. Both survive every operation, because no operation drops an alert or a case
  or changes whose it is.\<close>

definition read_ok :: "LifecycleRepo \<Rightarrow> Case \<Rightarrow> bool" where
  "read_ok r c \<longleftrightarrow> links_ok (ar_data (lc_alerts r)) c \<and>
     (\<exists>d. tbl_get (lc_cases r) (CanonicalIdentifier (ca_ID c)) = Some d \<and> SameIdentifier (ca_CustomerID d) (ca_CustomerID c))"

definition extends :: "LifecycleRepo \<Rightarrow> LifecycleRepo \<Rightarrow> bool" where
  "extends r r' \<longleftrightarrow>
     (\<forall>k a. tbl_get (ar_data (lc_alerts r)) k = Some a \<longrightarrow> (\<exists>a'. tbl_get (ar_data (lc_alerts r')) k = Some a' \<and> same_identity a a')) \<and>
     (\<forall>k c. tbl_get (lc_cases r) k = Some c \<longrightarrow>
        (\<exists>c'. tbl_get (lc_cases r') k = Some c' \<and> SameIdentifier (ca_CustomerID c) (ca_CustomerID c')))"

lemma same_identity_refl [simp]: "same_identity a a"
  by (simp add: same_identity_def)

lemma extends_refl [simp]: "extends r r"
  by (simp add: extends_def)

lemma extends_trans:
  assumes "extends r s" and "extends s t"
  shows "extends r t"
  unfolding extends_def
proof (intro conjI allI impI)
  fix k a
  assume "tbl_get (ar_data (lc_alerts r)) k = Some a"
  then obtain b where b: "tbl_get (ar_data (lc_alerts s)) k = Some b" "same_identity a b" using assms(1) unfolding extends_def by blast
  moreover obtain d where "tbl_get (ar_data (lc_alerts t)) k = Some d" "same_identity b d"
    using assms(2) b(1) unfolding extends_def by blast
  ultimately show "\<exists>a'. tbl_get (ar_data (lc_alerts t)) k = Some a' \<and> same_identity a a'" by (auto simp: same_identity_def)
next
  fix k c
  assume "tbl_get (lc_cases r) k = Some c"
  then obtain d where d: "tbl_get (lc_cases s) k = Some d" "SameIdentifier (ca_CustomerID c) (ca_CustomerID d)"
    using assms(1) unfolding extends_def by blast
  moreover obtain e where "tbl_get (lc_cases t) k = Some e" "SameIdentifier (ca_CustomerID d) (ca_CustomerID e)"
    using assms(2) d(1) unfolding extends_def by blast
  ultimately show "\<exists>c'. tbl_get (lc_cases t) k = Some c' \<and> SameIdentifier (ca_CustomerID c) (ca_CustomerID c')"
    by (blast intro: SameIdentifier_trans)
qed

lemma read_ok_mono: "read_ok r c \<Longrightarrow> extends r r' \<Longrightarrow> read_ok r' c"
  unfolding read_ok_def extends_def by (meson SameIdentifier_sym SameIdentifier_trans links_ok_mono)

lemma stored_read_ok:
  assumes "lifecycle_ok r" and "tbl_get (lc_cases r) k = Some d"
  shows "read_ok r (normalizeMemoryCase d)"
proof -
  have d: "ca_ID d = k" "CanonicalIdentifier k = k" "links_ok (ar_data (lc_alerts r)) d"
    using assms by (auto simp: lifecycle_ok_def)
  then have "map CanonicalUUID (ca_AlertIDs d) = ca_AlertIDs d" by (intro map_idI) (simp add: links_ok_def)
  with d assms(2) show ?thesis by (simp add: read_ok_def links_ok_def)
qed

lemma listed_case_stored:
  assumes "lifecycle_ok r" and "c \<in> set (Case_ListByCustomer (lc_cases r) cid)"
  shows "\<exists>d. tbl_get (lc_cases r) (CanonicalIdentifier (ca_ID c)) = Some d \<and> c = normalizeMemoryCase d \<and>
    SameIdentifier (ca_CustomerID d) cid"
proof -
  from assms(2) obtain d where d: "d \<in> set (tbl_vals (lc_cases r))" "c = normalizeMemoryCase d"
      "SameIdentifier (ca_CustomerID d) cid"
    by (auto simp: Case_ListByCustomer_def customer_cases_def sortByCreatedAtDesc_def)
  then obtain k where "tbl_get (lc_cases r) k = Some d"
    using assms(1) tbl_vals_get unfolding lifecycle_ok_def by metis
  with d show ?thesis using assms(1) by (auto simp: lifecycle_ok_def)
qed

text \<open>Writing a case with the links of an earlier read.\<close>

lemma put_read_case:
  assumes "lifecycle_ok r" and "read_ok r c" and "same_links c d"
  shows "lifecycle_ok (r\<lparr>lc_cases := tbl_put (CanonicalIdentifier (ca_ID d)) ((normalizeMemoryCase d)\<lparr>ca_UpdatedAt := now\<rparr>) (lc_cases r)\<rparr>) \<and>
    extends r (r\<lparr>lc_cases := tbl_put (CanonicalIdentifier (ca_ID d)) ((normalizeMemoryCase d)\<lparr>ca_UpdatedAt := now\<rparr>) (lc_cases r)\<rparr>)"
proof
  let ?c = "(normalizeMemoryCase d)\<lparr>ca_UpdatedAt := now\<rparr>"
  have links: "links_ok (ar_data (lc_alerts r)) c" using assms(2) by (simp add: read_ok_def)
  then have "map CanonicalUUID (ca_AlertIDs c) = ca_AlertIDs c" by (intro map_idI) (simp add: links_ok_def)
  with links assms(3) have "links_ok (ar_data (lc_alerts r)) ?c" by (simp add: links_ok_def same_links_def)
  then show "lifecycle_ok (r\<lparr>lc_cases := tbl_put (CanonicalIdentifier (ca_ID d)) ?c (lc_cases r)\<rparr>)"
    by (intro lifecycle_ok_put_case assms(1)) simp_all
  show "extends r (r\<lparr>lc_cases := tbl_put (CanonicalIdentifier (ca_ID d)) ?c (lc_cases r)\<rparr>)"
    using assms(2,3) by (auto simp: extends_def read_ok_def same_links_def tbl_simps)
qed

lemma Case_Update_keeps:
  assumes "lifecycle_ok r" and "read_ok r c" and "same_links c d"
  shows "lifecycle_ok (r\<lparr>lc_cases := snd (Case_Update now (lc_cases r) d)\<rparr>) \<and> extends r (r\<lparr>lc_cases := snd (Case_Update now (lc_cases r) d)\<rparr>)"
  using put_read_case [OF assms, of now] assms(1) by (auto simp: Case_Update_def Let_def split: option.split)

lemma Case_UpdateIfUnmodified_keeps:
  assumes "lifecycle_ok r" and "read_ok r c" and "same_links c d"
  shows "lifecycle_ok (r\<lparr>lc_cases := snd (Case_UpdateIfUnmodified now (lc_cases r) d expected)\<rparr>) \<and>
    extends r (r\<lparr>lc_cases := snd (Case_UpdateIfUnmodified now (lc_cases r) d expected)\<rparr>)"
  using put_read_case [OF assms, of now] assms(1) by (auto simp: Case_UpdateIfUnmodified_def Let_def split: option.split)

lemma Case_Create_keeps:
  assumes "lifecycle_ok r" and "ca_AlertIDs c = []" and "tbl_get (lc_cases r) (CanonicalIdentifier (ca_ID c)) = None"
  shows "lifecycle_ok (r\<lparr>lc_cases := snd (Case_Create (lc_cases r) c)\<rparr>) \<and> extends r (r\<lparr>lc_cases := snd (Case_Create (lc_cases r) c)\<rparr>)"
proof
  show "lifecycle_ok (r\<lparr>lc_cases := snd (Case_Create (lc_cases r) c)\<rparr>)"
    using lifecycle_ok_put_case [OF assms(1), of "normalizeMemoryCase c"] assms(2) by (simp add: Case_Create_def Let_def links_ok_def)
  show "extends r (r\<lparr>lc_cases := snd (Case_Create (lc_cases r) c)\<rparr>)"
    using assms(3) by (auto simp: extends_def Case_Create_def Let_def tbl_simps)
qed

lemma Case_AddNote_keeps:
  assumes "lifecycle_ok r"
  shows "lifecycle_ok (r\<lparr>lc_cases := snd (Case_AddNote now (lc_cases r) i note)\<rparr>)"
proof (cases "tbl_get (lc_cases r) (CanonicalIdentifier i)")
  case (Some c)
  have "lifecycle_ok (r\<lparr>lc_cases := tbl_put (CanonicalIdentifier i)
      (c\<lparr>ca_Notes := ca_Notes c @ [note], ca_UpdatedAt := now\<rparr>) (lc_cases r)\<rparr>)"
    using assms Some by (intro lifecycle_ok_put_case assms) (simp_all add: lifecycle_ok_def links_ok_def)
  with Some show ?thesis by (simp add: Case_AddNote_def)
qed (use assms in \<open>simp add: Case_AddNote_def\<close>)

lemma CreateCaseWithAlerts_extends: "extends r (snd (CreateCaseWithAlerts ctx r c))"
  by (auto simp: extends_def CreateCaseWithAlerts_def Let_def tbl_simps split: option.splits sum.splits if_splits)

lemma AppendAlerts_extends: "extends r (snd (AppendAlerts ctx now r i expected ids))"
  by (auto simp: extends_def AppendAlerts_def Let_def tbl_simps split: option.split sum.split)

lemma UpdateCaseAndAlerts_extends: "extends r (snd (UpdateCaseAndAlerts ctx now r c expected trs))"
proof (cases "UpdateCaseAndAlerts ctx now r c expected trs")
  case (Pair res r')
  show ?thesis
  proof (cases res)
    case (Inl e)
    then have "r' = r" using lifecycle_error_keeps_state(3) [of ctx now r c expected trs e r'] Pair by simp
    then show ?thesis using Pair by simp
  next
    case (Inr c')
    from Pair [unfolded Inr] obtain cur where cur: "tbl_get (lc_cases r) (CanonicalIdentifier (ca_ID c)) = Some cur"
        "SameIdentifier (ca_CustomerID cur) (ca_CustomerID c)"
      and c': "c' = (normalizeMemoryCase c)\<lparr>ca_UpdatedAt := Truncate now Microsecond\<rparr>"
      and r': "r' = r\<lparr>lc_cases := tbl_put (CanonicalIdentifier (ca_ID c)) c' (lc_cases r),
         lc_alerts := (lc_alerts r)\<lparr>ar_data := fold (apply_transition (Truncate now Microsecond)) (map canonical_transition trs)
           (ar_data (lc_alerts r))\<rparr>\<rparr>"
      unfolding UpdateCaseAndAlerts_ok by blast
    have "\<exists>a'. tbl_get (ar_data (lc_alerts r')) k = Some a' \<and> same_identity a a'" if "tbl_get (ar_data (lc_alerts r)) k = Some a" for k a
      using apply_transitions_keep [OF that] by (simp add: r')
    moreover have "\<exists>d'. tbl_get (lc_cases r') k = Some d' \<and> SameIdentifier (ca_CustomerID d) (ca_CustomerID d')"
      if "tbl_get (lc_cases r) k = Some d" for k d
      using that cur by (auto simp: r' c' tbl_simps)
    ultimately show ?thesis using Pair by (simp add: extends_def)
  qed
qed

definition history_ok :: "LifecycleRepo \<times> Case set \<Rightarrow> bool" where
  "history_ok s \<longleftrightarrow> (case s of (r, reads) \<Rightarrow> lifecycle_ok r \<and> (\<forall>c \<in> reads. read_ok r c))"

lemma history_ok_store: "history_ok (r, reads) \<Longrightarrow> lifecycle_ok r"
  by (simp add: history_ok_def)

lemma history_okI:
  "lifecycle_ok r' \<and> extends r r' \<Longrightarrow> history_ok (r, reads) \<Longrightarrow> history_ok (r', reads) \<and> extends (fst (r, reads)) (fst (r', reads))"
  by (auto simp: history_ok_def intro: read_ok_mono)

lemma lifecycle_step_ok: "lifecycle_step s s' \<Longrightarrow> history_ok s \<Longrightarrow> history_ok s' \<and> extends (fst s) (fst s')"
proof (induction rule: lifecycle_step.induct)
  case (create_case r reads ctx c)
  have "lifecycle_ok (snd (CreateCaseWithAlerts ctx r c))"
    using history_ok_store [OF create_case] CreateCaseWithAlerts_keeps lifecycle_error_keeps_state(1) by (metis old.sum.exhaust prod.collapse)
  with create_case show ?case by (intro history_okI conjI CreateCaseWithAlerts_extends)
next
  case (append_alerts r reads ctx now i expected ids)
  have "lifecycle_ok (snd (AppendAlerts ctx now r i expected ids))"
    using history_ok_store [OF append_alerts] AppendAlerts_keeps lifecycle_error_keeps_state(2) by (metis old.sum.exhaust prod.collapse)
  with append_alerts show ?case by (intro history_okI conjI AppendAlerts_extends)
next
  case (update_case r reads ctx now c expected trs)
  have "lifecycle_ok (snd (UpdateCaseAndAlerts ctx now r c expected trs))"
    using history_ok_store [OF update_case] UpdateCaseAndAlerts_keeps lifecycle_error_keeps_state(3) by (metis old.sum.exhaust prod.collapse)
  with update_case show ?case by (intro history_okI conjI UpdateCaseAndAlerts_extends)
next
  case (read_case r i c reads)
  then show ?case by (auto simp: history_ok_def Case_Get_def Let_def split: option.splits intro: stored_read_ok)
next
  case (list_cases r reads cid)
  then show ?case using listed_case_stored [of r _ cid] stored_read_ok [of r] unfolding history_ok_def by fastforce
next
  case (plain_update c reads d r now)
  then show ?case by (intro history_okI Case_Update_keeps [of r c]) (auto simp: history_ok_def)
next
  case (guarded_update c reads d r now expected)
  then show ?case by (intro history_okI Case_UpdateIfUnmodified_keeps [of r c]) (auto simp: history_ok_def)
next
  case (plain_create c r reads)
  then show ?case by (intro history_okI Case_Create_keeps) (auto simp: history_ok_def)
next
  case (add_note r reads now i n)
  moreover have "extends r (r\<lparr>lc_cases := snd (Case_AddNote now (lc_cases r) i n)\<rparr>)"
    by (auto simp: extends_def Case_AddNote_def Let_def tbl_simps split: option.split)
  ultimately show ?case by (intro history_okI conjI Case_AddNote_keeps) (auto simp: history_ok_def)
next
  case (alert_op r repo reads)
  have keeps: "\<And>k a. tbl_get (ar_data (lc_alerts r)) k = Some a \<Longrightarrow> \<exists>a'. tbl_get (ar_data repo) k = Some a' \<and> same_identity a a'"
    using alert_op alert_step_keeps by (auto simp: history_ok_def lifecycle_ok_def)
  then have "extends r (r\<lparr>lc_alerts := repo\<rparr>)" by (simp add: extends_def)
  moreover have "lifecycle_ok (r\<lparr>lc_alerts := repo\<rparr>)"
    using alert_op alert_step_ok keeps by (intro lifecycle_ok_alerts) (auto simp: history_ok_def lifecycle_ok_def)
  ultimately show ?case using alert_op by (intro history_okI conjI)
qed

lemma lifecycle_steps_ok: "lifecycle_step\<^sup>*\<^sup>* s s' \<Longrightarrow> history_ok s \<Longrightarrow> history_ok s' \<and> extends (fst s) (fst s')"
proof (induction rule: rtranclp_induct)
  case (step t u)
  from lifecycle_step_ok [OF step(2)] step have "history_ok u" "extends (fst s) (fst t)" "extends (fst t) (fst u)" by auto
  then show ?case by (blast intro: extends_trans)
qed simp



definition sample_case :: Case where
  "sample_case = \<lparr>ca_ID = ''k1'', ca_CustomerID = ''c1'', ca_AlertIDs = [''a1''], ca_Status = CaseStatusOpen,
     ca_Priority = CasePriorityMedium, ca_AssignedTo = [], ca_AssignedTeam = [], ca_DueAt = None,
     ca_Summary = [], ca_Notes = [], ca_ReopenReason = [], ca_RelatedCaseIDs = [],
     ca_InvestigationDisposition = [], ca_STRCandidate = False, ca_DispositionRationale = [],
     ca_STRReportID = [], ca_STRFiledAt = None, ca_STRFiledBy = [], ca_STRFilingChannel = [],
     ca_STRDestination = [], ca_STRExternalReference = [], ca_CreatedAt = 20, ca_UpdatedAt = 20,
     ca_ClosedAt = None\<rparr>"

text \<open>The store after one alert and one case that links it.\<close>

definition sample_store :: LifecycleRepo where
  "sample_store = snd (CreateCaseWithAlerts None
     (NewLifecycleRepo\<lparr>lc_alerts := snd (CreateIfNotDuplicate NewMemoryAlertRepo sample_alert)\<rparr>) sample_case)"

lemma sample_store_reachable: "lifecycle_step\<^sup>*\<^sup>* (NewLifecycleRepo, reads) (sample_store, reads)"
proof -
  let ?r = "NewLifecycleRepo\<lparr>lc_alerts := snd (CreateIfNotDuplicate NewMemoryAlertRepo sample_alert)\<rparr>"
  have "alert_step (lc_alerts NewLifecycleRepo) (snd (CreateIfNotDuplicate (lc_alerts NewLifecycleRepo) sample_alert))"
    by (rule alert_step.create)
      (simp_all add: NewLifecycleRepo_def NewMemoryAlertRepo_def sample_alert_def evidence_ok_def)
  then have "alert_step (lc_alerts NewLifecycleRepo) (snd (CreateIfNotDuplicate NewMemoryAlertRepo sample_alert))"
    by (simp add: NewLifecycleRepo_def)
  then have "lifecycle_step (NewLifecycleRepo, reads) (?r, reads)" by (rule lifecycle_step.alert_op)
  moreover have "lifecycle_step (?r, reads) (sample_store, reads)"
    unfolding sample_store_def by (rule lifecycle_step.create_case)
  ultimately show ?thesis by (meson converse_rtranclp_into_rtranclp r_into_rtranclp)
qed

lemma sample_store_ok: "lifecycle_ok sample_store"
  using lifecycle_steps_ok [OF sample_store_reachable [of "{}"]] NewLifecycleRepo_ok by (simp add: history_ok_def)



text \<open>
  The proviso on reads is needed. A case is read while a section is open and after another request
  has linked a new alert to it; the section is rolled back, which takes the alert and the link with it;
  the case is then updated as read, and links an alert that does not exist.
\<close>

definition unlinked_store :: LifecycleRepo where
  "unlinked_store = NewLifecycleRepo\<lparr>lc_cases := snd (Case_Create [] (sample_case\<lparr>ca_AlertIDs := []\<rparr>))\<rparr>"

definition linked_meanwhile :: LifecycleRepo where
  "linked_meanwhile = snd (AppendAlerts None 30000
     (unlinked_store\<lparr>lc_alerts := snd (CreateIfNotDuplicate NewMemoryAlertRepo sample_alert)\<rparr>) ''k1'' 20 [''a1''])"

definition written_after :: LifecycleRepo where
  "written_after = (let r = restore_lifecycle unlinked_store linked_meanwhile in
     case Case_Get (lc_cases linked_meanwhile) ''k1'' of
       Inr c \<Rightarrow> r\<lparr>lc_cases := snd (Case_Update 40000 (lc_cases r) c)\<rparr>
     | Inl _ \<Rightarrow> r)"

lemma stale_write_after_rollback:
  "ca_AlertIDs (the (tbl_get (lc_cases written_after) ''k1'')) = [''a1'']"
  "Option.is_none (tbl_get (ar_data (lc_alerts written_after)) ''a1'')"
  by code_simp+

text \<open>
  C1. Coordinated update. \<open>UpdateCaseAndAlerts\<close> is all-or-nothing. On an error nothing has
  changed. On success the caller saw the current version of the case, the status change is
  one the case workflow allows, and in the resulting store the case is the requested one with
  a fresh version, each linked alert made a permitted transition into a state that is
  compatible with the case's new status, and every other case and alert is untouched.
\<close>

theorem UpdateCaseAndAlerts_atomic:
  assumes run: "UpdateCaseAndAlerts ctx now r c expected trs = (res, r')"
  shows "case res of
      Inl e \<Rightarrow> r' = r
    | Inr c' \<Rightarrow> (\<exists>cur. tbl_get (lc_cases r) (ca_ID c') = Some cur \<and> ca_UpdatedAt cur = expected \<and>
        (ca_Status cur = ca_Status c \<or> ValidCaseStatusTransition (ca_Status cur) (ca_Status c)) \<and>
        c' = (normalizeMemoryCase c)\<lparr>ca_UpdatedAt := Truncate now Microsecond\<rparr> \<and>
        tbl_get (lc_cases r') = (tbl_get (lc_cases r))(ca_ID c' \<mapsto> c') \<and>
        (\<forall>i \<in> set (ca_AlertIDs c'). \<exists>a a' tr. tbl_get (ar_data (lc_alerts r)) i = Some a \<and>
            tbl_get (ar_data (lc_alerts r')) i = Some a' \<and> tr \<in> set trs \<and> CanonicalUUID (tr_ID tr) = i \<and>
            al_Status a = tr_From tr \<and> al_Status a' = tr_To tr \<and> transition_allowed tr \<and>
            same_identity a a' \<and> CompatibleCaseAlertState (ca_Status c') (al_Status a')) \<and>
        (\<forall>i. i \<notin> set (ca_AlertIDs c') \<longrightarrow>
            tbl_get (ar_data (lc_alerts r')) i = tbl_get (ar_data (lc_alerts r)) i))"
proof (cases res)
  case (Inl e)
  with run lifecycle_error_keeps_state(3) show ?thesis by simp
next
  case (Inr c')
  let ?trs = "map canonical_transition trs" and ?now = "Truncate now Microsecond"
  let ?t = "ar_data (lc_alerts r)"
  from run [unfolded Inr UpdateCaseAndAlerts_ok] obtain cur
    where cur: "tbl_get (lc_cases r) (CanonicalIdentifier (ca_ID c)) = Some cur"
      "ca_UpdatedAt cur = expected" "ca_Status cur = ca_Status c \<or> ValidCaseStatusTransition (ca_Status cur) (ca_Status c)"
    and ids: "map CanonicalUUID (ca_AlertIDs cur) = map CanonicalUUID (ca_AlertIDs c)"
    and cover: "transitions_cover r cur (normalizeMemoryCase c) ?trs"
    and c': "c' = (normalizeMemoryCase c)\<lparr>ca_UpdatedAt := ?now\<rparr>"
    and r': "lc_cases r' = tbl_put (CanonicalIdentifier (ca_ID c)) c' (lc_cases r)"
      "ar_data (lc_alerts r') = fold (apply_transition ?now) ?trs ?t"
    by (elim conjE exE) simp
  have links: "set (ca_AlertIDs c') = set (map tr_ID ?trs)" and dist: "distinct (map tr_ID ?trs)"
    using cover ids c' by (simp_all add: transitions_cover_def)
  have linked: "\<exists>a a' tr. tbl_get ?t i = Some a \<and> tbl_get (ar_data (lc_alerts r')) i = Some a' \<and> tr \<in> set trs \<and>
      CanonicalUUID (tr_ID tr) = i \<and> al_Status a = tr_From tr \<and> al_Status a' = tr_To tr \<and> transition_allowed tr \<and>
      same_identity a a' \<and> CompatibleCaseAlertState (ca_Status c') (al_Status a')"
    if i: "i \<in> set (ca_AlertIDs c')" for i
  proof -
    from i links obtain tr where tr: "tr \<in> set trs" "tr_ID (canonical_transition tr) = i" by auto
    then have "check_transition ?t cur (normalizeMemoryCase c) (map CanonicalUUID (ca_AlertIDs cur))
        (canonical_transition tr) = Inr ()"
      using cover by (simp add: transitions_cover_def)
    then obtain a where a: "tbl_get ?t i = Some a" "al_Status a = tr_From tr" "transition_allowed tr"
        "CompatibleCaseAlertState (ca_Status c') (tr_To tr)"
      unfolding check_transition_ok using tr c'
      by (auto simp: canonical_transition_def transition_allowed_def)
    have "tbl_get (ar_data (lc_alerts r')) i = tbl_get (apply_transition ?now (canonical_transition tr) ?t) i"
      using fold_apply_transition_get [OF dist, of "canonical_transition tr"] tr r'(2) by auto
    then obtain a' where "tbl_get (ar_data (lc_alerts r')) i = Some a'" "al_Status a' = tr_To tr" "same_identity a a'"
      using apply_transition_linked [of ?t "canonical_transition tr" a ?now] a tr by auto
    with a tr show ?thesis by (auto simp: canonical_transition_def)
  qed
  moreover have "tbl_get (ar_data (lc_alerts r')) i = tbl_get ?t i" if "i \<notin> set (ca_AlertIDs c')" for i
    using that links r'(2) by (simp add: fold_apply_transition_get_other)
  ultimately show ?thesis
    using Inr cur c' r'(1) by (auto simp: tbl_simps fun_eq_iff)
qed

lemma CanonicalUUID_a1: "CanonicalUUID ''a1'' = ''a1''"
  by code_simp

definition sample_move :: "AlertStatusTransition" where
  "sample_move = \<lparr>tr_ID = ''a1'', tr_From = AlertStatusOpen, tr_To = AlertStatusInvestigating,
     tr_ResolvedBy = [], tr_Rationale = [], tr_ExpectedUpdatedAt = 10\<rparr>"

theorem UpdateCaseAndAlerts_atomic_witness:
  "\<exists>c' r'. UpdateCaseAndAlerts None 5000 sample_store (sample_case\<lparr>ca_Status := CaseStatusInvestigating\<rparr>) 20
     [sample_move] = (Inr c', r') \<and> ca_UpdatedAt c' = 5000 \<and>
     CompatibleCaseAlertState CaseStatusInvestigating (al_Status (the (tbl_get (ar_data (lc_alerts r')) ''a1'')))"
proof -
  let ?run = "UpdateCaseAndAlerts None 5000 sample_store (sample_case\<lparr>ca_Status := CaseStatusInvestigating\<rparr>) 20
     [sample_move]"
  have ok: "is_ok (fst ?run)" by code_simp
  then obtain c' r' where run: "?run = (Inr c', r')" by (metis is_ok_iff prod.collapse)
  have "\<exists>a'. tbl_get (ar_data (lc_alerts r')) ''a1'' = Some a' \<and>
      CompatibleCaseAlertState (ca_Status c') (al_Status a') \<and> ca_UpdatedAt c' = 5000"
    and "ca_Status c' = CaseStatusInvestigating"
    using UpdateCaseAndAlerts_atomic [OF run] CanonicalUUID_a1
    by (auto simp: sample_case_def Truncate_def)
  with run show ?thesis by auto
qed

end
