(* ===== verification/Case_Workflow.thy ===== *)
theory Case_Workflow
  imports Case_Lifecycle
begin

text \<open>
  How the case handler plans the linked-alert transitions of a case status change
  (\<^verbatim>\<open>prepareCaseAlertTransitions\<close> of \<^verbatim>\<open>src/api/internal/server/case.go\<close>) and that the plan is one
  the coordinated store of \<open>Case_Lifecycle\<close> accepts. The handler reads the alerts with
  \<^verbatim>\<open>AlertRepository.Get\<close>; its request, rendering and audit parts are not modelled.
\<close>

subsection \<open>The plan\<close>

definition keep_alert :: "Alert \<Rightarrow> AlertStatusTransition" where
  "keep_alert a = \<lparr>tr_ID = al_ID a, tr_From = al_Status a, tr_To = al_Status a, tr_ResolvedBy = [],
     tr_Rationale = [], tr_ExpectedUpdatedAt = al_UpdatedAt a\<rparr>"

definition move_alert :: "Alert \<Rightarrow> AlertStatus \<Rightarrow> string \<Rightarrow> AlertStatusTransition" where
  "move_alert a to who = (keep_alert a)\<lparr>tr_To := to, tr_ResolvedBy := who\<rparr>"

text \<open>
  One iteration of the loop: an error, or the transitions it appends. The error value
  \<^verbatim>\<open>caseUnresolvedAlertsError\<close> is its message.
\<close>

definition caseUnresolvedAlertsError :: "string \<Rightarrow> string \<Rightarrow> go_error" where
  "caseUnresolvedAlertsError caseID alertID =
     ErrText (''cannot close case '' @ caseID @ '' while linked alert '' @ alertID @ '' is unresolved'')"

definition plan_alert :: "Case \<Rightarrow> CaseStatus \<Rightarrow> Alert \<Rightarrow> AlertStatusTransition list result" where
  "plan_alert c target a =
    (if IsCaseTerminal target \<and> target \<noteq> CaseStatusStrFiled
     then if \<not> IsAlertTerminal (al_Status a) then Inl (caseUnresolvedAlertsError (ca_ID c) (al_ID a))
          else Inr [keep_alert a]
     else if IsAlertTerminal (al_Status a) then Inr [keep_alert a]
     else if \<not> IsAlertUnresolved (al_Status a)
     then Inl (ErrConflict ''case'' (ca_ID c) (''linked alert '' @ al_ID a @ '' has an unsupported state''))
     else Inr (case target of
         CaseStatusStrFiled \<Rightarrow> [move_alert a AlertStatusClosedTruePositive ''case-filing'']
       | CaseStatusInvestigating \<Rightarrow>
           if al_Status a = AlertStatusOpen then [move_alert a AlertStatusInvestigating []] else [keep_alert a]
       | CaseStatusEscalated \<Rightarrow>
           if al_Status a = AlertStatusOpen \<or> al_Status a = AlertStatusInvestigating
           then [move_alert a AlertStatusEscalated []] else [keep_alert a]
       | _ \<Rightarrow> if IsCaseUnresolved target then [keep_alert a] else []))"

fun plan_alerts ::
  "MemoryAlertRepo \<Rightarrow> Case \<Rightarrow> CaseStatus \<Rightarrow> string list \<Rightarrow> AlertStatusTransition list result" where
  "plan_alerts r c target [] = Inr []"
| "plan_alerts r c target (i # is) =
    (case Alert_Get r i of
       Inl e \<Rightarrow> Inl e
     | Inr a \<Rightarrow> (case plan_alert c target a of
         Inl e \<Rightarrow> Inl e
       | Inr trs \<Rightarrow> (case plan_alerts r c target is of Inl e \<Rightarrow> Inl e | Inr rest \<Rightarrow> Inr (trs @ rest))))"

text \<open>The alert repository is \<open>None\<close> when the server has none (\<^verbatim>\<open>s.alerts == nil\<close>).\<close>

definition prepareCaseAlertTransitions ::
  "MemoryAlertRepo option \<Rightarrow> Case \<Rightarrow> CaseStatus \<Rightarrow> AlertStatusTransition list result" where
  "prepareCaseAlertTransitions alerts c target =
    (if ca_AlertIDs c = [] then Inr []
     else case alerts of None \<Rightarrow> Inl lifecycle_unconfigured | Some r \<Rightarrow> plan_alerts r c target (ca_AlertIDs c))"

text \<open>\<^verbatim>\<open>caseExpectedUpdatedAt\<close>: the version the request names, else the one the handler read.\<close>

definition caseExpectedUpdatedAt :: "time option \<Rightarrow> time \<Rightarrow> time" where
  "caseExpectedUpdatedAt expected observed = (case expected of Some t \<Rightarrow> t | None \<Rightarrow> observed)"

text \<open>On an STR filing the handler writes the filing into the rationale of each status change.\<close>

definition filing_rationale :: "string \<Rightarrow> AlertStatusTransition \<Rightarrow> AlertStatusTransition" where
  "filing_rationale reportID tr =
    (if tr_From tr \<noteq> tr_To tr
     then tr\<lparr>tr_Rationale := ''STR report '' @ TrimSpace reportID @ '' filed''\<rparr> else tr)"

subsection \<open>The plan is accepted\<close>

lemma keep_alert_sel [simp]:
  "tr_ID (keep_alert a) = al_ID a" "tr_From (keep_alert a) = al_Status a" "tr_To (keep_alert a) = al_Status a"
  "tr_ExpectedUpdatedAt (keep_alert a) = al_UpdatedAt a"
  by (simp_all add: keep_alert_def)

lemma move_alert_sel [simp]:
  "tr_ID (move_alert a to who) = al_ID a" "tr_From (move_alert a to who) = al_Status a"
  "tr_To (move_alert a to who) = to" "tr_ExpectedUpdatedAt (move_alert a to who) = al_UpdatedAt a"
  "tr_ResolvedBy (move_alert a to who) = who"
  by (simp_all add: move_alert_def)

definition planned :: "CaseStatus \<Rightarrow> Alert \<Rightarrow> AlertStatusTransition \<Rightarrow> bool" where
  "planned target a tr \<longleftrightarrow> tr_ID tr = al_ID a \<and> tr_From tr = al_Status a \<and>
     tr_ExpectedUpdatedAt tr = al_UpdatedAt a \<and> transition_allowed tr \<and> transition_evidence tr \<and>
     CompatibleCaseAlertState target (tr_To tr)"

lemma valid_targets:
  "ValidCaseStatusTransition s t \<Longrightarrow>
   t = CaseStatusInvestigating \<or> t = CaseStatusEscalated \<or> t = CaseStatusClosed \<or> t = CaseStatusStrFiled \<or>
   t = CaseStatusReopened"
  by (cases s; cases t) (auto simp: status_simps)

lemma plan_alert_planned:
  assumes "plan_alert c target a = Inr trs" and "ValidCaseStatusTransition s target"
  shows "\<exists>tr. trs = [tr] \<and> planned target a tr"
  using valid_targets [OF assms(2)] assms(1)
  by (elim disjE; cases "al_Status a")
    (auto simp: plan_alert_def planned_def transition_allowed_def transition_evidence_def status_simps TrimSpace_def
      is_space_def)

lemma plan_alerts_planned:
  assumes "plan_alerts r c target is = Inr trs" and "ValidCaseStatusTransition s target"
  shows "list_all2 (\<lambda>i tr. \<exists>a. tbl_get (ar_data r) (CanonicalUUID i) = Some a \<and> planned target a tr) is trs"
  using assms(1)
proof (induction "is" arbitrary: trs)
  case (Cons i "is")
  from Cons.prems obtain a ts rest where a: "Alert_Get r i = Inr a" and ts: "plan_alert c target a = Inr ts"
    and rest: "plan_alerts r c target is = Inr rest" and trs: "trs = ts @ rest"
    by (auto split: sum.splits)
  from plan_alert_planned [OF ts assms(2)] obtain tr where "ts = [tr]" "planned target a tr" by blast
  moreover have "tbl_get (ar_data r) (CanonicalUUID i) = Some a"
    using a by (auto simp: Alert_Get_def Let_def split: option.splits)
  ultimately show ?case using trs Cons.IH [OF rest] by auto
qed simp

lemma planned_canonical:
  assumes ok: "lifecycle_ok r" and c: "tbl_get (lc_cases r) k = Some cur" and i: "i \<in> set (ca_AlertIDs cur)"
    and a: "tbl_get (ar_data (lc_alerts r)) (CanonicalUUID i) = Some a" and p: "planned (ca_Status c) a tr"
  shows "CanonicalUUID i = i \<and> tr_ID tr = i \<and>
    check_transition (ar_data (lc_alerts r)) cur (normalizeMemoryCase c) (map CanonicalUUID (ca_AlertIDs cur))
      (canonical_transition tr) = Inr ()"
proof -
  have links: "links_ok (ar_data (lc_alerts r)) cur" using ok c by (simp add: lifecycle_ok_def)
  then have ci: "CanonicalUUID i = i" and cust: "SameIdentifier (al_CustomerID a) (ca_CustomerID cur)"
    using i a by (auto simp: links_ok_def)
  have "al_ID a = i" using ok a ci by (simp add: lifecycle_ok_def alert_repo_ok_def alert_index_ok_def)
  moreover have "i \<in> set (map CanonicalUUID (ca_AlertIDs cur))" using i ci by force
  ultimately show ?thesis
    using p a ci cust
    by (simp add: check_transition_ok planned_def)
qed

lemma list_all2_map_eq: "list_all2 (\<lambda>x y. g y = x) xs ys \<Longrightarrow> map g ys = xs"
  by (induction rule: list_all2_induct) simp_all

lemma plan_covers:
  assumes ok: "lifecycle_ok r" and c: "tbl_get (lc_cases r) k = Some cur"
    and plan: "plan_alerts (lc_alerts r) cur (ca_Status c) (ca_AlertIDs cur) = Inr trs"
    and valid: "ValidCaseStatusTransition (ca_Status cur) (ca_Status c)"
    and ann: "\<And>tr. f tr = tr\<lparr>tr_Rationale := tr_Rationale (f tr)\<rparr>"
  shows "transitions_cover r cur (normalizeMemoryCase c) (map canonical_transition (map f trs))"
proof -
  let ?check = "check_transition (ar_data (lc_alerts r)) cur (normalizeMemoryCase c) (map CanonicalUUID (ca_AlertIDs cur))"
  have sel: "tr_ID (f tr) = tr_ID tr" "planned s a (f tr) = planned s a tr" for tr s a
    by (subst ann; simp add: planned_def transition_allowed_def transition_evidence_def)+
  have "list_all2 (\<lambda>i tr. i \<in> set (ca_AlertIDs cur) \<and>
      (\<exists>a. tbl_get (ar_data (lc_alerts r)) (CanonicalUUID i) = Some a \<and> planned (ca_Status c) a tr)) (ca_AlertIDs cur) trs"
    using plan_alerts_planned [OF plan valid] by (auto simp: list_all2_conv_all_nth)
  then have all2: "list_all2 (\<lambda>i tr. CanonicalUUID i = i \<and> tr_ID tr = i \<and> ?check (canonical_transition (f tr)) = Inr ())
      (ca_AlertIDs cur) trs"
    by (rule list_all2_mono) (use planned_canonical [OF ok c] sel in metis)
  then have "list_all2 (\<lambda>i tr. CanonicalUUID (tr_ID (f tr)) = i) (ca_AlertIDs cur) trs"
    by (rule list_all2_mono) (simp add: sel)
  then have ids: "map tr_ID (map canonical_transition (map f trs)) = ca_AlertIDs cur"
    by (simp add: list_all2_map_eq comp_def)
  have checks: "\<forall>tr \<in> set trs. ?check (canonical_transition (f tr)) = Inr ()"
    using all2 by (auto simp: list_all2_conv_all_nth in_set_conv_nth)
  have can: "map CanonicalUUID (ca_AlertIDs cur) = ca_AlertIDs cur"
    using ok c by (intro map_idI) (simp add: lifecycle_ok_def links_ok_def)
  have "distinct (ca_AlertIDs cur)" using ok c by (simp add: lifecycle_ok_def links_ok_def)
  with ids can checks show ?thesis
    unfolding transitions_cover_def by (simp add: list.map_comp comp_def)
qed

text \<open>
  C20. A planned status change commits. If the case workflow allows the change and the handler's
  plan over the linked alerts succeeds, then, as long as nobody else writes in between, the
  coordinated store accepts the case with the planned transitions (with or without the
  filing rationale): no plan is refused by the store's own checks.
\<close>

theorem planned_change_commits:
  assumes "lifecycle_ok r" and "lc_configured r" and "tbl_get (lc_cases r) (CanonicalIdentifier (ca_ID c)) = Some cur"
    and "SameIdentifier (ca_CustomerID cur) (ca_CustomerID c)" and "ca_AlertIDs c = ca_AlertIDs cur"
    and "ValidCaseStatusTransition (ca_Status cur) (ca_Status c)"
    and "prepareCaseAlertTransitions (Some (lc_alerts r)) cur (ca_Status c) = Inr trs"
    and "ann = (\<lambda>tr. tr) \<or> ann = filing_rationale reportID"
  shows "is_ok (fst (UpdateCaseAndAlerts None now r c
           (caseExpectedUpdatedAt None (ca_UpdatedAt cur)) (map ann trs)))"
proof -
  have plan: "plan_alerts (lc_alerts r) cur (ca_Status c) (ca_AlertIDs cur) = Inr trs"
    using assms(7) by (cases "ca_AlertIDs cur = []") (simp_all add: prepareCaseAlertTransitions_def)
  have "\<And>tr. ann tr = tr\<lparr>tr_Rationale := tr_Rationale (ann tr)\<rparr>"
    using assms(8) by (auto simp: filing_rationale_def)
  from plan_covers [OF assms(1,3) plan assms(6) this]
  have cover: "transitions_cover r cur (normalizeMemoryCase c) (map canonical_transition (map ann trs))" .
  have "links_ok (ar_data (lc_alerts r)) cur" using assms(1,3) by (simp add: lifecycle_ok_def)
  then have "distinct (map CanonicalUUID (ca_AlertIDs cur))"
    by (simp add: links_ok_def cong: map_cong)
  then have "\<exists>c' r'. UpdateCaseAndAlerts None now r c (ca_UpdatedAt cur) (map ann trs) = (Inr c', r')"
    unfolding UpdateCaseAndAlerts_ok using assms(2-6) cover by simp
  then show ?thesis by (auto simp: caseExpectedUpdatedAt_def)
qed

theorem planned_change_commits_witness:
  "\<exists>trs. prepareCaseAlertTransitions (Some (lc_alerts sample_store)) (the (tbl_get (lc_cases sample_store) ''k1''))
        CaseStatusInvestigating = Inr trs \<and> trs \<noteq> [] \<and>
     is_ok (fst (UpdateCaseAndAlerts None 5000 sample_store (sample_case\<lparr>ca_Status := CaseStatusInvestigating\<rparr>)
        20 trs))"
proof -
  let ?cur = "the (tbl_get (lc_cases sample_store) ''k1'')"
  let ?plan = "prepareCaseAlertTransitions (Some (lc_alerts sample_store)) ?cur CaseStatusInvestigating"
  let ?c = "sample_case\<lparr>ca_Status := CaseStatusInvestigating\<rparr>"
  have k: "tbl_get (lc_cases sample_store) (CanonicalIdentifier (ca_ID ?c)) = Some ?cur" by code_simp
  have "is_ok ?plan" by code_simp
  then obtain trs where trs: "?plan = Inr trs" by (auto simp: is_ok_iff)
  have "is_ok (fst (UpdateCaseAndAlerts None 5000 sample_store ?c
      (caseExpectedUpdatedAt None (ca_UpdatedAt ?cur)) (map (\<lambda>tr. tr) trs)))"
  proof (rule planned_change_commits [OF _ _ k])
    show "lifecycle_ok sample_store" by (rule sample_store_ok)
    show "prepareCaseAlertTransitions (Some (lc_alerts sample_store)) ?cur (ca_Status ?c) = Inr trs"
      using trs by (simp add: sample_case_def)
  qed ((simp; fail) | code_simp)+
  moreover have "caseExpectedUpdatedAt None (ca_UpdatedAt ?cur) = 20" by code_simp
  moreover have "?plan \<noteq> Inr []" by code_simp
  then have "trs \<noteq> []" using trs by auto
  ultimately show ?thesis using trs by auto
qed

subsection \<open>A disposition reversed behind a closed case\<close>

text \<open>
  The status of a linked alert can also be changed through the alert's own operations,
  which do not look at the cases that link it. The sample history: alert and case are
  investigated, both are closed, then the alert's disposition is reversed.
\<close>

definition reversal_history :: "LifecycleRepo \<Rightarrow> LifecycleRepo list" where
  "reversal_history r0 =
    (let alert_status = (\<lambda>r now status why. r\<lparr>lc_alerts :=
           snd (UpdateStatusWithRationale now (lc_alerts r) ''a1'' status ''analyst'' why None)\<rparr>);
         case_status = (\<lambda>r now status. let cur = the (tbl_get (lc_cases r) ''k1'') in
           snd (UpdateCaseAndAlerts None now r (cur\<lparr>ca_Status := status\<rparr>) (ca_UpdatedAt cur)
             (case prepareCaseAlertTransitions (Some (lc_alerts r)) cur status of Inr trs \<Rightarrow> trs | Inl _ \<Rightarrow> [])));
         r1 = case_status r0 5000 CaseStatusInvestigating;
         r2 = alert_status r1 6000 AlertStatusClosedFalsePositive ''benign'';
         r3 = case_status r2 7000 CaseStatusClosed;
         r4 = alert_status r3 8000 AlertStatusInvestigating ''new evidence''
     in [r1, r2, r3, r4])"

lemma reach_alert_status:
  "lifecycle_step\<^sup>*\<^sup>* s (r, reads) \<Longrightarrow>
   lifecycle_step\<^sup>*\<^sup>* s (r\<lparr>lc_alerts := snd (UpdateStatusWithRationale now (lc_alerts r) i status who why expected)\<rparr>, reads)"
  by (erule rtranclp.rtrancl_into_rtrancl) (intro lifecycle_step.alert_op alert_step.update_rationale)

lemma reach_case_status:
  "lifecycle_step\<^sup>*\<^sup>* s (r, reads) \<Longrightarrow> lifecycle_step\<^sup>*\<^sup>* s (snd (UpdateCaseAndAlerts ctx now r c expected trs), reads)"
  by (erule rtranclp.rtrancl_into_rtrancl) (rule lifecycle_step.update_case)

lemma reversal_history_reachable: "lifecycle_step\<^sup>*\<^sup>* (r0, reads) (reversal_history r0 ! 3, reads)"
  unfolding reversal_history_def Let_def
  by (simp add: numeral_3_eq_3) (intro reach_alert_status reach_case_status rtranclp.rtrancl_refl)

text \<open>
  The closed-case rule is not an invariant of the store. There is a history of ordinary
  operations, each accepted, after which a closed case links an alert that is under
  investigation, a combination \<open>CompatibleCaseAlertState\<close> excludes.
\<close>

theorem closed_case_with_reopened_alert:
  "\<exists>r c a. lifecycle_step\<^sup>*\<^sup>* (NewLifecycleRepo, {}) (r, {}) \<and> tbl_get (lc_cases r) ''k1'' = Some c \<and>
     ca_AlertIDs c = [''a1''] \<and> tbl_get (ar_data (lc_alerts r)) ''a1'' = Some a \<and>
     ca_Status c = CaseStatusClosed \<and> al_Status a = AlertStatusInvestigating \<and>
     \<not> CompatibleCaseAlertState (ca_Status c) (al_Status a)"
proof -
  let ?r = "reversal_history sample_store ! 3"
  have "lifecycle_step\<^sup>*\<^sup>* (NewLifecycleRepo, {}) (?r, {})"
    using sample_store_reachable reversal_history_reachable by (rule rtranclp_trans)
  moreover have "map_option ca_Status (tbl_get (lc_cases ?r) ''k1'') = Some CaseStatusClosed" by code_simp
  moreover have "map_option ca_AlertIDs (tbl_get (lc_cases ?r) ''k1'') = Some [''a1'']" by code_simp
  moreover have "map_option al_Status (tbl_get (ar_data (lc_alerts ?r)) ''a1'') = Some AlertStatusInvestigating" by code_simp
  moreover have "\<not> CompatibleCaseAlertState CaseStatusClosed AlertStatusInvestigating"
    by (simp add: status_simps)
  ultimately show ?thesis by fastforce
qed

end
