(* ===== verification/Consolidation.thy ===== *)
theory Consolidation
  imports Case_Lifecycle
begin

text \<open>
  Joining a new alert to a case (\<^verbatim>\<open>src/api/internal/casemgmt/consolidation.go\<close>). As in the
  Go code the repositories are arguments (the interfaces \<^verbatim>\<open>CaseRepository\<close> and
  \<^verbatim>\<open>CaseAlertLifecycleRepository\<close>, here records of operations on a store). Other requests
  run between the listing and the write, and between attempts; they are part of the
  attempt's environment. The contract the consolidation relies on is the locale
  \<open>case_alert_lifecycle\<close>, interpreted on the in-memory repositories.
\<close>

subsection \<open>The code\<close>

record 's CaseRepository =
  cr_ListByCustomer :: "'s \<Rightarrow> string \<Rightarrow> Case list result"
  cr_UpdateIfUnmodified :: "time \<Rightarrow> 's \<Rightarrow> Case \<Rightarrow> time \<Rightarrow> Case result \<times> 's"
  cr_Create :: "'s \<Rightarrow> Case \<Rightarrow> Case result \<times> 's"

record 's CaseAlertLifecycleRepository =
  cl_AppendAlerts :: "time \<Rightarrow> 's \<Rightarrow> string \<Rightarrow> time \<Rightarrow> string list \<Rightarrow> Case result \<times> 's"
  cl_CreateCaseWithAlerts :: "'s \<Rightarrow> Case \<Rightarrow> Case result \<times> 's"

text \<open>
  What one attempt meets: the effect of other requests before it and between its listing
  and its write, the clock, the generated identifier and the answer of the priority
  resolver (\<open>None\<close> when there is no resolver).
\<close>

record 's attempt_env =
  ae_before :: "'s \<Rightarrow> 's"
  ae_between :: "'s \<Rightarrow> 's"
  ae_now :: time
  ae_generateID :: string
  ae_priority :: "CasePriority result option"

definition DefaultConsolidationWindow :: duration where
  "DefaultConsolidationWindow = 24 * Hour"

definition investigatingOrLater :: "CaseStatus \<Rightarrow> bool" where
  "investigatingOrLater s \<longleftrightarrow> s = CaseStatusInvestigating \<or> s = CaseStatusEscalated"

definition eligible :: "Case \<Rightarrow> time \<Rightarrow> bool" where
  "eligible c windowStart \<longleftrightarrow> IsCaseUnresolved (ca_Status c) \<and> \<not> ca_CreatedAt c < windowStart"

text \<open>The selection loop over the listed cases; the accumulator is \<^verbatim>\<open>target\<close>.\<close>

fun select_target :: "time \<Rightarrow> Case option \<Rightarrow> Case list \<Rightarrow> Case option" where
  "select_target ws target [] = target"
| "select_target ws target (c # cs) =
    (if \<not> eligible c ws then select_target ws target cs
     else case target of
       None \<Rightarrow> select_target ws (Some c) cs
     | Some t \<Rightarrow> if investigatingOrLater (ca_Status c) \<and> \<not> investigatingOrLater (ca_Status t)
                 then select_target ws (Some c) cs else select_target ws target cs)"

definition new_case :: "'s attempt_env \<Rightarrow> CasePriority \<Rightarrow> Alert \<Rightarrow> Case" where
  "new_case env priority a =
    \<lparr>ca_ID = ae_generateID env, ca_CustomerID = al_CustomerID a, ca_AlertIDs = [al_ID a],
     ca_Status = CaseStatusOpen, ca_Priority = priority, ca_AssignedTo = [], ca_AssignedTeam = [],
     ca_DueAt = None, ca_Summary = ''Auto-created from alert '' @ al_ID a @ '' ('' @ al_ScenarioID a @ '')'',
     ca_Notes = [], ca_ReopenReason = [], ca_RelatedCaseIDs = [], ca_InvestigationDisposition = [],
     ca_STRCandidate = False, ca_DispositionRationale = [], ca_STRReportID = [], ca_STRFiledAt = None,
     ca_STRFiledBy = [], ca_STRFilingChannel = [], ca_STRDestination = [], ca_STRExternalReference = [],
     ca_CreatedAt = ae_now env, ca_UpdatedAt = ae_now env, ca_ClosedAt = None\<rparr>"

text \<open>A write that lost the optimistic lock asks for a retry; other errors are returned.\<close>

definition retry_on_conflict :: "Case result \<times> 's \<Rightarrow> (Case option \<times> bool) result \<times> 's" where
  "retry_on_conflict w =
    (case w of
       (Inl e, s) \<Rightarrow> (if is_conflict e then Inr (None, True) else Inl e, s)
     | (Inr c, s) \<Rightarrow> (Inr (Some c, False), s))"

definition create_result :: "Case result \<times> 's \<Rightarrow> (Case option \<times> bool) result \<times> 's" where
  "create_result w =
    (case w of (Inl e, s) \<Rightarrow> (Inl e, s) | (Inr c, s) \<Rightarrow> (Inr (Some c, False), s))"

definition consolidateAlertOnce ::
  "'s CaseRepository \<Rightarrow> 's CaseAlertLifecycleRepository option \<Rightarrow> 's attempt_env \<Rightarrow> Alert \<Rightarrow> duration \<Rightarrow> 's \<Rightarrow>
   (Case option \<times> bool) result \<times> 's" where
  "consolidateAlertOnce cases lifecycle env a window s =
    (case cr_ListByCustomer cases s (al_CustomerID a) of
       Inl e \<Rightarrow> (Inl e, s)
     | Inr existing \<Rightarrow>
         let s = ae_between env s in
         (case select_target (al_DetectedAt a - window) None existing of
            Some target \<Rightarrow>
              (case lifecycle of
                 Some lc \<Rightarrow> retry_on_conflict
                   (cl_AppendAlerts lc (ae_now env) s (ca_ID target) (ca_UpdatedAt target) [al_ID a])
               | None \<Rightarrow> retry_on_conflict
                   (cr_UpdateIfUnmodified cases (ae_now env) s
                     (target\<lparr>ca_AlertIDs := ca_AlertIDs target @ [al_ID a]\<rparr>) (ca_UpdatedAt target)))
          | None \<Rightarrow>
              (case (case ae_priority env of None \<Rightarrow> Inr CasePriorityMedium | Some p \<Rightarrow> p) of
                 Inl e \<Rightarrow> (Inl (ErrText ''derive case priority from CDD state''), s)
               | Inr priority \<Rightarrow>
                   (case lifecycle of
                      Some lc \<Rightarrow> create_result (cl_CreateCaseWithAlerts lc s (new_case env priority a))
                    | None \<Rightarrow> create_result (cr_Create cases s (new_case env priority a))))))"

fun consolidate_attempts ::
  "'s CaseRepository \<Rightarrow> 's CaseAlertLifecycleRepository option \<Rightarrow> 's attempt_env list \<Rightarrow> Alert \<Rightarrow> duration \<Rightarrow> 's \<Rightarrow>
   Case result \<times> 's" where
  "consolidate_attempts cases lifecycle [] a window s =
     (Inl (ErrConflict ''case'' (al_ID a) ''case consolidation remained concurrent after 3 attempts''), s)"
| "consolidate_attempts cases lifecycle (env # envs) a window s =
    (case consolidateAlertOnce cases lifecycle env a window (ae_before env s) of
       (Inl e, s') \<Rightarrow> (Inl e, s')
     | (Inr (Some c, False), s') \<Rightarrow> (Inr c, s')
     | (Inr (_, _), s') \<Rightarrow> consolidate_attempts cases lifecycle envs a window s')"

text \<open>The loop of three attempts, with the environment each of them meets.\<close>

definition consolidateAlert ::
  "'s CaseRepository \<Rightarrow> 's CaseAlertLifecycleRepository option \<Rightarrow>
   's attempt_env \<times> 's attempt_env \<times> 's attempt_env \<Rightarrow> Alert \<Rightarrow> duration \<Rightarrow> 's \<Rightarrow> Case result \<times> 's" where
  "consolidateAlert cases lifecycle envs a window s =
    (case envs of (e1, e2, e3) \<Rightarrow> consolidate_attempts cases lifecycle [e1, e2, e3] a window s)"

subsection \<open>Target selection\<close>

definition preferred :: "time \<Rightarrow> Case \<Rightarrow> bool" where
  "preferred ws c \<longleftrightarrow> eligible c ws \<and> investigatingOrLater (ca_Status c)"

lemma select_target_find:
  "select_target ws target cs =
    (case target of
       Some t \<Rightarrow> if investigatingOrLater (ca_Status t) then Some t
                 else (case find (preferred ws) cs of Some c \<Rightarrow> Some c | None \<Rightarrow> Some t)
     | None \<Rightarrow> (case find (preferred ws) cs of Some c \<Rightarrow> Some c | None \<Rightarrow> find (\<lambda>c. eligible c ws) cs))"
  by (induction cs arbitrary: target) (auto simp: preferred_def split: option.splits)

lemma select_target_None:
  "select_target ws None cs =
    (case find (preferred ws) cs of Some c \<Rightarrow> Some c | None \<Rightarrow> find (\<lambda>c. eligible c ws) cs)"
  by (simp add: select_target_find)

lemma select_target_listed:
  "select_target ws None cs = Some c \<Longrightarrow> c \<in> set cs \<and> eligible c ws"
  by (auto simp: select_target_None find_Some_iff preferred_def split: option.splits)

lemma select_target_NoneD: "select_target ws None cs = None \<longleftrightarrow> (\<forall>c \<in> set cs. \<not> eligible c ws)"
proof (cases "find (preferred ws) cs")
  case None
  then have "select_target ws None cs = find (\<lambda>c. eligible c ws) cs" by (simp add: select_target_None)
  then show ?thesis by (auto simp: find_None_iff)
next
  case (Some c)
  then have "c \<in> set cs" "eligible c ws" by (auto simp: find_Some_iff preferred_def)
  with Some show ?thesis by (auto simp: select_target_None)
qed

subsection \<open>The contract of the repositories\<close>

text \<open>
  \<open>ok\<close> is the store's invariant, \<open>stored\<close> its case table, \<open>step\<close> what any other request may do to
  it. The laws: other requests keep the invariant and never drop a case or change whose it is;
  a listing returns stored cases of the customer; an accepted append or creation yields an active
  stored case that links the requested alerts; a refused one changes nothing.
\<close>

locale case_alert_lifecycle =
  fixes ok :: "'s \<Rightarrow> bool" and stored :: "'s \<Rightarrow> string \<Rightarrow> Case option" and step :: "'s \<Rightarrow> 's \<Rightarrow> bool"
    and cases :: "'s CaseRepository" and lc :: "'s CaseAlertLifecycleRepository"
  assumes step_ok: "ok s \<Longrightarrow> step s s' \<Longrightarrow> ok s'"
    and step_keeps: "ok s \<Longrightarrow> step s s' \<Longrightarrow> stored s k = Some c \<Longrightarrow>
          \<exists>c'. stored s' k = Some c' \<and> SameIdentifier (ca_CustomerID c) (ca_CustomerID c')"
    and list_stored: "ok s \<Longrightarrow> cr_ListByCustomer cases s cid = Inr cs \<Longrightarrow> c \<in> set cs \<Longrightarrow>
          \<exists>d. stored s (CanonicalIdentifier (ca_ID c)) = Some d \<and> SameIdentifier (ca_CustomerID d) cid"
    and append_stored: "ok s \<Longrightarrow> cl_AppendAlerts lc now s i expected ids = (Inr c, s') \<Longrightarrow>
          step s s' \<and> stored s' (ca_ID c) = Some c \<and> IsCaseUnresolved (ca_Status c) \<and>
          CanonicalUUID ` set ids \<subseteq> set (ca_AlertIDs c) \<and>
          (\<exists>d. stored s (CanonicalIdentifier i) = Some d \<and> ca_CustomerID d = ca_CustomerID c)"
    and append_refused: "ok s \<Longrightarrow> cl_AppendAlerts lc now s i expected ids = (Inl e, s') \<Longrightarrow> s' = s"
    and create_stored: "ok s \<Longrightarrow> cl_CreateCaseWithAlerts lc s c = (Inr c', s') \<Longrightarrow>
          step s s' \<and> stored s' (ca_ID c') = Some c' \<and> IsCaseUnresolved (ca_Status c') \<and>
          ca_AlertIDs c' = map CanonicalUUID (ca_AlertIDs c) \<and> SameIdentifier (ca_CustomerID c') (ca_CustomerID c)"
    and create_refused: "ok s \<Longrightarrow> cl_CreateCaseWithAlerts lc s c = (Inl e, s') \<Longrightarrow> s' = s"
begin

text \<open>What a successful consolidation promises about the case it returns.\<close>

definition joined :: "Alert \<Rightarrow> Case \<Rightarrow> 's \<Rightarrow> bool" where
  "joined a c s \<longleftrightarrow> ok s \<and> stored s (ca_ID c) = Some c \<and> IsCaseUnresolved (ca_Status c) \<and>
     CanonicalUUID (al_ID a) \<in> set (ca_AlertIDs c) \<and> SameIdentifier (ca_CustomerID c) (al_CustomerID a)"

definition benign :: "'s attempt_env \<Rightarrow> bool" where
  "benign env \<longleftrightarrow> (\<forall>s. ok s \<longrightarrow> step s (ae_before env s)) \<and> (\<forall>s. ok s \<longrightarrow> step s (ae_between env s))"

lemma append_joined:
  assumes s: "ok s" and list: "cr_ListByCustomer cases s (al_CustomerID a) = Inr cs" and t: "t \<in> set cs"
    and env: "step s s1" and run: "cl_AppendAlerts lc now s1 (ca_ID t) expected [al_ID a] = (Inr c, s')"
  shows "joined a c s'"
proof -
  have s1: "ok s1" using step_ok [OF s env] .
  obtain d where d: "stored s (CanonicalIdentifier (ca_ID t)) = Some d"
      "SameIdentifier (ca_CustomerID d) (al_CustomerID a)"
    using list_stored [OF s list t] by blast
  obtain d' where d': "stored s1 (CanonicalIdentifier (ca_ID t)) = Some d'"
      "SameIdentifier (ca_CustomerID d) (ca_CustomerID d')"
    using step_keeps [OF s env d(1)] by blast
  have "SameIdentifier (ca_CustomerID d') (al_CustomerID a)"
    using d(2) d'(2) by (simp add: SameIdentifier_def)
  then show ?thesis
    using append_stored [OF s1 run] d'(1) step_ok [OF s1] by (auto simp: joined_def)
qed

lemma consolidateAlertOnce_cases:
  assumes s: "ok s" and env: "benign env"
    and run: "consolidateAlertOnce cases (Some lc) env a window s = (res, s')"
  shows "ok s' \<and> (\<forall>c. res = Inr (Some c, False) \<longrightarrow> joined a c s') \<and>
    (\<forall>c b. res = Inr (c, b) \<longrightarrow> (c = None) = b)"
proof (cases "cr_ListByCustomer cases s (al_CustomerID a)")
  case (Inl e)
  with run s show ?thesis by (auto simp: consolidateAlertOnce_def)
next
  case (Inr cs)
  have st: "step s (ae_between env s)" using env s by (simp add: benign_def)
  have s1: "ok (ae_between env s)" by (rule step_ok [OF s st])
  show ?thesis
  proof (cases "select_target (al_DetectedAt a - window) None cs")
    case (Some t)
    obtain w s2 where w: "cl_AppendAlerts lc (ae_now env) (ae_between env s) (ca_ID t) (ca_UpdatedAt t) [al_ID a] = (w, s2)"
      by fastforce
    have t: "t \<in> set cs" using select_target_listed [OF Some] by simp
    have run': "retry_on_conflict (w, s2) = (res, s')"
      using run Inr Some w by (simp add: consolidateAlertOnce_def)
    show ?thesis
    proof (cases w)
      case (Inl e)
      with w append_refused [OF s1] have "s2 = ae_between env s" by auto
      with run' Inl s1 show ?thesis by (auto simp: retry_on_conflict_def split: if_splits)
    next
      case r: (Inr c)
      from append_joined [OF s Inr t st] w r have "joined a c s2" by auto
      with run' r show ?thesis by (auto simp: retry_on_conflict_def joined_def)
    qed
  next
    case None
    show ?thesis
    proof (cases "case ae_priority env of None \<Rightarrow> Inr CasePriorityMedium | Some p \<Rightarrow> p")
      case (Inl e)
      with run Inr None s1 show ?thesis by (auto simp: consolidateAlertOnce_def)
    next
      case p: (Inr priority)
      obtain w s2 where w: "cl_CreateCaseWithAlerts lc (ae_between env s) (new_case env priority a) = (w, s2)"
        by fastforce
      have run': "create_result (w, s2) = (res, s')"
        using run Inr None p w by (simp add: consolidateAlertOnce_def)
      show ?thesis
      proof (cases w)
        case (Inl e)
        with w create_refused [OF s1] have "s2 = ae_between env s" by auto
        with run' Inl s1 show ?thesis by (auto simp: create_result_def)
      next
        case r: (Inr c)
        from create_stored [OF s1 w [unfolded r]] step_ok [OF s1]
        have "joined a c s2" by (simp add: joined_def new_case_def)
        with run' r show ?thesis by (auto simp: create_result_def joined_def)
      qed
    qed
  qed
qed

lemma consolidate_attempts_joined:
  assumes "ok s" and "\<forall>env \<in> set envs. benign env"
    and "consolidate_attempts cases (Some lc) envs a window s = (res, s')"
  shows "ok s' \<and> (\<forall>c. res = Inr c \<longrightarrow> joined a c s')"
  using assms
proof (induction envs arbitrary: s)
  case (Cons env envs)
  have s: "ok (ae_before env s)" using Cons.prems(1,2) step_ok by (auto simp: benign_def)
  obtain r s1 where run: "consolidateAlertOnce cases (Some lc) env a window (ae_before env s) = (r, s1)"
    by fastforce
  have env: "benign env" using Cons.prems(2) by simp
  note once = consolidateAlertOnce_cases [OF s env run]
  show ?case
  proof (cases r)
    case (Inl e)
    with Cons.prems(3) run once show ?thesis by auto
  next
    case (Inr x)
    obtain co b where x: "x = (co, b)" by fastforce
    show ?thesis
    proof (cases co)
      case None
      with Cons.prems(3) run Inr x have "consolidate_attempts cases (Some lc) envs a window s1 = (res, s')"
        by (cases b) auto
      with Cons.IH [of s1] once Cons.prems(2) show ?thesis by auto
    next
      case (Some c)
      with once Inr x have "\<not> b" by auto
      with Some Cons.prems(3) run Inr x once show ?thesis by auto
    qed
  qed
qed auto

end

subsection \<open>The in-memory repositories meet the contract\<close>

definition memory_cases :: "LifecycleRepo CaseRepository" where
  "memory_cases =
    \<lparr>cr_ListByCustomer = (\<lambda>r cid. Inr (Case_ListByCustomer (lc_cases r) cid)),
     cr_UpdateIfUnmodified = (\<lambda>now r c expected.
       let (res, t) = Case_UpdateIfUnmodified now (lc_cases r) c expected in (res, r\<lparr>lc_cases := t\<rparr>)),
     cr_Create = (\<lambda>r c. let (res, t) = Case_Create (lc_cases r) c in (res, r\<lparr>lc_cases := t\<rparr>))\<rparr>"

definition memory_lifecycle :: "LifecycleRepo CaseAlertLifecycleRepository" where
  "memory_lifecycle =
    \<lparr>cl_AppendAlerts = (\<lambda>now r i expected ids. AppendAlerts None now r i expected ids),
     cl_CreateCaseWithAlerts = (\<lambda>r c. CreateCaseWithAlerts None r c)\<rparr>"

text \<open>
  What other requests may do to the store meanwhile: any operations, among them updates of cases
  they have read earlier.\<close>

definition interference :: "LifecycleRepo \<Rightarrow> LifecycleRepo \<Rightarrow> bool" where
  "interference r r' \<longleftrightarrow> (\<exists>reads reads'. (\<forall>c \<in> reads. read_ok r c) \<and> lifecycle_step\<^sup>*\<^sup>* (r, reads) (r', reads'))"

lemma interference_ok:
  assumes "lifecycle_ok r" and "interference r r'"
  shows "lifecycle_ok r' \<and> extends r r'"
proof -
  obtain reads reads' where "\<forall>c \<in> reads. read_ok r c" "lifecycle_step\<^sup>*\<^sup>* (r, reads) (r', reads')"
    using assms(2) by (auto simp: interference_def)
  with assms(1) lifecycle_steps_ok [OF this(2)] show ?thesis by (simp add: history_ok_def)
qed

lemma interference_step: "lifecycle_step (r, {}) (r', {}) \<Longrightarrow> interference r r'"
  unfolding interference_def by blast

lemma interference_refl: "interference r r"
  unfolding interference_def by blast

interpretation mem: case_alert_lifecycle lifecycle_ok "\<lambda>r. tbl_get (lc_cases r)" interference
  memory_cases memory_lifecycle
proof unfold_locales
  fix r r' now i expected ids c
  assume ok: "lifecycle_ok r" and "cl_AppendAlerts memory_lifecycle now r i expected ids = (Inr c, r')"
  then have run: "AppendAlerts None now r i expected ids = (Inr c, r')" by (simp add: memory_lifecycle_def)
  then have "interference r r'" using interference_step lifecycle_step.append_alerts [of r "{}"] by (metis snd_conv)
  moreover from AppendAlerts_ok [THEN iffD1, OF run] obtain d
    where d: "tbl_get (lc_cases r) (CanonicalIdentifier i) = Some d" "IsCaseUnresolved (ca_Status d)"
      "c = appended now d ids"
      "r' = (if new_links d ids = [] then r else r\<lparr>lc_cases := tbl_put (CanonicalIdentifier i) c (lc_cases r)\<rparr>)" by blast
  moreover have "ca_ID d = CanonicalIdentifier i" using ok d(1) by (simp add: lifecycle_ok_def)
  moreover have "ca_ID c = ca_ID d" "ca_Status c = ca_Status d" "ca_CustomerID c = ca_CustomerID d"
      "CanonicalUUID ` set ids \<subseteq> set (ca_AlertIDs c)"
    using d(3) by (auto simp: appended_def new_links_def filter_empty_conv)
  moreover have "tbl_get (lc_cases r') (CanonicalIdentifier i) = Some c"
    using d by (simp add: tbl_simps appended_def)
  ultimately show "interference r r' \<and> tbl_get (lc_cases r') (ca_ID c) = Some c \<and> IsCaseUnresolved (ca_Status c) \<and>
      CanonicalUUID ` set ids \<subseteq> set (ca_AlertIDs c) \<and>
      (\<exists>d. tbl_get (lc_cases r) (CanonicalIdentifier i) = Some d \<and> ca_CustomerID d = ca_CustomerID c)"
    by simp
next
  fix r r' c c'
  assume "cl_CreateCaseWithAlerts memory_lifecycle r c = (Inr c', r')"
  then have run: "CreateCaseWithAlerts None r c = (Inr c', r')" by (simp add: memory_lifecycle_def)
  then have "interference r r'" using interference_step lifecycle_step.create_case [of r "{}"] by (metis snd_conv)
  with run show "interference r r' \<and> tbl_get (lc_cases r') (ca_ID c') = Some c' \<and> IsCaseUnresolved (ca_Status c') \<and>
      ca_AlertIDs c' = map CanonicalUUID (ca_AlertIDs c) \<and> SameIdentifier (ca_CustomerID c') (ca_CustomerID c)"
    by (auto simp: CreateCaseWithAlerts_ok tbl_simps)
next
  fix r cid cs c
  assume "lifecycle_ok r" "cr_ListByCustomer memory_cases r cid = Inr cs" "c \<in> set cs"
  then show "\<exists>d. tbl_get (lc_cases r) (CanonicalIdentifier (ca_ID c)) = Some d \<and> SameIdentifier (ca_CustomerID d) cid"
    using listed_case_stored [of r c cid] by (auto simp: memory_cases_def)
next
  fix r r' k c
  assume "lifecycle_ok r" "interference r r'" "tbl_get (lc_cases r) k = Some c"
  then show "\<exists>c'. tbl_get (lc_cases r') k = Some c' \<and> SameIdentifier (ca_CustomerID c) (ca_CustomerID c')"
    using interference_ok [of r r'] unfolding extends_def by blast
qed (auto simp: memory_lifecycle_def intro: interference_ok [THEN conjunct1] dest: lifecycle_error_keeps_state)

subsection \<open>Consolidation on the in-memory repositories\<close>

text \<open>
  C9. Consolidation under interference. Whatever other requests do before and during the three
  attempts (any operation on cases and alerts, stale updates included; no atomic section is rolled
  back meanwhile), if consolidation returns a case then that case is the stored one, is active, belongs
  to the alert's customer and links the alert, and the store's invariant holds, so the alert was
  never attached to a case that had become terminal or stale in the meantime.
\<close>

theorem consolidate_joins:
  assumes "lifecycle_ok r"
    and "\<forall>env \<in> {e1, e2, e3}. \<forall>s. lifecycle_ok s \<longrightarrow>
           interference s (ae_before env s) \<and> interference s (ae_between env s)"
    and "consolidateAlert memory_cases (Some memory_lifecycle) (e1, e2, e3) a window r = (Inr c, r')"
  shows "lifecycle_ok r' \<and> tbl_get (lc_cases r') (ca_ID c) = Some c \<and> IsCaseUnresolved (ca_Status c) \<and>
    CanonicalUUID (al_ID a) \<in> set (ca_AlertIDs c) \<and> SameIdentifier (ca_CustomerID c) (al_CustomerID a)"
  using mem.consolidate_attempts_joined [of r "[e1, e2, e3]" a window "Inr c" r'] assms
  by (auto simp: consolidateAlert_def mem.benign_def mem.joined_def)

definition calm :: "LifecycleRepo attempt_env" where
  "calm = \<lparr>ae_before = (\<lambda>s. s), ae_between = (\<lambda>s. s), ae_now = 7000, ae_generateID = ''k2'', ae_priority = None\<rparr>"

theorem consolidate_joins_witness:
  "\<exists>c r'. consolidateAlert memory_cases (Some memory_lifecycle) (calm, calm, calm) sample_alert
      DefaultConsolidationWindow sample_store = (Inr c, r') \<and> ''a1'' \<in> set (ca_AlertIDs c)"
proof -
  let ?run = "consolidateAlert memory_cases (Some memory_lifecycle) (calm, calm, calm) sample_alert
      DefaultConsolidationWindow sample_store"
  have "is_ok (fst ?run)" by code_simp
  then obtain c r' where run: "?run = (Inr c, r')" by (metis is_ok_iff prod.collapse)
  have "CanonicalUUID (al_ID sample_alert) \<in> set (ca_AlertIDs c)"
    using consolidate_joins [OF sample_store_ok _ run] by (simp add: calm_def interference_refl)
  moreover have "al_ID sample_alert = ''a1''" by (simp add: sample_alert_def)
  ultimately show ?thesis using run CanonicalUUID_a1 by auto
qed

text \<open>Order in the listing: newest first.\<close>

lemma Case_ListByCustomer_sorted:
  "sorted_wrt (\<lambda>c d. ca_CreatedAt d \<le> ca_CreatedAt c) (Case_ListByCustomer r cid)"
proof -
  have "sorted_wrt (\<lambda>x y. \<not> desc_less ca_CreatedAt ca_ID y x) (Case_ListByCustomer r cid)"
    unfolding Case_ListByCustomer_def sortByCreatedAtDesc_def by (rule desc.go_sort_sorted)
  then show ?thesis
    by (rule sorted_wrt_mono_rel [rotated]) (auto simp: desc_less_def split: if_splits)
qed

lemma find_sorted_max:
  assumes "sorted_wrt (\<lambda>c d. ca_CreatedAt d \<le> ca_CreatedAt c) cs" and "find P cs = Some c"
    and "d \<in> set cs" and "P d"
  shows "ca_CreatedAt d \<le> ca_CreatedAt c"
  using assms by (induction cs) (auto split: if_splits)

text \<open>
  Which case an alert joins. The selection over the customer's cases picks a case exactly
  when some active case was created inside the window (the lower bound included); it picks one
  under investigation or escalated whenever there is such a case, and among the cases of the
  preferred kind the most recently created one.
\<close>

theorem consolidation_target:
  "(case select_target ws None (Case_ListByCustomer r cid) of
     None \<Rightarrow> \<forall>d \<in> set (Case_ListByCustomer r cid). \<not> eligible d ws
   | Some c \<Rightarrow> c \<in> set (Case_ListByCustomer r cid) \<and> IsCaseUnresolved (ca_Status c) \<and> ws \<le> ca_CreatedAt c \<and>
       (\<forall>d \<in> set (Case_ListByCustomer r cid). eligible d ws \<longrightarrow>
          (investigatingOrLater (ca_Status d) \<longrightarrow> investigatingOrLater (ca_Status c)) \<and>
          (investigatingOrLater (ca_Status d) = investigatingOrLater (ca_Status c) \<longrightarrow>
             ca_CreatedAt d \<le> ca_CreatedAt c)))"
proof -
  let ?cs = "Case_ListByCustomer r cid"
  note srt = Case_ListByCustomer_sorted [of r cid]
  show ?thesis
  proof (cases "find (preferred ws) ?cs")
    case (Some c)
    then have sel: "select_target ws None ?cs = Some c" by (simp add: select_target_None)
    from Some have p: "preferred ws c" by (auto simp: find_Some_iff)
    then show ?thesis
      using sel select_target_listed [OF sel] find_sorted_max [OF srt Some]
      by (auto simp: eligible_def preferred_def)
  next
    case None
    then have sel: "select_target ws None ?cs = find (\<lambda>c. eligible c ws) ?cs" by (simp add: select_target_None)
    have nop: "\<forall>d \<in> set ?cs. eligible d ws \<longrightarrow> \<not> investigatingOrLater (ca_Status d)"
      using None by (auto simp: find_None_iff preferred_def)
    show ?thesis
    proof (cases "find (\<lambda>c. eligible c ws) ?cs")
      case f: None
      then have "\<forall>d \<in> set ?cs. \<not> eligible d ws" by (auto simp: find_None_iff)
      with sel f show ?thesis by simp
    next
      case f: (Some c)
      then show ?thesis
        using sel nop select_target_listed [of ws ?cs c] find_sorted_max [OF srt f] by (auto simp: eligible_def)
    qed
  qed
qed

theorem consolidation_target_witness:
  "select_target 20 None (Case_ListByCustomer (lc_cases sample_store) ''c1'') = Some sample_case \<and>
   20 \<le> ca_CreatedAt sample_case"
proof -
  have sel: "select_target 20 None (Case_ListByCustomer (lc_cases sample_store) ''c1'') = Some sample_case" by code_simp
  with consolidation_target [where ws = 20 and r = "lc_cases sample_store" and cid = "''c1''"] show ?thesis by auto
qed

lemma listed_append_succeeds:
  assumes ok: "lifecycle_ok r" and conf: "lc_configured r"
    and t: "t \<in> set (Case_ListByCustomer (lc_cases r) (al_CustomerID a))" "IsCaseUnresolved (ca_Status t)"
    and alert: "tbl_get (ar_data (lc_alerts r)) (CanonicalUUID (al_ID a)) = Some b" "IsAlertUnresolved (al_Status b)"
      "SameIdentifier (al_CustomerID b) (al_CustomerID a)"
  shows "\<exists>c r'. AppendAlerts None now r (ca_ID t) (ca_UpdatedAt t) [al_ID a] = (Inr c, r') \<and>
    SameIdentifier (ca_ID c) (ca_ID t)"
proof -
  from listed_case_stored [OF ok t(1)] obtain d where d: "tbl_get (lc_cases r) (CanonicalIdentifier (ca_ID t)) = Some d"
      "t = normalizeMemoryCase d" "SameIdentifier (ca_CustomerID d) (al_CustomerID a)" by blast
  have "SameIdentifier (al_CustomerID b) (ca_CustomerID d)"
    using alert(3) d(3) by (simp add: SameIdentifier_def)
  then have att: "\<forall>i \<in> set (new_links d [al_ID a]). attachable (ar_data (lc_alerts r)) (ca_CustomerID d) (ca_Status d) i"
    using alert t(2) d(2) by (auto simp: new_links_def attachable_def status_simps)
  have "\<exists>c r'. AppendAlerts None now r (ca_ID t) (ca_UpdatedAt t) [al_ID a] = (Inr c, r') \<and> c = appended now d [al_ID a]"
    unfolding AppendAlerts_ok using conf d att t(2) by auto
  moreover have "SameIdentifier (ca_ID (appended now d [al_ID a])) (ca_ID t)"
    using d(2) by (simp add: appended_def SameIdentifier_def)
  ultimately show ?thesis by blast
qed

lemma new_case_succeeds:
  assumes conf: "lc_configured r" and fresh: "tbl_get (lc_cases r) (CanonicalIdentifier (ae_generateID env)) = None"
    and alert: "tbl_get (ar_data (lc_alerts r)) (CanonicalUUID (al_ID a)) = Some b" "IsAlertUnresolved (al_Status b)"
      "SameIdentifier (al_CustomerID b) (al_CustomerID a)"
  shows "\<exists>c r'. CreateCaseWithAlerts None r (new_case env p a) = (Inr c, r') \<and>
    c = normalizeMemoryCase (new_case env p a)"
  unfolding CreateCaseWithAlerts_ok
  using assms by (auto simp: new_case_def attachable_def status_simps)

text \<open>
  Consolidation succeeds when undisturbed. If no other request interferes with the first
  attempt, the alert is stored and active, the priority resolver answers and the generated
  identifier is new, then the first attempt succeeds: it joins the selected case, or, when no case
  is eligible, a new open case with the resolved priority.
\<close>

theorem consolidate_undisturbed:
  assumes "lifecycle_ok r" and "lc_configured r"
    and "ae_before e1 = (\<lambda>s. s)" and "ae_between e1 = (\<lambda>s. s)"
    and "ae_priority e1 = None \<and> p = CasePriorityMedium \<or> ae_priority e1 = Some (Inr p)"
    and "tbl_get (lc_cases r) (CanonicalIdentifier (ae_generateID e1)) = None"
    and "tbl_get (ar_data (lc_alerts r)) (CanonicalUUID (al_ID a)) = Some b" and "IsAlertUnresolved (al_Status b)"
    and "SameIdentifier (al_CustomerID b) (al_CustomerID a)"
  shows "\<exists>c r'. consolidateAlert memory_cases (Some memory_lifecycle) (e1, e2, e3) a window r = (Inr c, r') \<and>
    (case select_target (al_DetectedAt a - window) None (Case_ListByCustomer (lc_cases r) (al_CustomerID a)) of
       Some t \<Rightarrow> SameIdentifier (ca_ID c) (ca_ID t)
     | None \<Rightarrow> c = normalizeMemoryCase (new_case e1 p a))"
proof (cases "select_target (al_DetectedAt a - window) None (Case_ListByCustomer (lc_cases r) (al_CustomerID a))")
  case (Some t)
  from select_target_listed [OF this] have t: "t \<in> set (Case_ListByCustomer (lc_cases r) (al_CustomerID a))"
      "IsCaseUnresolved (ca_Status t)" by (auto simp: eligible_def)
  from listed_append_succeeds [OF assms(1,2) t assms(7-9), of "ae_now e1"] obtain c r'
    where "AppendAlerts None (ae_now e1) r (ca_ID t) (ca_UpdatedAt t) [al_ID a] = (Inr c, r')"
      "SameIdentifier (ca_ID c) (ca_ID t)" by blast
  then show ?thesis
    using Some assms(3,4) by (simp add: consolidateAlert_def consolidateAlertOnce_def memory_cases_def
        memory_lifecycle_def retry_on_conflict_def)
next
  case None
  from new_case_succeeds [where p = p, OF assms(2,6-9)] obtain c r'
    where "CreateCaseWithAlerts None r (new_case e1 p a) = (Inr c, r')" "c = normalizeMemoryCase (new_case e1 p a)"
    by blast
  then show ?thesis
    using None assms(3-5) by (auto simp: consolidateAlert_def consolidateAlertOnce_def memory_cases_def
        memory_lifecycle_def create_result_def)
qed

theorem consolidate_undisturbed_witness:
  "is_ok (fst (consolidateAlert memory_cases (Some memory_lifecycle) (calm, calm, calm) sample_alert
      DefaultConsolidationWindow sample_store))"
proof -
  have "\<exists>c r'. consolidateAlert memory_cases (Some memory_lifecycle) (calm, calm, calm) sample_alert
      DefaultConsolidationWindow sample_store = (Inr c, r') \<and>
    (case select_target (al_DetectedAt sample_alert - DefaultConsolidationWindow) None
         (Case_ListByCustomer (lc_cases sample_store) (al_CustomerID sample_alert)) of
       Some t \<Rightarrow> SameIdentifier (ca_ID c) (ca_ID t)
     | None \<Rightarrow> c = normalizeMemoryCase (new_case calm CasePriorityMedium sample_alert))"
  proof (rule consolidate_undisturbed [OF sample_store_ok])
    show "lc_configured sample_store" by code_simp
    show "tbl_get (lc_cases sample_store) (CanonicalIdentifier (ae_generateID calm)) = None" by code_simp
    show "tbl_get (ar_data (lc_alerts sample_store)) (CanonicalUUID (al_ID sample_alert)) = Some sample_alert" by code_simp
  qed (simp_all add: calm_def sample_alert_def)
  then show ?thesis by auto
qed

end
