(* ===== verification/Customers.thy ===== *)
theory Customers
  imports Identifiers Paging
begin

text \<open>
  Customers and their repository (\<^verbatim>\<open>src/api/internal/domain/customer.go\<close>,
  \<^verbatim>\<open>MemoryCustomerRepo\<close> of \<^verbatim>\<open>src/api/internal/store/memory.go\<close>), the version clock of
  \<^verbatim>\<open>store/customer_mutation_time.go\<close>, the append-only EDD history of \<^verbatim>\<open>store/edd_events.go\<close>
  and the maker-checker score overrides of \<^verbatim>\<open>domain/cdd_override.go\<close> and
  \<^verbatim>\<open>store/cdd_override.go\<close>. The results: a write based on a stale version is always
  refused, and an override is decided at most once.
\<close>

subsection \<open>Data\<close>

datatype CustomerType =
  CustomerTypeIndividual | CustomerTypeCorporateDomestic | CustomerTypeCorporateForeign | CustomerTypeTrust
| CustomerTypePartnership | CustomerTypeNPO | CustomerTypeGovernment | CustomerTypeForeignLegalArrangement
| CustomerTypeOther string

fun CustomerType_string :: "CustomerType \<Rightarrow> string" where
  "CustomerType_string CustomerTypeIndividual = ''individual''"
| "CustomerType_string CustomerTypeCorporateDomestic = ''corporate_domestic''"
| "CustomerType_string CustomerTypeCorporateForeign = ''corporate_foreign''"
| "CustomerType_string CustomerTypeTrust = ''trust''"
| "CustomerType_string CustomerTypePartnership = ''partnership''"
| "CustomerType_string CustomerTypeNPO = ''npo''"
| "CustomerType_string CustomerTypeGovernment = ''government''"
| "CustomerType_string CustomerTypeForeignLegalArrangement = ''foreign_legal_arrangement''"
| "CustomerType_string (CustomerTypeOther s) = s"

definition AllCustomerTypes :: "CustomerType list" where
  "AllCustomerTypes =
    [CustomerTypeIndividual, CustomerTypeCorporateDomestic, CustomerTypeCorporateForeign, CustomerTypeTrust,
     CustomerTypePartnership, CustomerTypeNPO, CustomerTypeGovernment, CustomerTypeForeignLegalArrangement]"

definition IsValidCustomerType :: "CustomerType \<Rightarrow> bool" where
  "IsValidCustomerType ct \<longleftrightarrow> ct \<in> set AllCustomerTypes"

datatype RiskTier = RiskTierLow | RiskTierMedium | RiskTierHigh | RiskTierOther string

definition RiskTier_of_string :: "string \<Rightarrow> RiskTier" where
  "RiskTier_of_string s =
    (if s = ''low'' then RiskTierLow else if s = ''medium'' then RiskTierMedium
     else if s = ''high'' then RiskTierHigh else RiskTierOther s)"

fun RiskTier_string :: "RiskTier \<Rightarrow> string" where
  "RiskTier_string RiskTierLow = ''low''"
| "RiskTier_string RiskTierMedium = ''medium''"
| "RiskTier_string RiskTierHigh = ''high''"
| "RiskTier_string (RiskTierOther s) = s"

datatype CustomerStatus =
  CustomerStatusActive | CustomerStatusDormant | CustomerStatusFrozen | CustomerStatusClosed
| CustomerStatusOther string \<comment> \<open>the zero value is \<open>CustomerStatusOther []\<close>\<close>

record Customer =
  cu_ID :: string
  cu_ExternalID :: string
  cu_CustomerType :: CustomerType
  cu_CountryCode :: string
  cu_ProductTypes :: "string list"
  cu_Status :: CustomerStatus
  cu_Attributes :: "(string \<times> any) list"
  cu_RiskScore :: "float64 option"
  cu_RiskTier :: "RiskTier option"
  cu_LastScoredAt :: "time option"
  cu_CreatedAt :: time
  cu_UpdatedAt :: time
  cu_SourceUpdatedAt :: "time option"
  cu_NextReviewAt :: "time option"
  cu_LastReviewAt :: "time option"
  cu_ReviewTier :: "RiskTier option"
  cu_ReviewPolicyVersion :: string
  cu_ReviewPolicyDigest :: string
  cu_EddRequestedAt :: "time option"
  cu_EddStage1LastSentAt :: "time option"
  cu_EddStage2NotifiedAt :: "time option"
  cu_EddStage3NotifiedAt :: "time option"
  cu_EddCompletedAt :: "time option"
  cu_EddClosedAt :: "time option"
  cu_EddCloseReason :: string
  cu_EddCaseID :: string
  cu_AnonymizedAt :: "time option"

definition EffectiveStatus :: "Customer \<Rightarrow> CustomerStatus" where
  "EffectiveStatus c = (if cu_Status c = CustomerStatusOther [] then CustomerStatusActive else cu_Status c)"

record Factor =
  fa_Name :: string
  fa_Axis :: string
  fa_Score :: float64
  fa_Description :: string
  fa_BusinessMeaning :: string
  fa_Weight :: float64
  fa_Contribution :: float64
  fa_ObservedValue :: string
  fa_Rule :: string
  fa_Fallback :: bool

record ScoreRecord =
  sc_ID :: string
  sc_CustomerID :: string
  sc_Score :: float64
  sc_Tier :: RiskTier
  sc_Factors :: "Factor list"
  sc_RuleSetID :: string
  sc_RuleSetSHA256 :: string
  sc_RuleSetVersion :: int
  sc_ScoredAt :: time
  sc_Rationale :: string
  sc_Actor :: string
  sc_OverrideEvidence :: "(string \<times> any) list"

datatype EDDEventType =
  EDDEventRequested | EDDEventStageEscalated | EDDEventCompleted | EDDEventReopened | EDDEventClosedOnDowngrade
| EDDEventOther string

record CustomerEDDEvent =
  ev_ID :: string
  ev_CustomerID :: string
  ev_EventType :: EDDEventType
  ev_Stage :: string
  ev_Rationale :: string
  ev_CaseID :: string
  ev_Actor :: string
  ev_PolicyVersion :: string
  ev_CreatedAt :: time

datatype CDDOverrideStatus =
  CDDOverridePendingApproval | CDDOverrideApproved | CDDOverrideRejected | CDDOverrideOther string

fun CDDOverrideStatus_string :: "CDDOverrideStatus \<Rightarrow> string" where
  "CDDOverrideStatus_string CDDOverridePendingApproval = ''pending_approval''"
| "CDDOverrideStatus_string CDDOverrideApproved = ''approved''"
| "CDDOverrideStatus_string CDDOverrideRejected = ''rejected''"
| "CDDOverrideStatus_string (CDDOverrideOther s) = s"

record CDDScoreOverride =
  ov_ID :: string
  ov_CustomerID :: string
  ov_ScoreRecordID :: string
  ov_ProposedTier :: RiskTier
  ov_ComputedTier :: RiskTier
  ov_ComputedScore :: float64
  ov_Reason :: string
  ov_SupportingDocuments :: "string list"
  ov_Evidence :: "(string \<times> any) list"
  ov_Status :: CDDOverrideStatus
  ov_RequestedBy :: string
  ov_RequestedAt :: time
  ov_DecidedBy :: string
  ov_DecidedAt :: "time option"
  ov_DecisionRationale :: string
  ov_Version :: int

text \<open>A missing key of the Go maps \<^verbatim>\<open>scores\<close> and \<^verbatim>\<open>eddEvents\<close> reads as the empty slice.\<close>

record MemoryCustomerRepo =
  cs_data :: "Customer tbl"
  cs_external :: "string tbl"
  cs_scores :: "ScoreRecord list tbl"
  cs_eddEvents :: "CustomerEDDEvent list tbl"
  cs_overrides :: "CDDScoreOverride tbl"

definition NewMemoryCustomerRepo :: MemoryCustomerRepo where
  "NewMemoryCustomerRepo = \<lparr>cs_data = [], cs_external = [], cs_scores = [], cs_eddEvents = [], cs_overrides = []\<rparr>"

definition multi_get :: "'a list tbl \<Rightarrow> string \<Rightarrow> 'a list" where
  "multi_get t k = (case tbl_get t k of None \<Rightarrow> [] | Some xs \<Rightarrow> xs)"

subsection \<open>Reads\<close>

definition Customer_Get :: "MemoryCustomerRepo \<Rightarrow> string \<Rightarrow> Customer result" where
  "Customer_Get r i =
    (let i = CanonicalUUID i in
     case tbl_get (cs_data r) i of None \<Rightarrow> Inl (ErrNotFound ''customer'' i) | Some c \<Rightarrow> Inr c)"

text \<open>A dangling index entry would dereference a nil pointer: \<open>None\<close>.\<close>

definition Customer_GetByExternalID :: "MemoryCustomerRepo \<Rightarrow> string \<Rightarrow> Customer result option" where
  "Customer_GetByExternalID r e =
    (case tbl_get (cs_external r) e of
       None \<Rightarrow> Some (Inl (ErrNotFound ''customer'' e))
     | Some i \<Rightarrow> map_option Inr (tbl_get (cs_data r) i))"

definition Customer_List :: "MemoryCustomerRepo \<Rightarrow> int \<Rightarrow> int \<Rightarrow> Customer list option" where
  "Customer_List r limit offset =
     pageByOffset (sortByCreatedAtDesc (tbl_vals (cs_data r)) cu_CreatedAt cu_ID) limit offset"

definition Customer_ListByCursor :: "MemoryCustomerRepo \<Rightarrow> int \<Rightarrow> Cursor option \<Rightarrow> Customer list" where
  "Customer_ListByCursor r limit after = sortAndPageByCursor (tbl_vals (cs_data r)) limit after cu_CreatedAt cu_ID"

definition Contains :: "string \<Rightarrow> string \<Rightarrow> bool" where
  "Contains s needle \<longleftrightarrow> (\<exists>i \<in> set [0..<Suc (length s)]. take (length needle) (drop i s) = needle)"

definition searchableCustomerAttributes :: "string list" where
  "searchableCustomerAttributes = [''name'', ''name_ja'', ''name_kana'', ''address'']"

text \<open>\<^verbatim>\<open>fmt.Sprint\<close> on a decoded value is an argument.\<close>

definition customerMatchesSearch :: "(any \<Rightarrow> string) \<Rightarrow> Customer \<Rightarrow> string \<Rightarrow> bool" where
  "customerMatchesSearch Sprint c search =
    (let needle = ToLower (TrimSpace search) in
     needle = [] \<or> Contains (ToLower (cu_ID c)) needle \<or> Contains (ToLower (cu_ExternalID c)) needle \<or>
     Contains (ToLower (cu_CountryCode c)) needle \<or>
     (\<exists>key \<in> set searchableCustomerAttributes.
        case map_of (cu_Attributes c) key of None \<Rightarrow> False | Some v \<Rightarrow> Contains (ToLower (Sprint v)) needle))"

definition Customer_ListSearch ::
  "(any \<Rightarrow> string) \<Rightarrow> MemoryCustomerRepo \<Rightarrow> string \<Rightarrow> int \<Rightarrow> int \<Rightarrow> Customer list option" where
  "Customer_ListSearch Sprint r search limit offset =
     pageByOffset (sortByCreatedAtDesc
       (filter (\<lambda>c. customerMatchesSearch Sprint c search) (tbl_vals (cs_data r))) cu_CreatedAt cu_ID) limit offset"

definition Customer_ListByCursorSearch ::
  "(any \<Rightarrow> string) \<Rightarrow> MemoryCustomerRepo \<Rightarrow> int \<Rightarrow> Cursor option \<Rightarrow> string \<Rightarrow> Customer list" where
  "Customer_ListByCursorSearch Sprint r limit after search =
     sortAndPageByCursor (filter (\<lambda>c. customerMatchesSearch Sprint c search) (tbl_vals (cs_data r)))
       limit after cu_CreatedAt cu_ID"

definition ListEDDPending :: "MemoryCustomerRepo \<Rightarrow> Customer list" where
  "ListEDDPending r =
     filter (\<lambda>c. cu_RiskTier c = Some RiskTierHigh \<and> cu_EddRequestedAt c \<noteq> None) (tbl_vals (cs_data r))"

definition ListScoreHistory :: "MemoryCustomerRepo \<Rightarrow> string \<Rightarrow> int \<Rightarrow> ScoreRecord list" where
  "ListScoreHistory r cid limit =
    (let records = multi_get (cs_scores r) (CanonicalUUID cid) in
     if limit > 0 \<and> limit < int (length records) then drop (length records - nat limit) records else records)"

definition CountScoreHistory :: "MemoryCustomerRepo \<Rightarrow> string \<Rightarrow> int" where
  "CountScoreHistory r cid = int (length (multi_get (cs_scores r) (CanonicalUUID cid)))"

definition take_positive :: "int \<Rightarrow> 'a list \<Rightarrow> 'a list" where
  "take_positive limit xs = (if limit > 0 \<and> int (length xs) > limit then take (nat limit) xs else xs)"

definition ListScoreHistoryCursor :: "MemoryCustomerRepo \<Rightarrow> string \<Rightarrow> int \<Rightarrow> Cursor option \<Rightarrow> ScoreRecord list" where
  "ListScoreHistoryCursor r cid limit after =
    (let records = go_sort (desc_less sc_ScoredAt sc_ID) (multi_get (cs_scores r) (CanonicalUUID cid));
         records = (case after of None \<Rightarrow> records | Some c \<Rightarrow> filter (cursor_passed sc_ScoredAt sc_ID c) records)
     in take_positive limit records)"

definition ListCustomerEDDEvents :: "MemoryCustomerRepo \<Rightarrow> string \<Rightarrow> int \<Rightarrow> CustomerEDDEvent list" where
  "ListCustomerEDDEvents r cid limit =
     take_positive limit (go_sort (desc_less ev_CreatedAt ev_ID) (multi_get (cs_eddEvents r) (CanonicalIdentifier cid)))"

definition GetCDDScoreOverride :: "MemoryCustomerRepo \<Rightarrow> string \<Rightarrow> CDDScoreOverride result" where
  "GetCDDScoreOverride r i =
    (case tbl_get (cs_overrides r) i of None \<Rightarrow> Inl (ErrNotFound ''cdd_score_override'' i) | Some o' \<Rightarrow> Inr o')"

definition ListCDDScoreOverrides :: "MemoryCustomerRepo \<Rightarrow> string \<Rightarrow> int \<Rightarrow> CDDScoreOverride list" where
  "ListCDDScoreOverrides r cid limit =
     take_positive limit (go_sort (desc_less ov_RequestedAt ov_ID)
       (filter (\<lambda>o'. SameIdentifier (ov_CustomerID o') cid) (tbl_vals (cs_overrides r))))"

subsection \<open>Writes\<close>

definition nextCustomerMutationTime :: "time \<Rightarrow> time \<Rightarrow> time" where
  "nextCustomerMutationTime previous observed =
    (let previous = Truncate previous Microsecond; observed = Truncate observed Microsecond in
     if \<not> observed > previous then previous + Microsecond else observed)"

definition Customer_Create :: "MemoryCustomerRepo \<Rightarrow> Customer \<Rightarrow> Customer result \<times> MemoryCustomerRepo" where
  "Customer_Create r c =
    (let c = c\<lparr>cu_ID := CanonicalUUID (cu_ID c)\<rparr> in
     (Inr c, r\<lparr>cs_data := tbl_put (cu_ID c) c (cs_data r),
               cs_external := tbl_put (cu_ExternalID c) (cu_ID c) (cs_external r)\<rparr>))"

definition Customer_Update :: "time \<Rightarrow> MemoryCustomerRepo \<Rightarrow> Customer \<Rightarrow> Customer result \<times> MemoryCustomerRepo" where
  "Customer_Update now r c =
    (let c = c\<lparr>cu_ID := CanonicalUUID (cu_ID c)\<rparr> in
     case tbl_get (cs_data r) (cu_ID c) of
       None \<Rightarrow> (Inl (ErrNotFound ''customer'' (cu_ID c)), r)
     | Some current \<Rightarrow>
         let c = c\<lparr>cu_UpdatedAt := nextCustomerMutationTime (cu_UpdatedAt current) now\<rparr>
         in (Inr c, r\<lparr>cs_data := tbl_put (cu_ID c) c (cs_data r)\<rparr>))"

definition Customer_UpdateIfUnmodified ::
  "time \<Rightarrow> MemoryCustomerRepo \<Rightarrow> Customer \<Rightarrow> time \<Rightarrow> Customer result \<times> MemoryCustomerRepo" where
  "Customer_UpdateIfUnmodified now r c expectedUpdatedAt =
    (let c = c\<lparr>cu_ID := CanonicalUUID (cu_ID c)\<rparr> in
     case tbl_get (cs_data r) (cu_ID c) of
       None \<Rightarrow> (Inl (ErrNotFound ''customer'' (cu_ID c)), r)
     | Some current \<Rightarrow>
         if cu_UpdatedAt current \<noteq> expectedUpdatedAt
         then (Inl (ErrConflict ''customer'' (cu_ID c) ''updated_at does not match the version read by the client''), r)
         else let c = c\<lparr>cu_UpdatedAt := nextCustomerMutationTime (cu_UpdatedAt current) now\<rparr>
              in (Inr c, r\<lparr>cs_data := tbl_put (cu_ID c) c (cs_data r)\<rparr>))"

definition Customer_UpdateStatus ::
  "time \<Rightarrow> MemoryCustomerRepo \<Rightarrow> string \<Rightarrow> CustomerStatus \<Rightarrow> Customer result \<times> MemoryCustomerRepo" where
  "Customer_UpdateStatus now r i status =
    (let i = CanonicalUUID i in
     case tbl_get (cs_data r) i of
       None \<Rightarrow> (Inl (ErrNotFound ''customer'' i), r)
     | Some c \<Rightarrow>
         let c = c\<lparr>cu_Status := status, cu_UpdatedAt := nextCustomerMutationTime (cu_UpdatedAt c) now\<rparr>
         in (Inr c, r\<lparr>cs_data := tbl_put i c (cs_data r)\<rparr>))"

definition SaveScoreRecord :: "MemoryCustomerRepo \<Rightarrow> ScoreRecord \<Rightarrow> ScoreRecord result \<times> MemoryCustomerRepo" where
  "SaveScoreRecord r rec =
    (let rec = rec\<lparr>sc_ID := CanonicalUUID (sc_ID rec), sc_CustomerID := CanonicalUUID (sc_CustomerID rec)\<rparr> in
     (Inr rec, r\<lparr>cs_scores := tbl_put (sc_CustomerID rec) (multi_get (cs_scores r) (sc_CustomerID rec) @ [rec])
        (cs_scores r)\<rparr>))"

definition AppendCustomerEDDEvent ::
  "time \<Rightarrow> string \<Rightarrow> MemoryCustomerRepo \<Rightarrow> CustomerEDDEvent option \<Rightarrow> CustomerEDDEvent result \<times> MemoryCustomerRepo" where
  "AppendCustomerEDDEvent now genID r event =
    (case event of
       None \<Rightarrow> (Inl (ErrConflict ''customer_edd_event'' [] ''customer_id is required''), r)
     | Some e \<Rightarrow>
         if ev_CustomerID e = [] then (Inl (ErrConflict ''customer_edd_event'' [] ''customer_id is required''), r)
         else let e = (if ev_ID e = [] then e\<lparr>ev_ID := genID\<rparr> else e);
                  e = (if IsZero (ev_CreatedAt e) then e\<lparr>ev_CreatedAt := now\<rparr> else e);
                  key = CanonicalIdentifier (ev_CustomerID e)
              in (Inr e, r\<lparr>cs_eddEvents := tbl_put key (multi_get (cs_eddEvents r) key @ [e]) (cs_eddEvents r)\<rparr>))"

definition CreateCDDScoreOverride ::
  "time \<Rightarrow> MemoryCustomerRepo \<Rightarrow> CDDScoreOverride option \<Rightarrow> CDDScoreOverride result \<times> MemoryCustomerRepo" where
  "CreateCDDScoreOverride now r override =
    (case override of
       None \<Rightarrow> (Inl (ErrConflict ''cdd_score_override'' [] ''customer_id is required''), r)
     | Some o' \<Rightarrow>
         if ov_CustomerID o' = [] then (Inl (ErrConflict ''cdd_score_override'' [] ''customer_id is required''), r)
         else let o' = (if IsZero (ov_RequestedAt o') then o'\<lparr>ov_RequestedAt := now\<rparr> else o');
                  o' = (if ov_Version o' = 0 then o'\<lparr>ov_Version := 1\<rparr> else o')
              in (Inr o', r\<lparr>cs_overrides := tbl_put (ov_ID o') o' (cs_overrides r)\<rparr>))"

definition DecideCDDScoreOverride ::
  "time \<Rightarrow> MemoryCustomerRepo \<Rightarrow> string \<Rightarrow> CDDOverrideStatus \<Rightarrow> string \<Rightarrow> string \<Rightarrow> int \<Rightarrow>
   CDDScoreOverride result \<times> MemoryCustomerRepo" where
  "DecideCDDScoreOverride now r i status decidedBy rationale expectedVersion =
    (case tbl_get (cs_overrides r) i of
       None \<Rightarrow> (Inl (ErrNotFound ''cdd_score_override'' i), r)
     | Some o' \<Rightarrow>
         if expectedVersion \<le> 0 \<or> ov_Version o' \<noteq> expectedVersion
         then (Inl (ErrConflict ''cdd_score_override'' i ''version mismatch''), r)
         else if ov_Status o' \<noteq> CDDOverridePendingApproval
         then (Inl (ErrConflict ''cdd_score_override'' i
                 (''override is already '' @ CDDOverrideStatus_string (ov_Status o'))), r)
         else let o' = o'\<lparr>ov_Status := status, ov_DecidedBy := decidedBy, ov_DecidedAt := Some now,
                          ov_DecisionRationale := rationale, ov_Version := ov_Version o' + 1\<rparr>
              in (Inr o', r\<lparr>cs_overrides := tbl_put i o' (cs_overrides r)\<rparr>))"

text \<open>The evidence object of an override request.\<close>

definition overrideEvidenceKeys :: "string list" where
  "overrideEvidenceKeys = [''reason'', ''proposed_tier'', ''supporting_documents'']"

fun evidence_documents :: "any list \<Rightarrow> string list result" where
  "evidence_documents [] = Inr []"
| "evidence_documents (JString s # rest) =
    (if TrimSpace s = [] then Inl (ErrText ''override_evidence.supporting_documents must be an array of non-empty strings'')
     else case evidence_documents rest of Inl e \<Rightarrow> Inl e | Inr ds \<Rightarrow> Inr (TrimSpace s # ds))"
| "evidence_documents (_ # rest) =
    Inl (ErrText ''override_evidence.supporting_documents must be an array of non-empty strings'')"

definition ParseOverrideEvidence :: "(string \<times> any) list \<Rightarrow> (string \<times> RiskTier \<times> string list) result" where
  "ParseOverrideEvidence evidence =
    (if evidence = [] then Inl (ErrText ''override_evidence must not be empty'')
     else if \<exists>key \<in> set (map fst evidence). key \<notin> set overrideEvidenceKeys
     then Inl (ErrText ''override_evidence has unknown field'')
     else case map_of evidence ''reason'' of
       Some (JString raw) \<Rightarrow>
         if TrimSpace raw = [] then Inl (ErrText ''override_evidence.reason is required'')
         else (case map_of evidence ''proposed_tier'' of
           Some (JString tierRaw) \<Rightarrow>
             if TrimSpace tierRaw = [] then Inl (ErrText ''override_evidence.proposed_tier is required'')
             else let tier = RiskTier_of_string (ToLower (TrimSpace tierRaw)) in
               if tier \<notin> {RiskTierLow, RiskTierMedium, RiskTierHigh}
               then Inl (ErrText ''override_evidence.proposed_tier must be one of low, medium, high'')
               else (case map_of evidence ''supporting_documents'' of
                 None \<Rightarrow> Inr (TrimSpace raw, tier, [])
               | Some (JArray docs) \<Rightarrow>
                   (case evidence_documents docs of Inl e \<Rightarrow> Inl e | Inr ds \<Rightarrow> Inr (TrimSpace raw, tier, ds))
               | Some _ \<Rightarrow> Inl (ErrText ''override_evidence.supporting_documents must be an array of strings''))
         | _ \<Rightarrow> Inl (ErrText ''override_evidence.proposed_tier is required''))
     | _ \<Rightarrow> Inl (ErrText ''override_evidence.reason is required''))"

subsection \<open>Histories\<close>

text \<open>
  One rule per mutating method. Identifiers of new customers and new override requests are
  generated, so they are not in use.
\<close>

inductive customer_step :: "MemoryCustomerRepo \<Rightarrow> MemoryCustomerRepo \<Rightarrow> bool" where
  create: "tbl_get (cs_data r) (CanonicalUUID (cu_ID c)) = None \<Longrightarrow> customer_step r (snd (Customer_Create r c))"
| update: "customer_step r (snd (Customer_Update now r c))"
| update_unmodified: "customer_step r (snd (Customer_UpdateIfUnmodified now r c expected))"
| update_status: "customer_step r (snd (Customer_UpdateStatus now r i status))"
| save_score: "customer_step r (snd (SaveScoreRecord r rec))"
| edd_event: "customer_step r (snd (AppendCustomerEDDEvent now gen r ev))"
| propose: "tbl_get (cs_overrides r) (ov_ID p) = None \<Longrightarrow> customer_step r (snd (CreateCDDScoreOverride now r (Some p)))"
| decide: "customer_step r (snd (DecideCDDScoreOverride now r i st who why version))"

lemma nextCustomerMutationTime_later: "nextCustomerMutationTime previous observed > previous"
proof -
  have "previous < Truncate previous Microsecond + Microsecond"
    by (simp add: Truncate_def)
  moreover have "Truncate previous Microsecond + Microsecond \<le> Truncate observed Microsecond"
    if "Truncate previous Microsecond < Truncate observed Microsecond"
    using that by (simp add: Truncate_def minus_mod_eq_mult_div)
  ultimately show ?thesis by (auto simp: nextCustomerMutationTime_def Let_def not_less)
qed

text \<open>No step removes a customer, and its version never goes back.\<close>

lemma customer_step_version:
  assumes "customer_step r r'" and "tbl_get (cs_data r) k = Some c"
  shows "\<exists>c'. tbl_get (cs_data r') k = Some c' \<and> cu_UpdatedAt c \<le> cu_UpdatedAt c'"
  using assms
proof (induction rule: customer_step.induct)
  case (create r d)
  then show ?case by (auto simp: Customer_Create_def Let_def tbl_simps)
next
  case (update r now d)
  then show ?case using nextCustomerMutationTime_later [of "cu_UpdatedAt c" now]
    by (auto simp: Customer_Update_def Let_def tbl_simps split: option.split)
next
  case (update_unmodified r now d expected)
  then show ?case using nextCustomerMutationTime_later [of "cu_UpdatedAt c" now]
    by (auto simp: Customer_UpdateIfUnmodified_def Let_def tbl_simps split: option.split)
next
  case (update_status r now i status)
  then show ?case using nextCustomerMutationTime_later [of "cu_UpdatedAt c" now]
    by (auto simp: Customer_UpdateStatus_def Let_def tbl_simps split: option.split)
next
  case (edd_event r now gen ev)
  then show ?case by (auto simp: AppendCustomerEDDEvent_def Let_def split: option.split)
next
  case (decide r now i st who why version)
  then show ?case by (auto simp: DecideCDDScoreOverride_def Let_def split: option.split)
qed (simp_all add: SaveScoreRecord_def CreateCDDScoreOverride_def Let_def)

lemma customer_steps_version:
  "customer_step\<^sup>*\<^sup>* r r' \<Longrightarrow> tbl_get (cs_data r) k = Some c \<Longrightarrow>
   \<exists>c'. tbl_get (cs_data r') k = Some c' \<and> cu_UpdatedAt c \<le> cu_UpdatedAt c'"
proof (induction rule: rtranclp_induct)
  case (step y z)
  then obtain d where "tbl_get (cs_data y) k = Some d" "cu_UpdatedAt c \<le> cu_UpdatedAt d" by blast
  with customer_step_version [OF step.hyps(2) this(1)] show ?case by (meson order_trans)
qed auto

text \<open>
  C3. No lost update on customers. Two clients read the same version of a customer. Once the
  first one's conditional update is accepted, the second one's conditional update is refused with
  a conflict and changes nothing, however many other operations ran in between and whatever the
  clocks read (even if they stand still or run backwards).
\<close>

theorem customer_no_lost_update:
  assumes first: "Customer_UpdateIfUnmodified now1 r c1 version = (Inr c1', r1)"
    and between: "customer_step\<^sup>*\<^sup>* r1 r2"
    and same: "SameIdentifier (cu_ID c1) (cu_ID c2)"
  shows "\<exists>i reason. Customer_UpdateIfUnmodified now2 r2 c2 version = (Inl (ErrConflict ''customer'' i reason), r2)"
proof -
  let ?k = "CanonicalUUID (cu_ID c1)"
  from first obtain cur where cur: "tbl_get (cs_data r) ?k = Some cur" "cu_UpdatedAt cur = version"
    and c1': "tbl_get (cs_data r1) ?k = Some c1'" "cu_UpdatedAt c1' = nextCustomerMutationTime version now1"
    by (auto simp: Customer_UpdateIfUnmodified_def Let_def tbl_simps split: option.splits if_splits)
  from customer_steps_version [OF between c1'(1)] obtain d
    where d: "tbl_get (cs_data r2) ?k = Some d" "cu_UpdatedAt c1' \<le> cu_UpdatedAt d" by blast
  have "cu_UpdatedAt d \<noteq> version"
    using d(2) c1'(2) nextCustomerMutationTime_later [of version now1] by linarith
  moreover have "CanonicalUUID (cu_ID c2) = ?k"
    using same by (simp add: SameIdentifier_def CanonicalIdentifier_def)
  ultimately show ?thesis using d(1) by (simp add: Customer_UpdateIfUnmodified_def Let_def)
qed

definition sample_customer :: Customer where
  "sample_customer = \<lparr>cu_ID = ''c1'', cu_ExternalID = ''ext-1'', cu_CustomerType = CustomerTypeIndividual,
     cu_CountryCode = ''JP'', cu_ProductTypes = [], cu_Status = CustomerStatusActive, cu_Attributes = [],
     cu_RiskScore = None, cu_RiskTier = None, cu_LastScoredAt = None, cu_CreatedAt = 1, cu_UpdatedAt = 1500,
     cu_SourceUpdatedAt = None, cu_NextReviewAt = None, cu_LastReviewAt = None, cu_ReviewTier = None,
     cu_ReviewPolicyVersion = [], cu_ReviewPolicyDigest = [], cu_EddRequestedAt = None,
     cu_EddStage1LastSentAt = None, cu_EddStage2NotifiedAt = None, cu_EddStage3NotifiedAt = None,
     cu_EddCompletedAt = None, cu_EddClosedAt = None, cu_EddCloseReason = [], cu_EddCaseID = [],
     cu_AnonymizedAt = None\<rparr>"

theorem customer_no_lost_update_witness:
  "\<exists>r1 c1'. Customer_UpdateIfUnmodified 0 (snd (Customer_Create NewMemoryCustomerRepo sample_customer))
      (sample_customer\<lparr>cu_CountryCode := ''US''\<rparr>) 1500 = (Inr c1', r1) \<and>
    (\<exists>i reason. Customer_UpdateIfUnmodified 0 r1 sample_customer 1500 = (Inl (ErrConflict ''customer'' i reason), r1))"
proof -
  let ?run = "Customer_UpdateIfUnmodified 0 (snd (Customer_Create NewMemoryCustomerRepo sample_customer))
      (sample_customer\<lparr>cu_CountryCode := ''US''\<rparr>) 1500"
  have "is_ok (fst ?run)" by code_simp
  then obtain c1' r1 where run: "?run = (Inr c1', r1)" by (metis is_ok_iff prod.collapse)
  have "\<exists>i reason. Customer_UpdateIfUnmodified 0 r1 sample_customer 1500 = (Inl (ErrConflict ''customer'' i reason), r1)"
    by (rule customer_no_lost_update [OF run rtranclp.rtrancl_refl]) simp
  with run show ?thesis by blast
qed

lemma customer_step_override:
  assumes "customer_step r r'" and "tbl_get (cs_overrides r) i = Some p" and "ov_Status p \<noteq> CDDOverridePendingApproval"
  shows "tbl_get (cs_overrides r') i = Some p"
  using assms
proof (induction rule: customer_step.induct)
  case (propose r q now)
  then show ?case by (auto simp: CreateCDDScoreOverride_def Let_def tbl_simps)
next
  case (decide r now j st who why version)
  then show ?case
    by (auto simp: DecideCDDScoreOverride_def Let_def tbl_simps split: option.split)
next
  case (edd_event r now gen ev)
  then show ?case by (auto simp: AppendCustomerEDDEvent_def Let_def split: option.split)
next
  case (update r now d)
  then show ?case by (auto simp: Customer_Update_def Let_def split: option.split)
next
  case (update_unmodified r now d expected)
  then show ?case by (auto simp: Customer_UpdateIfUnmodified_def Let_def split: option.split)
next
  case (update_status r now j status)
  then show ?case by (auto simp: Customer_UpdateStatus_def Let_def split: option.split)
qed (simp_all add: Customer_Create_def SaveScoreRecord_def Let_def)

text \<open>
  An override is decided once. A decision is accepted only on a request that is pending and
  at the version the decider saw; once a request is approved or rejected, no later operation
  changes its record and every further decision is refused without effect.
\<close>

theorem override_decided_once:
  assumes "DecideCDDScoreOverride now r i st who why version = (Inr p, r1)" and "st \<noteq> CDDOverridePendingApproval"
    and "customer_step\<^sup>*\<^sup>* r1 r2"
  shows "(\<exists>q. tbl_get (cs_overrides r) i = Some q \<and> ov_Status q = CDDOverridePendingApproval \<and> ov_Version q = version) \<and>
    tbl_get (cs_overrides r2) i = Some p \<and> ov_Status p = st \<and> ov_DecidedBy p = who \<and>
    (\<exists>reason. DecideCDDScoreOverride now' r2 i st' who' why' version' = (Inl (ErrConflict ''cdd_score_override'' i reason), r2))"
proof -
  from assms(1) obtain q where q: "tbl_get (cs_overrides r) i = Some q" "ov_Status q = CDDOverridePendingApproval"
      "ov_Version q = version"
    and p: "tbl_get (cs_overrides r1) i = Some p" "ov_Status p = st" "ov_DecidedBy p = who"
    by (auto simp: DecideCDDScoreOverride_def Let_def tbl_simps split: option.splits if_splits)
  from assms(3) have "tbl_get (cs_overrides r2) i = Some p"
    using p(1,2) assms(2) by (induction rule: rtranclp_induct) (auto dest: customer_step_override)
  with q p assms(2) show ?thesis by (auto simp: DecideCDDScoreOverride_def)
qed

definition sample_override :: CDDScoreOverride where
  "sample_override = \<lparr>ov_ID = ''o1'', ov_CustomerID = ''c1'', ov_ScoreRecordID = [], ov_ProposedTier = RiskTierLow,
     ov_ComputedTier = RiskTierHigh, ov_ComputedScore = F64 5, ov_Reason = ''documents'', ov_SupportingDocuments = [],
     ov_Evidence = [], ov_Status = CDDOverridePendingApproval, ov_RequestedBy = ''maker'', ov_RequestedAt = 7,
     ov_DecidedBy = [], ov_DecidedAt = None, ov_DecisionRationale = [], ov_Version = 0\<rparr>"

theorem override_decided_once_witness:
  "\<exists>p r1. DecideCDDScoreOverride 9 (snd (CreateCDDScoreOverride 8 NewMemoryCustomerRepo (Some sample_override)))
      ''o1'' CDDOverrideApproved ''checker'' ''ok'' 1 = (Inr p, r1) \<and> ov_DecidedBy p = ''checker'' \<and>
    (\<exists>reason. DecideCDDScoreOverride 10 r1 ''o1'' CDDOverrideRejected ''other'' ''no'' 2 =
       (Inl (ErrConflict ''cdd_score_override'' ''o1'' reason), r1))"
proof -
  let ?run = "DecideCDDScoreOverride 9 (snd (CreateCDDScoreOverride 8 NewMemoryCustomerRepo (Some sample_override)))
      ''o1'' CDDOverrideApproved ''checker'' ''ok'' 1"
  have "is_ok (fst ?run)" by code_simp
  then obtain p r1 where run: "?run = (Inr p, r1)" by (metis is_ok_iff prod.collapse)
  from override_decided_once [OF run _ rtranclp.rtrancl_refl] run show ?thesis by auto
qed

end
