(* ===== verification/Policies.thy ===== *)
theory Policies
  imports Customers Status_Lifecycle
begin

text \<open>
  The operator-editable policy documents: case priority
  (\<^verbatim>\<open>src/api/internal/casemgmt/priority_policy.go\<close>) and, from \<^verbatim>\<open>src/api/internal/policy/\<close>, EDD stages
  (\<^verbatim>\<open>edd.go\<close>), service levels (\<^verbatim>\<open>sla.go\<close>), required KYC fields (\<^verbatim>\<open>kyc.go\<close>) and the periodic
  review schedule (\<^verbatim>\<open>cdd_review.go\<close>). A document is what YAML decoding produced; a nil receiver
  is \<open>None\<close> and reads as the in-code default. The text of a validation error is its fixed part,
  without the index or the quoted value. \<^verbatim>\<open>AddDate(0, 0, d)\<close> on a UTC time is \<open>d\<close> days.
\<close>

subsection \<open>Shared helpers\<close>

definition requireVersion :: "string \<Rightarrow> string \<Rightarrow> string \<Rightarrow> string \<Rightarrow> unit result" where
  "requireVersion kind schemaVersion wantSchema policyVersion =
    (if schemaVersion \<noteq> wantSchema then Inl (ErrText (kind @ '': schema_version must be '' @ wantSchema))
     else if TrimSpace policyVersion = [] then Inl (ErrText (kind @ '': policy_version is required''))
     else Inr ())"

fun duplicates_from :: "string list \<Rightarrow> string list \<Rightarrow> string option" where
  "duplicates_from seen [] = None"
| "duplicates_from seen (v # vs) = (if v \<in> set seen then Some v else duplicates_from (v # seen) vs)"

definition duplicates :: "string list \<Rightarrow> string option" where
  "duplicates vs = duplicates_from [] vs"

definition validCasePriority :: "CasePriority \<Rightarrow> bool" where
  "validCasePriority p \<longleftrightarrow> p \<in> {CasePriorityLow, CasePriorityMedium, CasePriorityHigh, CasePriorityCritical}"

definition add_days :: "time \<Rightarrow> int \<Rightarrow> time" where
  "add_days t d = t + d * Day"

subsection \<open>Case priority\<close>

record PriorityBand =
  pb_Min :: float64
  pb_Max :: "float64 option"
  pb_Priority :: CasePriority

record PriorityPolicy =
  pp_SchemaVersion :: string
  pp_PolicyVersion :: string
  pp_Unscored :: CasePriority
  pp_TierPriorities :: "(RiskTier \<times> CasePriority) list"
  pp_ScoreBands :: "PriorityBand list"

definition DefaultPriorityPolicy :: PriorityPolicy where
  "DefaultPriorityPolicy =
    \<lparr>pp_SchemaVersion = ''case_priority_v1'', pp_PolicyVersion = ''default-2026-08-04'',
     pp_Unscored = CasePriorityMedium,
     pp_TierPriorities = [(RiskTierLow, CasePriorityLow), (RiskTierMedium, CasePriorityMedium),
       (RiskTierHigh, CasePriorityHigh)],
     pp_ScoreBands =
       [\<lparr>pb_Min = F64 0, pb_Max = Some (F64 2), pb_Priority = CasePriorityLow\<rparr>,
        \<lparr>pb_Min = F64 2, pb_Max = Some (F64 4), pb_Priority = CasePriorityMedium\<rparr>,
        \<lparr>pb_Min = F64 4, pb_Max = None, pb_Priority = CasePriorityHigh\<rparr>]\<rparr>"

definition validPriority :: "CasePriority \<Rightarrow> bool" where
  "validPriority p \<longleftrightarrow> p \<in> {CasePriorityLow, CasePriorityMedium, CasePriorityHigh, CasePriorityCritical}"

text \<open>A missing map key reads as the zero value, the empty string.\<close>

definition tier_priority :: "PriorityPolicy \<Rightarrow> RiskTier \<Rightarrow> CasePriority" where
  "tier_priority p tier = (case map_of (pp_TierPriorities p) tier of Some x \<Rightarrow> x | None \<Rightarrow> CasePriorityOther [])"

fun validate_bands :: "float64 \<Rightarrow> PriorityBand list \<Rightarrow> unit result" where
  "validate_bands previousMax [] = Inr ()"
| "validate_bands previousMax (b # bs) =
    (if pb_Min b = F64_NaN \<or> f64_lt (pb_Min b) previousMax \<or> \<not> validPriority (pb_Priority b)
     then Inl (ErrText ''score_bands is invalid or overlaps a previous band'')
     else case pb_Max b of
       Some m \<Rightarrow>
         if f64_le m (pb_Min b) \<or> m = F64_NaN then Inl (ErrText ''score_bands max must be greater than min'')
         else validate_bands m bs
     | None \<Rightarrow> validate_bands F64_PosInf bs)"

definition PriorityPolicy_Validate :: "PriorityPolicy option \<Rightarrow> unit result" where
  "PriorityPolicy_Validate p =
    (case p of None \<Rightarrow> Inl (ErrText ''policy is nil'') | Some p \<Rightarrow>
     if pp_SchemaVersion p \<noteq> ''case_priority_v1'' then Inl (ErrText ''schema_version must be case_priority_v1'')
     else if TrimSpace (pp_PolicyVersion p) = [] then Inl (ErrText ''policy_version is required'')
     else if \<not> validPriority (pp_Unscored p) then Inl (ErrText ''unscored_priority is invalid'')
     else if \<exists>tier \<in> set [RiskTierLow, RiskTierMedium, RiskTierHigh]. \<not> validPriority (tier_priority p tier)
     then Inl (ErrText ''tier_priorities is required and invalid'')
     else validate_bands F64_NegInf (pp_ScoreBands p))"

definition in_band :: "float64 \<Rightarrow> PriorityBand \<Rightarrow> bool" where
  "in_band score b \<longleftrightarrow> f64_le (pb_Min b) score \<and> (case pb_Max b of None \<Rightarrow> True | Some m \<Rightarrow> f64_lt score m)"

definition PriorityFor :: "PriorityPolicy option \<Rightarrow> Customer option \<Rightarrow> CasePriority" where
  "PriorityFor p customer =
    (case (p, customer) of
       (Some p, Some c) \<Rightarrow>
         let by_tier = (case cu_RiskTier c of
               Some tier \<Rightarrow> (case map_of (pp_TierPriorities p) tier of Some pr \<Rightarrow> pr | None \<Rightarrow> pp_Unscored p)
             | None \<Rightarrow> pp_Unscored p)
         in (case cu_RiskScore c of
               Some score \<Rightarrow> (case find (in_band score) (pp_ScoreBands p) of
                   Some b \<Rightarrow> pb_Priority b | None \<Rightarrow> by_tier)
             | None \<Rightarrow> by_tier)
     | _ \<Rightarrow> CasePriorityMedium)"

definition PriorityPolicy_Version :: "PriorityPolicy option \<Rightarrow> string" where
  "PriorityPolicy_Version p =
    (case p of None \<Rightarrow> ''unknown'' | Some p \<Rightarrow>
     if TrimSpace (pp_PolicyVersion p) = [] then ''unknown'' else pp_PolicyVersion p)"

subsection \<open>Enhanced due diligence\<close>

datatype EDDTierDowngrade = EDDRetainEvidence | EDDCloseWindow | EDDTierDowngradeOther string

record EDDStage =
  es_Name :: string
  es_AfterDays :: int
  es_Action :: string
  es_CasePriority :: CasePriority

record EDDPolicy =
  ep_SchemaVersion :: string
  ep_PolicyVersion :: string
  ep_TriggerTiers :: "RiskTier list"
  ep_Stages :: "EDDStage list"
  ep_DueDays :: int
  ep_RequiresRationale :: bool
  ep_RequiresCaseLink :: bool
  ep_TierDowngrade :: EDDTierDowngrade

definition DefaultEDD :: EDDPolicy where
  "DefaultEDD =
    \<lparr>ep_SchemaVersion = ''edd_policy_v1'', ep_PolicyVersion = ''2026-08-06-default'',
     ep_TriggerTiers = [RiskTierHigh],
     ep_Stages =
       [\<lparr>es_Name = ''stage1'', es_AfterDays = 30, es_Action = ''reminder'', es_CasePriority = CasePriorityOther []\<rparr>,
        \<lparr>es_Name = ''stage2'', es_AfterDays = 60, es_Action = ''transaction_restriction_recommended'',
         es_CasePriority = CasePriorityHigh\<rparr>,
        \<lparr>es_Name = ''stage3'', es_AfterDays = 90, es_Action = ''relationship_decline_recommended'',
         es_CasePriority = CasePriorityCritical\<rparr>],
     ep_DueDays = 90, ep_RequiresRationale = True, ep_RequiresCaseLink = False,
     ep_TierDowngrade = EDDRetainEvidence\<rparr>"

text \<open>The loop over the stages; the result is the last \<^verbatim>\<open>previous\<close>.\<close>

fun validate_stages :: "int \<Rightarrow> EDDStage list \<Rightarrow> int result" where
  "validate_stages previous [] = Inr previous"
| "validate_stages previous (s # ss) =
    (if TrimSpace (es_Name s) = [] then Inl (ErrText ''stages.name is required'')
     else if es_AfterDays s \<le> previous then Inl (ErrText ''stages.after_days must be greater than the previous stage'')
     else if TrimSpace (es_Action s) = [] then Inl (ErrText ''stages.action is required'')
     else if es_CasePriority s \<noteq> CasePriorityOther [] \<and> \<not> validCasePriority (es_CasePriority s)
     then Inl (ErrText ''stages.case_priority is invalid'')
     else validate_stages (es_AfterDays s) ss)"

definition EDDPolicy_Validate :: "EDDPolicy option \<Rightarrow> unit result" where
  "EDDPolicy_Validate p =
    (case p of None \<Rightarrow> Inl (ErrText ''policy is nil'') | Some p \<Rightarrow>
     case requireVersion ''edd'' (ep_SchemaVersion p) ''edd_policy_v1'' (ep_PolicyVersion p) of Inl e \<Rightarrow> Inl e | Inr _ \<Rightarrow>
     if ep_TriggerTiers p = [] then Inl (ErrText ''trigger_tiers must list at least one tier'')
     else if \<exists>t \<in> set (ep_TriggerTiers p). t \<notin> {RiskTierLow, RiskTierMedium, RiskTierHigh}
     then Inl (ErrText ''trigger_tiers contains an unknown tier'')
     else if ep_Stages p = [] then Inl (ErrText ''stages must list at least one stage'')
     else case validate_stages 0 (ep_Stages p) of Inl e \<Rightarrow> Inl e | Inr previous \<Rightarrow>
     if duplicates (map es_Name (ep_Stages p)) \<noteq> None then Inl (ErrText ''stages repeat the name'')
     else if ep_DueDays p < previous then Inl (ErrText ''due_days must be at least the last stage after_days'')
     else if ep_TierDowngrade p \<notin> {EDDRetainEvidence, EDDCloseWindow}
     then Inl (ErrText ''tier_downgrade must be retain_evidence or close_window'')
     else Inr ())"

definition edd_resolved :: "EDDPolicy option \<Rightarrow> EDDPolicy" where
  "edd_resolved p = (case p of None \<Rightarrow> DefaultEDD | Some p \<Rightarrow> p)"

definition EDD_Triggers :: "EDDPolicy option \<Rightarrow> RiskTier \<Rightarrow> bool" where
  "EDD_Triggers p tier \<longleftrightarrow> tier \<in> set (ep_TriggerTiers (edd_resolved p))"

definition StageDays :: "EDDPolicy option \<Rightarrow> string \<Rightarrow> int option" where
  "StageDays p name = map_option es_AfterDays (find (\<lambda>s. es_Name s = name) (ep_Stages (edd_resolved p)))"

text \<open>The loop with its \<^verbatim>\<open>break\<close>; the accumulator is \<^verbatim>\<open>current\<close>.\<close>

fun stage_loop :: "int \<Rightarrow> EDDStage option \<Rightarrow> EDDStage list \<Rightarrow> EDDStage option \<times> EDDStage option" where
  "stage_loop elapsed current [] = (current, None)"
| "stage_loop elapsed current (s # ss) =
    (if elapsed \<ge> es_AfterDays s then stage_loop elapsed (Some s) ss else (current, Some s))"

definition EDD_Stage :: "EDDPolicy option \<Rightarrow> int \<Rightarrow> EDDStage option \<times> EDDStage option" where
  "EDD_Stage p elapsedDays = stage_loop elapsedDays None (ep_Stages (edd_resolved p))"

definition EDD_DueAt :: "EDDPolicy option \<Rightarrow> time \<Rightarrow> time" where
  "EDD_DueAt p requestedAt = add_days requestedAt (ep_DueDays (edd_resolved p))"

definition EDD_IsOverdue :: "EDDPolicy option \<Rightarrow> time \<Rightarrow> time \<Rightarrow> bool" where
  "EDD_IsOverdue p requestedAt now \<longleftrightarrow> now > EDD_DueAt p requestedAt"

definition RetainOnDowngrade :: "EDDPolicy option \<Rightarrow> bool" where
  "RetainOnDowngrade p \<longleftrightarrow> ep_TierDowngrade (edd_resolved p) \<noteq> EDDCloseWindow"

subsection \<open>Service levels\<close>

datatype SLAState = SLANotConfigured | SLARunning | SLABreached | SLAMet

record SLARule =
  sr_Kind :: string
  sr_Severity :: string
  sr_Priority :: string
  sr_WithinHours :: int
  sr_Description :: string

record SLAPolicy =
  sp_SchemaVersion :: string
  sp_PolicyVersion :: string
  sp_Rules :: "SLARule list"

definition DefaultSLAPolicy :: SLAPolicy where
  "DefaultSLAPolicy = \<lparr>sp_SchemaVersion = ''sla_policy_v1'', sp_PolicyVersion = ''2026-08-08-unset'', sp_Rules = []\<rparr>"

fun validate_sla_rules :: "SLARule list \<Rightarrow> unit result" where
  "validate_sla_rules [] = Inr ()"
| "validate_sla_rules (r # rs) =
    (if sr_Kind r \<noteq> ''alert'' \<and> sr_Kind r \<noteq> ''case'' then Inl (ErrText ''rules.kind must be alert or case'')
     else if sr_WithinHours r \<le> 0 then Inl (ErrText ''rules.within_hours must be positive'')
     else if sr_Kind r = ''alert'' \<and> sr_Priority r \<noteq> []
     then Inl (ErrText ''rules is an alert rule and cannot name a case priority'')
     else if sr_Kind r = ''case'' \<and> sr_Severity r \<noteq> []
     then Inl (ErrText ''rules is a case rule and cannot name an alert severity'')
     else validate_sla_rules rs)"

definition SLAPolicy_Validate :: "SLAPolicy option \<Rightarrow> unit result" where
  "SLAPolicy_Validate p =
    (case p of None \<Rightarrow> Inl (ErrText ''SLA policy is nil'') | Some p \<Rightarrow>
     case requireVersion ''SLA'' (sp_SchemaVersion p) ''sla_policy_v1'' (sp_PolicyVersion p) of
       Inl e \<Rightarrow> Inl e | Inr _ \<Rightarrow> validate_sla_rules (sp_Rules p))"

definition sla_resolved :: "SLAPolicy option \<Rightarrow> SLAPolicy" where
  "sla_resolved p = (case p of None \<Rightarrow> DefaultSLAPolicy | Some p \<Rightarrow> p)"

definition SLA_Configured :: "SLAPolicy option \<Rightarrow> bool" where
  "SLA_Configured p \<longleftrightarrow> sp_Rules (sla_resolved p) \<noteq> []"

definition sla_named :: "string \<Rightarrow> SLARule \<Rightarrow> string" where
  "sla_named kind r = (if kind = ''case'' then sr_Priority r else sr_Severity r)"

definition sla_deadline :: "time \<Rightarrow> SLARule \<Rightarrow> time" where
  "sla_deadline basis r = basis + int64 (sr_WithinHours r * Hour)"

text \<open>The loop of \<^verbatim>\<open>due\<close>; the accumulator is \<^verbatim>\<open>blanket\<close>.\<close>

fun due_loop :: "string \<Rightarrow> string \<Rightarrow> time \<Rightarrow> SLARule option \<Rightarrow> SLARule list \<Rightarrow> time option" where
  "due_loop kind level basis blanket [] = map_option (sla_deadline basis) blanket"
| "due_loop kind level basis blanket (r # rs) =
    (if sr_Kind r \<noteq> kind then due_loop kind level basis blanket rs
     else if sla_named kind r = []
     then due_loop kind level basis (if blanket = None then Some r else blanket) rs
     else if EqualFold (sla_named kind r) level then Some (sla_deadline basis r)
     else due_loop kind level basis blanket rs)"

definition sla_due :: "SLAPolicy \<Rightarrow> string \<Rightarrow> string \<Rightarrow> time \<Rightarrow> time option" where
  "sla_due p kind level basis = (if IsZero basis then None else due_loop kind level basis None (sp_Rules p))"

fun AlertSeverity_string :: "AlertSeverity \<Rightarrow> string" where
  "AlertSeverity_string AlertSeverityLow = ''low''"
| "AlertSeverity_string AlertSeverityMedium = ''medium''"
| "AlertSeverity_string AlertSeverityHigh = ''high''"
| "AlertSeverity_string AlertSeverityCritical = ''critical''"
| "AlertSeverity_string (AlertSeverityOther s) = s"

definition AlertDue :: "SLAPolicy option \<Rightarrow> AlertSeverity \<Rightarrow> time \<Rightarrow> time option" where
  "AlertDue p severity basis = sla_due (sla_resolved p) ''alert'' (AlertSeverity_string severity) basis"

definition CaseDue :: "SLAPolicy option \<Rightarrow> string \<Rightarrow> time \<Rightarrow> time option" where
  "CaseDue p priority basis = sla_due (sla_resolved p) ''case'' priority basis"

definition SLA_State :: "SLAPolicy option \<Rightarrow> time option \<Rightarrow> time option \<Rightarrow> time \<Rightarrow> SLAState" where
  "SLA_State p due resolvedAt now =
    (case due of
       None \<Rightarrow> SLANotConfigured
     | Some d \<Rightarrow>
         if \<not> SLA_Configured p then SLANotConfigured
         else case resolvedAt of
           Some t \<Rightarrow> if t > d then SLABreached else SLAMet
         | None \<Rightarrow> if now > d then SLABreached else SLARunning)"

subsection \<open>Priority bands\<close>

lemma validate_bands_lower:
  "validate_bands prev bs = Inr u \<Longrightarrow> prev \<noteq> F64_NaN \<Longrightarrow> b \<in> set bs \<Longrightarrow>
   f64_le prev (pb_Min b) \<and> pb_Min b \<noteq> F64_NaN \<and> validPriority (pb_Priority b)"
proof (induction bs arbitrary: prev)
  case (Cons c bs)
  have c: "pb_Min c \<noteq> F64_NaN" "\<not> f64_lt (pb_Min c) prev" "validPriority (pb_Priority c)"
    using Cons.prems(1) by (auto split: if_splits)
  then have le: "f64_le prev (pb_Min c)" using Cons.prems(2) by (simp add: f64_not_lt_iff)
  define m where "m = (case pb_Max c of Some m \<Rightarrow> m | None \<Rightarrow> F64_PosInf)"
  have m: "m \<noteq> F64_NaN" "\<not> f64_le m (pb_Min c) \<or> m = F64_PosInf" "validate_bands m bs = Inr u"
    using Cons.prems(1) by (auto simp: m_def split: if_splits option.splits)
  have "f64_le (pb_Min c) m"
    using m(1,2) c(1) by (cases "pb_Min c"; cases m) (auto simp: f64_le_def f64_eq_def)
  with le have "f64_le prev m" by (rule f64_le_trans)
  with Cons.IH [OF m(3,1)] c le Cons.prems(3) show ?case by (auto intro: f64_le_trans)
qed simp

definition disjoint_bands :: "PriorityBand \<Rightarrow> PriorityBand \<Rightarrow> bool" where
  "disjoint_bands b c \<longleftrightarrow> (\<forall>q. \<not> (in_band (F64 q) b \<and> in_band (F64 q) c))"

lemma validate_bands_disjoint:
  "validate_bands prev bs = Inr u \<Longrightarrow> prev \<noteq> F64_NaN \<Longrightarrow> sorted_wrt disjoint_bands bs"
proof (induction bs arbitrary: prev)
  case (Cons b bs)
  define m where "m = (case pb_Max b of Some m \<Rightarrow> m | None \<Rightarrow> F64_PosInf)"
  have m: "m \<noteq> F64_NaN" "validate_bands m bs = Inr u"
    using Cons.prems(1) by (auto simp: m_def split: if_splits option.splits)
  have "disjoint_bands b c" if "c \<in> set bs" for c
  proof -
    have "f64_le m (pb_Min c)" using validate_bands_lower [OF m(2,1) that] by simp
    moreover have "f64_lt (F64 q) m" if "in_band (F64 q) b" for q
      using that by (auto simp: in_band_def m_def split: option.splits)
    ultimately have "\<not> f64_le (pb_Min c) (F64 q)" if "in_band (F64 q) b" for q
      using that by (metis f64_le_lt_trans f64_le_trans f64_lt_irrefl)
    then show ?thesis by (auto simp: disjoint_bands_def in_band_def)
  qed
  with Cons.IH [OF m(2,1)] show ?case by simp
qed simp

definition known_tier :: "RiskTier option \<Rightarrow> bool" where
  "known_tier t \<longleftrightarrow> t \<in> {None, Some RiskTierLow, Some RiskTierMedium, Some RiskTierHigh}"

text \<open>
  Case priority. A policy that passes \<open>Validate\<close> gives every customer of a known tier one of the
  four priorities; no finite score lies in two of its bands, so the order of the bands does not
  matter: a customer whose score lies in a band gets that band's priority.
\<close>

theorem priority_policy_sound:
  assumes "PriorityPolicy_Validate (Some p) = Inr ()" and "known_tier (cu_RiskTier c)"
  shows "validPriority (PriorityFor (Some p) (Some c)) \<and> sorted_wrt disjoint_bands (pp_ScoreBands p) \<and>
    (\<forall>q b. cu_RiskScore c = Some (F64 q) \<longrightarrow> b \<in> set (pp_ScoreBands p) \<longrightarrow> in_band (F64 q) b \<longrightarrow>
       PriorityFor (Some p) (Some c) = pb_Priority b)"
proof -
  have bands: "validate_bands F64_NegInf (pp_ScoreBands p) = Inr ()"
    and tiers: "\<forall>t \<in> {RiskTierLow, RiskTierMedium, RiskTierHigh}. validPriority (tier_priority p t)"
    and un: "validPriority (pp_Unscored p)"
    using assms(1) by (auto simp: PriorityPolicy_Validate_def split: if_splits)
  have srt: "sorted_wrt disjoint_bands (pp_ScoreBands p)"
    using validate_bands_disjoint [OF bands] by simp
  have bandp: "validPriority (pb_Priority b)" if "find P (pp_ScoreBands p) = Some b" for P b
    using that validate_bands_lower [OF bands] by (auto simp: find_Some_iff)
  have "validPriority (case cu_RiskTier c of
      Some tier \<Rightarrow> (case map_of (pp_TierPriorities p) tier of Some pr \<Rightarrow> pr | None \<Rightarrow> pp_Unscored p)
    | None \<Rightarrow> pp_Unscored p)"
    using tiers un assms(2) by (auto simp: known_tier_def tier_priority_def split: option.splits)
  then have "validPriority (PriorityFor (Some p) (Some c))"
    using bandp by (auto simp: PriorityFor_def Let_def split: option.splits)
  moreover have "PriorityFor (Some p) (Some c) = pb_Priority b"
    if "cu_RiskScore c = Some (F64 q)" "b \<in> set (pp_ScoreBands p)" "in_band (F64 q) b" for q b
  proof -
    have "find (in_band (F64 q)) (pp_ScoreBands p) \<noteq> None" using that by (auto simp: find_None_iff)
    then obtain d where d: "find (in_band (F64 q)) (pp_ScoreBands p) = Some d" by auto
    then have "in_band (F64 q) d" "d \<in> set (pp_ScoreBands p)" by (auto simp: find_Some_iff)
    with srt that have "d = b"
      by (metis disjoint_bands_def in_set_conv_nth linorder_neqE_nat sorted_wrt_iff_nth_less)
    with d that(1) show ?thesis by (simp add: PriorityFor_def)
  qed
  ultimately show ?thesis using srt by blast
qed

theorem priority_policy_sound_witness:
  "PriorityFor (Some DefaultPriorityPolicy) (Some (sample_customer\<lparr>cu_RiskScore := Some (F64 3)\<rparr>)) = CasePriorityMedium"
proof -
  have "PriorityPolicy_Validate (Some DefaultPriorityPolicy) = Inr ()" by code_simp
  from priority_policy_sound [OF this, of "sample_customer\<lparr>cu_RiskScore := Some (F64 3)\<rparr>"]
  show ?thesis
    by (auto simp: known_tier_def sample_customer_def DefaultPriorityPolicy_def in_band_def f64_le_def)
qed

subsection \<open>EDD stages\<close>

lemma validate_stages_increasing:
  "validate_stages prev ss = Inr lst \<Longrightarrow>
   sorted_wrt (\<lambda>s t. es_AfterDays s < es_AfterDays t) ss \<and> (\<forall>s \<in> set ss. prev < es_AfterDays s \<and> es_AfterDays s \<le> lst) \<and>
   prev \<le> lst"
proof (induction ss arbitrary: prev)
  case (Cons s ss)
  have s: "prev < es_AfterDays s" "validate_stages (es_AfterDays s) ss = Inr lst"
    using Cons.prems by (auto split: if_splits)
  from Cons.IH [OF s(2)] s(1) show ?case by fastforce
qed simp

lemma strict_key_last:
  "sorted_wrt (\<lambda>x y. k x < (k y :: int)) ys \<Longrightarrow> y \<in> set ys \<Longrightarrow> k y \<le> k (last ys)"
proof (induction ys)
  case (Cons a ys)
  then show ?case by (cases "ys = []") (auto simp: less_imp_le)
qed simp

lemma strict_key_hd:
  "sorted_wrt (\<lambda>x y. k x < (k y :: int)) ys \<Longrightarrow> y \<in> set ys \<Longrightarrow> k (hd ys) \<le> k y"
  by (cases ys) force+

lemma strict_key_inj:
  "sorted_wrt (\<lambda>x y. k x < (k y :: int)) ys \<Longrightarrow> x \<in> set ys \<Longrightarrow> y \<in> set ys \<Longrightarrow> k x = k y \<Longrightarrow> x = y"
  by (induction ys) force+

lemma strict_key_greatest:
  assumes "sorted_wrt (\<lambda>x y. k x < (k y :: int)) ys" and "ys \<noteq> []"
  shows "last ys = s \<longleftrightarrow> s \<in> set ys \<and> (\<forall>t \<in> set ys. k t \<le> k s)"
  using assms strict_key_last [OF assms(1)] strict_key_inj [OF assms(1)] by (metis antisym last_in_set)

lemma strict_key_least:
  assumes "sorted_wrt (\<lambda>x y. k x < (k y :: int)) ys" and "ys \<noteq> []"
  shows "hd ys = s \<longleftrightarrow> s \<in> set ys \<and> (\<forall>t \<in> set ys. k s \<le> k t)"
  using assms strict_key_hd [OF assms(1)] strict_key_inj [OF assms(1)] by (metis antisym hd_in_set)

lemma stage_loop_split:
  assumes "sorted_wrt (\<lambda>s t. es_AfterDays s < es_AfterDays t) ss"
  shows "stage_loop d cur ss =
    (let fired = filter (\<lambda>s. es_AfterDays s \<le> d) ss; rest = filter (\<lambda>s. d < es_AfterDays s) ss
     in (if fired = [] then cur else Some (last fired), if rest = [] then None else Some (hd rest)))"
  using assms
proof (induction ss arbitrary: cur)
  case (Cons s ss)
  show ?case
  proof (cases "es_AfterDays s \<le> d")
    case True
    with Cons show ?thesis by (simp add: Let_def)
  next
    case False
    with Cons.prems have "filter (\<lambda>t. es_AfterDays t \<le> d) ss = []"
      by (fastforce simp: filter_empty_conv)
    with False show ?thesis by (simp add: Let_def)
  qed
qed (simp add: Let_def)

text \<open>
  EDD stages. Under a policy that passes \<open>Validate\<close> the current stage is the latest stage whose
  day has come and the next stage the earliest one still ahead; every stage has fired by the
  due date; and as days pass the current stage never moves back.
\<close>

theorem edd_stage_progress:
  assumes "EDDPolicy_Validate (Some p) = Inr ()" and "d \<le> d'"
  shows "(case EDD_Stage (Some p) d of (cur, nxt) \<Rightarrow>
      (\<forall>s. cur = Some s \<longleftrightarrow> s \<in> set (ep_Stages p) \<and> es_AfterDays s \<le> d \<and>
         (\<forall>t \<in> set (ep_Stages p). es_AfterDays t \<le> d \<longrightarrow> es_AfterDays t \<le> es_AfterDays s)) \<and>
      (\<forall>s. nxt = Some s \<longleftrightarrow> s \<in> set (ep_Stages p) \<and> d < es_AfterDays s \<and>
         (\<forall>t \<in> set (ep_Stages p). d < es_AfterDays t \<longrightarrow> es_AfterDays s \<le> es_AfterDays t)))
    \<and> (ep_DueDays p \<le> d \<longrightarrow> snd (EDD_Stage (Some p) d) = None)
    \<and> (\<forall>s. fst (EDD_Stage (Some p) d) = Some s \<longrightarrow>
          (\<exists>s'. fst (EDD_Stage (Some p) d') = Some s' \<and> es_AfterDays s \<le> es_AfterDays s'))"
proof -
  obtain prev where v: "validate_stages 0 (ep_Stages p) = Inr prev" and due: "prev \<le> ep_DueDays p"
    using assms(1) by (auto simp: EDDPolicy_Validate_def split: if_splits sum.splits)
  from validate_stages_increasing [OF v]
  have srt: "sorted_wrt (\<lambda>s t. es_AfterDays s < es_AfterDays t) (ep_Stages p)"
    and top: "\<forall>s \<in> set (ep_Stages p). es_AfterDays s \<le> prev" by auto
  have cur: "fst (EDD_Stage (Some p) x) = Some s \<longleftrightarrow> s \<in> set (ep_Stages p) \<and> es_AfterDays s \<le> x \<and>
      (\<forall>t \<in> set (ep_Stages p). es_AfterDays t \<le> x \<longrightarrow> es_AfterDays t \<le> es_AfterDays s)" for x s
    using strict_key_greatest [OF sorted_wrt_filter [OF srt], of "\<lambda>s. es_AfterDays s \<le> x" s]
    by (auto simp: EDD_Stage_def edd_resolved_def stage_loop_split [OF srt] Let_def filter_empty_conv)
  have nxt: "snd (EDD_Stage (Some p) x) = Some s \<longleftrightarrow> s \<in> set (ep_Stages p) \<and> x < es_AfterDays s \<and>
      (\<forall>t \<in> set (ep_Stages p). x < es_AfterDays t \<longrightarrow> es_AfterDays s \<le> es_AfterDays t)" for x s
    using strict_key_least [OF sorted_wrt_filter [OF srt], of "\<lambda>s. x < es_AfterDays s" s]
    by (auto simp: EDD_Stage_def edd_resolved_def stage_loop_split [OF srt] Let_def filter_empty_conv)
  have last: "snd (EDD_Stage (Some p) d) = None" if "ep_DueDays p \<le> d"
    using top due that nxt [of d] by (cases "snd (EDD_Stage (Some p) d)") fastforce+
  have mono: "\<exists>s'. fst (EDD_Stage (Some p) d') = Some s' \<and> es_AfterDays s \<le> es_AfterDays s'"
    if "fst (EDD_Stage (Some p) d) = Some s" for s
  proof -
    from that assms(2) have s: "s \<in> set (filter (\<lambda>s. es_AfterDays s \<le> d') (ep_Stages p))" by (simp add: cur)
    then have ne: "filter (\<lambda>s. es_AfterDays s \<le> d') (ep_Stages p) \<noteq> []" by (auto simp: filter_empty_conv)
    have "fst (EDD_Stage (Some p) d') = Some (last (filter (\<lambda>s. es_AfterDays s \<le> d') (ep_Stages p)))"
      using ne by (simp add: EDD_Stage_def edd_resolved_def stage_loop_split [OF srt] Let_def)
    with strict_key_last [OF sorted_wrt_filter [OF srt] s] show ?thesis by blast
  qed
  show ?thesis
    unfolding case_prod_unfold using cur nxt last mono by blast
qed

theorem edd_stage_progress_witness:
  "fst (EDD_Stage (Some DefaultEDD) 75) = Some (ep_Stages DefaultEDD ! 1)"
proof -
  have v: "EDDPolicy_Validate (Some DefaultEDD) = Inr ()" by code_simp
  have "fst (EDD_Stage (Some DefaultEDD) 75) = Some s \<longleftrightarrow> s \<in> set (ep_Stages DefaultEDD) \<and> es_AfterDays s \<le> 75 \<and>
      (\<forall>t \<in> set (ep_Stages DefaultEDD). es_AfterDays t \<le> 75 \<longrightarrow> es_AfterDays t \<le> es_AfterDays s)" for s
    using edd_stage_progress [OF v, of 75 75] by (cases "EDD_Stage (Some DefaultEDD) 75") simp
  then show ?thesis by (simp add: DefaultEDD_def)
qed

subsection \<open>Service levels\<close>

text \<open>The reference reading of the rules: the first rule that names the level, else the first blanket rule.\<close>

definition applicable_rule :: "SLARule list \<Rightarrow> string \<Rightarrow> string \<Rightarrow> SLARule option" where
  "applicable_rule rules kind level =
    (case find (\<lambda>r. sr_Kind r = kind \<and> sla_named kind r \<noteq> [] \<and> EqualFold (sla_named kind r) level) rules of
       Some r \<Rightarrow> Some r
     | None \<Rightarrow> find (\<lambda>r. sr_Kind r = kind \<and> sla_named kind r = []) rules)"

lemma due_loop_rule:
  "due_loop kind level basis blanket rules = map_option (sla_deadline basis)
    (case find (\<lambda>r. sr_Kind r = kind \<and> sla_named kind r \<noteq> [] \<and> EqualFold (sla_named kind r) level) rules of
       Some r \<Rightarrow> Some r
     | None \<Rightarrow> (case blanket of Some b \<Rightarrow> Some b
               | None \<Rightarrow> find (\<lambda>r. sr_Kind r = kind \<and> sla_named kind r = []) rules))"
  by (induction rules arbitrary: blanket) (auto split: option.splits)

lemma validate_sla_rules_positive:
  "validate_sla_rules rs = Inr u \<Longrightarrow> r \<in> set rs \<Longrightarrow> 0 < sr_WithinHours r"
  by (induction rs) (auto split: if_splits)

text \<open>
  Deadlines. The deadline of a level is the basis plus the hours of the first rule that names the
  level, or else of the first blanket rule of the kind, and there is none exactly when no rule of the kind
  applies. With a validated policy whose figures stay below 2562048 hours (292 years), the
  deadline lies after the basis, and the state of open work only ever moves from running to breached while the
  state of finished work no longer depends on the clock.
\<close>

theorem sla_deadlines:
  assumes "SLAPolicy_Validate (Some p) = Inr ()" and "\<forall>r \<in> set (sp_Rules p). sr_WithinHours r < 2562048"
    and "\<not> IsZero basis" and "now \<le> now'"
  shows "sla_due p kind level basis = map_option (\<lambda>r. basis + sr_WithinHours r * Hour) (applicable_rule (sp_Rules p) kind level) \<and>
    (\<forall>d. sla_due p kind level basis = Some d \<longrightarrow> basis < d) \<and>
    (SLA_State (Some p) due None now = SLABreached \<longrightarrow> SLA_State (Some p) due None now' = SLABreached) \<and>
    SLA_State (Some p) due (Some t) now = SLA_State (Some p) due (Some t) now'"
proof -
  have pos: "\<forall>r \<in> set (sp_Rules p). 0 < sr_WithinHours r"
    using assms(1) validate_sla_rules_positive by (auto simp: SLAPolicy_Validate_def split: sum.splits)
  have rule: "applicable_rule (sp_Rules p) kind level = Some r \<Longrightarrow> r \<in> set (sp_Rules p)" for r
    by (auto simp: applicable_rule_def find_Some_iff split: option.splits)
  have dl: "sla_deadline basis r = basis + sr_WithinHours r * Hour" if "r \<in> set (sp_Rules p)" for r
    using pos assms(2) that by (auto simp: sla_deadline_def intro!: int64_id)
  have due: "sla_due p kind level basis = map_option (sla_deadline basis) (applicable_rule (sp_Rules p) kind level)"
    using assms(3) by (simp add: sla_due_def due_loop_rule applicable_rule_def split: option.split)
  then have eq: "sla_due p kind level basis = map_option (\<lambda>r. basis + sr_WithinHours r * Hour) (applicable_rule (sp_Rules p) kind level)"
    using rule dl by (cases "applicable_rule (sp_Rules p) kind level") simp_all
  moreover have "basis < d" if "sla_due p kind level basis = Some d" for d
    using that eq rule pos by auto
  moreover have "SLA_State (Some p) due None now = SLABreached \<longrightarrow> SLA_State (Some p) due None now' = SLABreached"
    using assms(4) by (auto simp: SLA_State_def split: option.splits if_splits)
  ultimately show ?thesis by (simp add: SLA_State_def split: option.split)
qed

definition sample_sla :: SLAPolicy where
  "sample_sla = \<lparr>sp_SchemaVersion = ''sla_policy_v1'', sp_PolicyVersion = ''v1'',
     sp_Rules = [\<lparr>sr_Kind = ''alert'', sr_Severity = [], sr_Priority = [], sr_WithinHours = 72, sr_Description = []\<rparr>,
       \<lparr>sr_Kind = ''alert'', sr_Severity = ''high'', sr_Priority = [], sr_WithinHours = 24, sr_Description = []\<rparr>]\<rparr>"

theorem sla_deadlines_witness: "sla_due sample_sla ''alert'' ''HIGH'' 1 = Some (1 + 24 * Hour)"
proof -
  have v: "SLAPolicy_Validate (Some sample_sla) = Inr ()" by code_simp
  have r: "applicable_rule (sp_Rules sample_sla) ''alert'' ''HIGH'' = Some (sp_Rules sample_sla ! 1)" by code_simp
  have "sla_due sample_sla ''alert'' ''HIGH'' 1 =
      map_option (\<lambda>r. 1 + sr_WithinHours r * Hour) (applicable_rule (sp_Rules sample_sla) ''alert'' ''HIGH'')"
    using sla_deadlines [OF v, of 1 0 0 "''alert''" "''HIGH''"] by (simp add: sample_sla_def)
  then show ?thesis unfolding r by (simp add: sample_sla_def)
qed

text \<open>
  Hours beyond the range of a duration. \<open>Validate\<close> accepts any positive number of hours, but the
  product with an hour is a 64-bit duration: with 2562048 hours the accepted policy puts the deadline
  before the basis.
\<close>

theorem sla_deadline_wraps:
  "\<exists>p. SLAPolicy_Validate (Some p) = Inr () \<and>
     (\<forall>basis. basis \<noteq> 0 \<longrightarrow> (\<exists>d. CaseDue (Some p) ''high'' basis = Some d \<and> d < basis))"
proof -
  let ?r = "\<lparr>sr_Kind = ''case'', sr_Severity = [], sr_Priority = [], sr_WithinHours = 2562048, sr_Description = []\<rparr>"
  let ?p = "\<lparr>sp_SchemaVersion = ''sla_policy_v1'', sp_PolicyVersion = ''v1'', sp_Rules = [?r]\<rparr>"
  have "SLAPolicy_Validate (Some ?p) = Inr ()" by code_simp
  moreover have "int64 (2562048 * Hour) < 0" by code_simp
  then have "\<exists>d. CaseDue (Some ?p) ''high'' basis = Some d \<and> d < basis" if "basis \<noteq> 0" for basis
    using that by (simp add: CaseDue_def sla_resolved_def sla_due_def sla_named_def sla_deadline_def)
  ultimately show ?thesis by blast
qed

theorem sla_deadline_wraps_witness:
  "\<exists>p d. SLAPolicy_Validate (Some p) = Inr () \<and> CaseDue (Some p) ''high'' 1 = Some d \<and> d < 1"
  using sla_deadline_wraps by (metis zero_neq_one)

subsection \<open>Required KYC fields\<close>

datatype KYCEnforcement = KYCEnforcementWarn | KYCEnforcementReject | KYCEnforcementOther string

record KYCTypeRequirements =
  kr_Required :: "string list"
  kr_Recommended :: "string list"

record KYCRequiredFieldsPolicy =
  kp_SchemaVersion :: string
  kp_PolicyVersion :: string
  kp_Enforcement :: KYCEnforcement
  kp_Defaults :: KYCTypeRequirements
  kp_Types :: "(CustomerType \<times> KYCTypeRequirements) list"

text \<open>The pattern \<^verbatim>\<open>^[a-z][a-z0-9_]*$\<close>.\<close>

definition kycFieldPattern :: "string \<Rightarrow> bool" where
  "kycFieldPattern s =
    (case s of [] \<Rightarrow> False
     | c # cs \<Rightarrow> c \<in> set ''abcdefghijklmnopqrstuvwxyz'' \<and> list_all (\<lambda>d. d \<in> set ''abcdefghijklmnopqrstuvwxyz0123456789_'') cs)"

fun kyc_required_ok :: "string list \<Rightarrow> string list \<Rightarrow> unit result" where
  "kyc_required_ok seen [] = Inr ()"
| "kyc_required_ok seen (f # fs) =
    (if \<not> kycFieldPattern f then Inl (ErrText ''required contains an invalid field name'')
     else if f \<in> set seen then Inl (ErrText ''required repeats a field'')
     else kyc_required_ok (f # seen) fs)"

fun kyc_recommended_ok :: "string list \<Rightarrow> string list \<Rightarrow> unit result" where
  "kyc_recommended_ok required [] = Inr ()"
| "kyc_recommended_ok required (f # fs) =
    (if \<not> kycFieldPattern f then Inl (ErrText ''recommended contains an invalid field name'')
     else if f \<in> set required then Inl (ErrText ''lists a field as both required and recommended'')
     else kyc_recommended_ok required fs)"

definition validateKYCFields :: "KYCTypeRequirements \<Rightarrow> unit result" where
  "validateKYCFields q =
    (case kyc_required_ok [] (kr_Required q) of
       Inl e \<Rightarrow> Inl e | Inr _ \<Rightarrow> kyc_recommended_ok (kr_Required q) (kr_Recommended q))"

definition requirementsFor :: "KYCRequiredFieldsPolicy option \<Rightarrow> CustomerType \<Rightarrow> KYCTypeRequirements" where
  "requirementsFor p ct =
    (case p of
       None \<Rightarrow> \<lparr>kr_Required = [], kr_Recommended = []\<rparr>
     | Some p \<Rightarrow> (case map_of (kp_Types p) ct of Some q \<Rightarrow> q | None \<Rightarrow> kp_Defaults p))"

text \<open>The loop over the declared types, in the order given (the code sorts the names first).\<close>

fun validate_kyc_types :: "(CustomerType \<times> KYCTypeRequirements) list \<Rightarrow> unit result" where
  "validate_kyc_types [] = Inr ()"
| "validate_kyc_types ((ct, q) # rest) =
    (if \<not> IsValidCustomerType ct then Inl (ErrText ''types is not a known customer type'')
     else case validateKYCFields q of Inl e \<Rightarrow> Inl e | Inr _ \<Rightarrow> validate_kyc_types rest)"

definition KYC_Validate :: "KYCRequiredFieldsPolicy option \<Rightarrow> unit result" where
  "KYC_Validate p =
    (case p of None \<Rightarrow> Inl (ErrText ''policy is nil'') | Some pol \<Rightarrow>
     case requireVersion ''kyc required fields'' (kp_SchemaVersion pol) ''kyc_required_fields_v1'' (kp_PolicyVersion pol) of
       Inl e \<Rightarrow> Inl e | Inr _ \<Rightarrow>
     if kp_Enforcement pol \<notin> {KYCEnforcementWarn, KYCEnforcementReject}
     then Inl (ErrText ''enforcement must be warn or reject'')
     else case validateKYCFields (kp_Defaults pol) of Inl e \<Rightarrow> Inl e | Inr _ \<Rightarrow>
     case validate_kyc_types (kp_Types pol) of Inl e \<Rightarrow> Inl e | Inr _ \<Rightarrow>
     if \<exists>ct \<in> set AllCustomerTypes. kr_Required (requirementsFor p ct) = []
     then Inl (ErrText ''types resolves to no required fields; add it or give defaults.required a value'')
     else Inr ())"

definition KYC_Required :: "KYCRequiredFieldsPolicy option \<Rightarrow> CustomerType \<Rightarrow> string list" where
  "KYC_Required p ct = kr_Required (requirementsFor p ct)"

definition KYC_Recommended :: "KYCRequiredFieldsPolicy option \<Rightarrow> CustomerType \<Rightarrow> string list" where
  "KYC_Recommended p ct = kr_Recommended (requirementsFor p ct)"

definition attributeSatisfied :: "(string \<times> any) list \<Rightarrow> string \<Rightarrow> bool" where
  "attributeSatisfied attributes field =
    (case map_of attributes field of
       None \<Rightarrow> False
     | Some JNull \<Rightarrow> False
     | Some (JString s) \<Rightarrow> TrimSpace s \<noteq> []
     | Some (JArray xs) \<Rightarrow> xs \<noteq> []
     | Some (JObject kvs) \<Rightarrow> kvs \<noteq> []
     | Some _ \<Rightarrow> True)"

definition KYC_Missing :: "KYCRequiredFieldsPolicy option \<Rightarrow> CustomerType \<Rightarrow> (string \<times> any) list \<Rightarrow> string list" where
  "KYC_Missing p ct attributes = filter (\<lambda>f. \<not> attributeSatisfied attributes f) (kr_Required (requirementsFor p ct))"

definition KYC_Enforce :: "KYCRequiredFieldsPolicy option \<Rightarrow> KYCEnforcement" where
  "KYC_Enforce p =
    (case p of None \<Rightarrow> KYCEnforcementWarn
     | Some p \<Rightarrow> if kp_Enforcement p = KYCEnforcementOther [] then KYCEnforcementWarn else kp_Enforcement p)"

lemma kyc_required_ok_iff:
  "kyc_required_ok seen fs = Inr u \<longleftrightarrow> distinct fs \<and> set fs \<inter> set seen = {} \<and> list_all kycFieldPattern fs"
  by (induction fs arbitrary: seen) auto

lemma kyc_recommended_ok_iff:
  "kyc_recommended_ok req fs = Inr u \<longleftrightarrow> set fs \<inter> set req = {} \<and> list_all kycFieldPattern fs"
  by (induction fs) auto

lemma validateKYCFields_ok:
  "validateKYCFields q = Inr u \<Longrightarrow> distinct (kr_Required q) \<and> set (kr_Required q) \<inter> set (kr_Recommended q) = {}"
  by (auto simp: validateKYCFields_def kyc_required_ok_iff kyc_recommended_ok_iff split: sum.splits)

lemma validate_kyc_types_ok:
  "validate_kyc_types ts = Inr u \<Longrightarrow> map_of ts ct = Some q \<Longrightarrow> validateKYCFields q = Inr () \<and> IsValidCustomerType ct"
  by (induction ts) (auto split: if_splits sum.splits)

text \<open>
  KYC requirements. Under a policy that passes \<open>Validate\<close> no customer type falls through: each of the
  accepted types requires at least one field, requires no field twice and never requires what it
  only recommends. The missing fields are a sublist of the required ones in policy order, and none is missing exactly
  when every required attribute is present with a value that is not blank or empty.
\<close>

theorem kyc_no_gap:
  assumes "KYC_Validate (Some p) = Inr ()" and "IsValidCustomerType ct"
  shows "KYC_Required (Some p) ct \<noteq> [] \<and> distinct (KYC_Required (Some p) ct) \<and>
    set (KYC_Required (Some p) ct) \<inter> set (KYC_Recommended (Some p) ct) = {} \<and>
    subseq (KYC_Missing (Some p) ct attrs) (KYC_Required (Some p) ct) \<and>
    (KYC_Missing (Some p) ct attrs = [] \<longleftrightarrow> (\<forall>f \<in> set (KYC_Required (Some p) ct). attributeSatisfied attrs f))"
proof -
  have v: "validateKYCFields (kp_Defaults p) = Inr ()" "validate_kyc_types (kp_Types p) = Inr ()"
      "\<forall>ct \<in> set AllCustomerTypes. kr_Required (requirementsFor (Some p) ct) \<noteq> []"
    using assms(1) by (auto simp: KYC_Validate_def split: if_splits sum.splits)
  have "validateKYCFields (requirementsFor (Some p) ct) = Inr ()"
    using v(1) validate_kyc_types_ok [OF v(2)] by (auto simp: requirementsFor_def split: option.split)
  from validateKYCFields_ok [OF this] v(3) assms(2) show ?thesis
    by (auto simp: KYC_Required_def KYC_Recommended_def KYC_Missing_def IsValidCustomerType_def filter_empty_conv)
qed

definition sample_kyc :: KYCRequiredFieldsPolicy where
  "sample_kyc = \<lparr>kp_SchemaVersion = ''kyc_required_fields_v1'', kp_PolicyVersion = ''v1'',
     kp_Enforcement = KYCEnforcementReject,
     kp_Defaults = \<lparr>kr_Required = [''name''], kr_Recommended = [''address'']\<rparr>,
     kp_Types = [(CustomerTypeTrust, \<lparr>kr_Required = [''name'', ''trust_parties''], kr_Recommended = []\<rparr>)]\<rparr>"

theorem kyc_no_gap_witness:
  "KYC_Missing (Some sample_kyc) CustomerTypeTrust [(''name'', JString ''T''), (''trust_parties'', JArray [JNull])] = []"
proof -
  have v: "KYC_Validate (Some sample_kyc) = Inr ()" by code_simp
  have "\<forall>f \<in> set (KYC_Required (Some sample_kyc) CustomerTypeTrust).
      attributeSatisfied [(''name'', JString ''T''), (''trust_parties'', JArray [JNull])] f" by code_simp
  with kyc_no_gap [OF v, of CustomerTypeTrust] show ?thesis
    by (simp add: IsValidCustomerType_def AllCustomerTypes_def)
qed

subsection \<open>Periodic reviews\<close>

datatype CDDReviewAnchor = AnchorLastCompletedReview | AnchorLastScoredAt | AnchorCustomerCreatedAt
  | AnchorOther string

record CDDReviewPolicy =
  rp_SchemaVersion :: string
  rp_PolicyVersion :: string
  rp_Intervals :: "(RiskTier \<times> int) list"
  rp_AnchorPrecedence :: "CDDReviewAnchor list"
  rp_TierIncreaseEarly :: bool
  rp_RequiresRationale :: bool
  rp_Roles :: "string list"
  rp_GraceDays :: int
  rp_ColdStartSpread :: "(RiskTier \<times> int) list"

record CDDReviewInput =
  ri_CustomerID :: string
  ri_Tier :: RiskTier
  ri_PreviousTier :: RiskTier
  ri_LastCompletedReview :: "time option"
  ri_LastScoredAt :: "time option"
  ri_CustomerCreatedAt :: time
  ri_AsOf :: time

record CDDReviewSchedule =
  rs_CustomerID :: string
  rs_Tier :: RiskTier
  rs_Anchor :: CDDReviewAnchor
  rs_AnchorAt :: time
  rs_NextReviewAt :: time
  rs_GraceUntil :: time
  rs_ColdStartOffset :: int
  rs_PolicyVersion :: string
  rs_PolicyDigest :: string
  rs_TierIncreased :: bool

definition DefaultCDDReviewPolicy :: CDDReviewPolicy where
  "DefaultCDDReviewPolicy =
    \<lparr>rp_SchemaVersion = ''cdd_review_policy_v1'', rp_PolicyVersion = ''2026-08-15-default'',
     rp_Intervals = [(RiskTierHigh, 365), (RiskTierMedium, 730), (RiskTierLow, 1095)],
     rp_AnchorPrecedence = [AnchorLastCompletedReview, AnchorLastScoredAt, AnchorCustomerCreatedAt],
     rp_TierIncreaseEarly = True, rp_RequiresRationale = True, rp_Roles = [''analyst'', ''admin''], rp_GraceDays = 30,
     rp_ColdStartSpread = [(RiskTierHigh, 30), (RiskTierMedium, 90), (RiskTierLow, 180)]\<rparr>"

definition positive_days :: "(RiskTier \<times> int) list \<Rightarrow> RiskTier \<Rightarrow> bool" where
  "positive_days m tier = (case map_of m tier of None \<Rightarrow> False | Some d \<Rightarrow> d > 0)"

fun validate_review_tiers :: "CDDReviewPolicy \<Rightarrow> RiskTier list \<Rightarrow> unit result" where
  "validate_review_tiers p [] = Inr ()"
| "validate_review_tiers p (tier # tiers) =
    (if \<not> positive_days (rp_Intervals p) tier then Inl (ErrText ''intervals must be a positive number of days'')
     else if \<not> positive_days (rp_ColdStartSpread p) tier
     then Inl (ErrText ''cold_start_spread must be a positive number of days'')
     else validate_review_tiers p tiers)"

definition CDDReview_Validate :: "CDDReviewPolicy option \<Rightarrow> unit result" where
  "CDDReview_Validate p =
    (case p of None \<Rightarrow> Inl (ErrText ''CDD review policy is nil'') | Some p \<Rightarrow>
     case requireVersion ''CDD review'' (rp_SchemaVersion p) ''cdd_review_policy_v1'' (rp_PolicyVersion p) of
       Inl e \<Rightarrow> Inl e | Inr _ \<Rightarrow>
     case validate_review_tiers p [RiskTierHigh, RiskTierMedium, RiskTierLow] of Inl e \<Rightarrow> Inl e | Inr _ \<Rightarrow>
     if \<exists>tier \<in> set (map fst (rp_Intervals p)). tier \<notin> {RiskTierHigh, RiskTierMedium, RiskTierLow}
     then Inl (ErrText ''intervals contains unknown tier'')
     else if \<exists>tier \<in> set (map fst (rp_ColdStartSpread p)). tier \<notin> {RiskTierHigh, RiskTierMedium, RiskTierLow}
     then Inl (ErrText ''cold_start_spread contains unknown tier'')
     else if length (rp_AnchorPrecedence p) \<noteq> 3 then Inl (ErrText ''anchor_precedence must list 3 anchors'')
     else if rp_AnchorPrecedence p \<noteq> [AnchorLastCompletedReview, AnchorLastScoredAt, AnchorCustomerCreatedAt]
     then Inl (ErrText ''anchor_precedence must be'')
     else if rp_GraceDays p < 0 then Inl (ErrText ''grace_days must not be negative'')
     else if \<not> rp_RequiresRationale p then Inl (ErrText ''completion.requires_rationale must be true'')
     else if rp_Roles p \<noteq> [''analyst'', ''admin''] then Inl (ErrText ''completion.roles must contain analyst and admin'')
     else Inr ())"

definition review_resolved :: "CDDReviewPolicy option \<Rightarrow> CDDReviewPolicy" where
  "review_resolved p = (case p of None \<Rightarrow> DefaultCDDReviewPolicy | Some p \<Rightarrow> p)"

definition Review_Version :: "CDDReviewPolicy option \<Rightarrow> string" where
  "Review_Version p = (if TrimSpace (rp_PolicyVersion (review_resolved p)) = [] then ''unknown''
     else rp_PolicyVersion (review_resolved p))"

definition resolveReviewTier :: "RiskTier \<Rightarrow> RiskTier" where
  "resolveReviewTier tier = (case tier of RiskTierOther _ \<Rightarrow> RiskTierHigh | t \<Rightarrow> t)"

definition days_for :: "(RiskTier \<times> int) list \<Rightarrow> RiskTier \<Rightarrow> int" where
  "days_for m tier = (case map_of m tier of Some d \<Rightarrow> d | None \<Rightarrow> 0)"

definition Review_Interval :: "CDDReviewPolicy option \<Rightarrow> RiskTier \<Rightarrow> int" where
  "Review_Interval p tier = days_for (rp_Intervals (review_resolved p)) (resolveReviewTier tier)"

definition GracePeriod :: "CDDReviewPolicy option \<Rightarrow> duration" where
  "GracePeriod p = int64 (int64 (rp_GraceDays (review_resolved p) * 24) * Hour)"

definition RoleCanComplete :: "CDDReviewPolicy option \<Rightarrow> string \<Rightarrow> bool" where
  "RoleCanComplete p role \<longleftrightarrow> ToLower (TrimSpace role) \<in> set (rp_Roles (review_resolved p))"

definition ValidateCompletion :: "CDDReviewPolicy option \<Rightarrow> string \<Rightarrow> string \<Rightarrow> unit result" where
  "ValidateCompletion p role rationale =
    (if \<not> RoleCanComplete p role then Inl (ErrText ''role cannot complete a CDD review'')
     else if rp_RequiresRationale (review_resolved p) \<and> TrimSpace rationale = []
     then Inl (ErrText ''CDD review rationale is required'')
     else Inr ())"

definition riskRank :: "RiskTier \<Rightarrow> int" where
  "riskRank tier = (case resolveReviewTier tier of RiskTierHigh \<Rightarrow> 3 | RiskTierMedium \<Rightarrow> 2 | _ \<Rightarrow> 1)"

text \<open>\<open>sha\<close> is the first eight bytes of SHA-256 as a big-endian unsigned number.\<close>

definition coldStartOffset :: "(string \<Rightarrow> nat) \<Rightarrow> string \<Rightarrow> int \<Rightarrow> int" where
  "coldStartOffset sha cid spread = (if spread \<le> 0 \<or> TrimSpace cid = [] then 0 else int (sha cid) mod spread)"

definition chooseReviewAnchor :: "CDDReviewInput \<Rightarrow> CDDReviewAnchor \<times> time" where
  "chooseReviewAnchor i =
    (case ri_LastCompletedReview i of
       Some t \<Rightarrow> if \<not> IsZero t then (AnchorLastCompletedReview, t)
                 else (case ri_LastScoredAt i of
                   Some u \<Rightarrow> if \<not> IsZero u then (AnchorLastScoredAt, u) else (AnchorCustomerCreatedAt, ri_CustomerCreatedAt i)
                 | None \<Rightarrow> (AnchorCustomerCreatedAt, ri_CustomerCreatedAt i))
     | None \<Rightarrow> (case ri_LastScoredAt i of
                   Some u \<Rightarrow> if \<not> IsZero u then (AnchorLastScoredAt, u) else (AnchorCustomerCreatedAt, ri_CustomerCreatedAt i)
                 | None \<Rightarrow> (AnchorCustomerCreatedAt, ri_CustomerCreatedAt i)))"

text \<open>\<^verbatim>\<open>time.Unix(0, 0)\<close>: 719162 days after the zero time. \<open>digest\<close> is the content hash of the document.\<close>

definition Review_Schedule ::
  "(string \<Rightarrow> nat) \<Rightarrow> (CDDReviewPolicy \<Rightarrow> string) \<Rightarrow> CDDReviewPolicy option \<Rightarrow> CDDReviewInput \<Rightarrow> CDDReviewSchedule" where
  "Review_Schedule sha digest p input =
    (let resolved = review_resolved p;
         tier = resolveReviewTier (ri_Tier input);
         (anchor, anchorAt) = chooseReviewAnchor input;
         anchorAt = (if IsZero anchorAt then (if IsZero (ri_AsOf input) then unix_epoch else ri_AsOf input) else anchorAt);
         spread = days_for (rp_ColdStartSpread resolved) tier;
         offset = (if anchor = AnchorCustomerCreatedAt \<and> ri_LastCompletedReview input = None \<and> ri_LastScoredAt input = None
                   then coldStartOffset sha (ri_CustomerID input) spread else 0);
         next = add_days anchorAt (Review_Interval (Some resolved) tier + offset);
         increased = riskRank tier > riskRank (ri_PreviousTier input) \<and> ri_PreviousTier input \<noteq> RiskTierOther [];
         next = (if increased \<and> rp_TierIncreaseEarly resolved
                 then let early = (if IsZero (ri_AsOf input) then anchorAt else ri_AsOf input)
                      in if early < next then early else next
                 else next)
     in \<lparr>rs_CustomerID = ri_CustomerID input, rs_Tier = tier, rs_Anchor = anchor, rs_AnchorAt = anchorAt,
         rs_NextReviewAt = next, rs_GraceUntil = next + GracePeriod (Some resolved), rs_ColdStartOffset = offset,
         rs_PolicyVersion = Review_Version (Some resolved), rs_PolicyDigest = digest resolved,
         rs_TierIncreased = increased\<rparr>)"

lemma coldStartOffset_bounds: "0 < spread \<Longrightarrow> 0 \<le> coldStartOffset sha cid spread \<and> coldStartOffset sha cid spread < spread"
  by (simp add: coldStartOffset_def)

lemma review_tier_days:
  assumes "CDDReview_Validate (Some p) = Inr ()"
  shows "0 < days_for (rp_Intervals p) (resolveReviewTier t) \<and> 0 < days_for (rp_ColdStartSpread p) (resolveReviewTier t)"
proof -
  have "\<forall>tier \<in> {RiskTierHigh, RiskTierMedium, RiskTierLow}.
      positive_days (rp_Intervals p) tier \<and> positive_days (rp_ColdStartSpread p) tier"
    using assms by (auto simp: CDDReview_Validate_def split: if_splits sum.splits)
  then show ?thesis
    by (cases t) (auto simp: resolveReviewTier_def positive_days_def days_for_def split: option.splits)
qed

text \<open>
  The review schedule never slips. Under a validated policy the next review is no later than the
  anchor plus the interval of the customer's tier plus its cold-start spread; a customer without a known
  tier is scheduled as high risk; only a customer without any review or score is spread; when
  the tier has risen the review is due at once; and the grace period ends no earlier than the
  review is due.
\<close>

theorem review_schedule_bounds:
  assumes "CDDReview_Validate (Some p) = Inr ()" and "rp_GraceDays p < 106752"
    and "s = Review_Schedule sha digest (Some p) input"
  shows "rs_NextReviewAt s \<le> add_days (rs_AnchorAt s) (Review_Interval (Some p) (rs_Tier s) + rs_ColdStartOffset s) \<and>
    0 \<le> rs_ColdStartOffset s \<and> rs_ColdStartOffset s < days_for (rp_ColdStartSpread p) (rs_Tier s) \<and>
    (ri_LastCompletedReview input \<noteq> None \<or> ri_LastScoredAt input \<noteq> None \<longrightarrow> rs_ColdStartOffset s = 0) \<and>
    (ri_Tier input \<notin> {RiskTierLow, RiskTierMedium} \<longrightarrow> rs_Tier s = RiskTierHigh) \<and>
    (rs_TierIncreased s \<and> rp_TierIncreaseEarly p \<and> \<not> IsZero (ri_AsOf input) \<longrightarrow> rs_NextReviewAt s \<le> ri_AsOf input) \<and>
    rs_NextReviewAt s \<le> rs_GraceUntil s"
proof -
  obtain anchor anchorAt where ca: "chooseReviewAnchor input = (anchor, anchorAt)" by fastforce
  have g: "0 \<le> rp_GraceDays p"
    using assms(1) by (auto simp: CDDReview_Validate_def split: if_splits sum.splits)
  then have "int64 (rp_GraceDays p * 24) = rp_GraceDays p * 24"
    using assms(2) by (intro int64_id) auto
  moreover have "int64 (rp_GraceDays p * 24 * Hour) = rp_GraceDays p * 24 * Hour"
    using g assms(2) by (intro int64_id) auto
  ultimately have grace: "0 \<le> GracePeriod (Some p)"
    using g by (simp add: GracePeriod_def review_resolved_def)
  have days: "0 < days_for (rp_ColdStartSpread p) (resolveReviewTier (ri_Tier input))"
    using review_tier_days [OF assms(1)] by simp
  have res: "review_resolved (Some p) = p" by (simp add: review_resolved_def)
  show ?thesis
    unfolding assms(3) Review_Schedule_def Let_def ca res
    using grace coldStartOffset_bounds [OF days, of sha "ri_CustomerID input"] days
    by (cases "ri_Tier input") (auto simp: resolveReviewTier_def Let_def)
qed

theorem review_schedule_bounds_witness:
  "rs_NextReviewAt (Review_Schedule (\<lambda>_. 17) (\<lambda>_. []) (Some DefaultCDDReviewPolicy)
     \<lparr>ri_CustomerID = ''c1'', ri_Tier = RiskTierHigh, ri_PreviousTier = RiskTierLow, ri_LastCompletedReview = Some 5,
      ri_LastScoredAt = None, ri_CustomerCreatedAt = 1, ri_AsOf = 99\<rparr>) \<le> 99"
proof -
  let ?i = "\<lparr>ri_CustomerID = ''c1'', ri_Tier = RiskTierHigh, ri_PreviousTier = RiskTierLow, ri_LastCompletedReview = Some 5,
      ri_LastScoredAt = None, ri_CustomerCreatedAt = 1, ri_AsOf = 99\<rparr>"
  have v: "CDDReview_Validate (Some DefaultCDDReviewPolicy) = Inr ()" by code_simp
  have "rs_TierIncreased (Review_Schedule (\<lambda>_. 17) (\<lambda>_. []) (Some DefaultCDDReviewPolicy) ?i)" by code_simp
  with review_schedule_bounds [OF v _ refl, of "\<lambda>_. 17" "\<lambda>_. []" ?i] show ?thesis
    by (simp add: DefaultCDDReviewPolicy_def)
qed

end
