(* ===== verification/Sessions.thy ===== *)
theory Sessions
  imports Paging
begin

text \<open>
  Users, refresh tokens and the audit log (\<^verbatim>\<open>src/api/internal/domain/user.go\<close>,
  \<^verbatim>\<open>src/api/internal/store/users.go\<close>, the audit part of \<^verbatim>\<open>store/memory.go\<close>), and the session
  functions of \<^verbatim>\<open>src/api/internal/auth/refresh.go\<close>. A session is a token family. Random
  identifiers and secrets and the token hash function are arguments. The three repositories are one state
  record; each operation runs under the locks it takes in Go, hence as one step.
\<close>

subsection \<open>Data\<close>

datatype Role = RoleAdmin | RoleAnalyst | RoleViewer | RoleOther string

record User =
  us_ID :: string
  us_Email :: string
  us_PasswordHash :: string
  us_Role :: Role
  us_Active :: bool
  us_CreatedAt :: time
  us_UpdatedAt :: time

record RefreshToken =
  rt_ID :: string
  rt_UserID :: string
  rt_TokenHash :: string
  rt_TokenFamily :: string
  rt_SessionRole :: Role
  rt_AuthorityUpdatedAt :: time
  rt_ExpiresAt :: time
  rt_RevokedAt :: "time option"
  rt_CreatedAt :: time

record AuditEntry =
  ae_ID :: int
  ae_UserID :: string
  ae_Action :: string
  ae_ResourceType :: string
  ae_ResourceID :: string
  ae_Details :: "(string \<times> string) list"
  ae_IPAddress :: string
  ae_UserAgent :: string
  ae_CreatedAt :: time

record MemoryAuditRepo =
  au_entries :: "AuditEntry list"
  au_nextID :: int
  au_createFailure :: "go_error option"

definition NewMemoryAuditRepo :: MemoryAuditRepo where
  "NewMemoryAuditRepo = \<lparr>au_entries = [], au_nextID = 1, au_createFailure = None\<rparr>"

type_synonym MemoryUserRepo = "User tbl"
type_synonym MemoryRefreshTokenRepo = "RefreshToken tbl"

text \<open>
  The store; the flags say whether the token repository was built with a user and an audit
  repository (\<^verbatim>\<open>NewMemoryRefreshTokenRepo...\<close>).
\<close>

record AuthStore =
  as_users :: MemoryUserRepo
  as_tokens :: MemoryRefreshTokenRepo
  as_audit :: MemoryAuditRepo
  as_withUsers :: bool
  as_withAudit :: bool

subsection \<open>Audit log\<close>

definition Audit_Create :: "time \<Rightarrow> MemoryAuditRepo \<Rightarrow> AuditEntry \<Rightarrow> unit result \<times> MemoryAuditRepo" where
  "Audit_Create now r e =
    (case au_createFailure r of
       Some err \<Rightarrow> (Inl err, r)
     | None \<Rightarrow>
         let e = e\<lparr>ae_ID := au_nextID r, ae_CreatedAt := (if IsZero (ae_CreatedAt e) then now else ae_CreatedAt e)\<rparr>
         in (Inr (), r\<lparr>au_entries := au_entries r @ [e], au_nextID := au_nextID r + 1\<rparr>))"

subsection \<open>Users\<close>

definition User_Get :: "MemoryUserRepo \<Rightarrow> string \<Rightarrow> User result" where
  "User_Get r i = (case tbl_get r i of None \<Rightarrow> Inl (ErrNotFound ''user'' i) | Some u \<Rightarrow> Inr u)"

definition User_GetByEmail :: "MemoryUserRepo \<Rightarrow> string \<Rightarrow> User result" where
  "User_GetByEmail r email =
    (case find (\<lambda>u. us_Email u = email) (tbl_vals r) of
       Some u \<Rightarrow> Inr u | None \<Rightarrow> Inl (ErrNotFound ''user'' email))"

definition User_Create :: "MemoryUserRepo \<Rightarrow> User \<Rightarrow> unit result \<times> MemoryUserRepo" where
  "User_Create r u = (Inr (), tbl_put (us_ID u) u r)"

definition User_CreateIfEmpty :: "MemoryUserRepo \<Rightarrow> User \<Rightarrow> bool result \<times> MemoryUserRepo" where
  "User_CreateIfEmpty r u = (if r \<noteq> [] then (Inr False, r) else (Inr True, tbl_put (us_ID u) u r))"

definition User_Update :: "MemoryUserRepo \<Rightarrow> User \<Rightarrow> unit result \<times> MemoryUserRepo" where
  "User_Update r u =
    (case tbl_get r (us_ID u) of
       None \<Rightarrow> (Inl (ErrNotFound ''user'' (us_ID u)), r)
     | Some _ \<Rightarrow> (Inr (), tbl_put (us_ID u) u r))"

definition User_Count :: "MemoryUserRepo \<Rightarrow> int" where
  "User_Count r = int (length r)"

definition User_List :: "MemoryUserRepo \<Rightarrow> User list" where
  "User_List r = sortByCreatedAtDesc (tbl_vals r) us_CreatedAt us_ID"

subsection \<open>Refresh tokens\<close>

definition live :: "time \<Rightarrow> RefreshToken \<Rightarrow> bool" where
  "live now t \<longleftrightarrow> rt_RevokedAt t = None \<and> rt_ExpiresAt t > now"

definition active_families :: "MemoryRefreshTokenRepo \<Rightarrow> string \<Rightarrow> time \<Rightarrow> string list" where
  "active_families r uid now =
     remdups (map rt_TokenFamily (filter (\<lambda>t. rt_UserID t = uid \<and> live now t) (tbl_vals r)))"

definition family_start :: "MemoryRefreshTokenRepo \<Rightarrow> string \<Rightarrow> time" where
  "family_start r family =
    (case map rt_CreatedAt (filter (\<lambda>t. rt_TokenFamily t = family) (tbl_vals r)) of
       [] \<Rightarrow> 0 | x # xs \<Rightarrow> foldl min x xs)"

definition activeFamilyStartsLocked :: "MemoryRefreshTokenRepo \<Rightarrow> string \<Rightarrow> time \<Rightarrow> (string \<times> time) list" where
  "activeFamilyStartsLocked r uid now = map (\<lambda>f. (f, family_start r f)) (active_families r uid now)"

definition revokeFamilyLocked :: "string \<Rightarrow> time \<Rightarrow> MemoryRefreshTokenRepo \<Rightarrow> MemoryRefreshTokenRepo" where
  "revokeFamilyLocked family now r =
     tbl_map (\<lambda>t. if rt_TokenFamily t = family \<and> rt_RevokedAt t = None then t\<lparr>rt_RevokedAt := Some now\<rparr> else t) r"

definition authority_current :: "AuthStore \<Rightarrow> RefreshToken \<Rightarrow> bool" where
  "authority_current s t =
    (case tbl_get (as_users s) (rt_UserID t) of
       None \<Rightarrow> False
     | Some u \<Rightarrow> us_Active u \<and> us_Role u = rt_SessionRole t \<and> us_UpdatedAt u = rt_AuthorityUpdatedAt t)"

definition audit_optional ::
  "time \<Rightarrow> string \<Rightarrow> AuthStore \<Rightarrow> AuditEntry option \<Rightarrow> unit result \<times> MemoryAuditRepo" where
  "audit_optional now missing s entry =
    (case entry of
       None \<Rightarrow> (Inr (), as_audit s)
     | Some e \<Rightarrow> if \<not> as_withAudit s then (Inl (ErrText missing), as_audit s) else Audit_Create now (as_audit s) e)"

definition createSession ::
  "time \<Rightarrow> AuthStore \<Rightarrow> RefreshToken \<Rightarrow> int \<Rightarrow> AuditEntry option \<Rightarrow> string list result \<times> AuthStore" where
  "createSession now s t maxActiveFamilies entry =
    (if maxActiveFamilies \<le> 0 then (Inl (ErrText ''max active refresh-token families must be positive''), s)
     else if as_withUsers s \<and> \<not> IsZero (rt_AuthorityUpdatedAt t) \<and> \<not> authority_current s t
     then (Inl ErrSessionAuthorityChanged, s)
     else let ordered = go_sort (asc_less snd fst) (activeFamilyStartsLocked (as_tokens s) (rt_UserID t) (rt_CreatedAt t));
              evictCount = int (length ordered) - maxActiveFamilies + 1;
              evictCount = (if evictCount < 0 then 0 else evictCount);
              evicted = map fst (take (nat evictCount) ordered)
          in case audit_optional now ''audit repository is required for audited session creation'' s entry of
               (Inl e, _) \<Rightarrow> (Inl e, s)
             | (Inr _, audit) \<Rightarrow>
                 (Inr evicted, s\<lparr>as_audit := audit,
                    as_tokens := tbl_put (rt_ID t) t
                      (fold (\<lambda>f. revokeFamilyLocked f (rt_CreatedAt t)) evicted (as_tokens s))\<rparr>))"

definition Token_GetByHash :: "MemoryRefreshTokenRepo \<Rightarrow> string \<Rightarrow> RefreshToken result" where
  "Token_GetByHash r h =
    (case find (\<lambda>t. rt_TokenHash t = h) (tbl_vals r) of
       Some t \<Rightarrow> Inr t | None \<Rightarrow> Inl (ErrNotFound ''refresh_token'' h))"

text \<open>
  \<^verbatim>\<open>Rotate\<close> returns the consumed token also with the reuse and expiry errors. The consumed
  token is stored under its identifier.
\<close>

definition Rotate ::
  "MemoryRefreshTokenRepo \<Rightarrow> string \<Rightarrow> RefreshToken \<Rightarrow> (RefreshToken option \<times> go_error option) \<times> MemoryRefreshTokenRepo" where
  "Rotate r h replacement =
    (case find (\<lambda>(k, t). rt_TokenHash t = h) r of
       None \<Rightarrow> ((None, Some (ErrNotFound ''refresh_token'' h)), r)
     | Some (k, current) \<Rightarrow>
         if rt_RevokedAt current \<noteq> None
         then ((Some current, Some ErrRefreshTokenReuse),
               revokeFamilyLocked (rt_TokenFamily current) (rt_CreatedAt replacement) r)
         else if \<not> rt_ExpiresAt current > rt_CreatedAt replacement
         then ((Some current, Some ErrRefreshTokenExpired), r)
         else let new = replacement\<lparr>rt_UserID := rt_UserID current, rt_TokenFamily := rt_TokenFamily current,
                          rt_SessionRole := rt_SessionRole current\<rparr>
              in ((Some current, None),
                  tbl_put (rt_ID new) new
                    (tbl_put k (current\<lparr>rt_RevokedAt := Some (rt_CreatedAt replacement)\<rparr>) r)))"

definition RevokeFamily :: "time \<Rightarrow> MemoryRefreshTokenRepo \<Rightarrow> string \<Rightarrow> unit result \<times> MemoryRefreshTokenRepo" where
  "RevokeFamily now r family = (Inr (), revokeFamilyLocked family now r)"

definition revokeUserSessions ::
  "time \<Rightarrow> AuthStore \<Rightarrow> string \<Rightarrow> AuditEntry option \<Rightarrow> string list result \<times> AuthStore" where
  "revokeUserSessions now s uid entry =
    (let families = sort (active_families (as_tokens s) uid now) in
     case audit_optional now ''audit repository is required for audited session revocation'' s entry of
       (Inl e, _) \<Rightarrow> (Inl e, s)
     | (Inr _, audit) \<Rightarrow>
         (Inr families, s\<lparr>as_audit := audit,
            as_tokens := fold (\<lambda>f. revokeFamilyLocked f now) families (as_tokens s)\<rparr>))"

definition IsFamilyActive :: "time \<Rightarrow> MemoryRefreshTokenRepo \<Rightarrow> string \<Rightarrow> bool" where
  "IsFamilyActive now r family \<longleftrightarrow> (\<exists>t \<in> set (tbl_vals r). rt_TokenFamily t = family \<and> live now t)"

definition CountActiveByUser :: "time \<Rightarrow> MemoryRefreshTokenRepo \<Rightarrow> string \<Rightarrow> int" where
  "CountActiveByUser now r uid = int (length (filter (\<lambda>t. rt_UserID t = uid \<and> live now t) (tbl_vals r)))"

definition ListActiveByUser :: "time \<Rightarrow> MemoryRefreshTokenRepo \<Rightarrow> string \<Rightarrow> RefreshToken list" where
  "ListActiveByUser now r uid = filter (\<lambda>t. rt_UserID t = uid \<and> live now t) (tbl_vals r)"

subsection \<open>The session functions\<close>

definition MaxConcurrentSessions :: int where "MaxConcurrentSessions = 5"
definition RefreshTokenTTL :: duration where "RefreshTokenTTL = 7 * 24 * Hour"

text \<open>\<open>hash\<close> is \<^verbatim>\<open>hashRefreshToken\<close>; \<open>raw\<close>, \<open>family\<close> and \<open>ident\<close> are the random strings drawn.\<close>

definition PrepareRefreshToken ::
  "(string \<Rightarrow> string) \<Rightarrow> time \<Rightarrow> string \<Rightarrow> string \<Rightarrow> string \<Rightarrow> string \<Rightarrow> Role \<Rightarrow> RefreshToken" where
  "PrepareRefreshToken hash now raw family ident userID role =
    \<lparr>rt_ID = ident, rt_UserID = userID, rt_TokenHash = hash raw, rt_TokenFamily = family, rt_SessionRole = role,
     rt_AuthorityUpdatedAt = 0, rt_ExpiresAt = now + RefreshTokenTTL, rt_RevokedAt = None, rt_CreatedAt = now\<rparr>"

definition IssueRefreshTokenWithRoleAndEviction ::
  "(string \<Rightarrow> string) \<Rightarrow> time \<Rightarrow> string \<Rightarrow> string \<Rightarrow> string \<Rightarrow> AuthStore \<Rightarrow> string \<Rightarrow> Role \<Rightarrow>
   (string \<times> string \<times> string) result \<times> AuthStore" where
  "IssueRefreshTokenWithRoleAndEviction hash now raw family ident s userID role =
    (case createSession now s (PrepareRefreshToken hash now raw family ident userID role) MaxConcurrentSessions None of
       (Inl e, s') \<Rightarrow> (Inl e, s')
     | (Inr evicted, s') \<Rightarrow> (Inr (raw, family, if evicted = [] then [] else hd evicted), s'))"

text \<open>The result: the new raw token and family, or an error together with the family it names.\<close>

definition RotateRefreshToken ::
  "(string \<Rightarrow> string) \<Rightarrow> time \<Rightarrow> string \<Rightarrow> string \<Rightarrow> MemoryRefreshTokenRepo \<Rightarrow> string \<Rightarrow>
   (string \<times> string \<times> go_error option) \<times> MemoryRefreshTokenRepo" where
  "RotateRefreshToken hash now raw ident r rawToken =
    (let new = \<lparr>rt_ID = ident, rt_UserID = [], rt_TokenHash = hash raw, rt_TokenFamily = [], rt_SessionRole = RoleOther [],
                rt_AuthorityUpdatedAt = 0, rt_ExpiresAt = now + RefreshTokenTTL, rt_RevokedAt = None, rt_CreatedAt = now\<rparr>
     in case Rotate r (hash rawToken) new of
          ((tok, Some ErrRefreshTokenReuse), r') \<Rightarrow>
            (case tok of
               None \<Rightarrow> (([], [], Some ErrRefreshTokenReuse), r')
             | Some t \<Rightarrow> (([], rt_TokenFamily t, Some (ErrText ''refresh token reuse detected'')), r'))
        | ((tok, Some ErrRefreshTokenExpired), r') \<Rightarrow> (([], [], Some (ErrText ''refresh token expired'')), r')
        | ((tok, Some e), r') \<Rightarrow> (([], [], Some e), r')
        | ((Some t, None), r') \<Rightarrow> ((raw, rt_TokenFamily t, None), r')
        | ((None, None), r') \<Rightarrow> ((raw, [], None), r'))"

definition RevokeRefreshTokenFamily ::
  "(string \<Rightarrow> string) \<Rightarrow> time \<Rightarrow> MemoryRefreshTokenRepo \<Rightarrow> string \<Rightarrow> unit result \<times> MemoryRefreshTokenRepo" where
  "RevokeRefreshTokenFamily hash now r rawToken =
    (case Token_GetByHash r (hash rawToken) of
       Inl e \<Rightarrow> (Inl e, r) | Inr t \<Rightarrow> RevokeFamily now r (rt_TokenFamily t))"

subsection \<open>Revocation\<close>

definition revoke_families :: "string set \<Rightarrow> time \<Rightarrow> RefreshToken \<Rightarrow> RefreshToken" where
  "revoke_families fs now t =
    (if rt_TokenFamily t \<in> fs \<and> rt_RevokedAt t = None then t\<lparr>rt_RevokedAt := Some now\<rparr> else t)"

lemma revoke_families_sel [simp]:
  "rt_TokenFamily (revoke_families fs now t) = rt_TokenFamily t" "rt_UserID (revoke_families fs now t) = rt_UserID t"
  "rt_TokenHash (revoke_families fs now t) = rt_TokenHash t" "rt_ExpiresAt (revoke_families fs now t) = rt_ExpiresAt t"
  "rt_CreatedAt (revoke_families fs now t) = rt_CreatedAt t" "rt_ID (revoke_families fs now t) = rt_ID t"
  by (simp_all add: revoke_families_def)

lemma live_revoke_families: "live x (revoke_families fs now t) \<longleftrightarrow> live x t \<and> rt_TokenFamily t \<notin> fs"
  by (auto simp: live_def revoke_families_def)

lemma revoke_families_revoked: "rt_RevokedAt t \<noteq> None \<Longrightarrow> revoke_families fs now t = t"
  by (simp add: revoke_families_def)

lemma tbl_map_comp: "tbl_map f (tbl_map g t) = tbl_map (f \<circ> g) t"
  by (simp add: tbl_map_def split_def)

lemma revokeFamilyLocked_eq: "revokeFamilyLocked f now r = tbl_map (revoke_families {f} now) r"
  by (simp add: revokeFamilyLocked_def revoke_families_def [abs_def])

lemma revoke_no_families [simp]: "tbl_map (revoke_families {} now) r = r"
  by (simp add: tbl_map_def revoke_families_def)

lemma fold_revoke: "fold (\<lambda>f. revokeFamilyLocked f now) fs r = tbl_map (revoke_families (set fs) now) r"
proof (induction fs arbitrary: r)
  case Nil
  then show ?case by simp
next
  case (Cons f fs)
  have "revoke_families (set fs) now \<circ> revoke_families {f} now = revoke_families (set (f # fs)) now"
    by (auto simp: revoke_families_def fun_eq_iff)
  with Cons show ?case by (simp add: revokeFamilyLocked_eq tbl_map_comp)
qed

lemma in_active_families:
  "f \<in> set (active_families r uid now) \<longleftrightarrow>
   (\<exists>t \<in> set (tbl_vals r). rt_UserID t = uid \<and> live now t \<and> rt_TokenFamily t = f)"
  by (auto simp: active_families_def simp del: set_map) auto

lemma distinct_active_families [simp]: "distinct (active_families r uid now)"
  by (simp add: active_families_def)

lemma length_active_families: "length (active_families r uid now) = card (set (active_families r uid now))"
  by (simp add: distinct_card)

lemma ex_revoked:
  "(\<exists>u \<in> set (map (revoke_families fs x) ts). rt_UserID u = uid \<and> live now u \<and> rt_TokenFamily u = f) \<longleftrightarrow>
   f \<notin> fs \<and> (\<exists>u \<in> set ts. rt_UserID u = uid \<and> live now u \<and> rt_TokenFamily u = f)"
  by (auto simp: live_revoke_families)

lemma active_families_revoked:
  "set (active_families (tbl_map (revoke_families fs x) r) uid now) = set (active_families r uid now) - fs"
  by (rule set_eqI) (simp only: in_active_families tbl_vals_map ex_revoked Diff_iff conj_commute)

lemma active_families_later: "now \<le> now' \<Longrightarrow> set (active_families r uid now') \<subseteq> set (active_families r uid now)"
  unfolding subset_iff in_active_families live_def by force

lemma active_families_put:
  "set (active_families (tbl_put k t r) uid now) \<subseteq>
   set (active_families r uid now) \<union> (if rt_UserID t = uid \<and> live now t then {rt_TokenFamily t} else {})"
proof
  fix f assume "f \<in> set (active_families (tbl_put k t r) uid now)"
  then obtain u where u: "u \<in> set (tbl_vals (tbl_put k t r))" "rt_UserID u = uid" "live now u" "rt_TokenFamily u = f"
    unfolding in_active_families by blast
  show "f \<in> set (active_families r uid now) \<union> (if rt_UserID t = uid \<and> live now t then {rt_TokenFamily t} else {})"
  proof (cases "u = t")
    case True
    with u(2-4) show ?thesis by simp
  next
    case False
    with subsetD [OF tbl_put_vals_subset u(1)] have "u \<in> set (tbl_vals r)" by simp
    with u(2-4) have "f \<in> set (active_families r uid now)" unfolding in_active_families by blast
    then show ?thesis by simp
  qed
qed

subsection \<open>Creating a session\<close>

lemma map_fst_starts: "map fst (activeFamilyStartsLocked r uid now) = active_families r uid now"
  by (simp add: activeFamilyStartsLocked_def comp_def)

lemma createSession_cases:
  assumes "createSession now s t n entry = (Inr evicted, s')"
  shows "\<exists>ordered. ordered = go_sort (asc_less snd fst) (activeFamilyStartsLocked (as_tokens s) (rt_UserID t) (rt_CreatedAt t)) \<and>
    0 < n \<and> evicted = map fst (take (nat (int (length ordered) - n + 1)) ordered) \<and>
    as_tokens s' = tbl_put (rt_ID t) t (tbl_map (revoke_families (set evicted) (rt_CreatedAt t)) (as_tokens s)) \<and>
    as_users s' = as_users s"
  using assms
  by (auto simp: createSession_def Let_def fold_revoke split: if_splits prod.splits sum.splits)

lemma createSession_error: "createSession now s t n entry = (Inl e, s') \<Longrightarrow> s' = s"
  by (auto simp: createSession_def Let_def split: if_splits prod.splits sum.splits)

lemma createSession_cap:
  assumes "createSession now s t n entry = (Inr evicted, s')"
  shows "int (length (active_families (as_tokens s') uid (rt_CreatedAt t))) \<le>
    (if uid = rt_UserID t then n else int (length (active_families (as_tokens s) uid (rt_CreatedAt t))))"
proof -
  obtain ordered where ord: "ordered = go_sort (asc_less snd fst) (activeFamilyStartsLocked (as_tokens s) (rt_UserID t) (rt_CreatedAt t))"
    and n: "0 < n" and ev: "evicted = map fst (take (nat (int (length ordered) - n + 1)) ordered)"
    and tk: "as_tokens s' = tbl_put (rt_ID t) t (tbl_map (revoke_families (set evicted) (rt_CreatedAt t)) (as_tokens s))"
    using createSession_cases [OF assms] by blast
  let ?A = "\<lambda>u. set (active_families (as_tokens s) u (rt_CreatedAt t))"
  have sub: "set (active_families (as_tokens s') uid (rt_CreatedAt t)) \<subseteq>
      (?A uid - set evicted) \<union> (if rt_UserID t = uid then {rt_TokenFamily t} else {})"
    using active_families_put [of "rt_ID t" t "tbl_map (revoke_families (set evicted) (rt_CreatedAt t)) (as_tokens s)" uid "rt_CreatedAt t"]
    unfolding tk active_families_revoked by (auto split: if_splits)
  show ?thesis
  proof (cases "uid = rt_UserID t")
    case False
    then have "card (set (active_families (as_tokens s') uid (rt_CreatedAt t))) \<le> card (?A uid)"
      using sub by (intro card_mono) auto
    with False show ?thesis unfolding length_active_families by simp
  next
    case True
    have fst_ord: "mset (map fst ordered) = mset (active_families (as_tokens s) uid (rt_CreatedAt t))"
      using True ord by (metis map_fst_starts mset_go_sort mset_map)
    then have dist: "distinct (map fst ordered)" and A: "?A uid = set (map fst ordered)"
      by (metis distinct_active_families mset_eq_imp_distinct_iff) (use fst_ord in \<open>metis set_mset_mset\<close>)
    let ?k = "nat (int (length ordered) - n + 1)"
    have split: "map fst ordered = evicted @ drop ?k (map fst ordered)"
      unfolding ev take_map [symmetric] by simp
    have rest: "?A uid - set evicted = set (drop ?k (map fst ordered))"
      using dist unfolding A by (subst (asm) split, subst split) auto
    have "card (?A uid - set evicted) \<le> length (drop ?k (map fst ordered))"
      unfolding rest by (rule card_length)
    moreover have "card (set (active_families (as_tokens s') uid (rt_CreatedAt t))) \<le> card (insert (rt_TokenFamily t) (?A uid - set evicted))"
      using sub True by (intro card_mono) auto
    moreover have "card (insert (rt_TokenFamily t) (?A uid - set evicted)) \<le> Suc (card (?A uid - set evicted))"
      by (simp add: card_insert_le_m1 card_insert_if)
    ultimately show ?thesis using n True unfolding length_active_families by auto
  qed
qed

subsection \<open>Histories with a clock\<close>

definition fresh_token :: "MemoryRefreshTokenRepo \<Rightarrow> RefreshToken \<Rightarrow> bool" where
  "fresh_token r t \<longleftrightarrow> tbl_get r (rt_ID t) = None \<and> (\<forall>u \<in> set (tbl_vals r). rt_TokenHash u \<noteq> rt_TokenHash t)"

definition tokens_ok :: "MemoryRefreshTokenRepo \<Rightarrow> bool" where
  "tokens_ok r \<longleftrightarrow> tbl_wf r \<and>
     (\<forall>k k' t t'. tbl_get r k = Some t \<longrightarrow> tbl_get r k' = Some t' \<longrightarrow> rt_TokenHash t = rt_TokenHash t' \<longrightarrow> k = k')"

text \<open>
  The state is the store and the time of the last operation. Time does not run backwards, and the
  identifiers and secrets of new tokens are new (they are 128 and 256 random bits).
\<close>

inductive session_step :: "AuthStore \<times> time \<Rightarrow> AuthStore \<times> time \<Rightarrow> bool" where
  create: "clock \<le> now \<Longrightarrow> rt_CreatedAt t = now \<Longrightarrow> fresh_token (as_tokens s) t \<Longrightarrow>
    session_step (s, clock) (snd (createSession now s t MaxConcurrentSessions entry), now)"
| rotate: "clock \<le> now \<Longrightarrow> rt_CreatedAt t = now \<Longrightarrow> fresh_token (as_tokens s) t \<Longrightarrow>
    session_step (s, clock) (s\<lparr>as_tokens := snd (Rotate (as_tokens s) h t)\<rparr>, now)"
| revoke_family: "clock \<le> now \<Longrightarrow>
    session_step (s, clock) (s\<lparr>as_tokens := snd (RevokeFamily now (as_tokens s) f)\<rparr>, now)"
| revoke_user: "clock \<le> now \<Longrightarrow> session_step (s, clock) (snd (revokeUserSessions now s uid entry), now)"
| users: "clock \<le> now \<Longrightarrow> session_step (s, clock) (s\<lparr>as_users := users\<rparr>, now)"

text \<open>Every step changes the token table in one of three ways.\<close>

lemma tokens_ok_map:
  assumes "tokens_ok r"
  shows "tokens_ok (tbl_map (revoke_families fs x) r)"
proof -
  have "k = k'" if "tbl_get (tbl_map (revoke_families fs x) r) k = Some t"
      "tbl_get (tbl_map (revoke_families fs x) r) k' = Some t'" "rt_TokenHash t = rt_TokenHash t'" for k k' t t'
    using that assms by (auto simp: tbl_simps tokens_ok_def)
  with assms show ?thesis by (auto simp: tokens_ok_def)
qed

lemma tokens_ok_put_fresh:
  assumes "tokens_ok r" and "fresh_token r t" and "rt_TokenHash u = rt_TokenHash t"
  shows "tokens_ok (tbl_put (rt_ID t) u r)"
  unfolding tokens_ok_def
proof (intro conjI allI impI)
  show "tbl_wf (tbl_put (rt_ID t) u r)" using assms(1) by (simp add: tokens_ok_def)
  fix k k' v v'
  assume "tbl_get (tbl_put (rt_ID t) u r) k = Some v" "tbl_get (tbl_put (rt_ID t) u r) k' = Some v'"
    and "rt_TokenHash v = rt_TokenHash v'"
  then show "k = k'"
    using assms tbl_get_in_vals [of r k v] tbl_get_in_vals [of r k' v']
    by (auto simp: tbl_simps tokens_ok_def fresh_token_def split: if_splits)
qed

lemma tokens_ok_put_same:
  assumes "tokens_ok r" and "tbl_get r k = Some t" and "rt_TokenHash u = rt_TokenHash t"
  shows "tokens_ok (tbl_put k u r)"
  using assms by (fastforce simp: tokens_ok_def tbl_simps)

lemma find_token:
  assumes "tokens_ok r" and "tbl_get r k = Some t"
  shows "find (\<lambda>(k, u). rt_TokenHash u = rt_TokenHash t) r = Some (k, t)"
proof -
  have mem: "(k, t) \<in> set r" using assms(2) by (rule map_of_SomeD)
  then have "find (\<lambda>(k, u). rt_TokenHash u = rt_TokenHash t) r \<noteq> None" by (auto simp: find_None_iff)
  then obtain k' u where f: "find (\<lambda>(k, u). rt_TokenHash u = rt_TokenHash t) r = Some (k', u)" by auto
  then have u: "(k', u) \<in> set r" "rt_TokenHash u = rt_TokenHash t"
    by (auto simp: find_Some_iff in_set_conv_nth)
  then have "tbl_get r k' = Some u" using assms(1) by (simp add: tokens_ok_def tbl_wf_def)
  then have "k' = k" using assms u(2) by (auto simp: tokens_ok_def)
  with \<open>tbl_get r k' = Some u\<close> assms(2) f show ?thesis by simp
qed

lemma find_token_get:
  assumes "tokens_ok r" and "find (\<lambda>(k, u). rt_TokenHash u = h) r = Some (k, t)"
  shows "tbl_get r k = Some t \<and> rt_TokenHash t = h"
proof -
  from assms(2) have "(k, t) \<in> set r" "rt_TokenHash t = h"
    by (auto simp: find_Some_iff in_set_conv_nth)
  with assms(1) show ?thesis by (simp add: tokens_ok_def tbl_wf_def)
qed

definition sessions_ok :: "AuthStore \<times> time \<Rightarrow> bool" where
  "sessions_ok x = (case x of (s, clock) \<Rightarrow> tokens_ok (as_tokens s) \<and>
     (\<forall>uid. length (active_families (as_tokens s) uid clock) \<le> nat MaxConcurrentSessions))"

lemma sessions_ok_subset:
  assumes "sessions_ok (s, clock)" and "clock \<le> now" and "tokens_ok (as_tokens s')"
    and "\<And>uid. set (active_families (as_tokens s') uid now) \<subseteq> set (active_families (as_tokens s) uid now)"
  shows "sessions_ok (s', now)"
proof -
  have "length (active_families (as_tokens s') uid now) \<le> length (active_families (as_tokens s) uid clock)" for uid
    unfolding length_active_families
    using assms(4) active_families_later [OF assms(2)] by (meson List.finite_set card_mono subset_trans)
  with assms(1,3) show ?thesis unfolding sessions_ok_def by (auto intro: order_trans)
qed

lemma Rotate_ok:
  assumes ok: "tokens_ok r" and fresh: "fresh_token r t" and now: "rt_CreatedAt t = now"
  shows "tokens_ok (snd (Rotate r h t)) \<and>
    set (active_families (snd (Rotate r h t)) uid now) \<subseteq> set (active_families r uid now)"
proof (cases "find (\<lambda>(k, u). rt_TokenHash u = h) r")
  case None
  with ok show ?thesis by (simp add: Rotate_def)
next
  case (Some p)
  obtain k cur where p: "p = (k, cur)" by fastforce
  from find_token_get [OF ok Some [unfolded p]] have cur: "tbl_get r k = Some cur" by simp
  consider "rt_RevokedAt cur \<noteq> None" | "rt_RevokedAt cur = None" "\<not> rt_ExpiresAt cur > now" | "live now cur"
    by (metis live_def)
  then show ?thesis
  proof cases
    case 1
    then have "snd (Rotate r h t) = tbl_map (revoke_families {rt_TokenFamily cur} now) r"
      using Some p now by (simp add: Rotate_def revokeFamilyLocked_eq)
    then show ?thesis using tokens_ok_map [OF ok] by (auto simp: active_families_revoked)
  next
    case 2
    then have "snd (Rotate r h t) = r" using Some p now by (simp add: Rotate_def)
    with ok show ?thesis by simp
  next
    case 3
    let ?cur = "cur\<lparr>rt_RevokedAt := Some now\<rparr>"
    let ?new = "t\<lparr>rt_UserID := rt_UserID cur, rt_TokenFamily := rt_TokenFamily cur, rt_SessionRole := rt_SessionRole cur\<rparr>"
    let ?r = "tbl_put k ?cur r"
    have eq: "snd (Rotate r h t) = tbl_put (rt_ID t) ?new ?r"
      using 3 Some p now by (auto simp: Rotate_def Let_def live_def)
    have "tokens_ok ?r" by (rule tokens_ok_put_same [OF ok cur]) simp
    moreover have "fresh_token ?r t"
      using fresh cur tbl_get_in_vals [OF cur] subsetD [OF tbl_put_vals_subset [of k ?cur r]]
      by (auto simp: fresh_token_def tbl_simps simp del: set_map) fastforce+
    ultimately have "tokens_ok (tbl_put (rt_ID t) ?new ?r)" by (rule tokens_ok_put_fresh) simp
    moreover have "rt_TokenFamily cur \<in> set (active_families r (rt_UserID cur) now)"
      unfolding in_active_families using 3 tbl_get_in_vals [OF cur] by blast
    then have "set (active_families (tbl_put (rt_ID t) ?new ?r) uid now) \<subseteq> set (active_families r uid now)"
      using active_families_put [of "rt_ID t" ?new ?r uid now] active_families_put [of k ?cur r uid now]
      by (auto simp: live_def split: if_splits)
    ultimately show ?thesis using eq by simp
  qed
qed

lemma sessions_ok_create:
  assumes ok: "sessions_ok (s, clock)" and now: "clock \<le> rt_CreatedAt t" and fresh: "fresh_token (as_tokens s) t"
    and run: "createSession now s t MaxConcurrentSessions entry = (Inr evicted, s')"
  shows "sessions_ok (s', rt_CreatedAt t)"
proof -
  from createSession_cases [OF run] have tk: "as_tokens s' =
      tbl_put (rt_ID t) t (tbl_map (revoke_families (set evicted) (rt_CreatedAt t)) (as_tokens s))" by blast
  have "fresh_token (tbl_map (revoke_families (set evicted) (rt_CreatedAt t)) (as_tokens s)) t"
    using fresh by (auto simp: fresh_token_def tbl_simps)
  then have "tokens_ok (as_tokens s')"
    unfolding tk using ok by (intro tokens_ok_put_fresh tokens_ok_map) (simp_all add: sessions_ok_def)
  moreover have "length (active_families (as_tokens s') uid (rt_CreatedAt t)) \<le> nat MaxConcurrentSessions" for uid
  proof (cases "uid = rt_UserID t")
    case True
    with createSession_cap [OF run, of uid] show ?thesis by (simp add: nat_le_iff le_nat_iff MaxConcurrentSessions_def)
  next
    case False
    with createSession_cap [OF run, of uid]
    have "length (active_families (as_tokens s') uid (rt_CreatedAt t)) \<le> length (active_families (as_tokens s) uid (rt_CreatedAt t))"
      by simp
    also have "\<dots> \<le> length (active_families (as_tokens s) uid clock)"
      unfolding length_active_families using active_families_later [OF now] by (simp add: card_mono)
    also have "\<dots> \<le> nat MaxConcurrentSessions" using ok by (simp add: sessions_ok_def)
    finally show ?thesis .
  qed
  ultimately show ?thesis by (simp add: sessions_ok_def)
qed

lemma sessions_ok_step: "session_step x y \<Longrightarrow> sessions_ok x \<Longrightarrow> sessions_ok y"
proof (induction rule: session_step.induct)
  case (create clock now t s entry)
  obtain res s' where run: "createSession now s t MaxConcurrentSessions entry = (res, s')" by fastforce
  show ?case
  proof (cases res)
    case (Inl e)
    have "tokens_ok (as_tokens s)" using create.prems by (simp add: sessions_ok_def)
    then have "sessions_ok (s, now)" by (rule sessions_ok_subset [OF create.prems create.hyps(1)]) simp
    with run Inl createSession_error [of now s t] show ?thesis by auto
  next
    case (Inr evicted)
    with create run sessions_ok_create [of s clock t now entry evicted s'] show ?thesis by simp
  qed
next
  case (rotate clock now t s h)
  have "tokens_ok (as_tokens s)" using rotate.prems by (simp add: sessions_ok_def)
  from Rotate_ok [OF this rotate.hyps(3,2), of h] show ?case
    by (intro sessions_ok_subset [OF rotate.prems rotate.hyps(1)]) simp_all
next
  case (revoke_family clock now s f)
  have "tokens_ok (as_tokens s)" using revoke_family.prems by (simp add: sessions_ok_def)
  from tokens_ok_map [OF this] show ?case
    by (intro sessions_ok_subset [OF revoke_family.prems revoke_family.hyps])
      (simp_all add: RevokeFamily_def revokeFamilyLocked_eq active_families_revoked)
next
  case (revoke_user clock now s uid entry)
  have ok: "tokens_ok (as_tokens s)" using revoke_user.prems by (simp add: sessions_ok_def)
  have "as_tokens (snd (revokeUserSessions now s uid entry)) = as_tokens s \<or>
      (\<exists>fs. as_tokens (snd (revokeUserSessions now s uid entry)) = tbl_map (revoke_families fs now) (as_tokens s))"
    by (auto simp: revokeUserSessions_def Let_def fold_revoke split: prod.split sum.split)
  then show ?case
    by (elim disjE exE; intro sessions_ok_subset [OF revoke_user.prems revoke_user.hyps])
      (simp_all add: ok tokens_ok_map active_families_revoked)
next
  case (users clock now s us)
  have "tokens_ok (as_tokens s)" using users.prems by (simp add: sessions_ok_def)
  then show ?case by (intro sessions_ok_subset [OF users.prems users.hyps]) simp_all
qed

definition NewAuthStore :: AuthStore where
  "NewAuthStore = \<lparr>as_users = [], as_tokens = [], as_audit = NewMemoryAuditRepo, as_withUsers = True, as_withAudit = True\<rparr>"

lemma NewAuthStore_ok: "sessions_ok (NewAuthStore, t)"
  by (simp add: sessions_ok_def NewAuthStore_def tokens_ok_def active_families_def MaxConcurrentSessions_def)

text \<open>
  C8. The session limit. Over any history of logins, refreshes, logouts and user-wide revocations with a clock
  that does not run backwards, no user ever has more than \<open>MaxConcurrentSessions\<close> (five) active
  sessions, at the time of the last operation or later.
\<close>

theorem session_limit:
  assumes "session_step\<^sup>*\<^sup>* (NewAuthStore, t0) (s, clock)" and "clock \<le> now"
  shows "length (active_families (as_tokens s) uid now) \<le> 5"
proof -
  have "sessions_ok (s, clock)"
    using assms(1) by (induction rule: rtranclp_induct) (auto intro: NewAuthStore_ok sessions_ok_step)
  then have "length (active_families (as_tokens s) uid clock) \<le> 5"
    by (simp add: sessions_ok_def MaxConcurrentSessions_def)
  moreover have "length (active_families (as_tokens s) uid now) \<le> length (active_families (as_tokens s) uid clock)"
    unfolding length_active_families using active_families_later [OF assms(2)] by (simp add: card_mono)
  ultimately show ?thesis by simp
qed

definition sample_token :: RefreshToken where
  "sample_token = PrepareRefreshToken (\<lambda>raw. ''h:'' @ raw) 100 ''raw1'' ''fam1'' ''t1'' ''u1'' RoleAnalyst"

theorem session_limit_witness:
  "active_families (as_tokens (snd (createSession 100 NewAuthStore sample_token MaxConcurrentSessions None))) ''u1'' 200 = [''fam1''] \<and>
   length (active_families (as_tokens (snd (createSession 100 NewAuthStore sample_token MaxConcurrentSessions None))) ''u1'' 200) \<le> 5"
proof
  let ?s = "snd (createSession 100 NewAuthStore sample_token MaxConcurrentSessions None)"
  show "active_families (as_tokens ?s) ''u1'' 200 = [''fam1'']" by code_simp
  have "session_step (NewAuthStore, 0) (?s, 100)"
    by (rule session_step.create) (simp_all add: sample_token_def PrepareRefreshToken_def fresh_token_def NewAuthStore_def)
  then show "length (active_families (as_tokens ?s) ''u1'' 200) \<le> 5"
    by (intro session_limit [OF r_into_rtranclp]) auto
qed

subsection \<open>Reuse detection\<close>

text \<open>A revoked token stays as it is: no step replaces or revives it.\<close>

lemma revoked_map:
  "tbl_get r k = Some t \<Longrightarrow> rt_RevokedAt t \<noteq> None \<Longrightarrow> tbl_get (tbl_map (revoke_families fs x) r) k = Some t"
  by (auto simp: tbl_simps revoke_families_def)

lemma Rotate_keeps_revoked:
  assumes "tokens_ok r" and "fresh_token r t" and "tbl_get r k = Some u" and "rt_RevokedAt u \<noteq> None"
  shows "tbl_get (snd (Rotate r h t)) k = Some u"
proof (cases "find (\<lambda>(k, u). rt_TokenHash u = h) r")
  case None
  with assms(3) show ?thesis by (simp add: Rotate_def)
next
  case (Some p)
  obtain k' cur where p: "p = (k', cur)" by fastforce
  from find_token_get [OF assms(1) Some [unfolded p]] have cur: "tbl_get r k' = Some cur" by simp
  have "rt_ID t \<noteq> k" using assms(2,3) by (auto simp: fresh_token_def)
  moreover have "k' \<noteq> k" if "rt_RevokedAt cur = None" using that cur assms(3,4) by auto
  ultimately show ?thesis
    using Some p assms(3,4)
    by (auto simp: Rotate_def Let_def revokeFamilyLocked_eq revoke_families_revoked tbl_simps)
qed

lemma session_step_keeps_revoked:
  assumes "session_step x y" and "sessions_ok x" and "tbl_get (as_tokens (fst x)) k = Some u" and "rt_RevokedAt u \<noteq> None"
  shows "tbl_get (as_tokens (fst y)) k = Some u"
  using assms
proof (induction rule: session_step.induct)
  case (create clock now t s entry)
  obtain res s' where run: "createSession now s t MaxConcurrentSessions entry = (res, s')" by fastforce
  show ?case
  proof (cases res)
    case (Inl e)
    with run createSession_error [of now s t] create show ?thesis by auto
  next
    case (Inr evicted)
    have "rt_ID t \<noteq> k" using create by (auto simp: fresh_token_def)
    with createSession_cases [OF run [unfolded Inr]] run create.prems(2,3) show ?thesis
      by (auto simp: tbl_simps revoke_families_def)
  qed
next
  case (rotate clock now t s h)
  then show ?case using Rotate_keeps_revoked [of "as_tokens s" t k u h] by (simp add: sessions_ok_def)
next
  case (revoke_family clock now s f)
  then show ?case by (simp add: RevokeFamily_def revokeFamilyLocked_eq revoked_map)
next
  case (revoke_user clock now s uid entry)
  then show ?case
    by (auto simp: revokeUserSessions_def Let_def fold_revoke revoked_map split: prod.split sum.split)
qed simp

lemma session_steps_keep_revoked:
  assumes "session_step\<^sup>*\<^sup>* x y" and "sessions_ok x" and "tbl_get (as_tokens (fst x)) k = Some u" and "rt_RevokedAt u \<noteq> None"
  shows "sessions_ok y \<and> tbl_get (as_tokens (fst y)) k = Some u"
  using assms
proof (induction rule: rtranclp_induct)
  case (step y z)
  then have y: "sessions_ok y" "tbl_get (as_tokens (fst y)) k = Some u" by blast+
  show ?case
    using sessions_ok_step [OF step.hyps(2) y(1)] session_step_keeps_revoked [OF step.hyps(2) y step.prems(3)] by simp
qed simp

text \<open>
  C2. Refresh-token reuse is detected. A refresh token is usable once: after a successful rotation, and
  whatever happens in between, presenting the consumed token again is answered with the
  reuse error, and from then on no token of its family is active, so the thief's and the
  owner's sessions both end.
\<close>

theorem refresh_reuse_revokes_family:
  assumes reach: "session_step\<^sup>*\<^sup>* (NewAuthStore, t0) (s, clock)"
    and new: "fresh_token (as_tokens s) rep1" "clock \<le> rt_CreatedAt rep1"
    and rot: "Rotate (as_tokens s) h rep1 = ((Some cur, None), r1)"
    and later: "session_step\<^sup>*\<^sup>* (s\<lparr>as_tokens := r1\<rparr>, rt_CreatedAt rep1) (s2, clock2)"
  shows "\<exists>used. fst (Rotate (as_tokens s2) h rep2) = (Some used, Some ErrRefreshTokenReuse) \<and>
    rt_TokenFamily used = rt_TokenFamily cur \<and>
    (\<forall>now. \<not> IsFamilyActive now (snd (Rotate (as_tokens s2) h rep2)) (rt_TokenFamily cur))"
proof -
  have ok: "sessions_ok (s, clock)"
    using reach by (induction rule: rtranclp_induct) (auto intro: NewAuthStore_ok sessions_ok_step)
  then have tok: "tokens_ok (as_tokens s)" by (simp add: sessions_ok_def)
  from rot obtain k where f: "find (\<lambda>(k, u). rt_TokenHash u = h) (as_tokens s) = Some (k, cur)"
    and r1: "r1 = tbl_put (rt_ID rep1) (rep1\<lparr>rt_UserID := rt_UserID cur, rt_TokenFamily := rt_TokenFamily cur,
        rt_SessionRole := rt_SessionRole cur\<rparr>) (tbl_put k (cur\<lparr>rt_RevokedAt := Some (rt_CreatedAt rep1)\<rparr>) (as_tokens s))"
    by (auto simp: Rotate_def Let_def split: option.splits if_splits prod.splits)
  from find_token_get [OF tok f] have cur: "tbl_get (as_tokens s) k = Some cur" "rt_TokenHash cur = h" by simp_all
  let ?used = "cur\<lparr>rt_RevokedAt := Some (rt_CreatedAt rep1)\<rparr>"
  have "rt_ID rep1 \<noteq> k" using new(1) cur(1) by (auto simp: fresh_token_def)
  then have "tbl_get r1 k = Some ?used" by (simp add: r1 tbl_simps)
  moreover have "sessions_ok (s\<lparr>as_tokens := r1\<rparr>, rt_CreatedAt rep1)"
    using sessions_ok_step [OF session_step.rotate [OF new(2) refl new(1), of h] ok] rot by simp
  ultimately have s2: "tokens_ok (as_tokens s2)" "tbl_get (as_tokens s2) k = Some ?used"
    using session_steps_keep_revoked [OF later, of k ?used] by (simp_all add: sessions_ok_def)
  from find_token [OF s2] cur(2) have f2: "find (\<lambda>(k, u). rt_TokenHash u = h) (as_tokens s2) = Some (k, ?used)" by simp
  then have rot2: "Rotate (as_tokens s2) h rep2 = ((Some ?used, Some ErrRefreshTokenReuse),
      tbl_map (revoke_families {rt_TokenFamily cur} (rt_CreatedAt rep2)) (as_tokens s2))"
    by (simp add: Rotate_def revokeFamilyLocked_eq)
  have "\<not> IsFamilyActive now (tbl_map (revoke_families {rt_TokenFamily cur} x) (as_tokens s2)) (rt_TokenFamily cur)" for now x
    unfolding IsFamilyActive_def tbl_vals_map by (auto simp: live_revoke_families)
  with rot2 show ?thesis by simp
qed

definition sample_rotation :: RefreshToken where
  "sample_rotation = PrepareRefreshToken (\<lambda>raw. ''h:'' @ raw) 150 ''raw2'' [] ''t2'' [] RoleViewer"

theorem refresh_reuse_revokes_family_witness:
  "\<exists>cur r1. Rotate (as_tokens (snd (createSession 100 NewAuthStore sample_token MaxConcurrentSessions None))) ''h:raw1''
      sample_rotation = ((Some cur, None), r1) \<and> IsFamilyActive 160 r1 ''fam1'' \<and>
    \<not> IsFamilyActive 160 (snd (Rotate r1 ''h:raw1'' sample_rotation)) ''fam1''"
proof -
  let ?s = "snd (createSession 100 NewAuthStore sample_token MaxConcurrentSessions None)"
  let ?run = "Rotate (as_tokens ?s) ''h:raw1'' sample_rotation"
  have step: "session_step\<^sup>*\<^sup>* (NewAuthStore, 0) (?s, 100)"
    by (rule r_into_rtranclp, rule session_step.create)
      (simp_all add: sample_token_def PrepareRefreshToken_def fresh_token_def NewAuthStore_def)
  have fresh: "fresh_token (as_tokens ?s) sample_rotation" by code_simp
  have "fst ?run = (Some sample_token, None)" by code_simp
  then have run: "?run = ((Some sample_token, None), snd ?run)" by (metis prod.collapse)
  have act: "IsFamilyActive 160 (snd ?run) ''fam1''" by code_simp
  have fam: "rt_TokenFamily sample_token = ''fam1''" by code_simp
  have later: "100 \<le> rt_CreatedAt sample_rotation" by code_simp
  have "\<not> IsFamilyActive 160 (snd (Rotate (snd ?run) ''h:raw1'' sample_rotation)) ''fam1''"
    using refresh_reuse_revokes_family [OF step fresh later run rtranclp.rtrancl_refl, of sample_rotation] fam by auto
  with run act show ?thesis by blast
qed

subsection \<open>Eviction\<close>

lemma IsFamilyActive_put_fresh:
  assumes "tbl_get r k = None"
  shows "IsFamilyActive now (tbl_put k t r) f \<longleftrightarrow> (rt_TokenFamily t = f \<and> live now t) \<or> IsFamilyActive now r f"
  by (auto simp: IsFamilyActive_def tbl_put_new [OF assms])

lemma IsFamilyActive_revoked:
  "IsFamilyActive now (tbl_map (revoke_families fs x) r) f \<longleftrightarrow> f \<notin> fs \<and> IsFamilyActive now r f"
  unfolding IsFamilyActive_def tbl_vals_map by (auto simp: live_revoke_families)

text \<open>
  A login evicts the oldest sessions and nothing else. When a session is created the number of evicted
  sessions is what the limit requires; no evicted session started later than one that is kept; the evicted
  sessions are no longer active; the new one is; and the activity of every other session, of this
  and of other users, is what it was. A refused login changes nothing.
\<close>

theorem createSession_evicts_oldest:
  assumes run: "createSession now s t n entry = (res, s')" and fresh: "tbl_get (as_tokens s) (rt_ID t) = None"
    and start: "live (rt_CreatedAt t) t"
  shows "case res of
      Inl e \<Rightarrow> s' = s
    | Inr evicted \<Rightarrow>
        int (length evicted) = max 0 (int (length (active_families (as_tokens s) (rt_UserID t) (rt_CreatedAt t))) - n + 1) \<and>
        set evicted \<subseteq> set (active_families (as_tokens s) (rt_UserID t) (rt_CreatedAt t)) \<and>
        (\<forall>f \<in> set evicted. \<forall>g \<in> set (active_families (as_tokens s) (rt_UserID t) (rt_CreatedAt t)) - set evicted.
           family_start (as_tokens s) f \<le> family_start (as_tokens s) g) \<and>
        IsFamilyActive (rt_CreatedAt t) (as_tokens s') (rt_TokenFamily t) \<and>
        (\<forall>f x. f \<noteq> rt_TokenFamily t \<longrightarrow>
           IsFamilyActive x (as_tokens s') f = (f \<notin> set evicted \<and> IsFamilyActive x (as_tokens s) f))"
proof (cases res)
  case (Inl e)
  with run createSession_error show ?thesis by auto
next
  case (Inr evicted)
  let ?A = "active_families (as_tokens s) (rt_UserID t) (rt_CreatedAt t)"
  obtain ordered where ord: "ordered = go_sort (asc_less snd fst) (activeFamilyStartsLocked (as_tokens s) (rt_UserID t) (rt_CreatedAt t))"
    and n: "0 < n" and ev: "evicted = map fst (take (nat (int (length ordered) - n + 1)) ordered)"
    and tk: "as_tokens s' = tbl_put (rt_ID t) t (tbl_map (revoke_families (set evicted) (rt_CreatedAt t)) (as_tokens s))"
    using createSession_cases [OF run [unfolded Inr]] by blast
  have len: "length ordered = length ?A" using ord by (simp add: activeFamilyStartsLocked_def)
  have mem: "x \<in> set ordered \<longleftrightarrow> fst x \<in> set ?A \<and> snd x = family_start (as_tokens s) (fst x)" for x
    using ord by (cases x) (auto simp: activeFamilyStartsLocked_def)
  have "sorted_wrt (\<lambda>x y. \<not> asc_less snd fst y x) ordered" unfolding ord by (rule asc.go_sort_sorted)
  then have srt: "sorted_wrt (\<lambda>x y. snd x \<le> snd y) ordered"
    by (rule sorted_wrt_mono_rel [rotated]) (auto simp: asc_less_def split: if_splits)
  define k where "k = nat (int (length ordered) - n + 1)"
  have old: "family_start (as_tokens s) f \<le> family_start (as_tokens s) g"
    if f: "f \<in> set evicted" and g: "g \<in> set ?A" "g \<notin> set evicted" for f g
  proof -
    from f obtain x where "x \<in> set (take k ordered)" "fst x = f" unfolding ev k_def by auto
    with mem [of x] in_set_takeD [of x k ordered] have x: "(f, family_start (as_tokens s) f) \<in> set (take k ordered)"
      by (cases x) auto
    have "(g, family_start (as_tokens s) g) \<in> set ordered" using g(1) mem by simp
    moreover have "(g, family_start (as_tokens s) g) \<notin> set (take k ordered)" using g(2) by (force simp: ev k_def)
    ultimately have y: "(g, family_start (as_tokens s) g) \<in> set (drop k ordered)"
      by (metis Un_iff append_take_drop_id set_append)
    from srt have "sorted_wrt (\<lambda>x y. snd x \<le> snd y) (take k ordered @ drop k ordered)" by simp
    with x y show ?thesis unfolding sorted_wrt_append by fastforce
  qed
  have sub: "set evicted \<subseteq> set ?A"
  proof
    fix f assume "f \<in> set evicted"
    then obtain x where "x \<in> set ordered" "fst x = f" unfolding ev by (auto dest: in_set_takeD)
    with mem [of x] show "f \<in> set ?A" by simp
  qed
  have cnt: "int (length evicted) = max 0 (int (length ?A) - n + 1)" using n len by (auto simp: ev)
  have none: "tbl_get (tbl_map (revoke_families (set evicted) (rt_CreatedAt t)) (as_tokens s)) (rt_ID t) = None"
    using fresh by (simp add: tbl_simps)
  have act: "IsFamilyActive x (as_tokens s') f \<longleftrightarrow>
      (rt_TokenFamily t = f \<and> live x t) \<or> f \<notin> set evicted \<and> IsFamilyActive x (as_tokens s) f" for f x
    unfolding tk IsFamilyActive_put_fresh [OF none] IsFamilyActive_revoked by (rule refl)
  show ?thesis
    unfolding Inr sum.case
  proof (intro conjI ballI allI impI)
    show "IsFamilyActive (rt_CreatedAt t) (as_tokens s') (rt_TokenFamily t)" using start by (simp only: act simp_thms)
    fix f x assume "f \<noteq> rt_TokenFamily t"
    then show "IsFamilyActive x (as_tokens s') f = (f \<notin> set evicted \<and> IsFamilyActive x (as_tokens s) f)" by (simp only: act) blast
  next
    fix f g assume "f \<in> set evicted" "g \<in> set ?A - set evicted"
    then show "family_start (as_tokens s) f \<le> family_start (as_tokens s) g" using old by blast
  qed (rule cnt, rule sub)
qed

theorem createSession_evicts_oldest_witness:
  "createSession 100 NewAuthStore sample_token 1 None =
     (Inr [], snd (createSession 100 NewAuthStore sample_token 1 None)) \<and>
   IsFamilyActive 100 (as_tokens (snd (createSession 100 NewAuthStore sample_token 1 None))) ''fam1''"
proof -
  have "fst (createSession 100 NewAuthStore sample_token 1 None) = Inr []" by code_simp
  then have run: "createSession 100 NewAuthStore sample_token 1 None =
     (Inr [], snd (createSession 100 NewAuthStore sample_token 1 None))" by (metis prod.collapse)
  have "tbl_get (as_tokens NewAuthStore) (rt_ID sample_token) = None" "live (rt_CreatedAt sample_token) sample_token"
    and "rt_CreatedAt sample_token = 100" "rt_TokenFamily sample_token = ''fam1''" by code_simp+
  with createSession_evicts_oldest [OF run] run show ?thesis by auto
qed

end
