(* ===== verification/User_Lifecycle.thy ===== *)
theory User_Lifecycle
  imports Sessions
begin

text \<open>
  Administrator-managed account changes (\<^verbatim>\<open>MemoryUserLifecycleRepo\<close> of
  \<^verbatim>\<open>src/api/internal/store/user_lifecycle.go\<close>): the user record, the user's sessions and the audit
  entry change together or not at all.
\<close>

subsection \<open>The code\<close>

definition user_lifecycle_unconfigured :: go_error where
  "user_lifecycle_unconfigured = ErrText ''user lifecycle repository is not configured''"

definition appendMemoryAuditLocked :: "time \<Rightarrow> MemoryAuditRepo \<Rightarrow> AuditEntry \<Rightarrow> unit result \<times> MemoryAuditRepo" where
  "appendMemoryAuditLocked now audit entry =
    (case au_createFailure audit of
       Some err \<Rightarrow> (Inl err, audit)
     | None \<Rightarrow>
         let entry = entry\<lparr>ae_ID := au_nextID audit\<rparr>;
             entry = (if IsZero (ae_CreatedAt entry) then entry\<lparr>ae_CreatedAt := now\<rparr> else entry)
         in (Inr (), audit\<lparr>au_entries := au_entries audit @ [entry], au_nextID := au_nextID audit + 1\<rparr>))"

definition memoryActiveFamiliesLocked :: "MemoryRefreshTokenRepo \<Rightarrow> string \<Rightarrow> time \<Rightarrow> string list" where
  "memoryActiveFamiliesLocked tokens userID now =
     sort (remdups (map rt_TokenFamily (filter (\<lambda>t. rt_UserID t = userID \<and> live now t) (tbl_vals tokens))))"

definition revokeMemoryFamiliesLocked :: "MemoryRefreshTokenRepo \<Rightarrow> string list \<Rightarrow> time \<Rightarrow> MemoryRefreshTokenRepo" where
  "revokeMemoryFamiliesLocked tokens families now =
     tbl_map (\<lambda>t. if rt_TokenFamily t \<in> set families \<and> rt_RevokedAt t = None
                  then t\<lparr>rt_RevokedAt := Some now\<rparr> else t) tokens"

text \<open>The first argument says whether the repository is configured (no nil part).\<close>

definition Lifecycle_CreateUser ::
  "bool \<Rightarrow> time \<Rightarrow> AuthStore \<Rightarrow> User \<Rightarrow> AuditEntry \<Rightarrow> unit result \<times> AuthStore" where
  "Lifecycle_CreateUser configured now s user entry =
    (if \<not> configured then (Inl user_lifecycle_unconfigured, s)
     else if \<exists>u \<in> set (tbl_vals (as_users s)). EqualFold (us_Email u) (us_Email user)
     then (Inl (ErrConflict ''user'' (us_Email user) ''email already exists''), s)
     else if tbl_get (as_users s) (us_ID user) \<noteq> None
     then (Inl (ErrConflict ''user'' (us_ID user) ''identifier already exists''), s)
     else case appendMemoryAuditLocked now (as_audit s) entry of
       (Inl e, _) \<Rightarrow> (Inl e, s)
     | (Inr _, audit) \<Rightarrow> (Inr (), s\<lparr>as_audit := audit, as_users := tbl_put (us_ID user) user (as_users s)\<rparr>))"

definition is_active_admin :: "User \<Rightarrow> bool" where
  "is_active_admin u \<longleftrightarrow> us_Active u \<and> us_Role u = RoleAdmin"

definition Lifecycle_UpdateAuthority ::
  "bool \<Rightarrow> time \<Rightarrow> AuthStore \<Rightarrow> string \<Rightarrow> Role \<Rightarrow> bool \<Rightarrow> time \<Rightarrow> AuditEntry \<Rightarrow>
   (User \<times> string list) result \<times> AuthStore" where
  "Lifecycle_UpdateAuthority configured now s i role active updatedAt entry =
    (if \<not> configured then (Inl user_lifecycle_unconfigured, s)
     else case tbl_get (as_users s) i of
       None \<Rightarrow> (Inl (ErrNotFound ''user'' i), s)
     | Some current \<Rightarrow>
         if us_Active current \<and> us_Role current = RoleAdmin \<and> (\<not> active \<or> role \<noteq> RoleAdmin) \<and>
            length (filter (\<lambda>u. us_Active u \<and> us_Role u = RoleAdmin) (tbl_vals (as_users s))) = 1
         then (Inl (ErrConflict ''user'' i ''last active administrator must remain active''), s)
         else if us_Role current = role \<and> us_Active current = active then (Inr (current, []), s)
         else let families = memoryActiveFamiliesLocked (as_tokens s) i updatedAt in
           (case appendMemoryAuditLocked now (as_audit s) entry of
              (Inl e, _) \<Rightarrow> (Inl e, s)
            | (Inr _, audit) \<Rightarrow>
                let updated = current\<lparr>us_Role := role, us_Active := active, us_UpdatedAt := updatedAt\<rparr>
                in (Inr (updated, families),
                    s\<lparr>as_audit := audit, as_users := tbl_put i updated (as_users s),
                      as_tokens := revokeMemoryFamiliesLocked (as_tokens s) families updatedAt\<rparr>)))"

definition Lifecycle_ResetPassword ::
  "bool \<Rightarrow> time \<Rightarrow> AuthStore \<Rightarrow> string \<Rightarrow> string \<Rightarrow> time \<Rightarrow> AuditEntry \<Rightarrow> (User \<times> string list) result \<times> AuthStore" where
  "Lifecycle_ResetPassword configured now s i passwordHash updatedAt entry =
    (if \<not> configured then (Inl user_lifecycle_unconfigured, s)
     else case tbl_get (as_users s) i of
       None \<Rightarrow> (Inl (ErrNotFound ''user'' i), s)
     | Some current \<Rightarrow>
         let families = memoryActiveFamiliesLocked (as_tokens s) i updatedAt in
         (case appendMemoryAuditLocked now (as_audit s) entry of
            (Inl e, _) \<Rightarrow> (Inl e, s)
          | (Inr _, audit) \<Rightarrow>
              let updated = current\<lparr>us_PasswordHash := passwordHash, us_UpdatedAt := updatedAt\<rparr>
              in (Inr (updated, families),
                  s\<lparr>as_audit := audit, as_users := tbl_put i updated (as_users s),
                    as_tokens := revokeMemoryFamiliesLocked (as_tokens s) families updatedAt\<rparr>)))"

subsection \<open>Sessions end with the authority they were granted under\<close>

lemma memoryActiveFamilies_set: "set (memoryActiveFamiliesLocked r uid now) = set (active_families r uid now)"
  by (simp add: memoryActiveFamiliesLocked_def active_families_def)

lemma revokeMemoryFamilies_eq: "revokeMemoryFamiliesLocked r fs now = tbl_map (revoke_families (set fs) now) r"
  by (simp add: revokeMemoryFamiliesLocked_def revoke_families_def [abs_def])

lemma all_sessions_revoked:
  assumes "updatedAt \<le> x"
  shows "active_families (revokeMemoryFamiliesLocked r (memoryActiveFamiliesLocked r uid updatedAt) updatedAt) uid x = []"
proof -
  have "set (active_families (revokeMemoryFamiliesLocked r (memoryActiveFamiliesLocked r uid updatedAt) updatedAt) uid x) = {}"
    using active_families_later [OF assms, of r uid]
    by (simp only: revokeMemoryFamilies_eq active_families_revoked memoryActiveFamilies_set) blast
  then show ?thesis by simp
qed

lemma append_audit_ok:
  "appendMemoryAuditLocked now audit entry = (Inr u, audit') \<Longrightarrow>
   \<exists>e. au_entries audit' = au_entries audit @ [e] \<and> ae_ID e = au_nextID audit \<and> au_nextID audit' = au_nextID audit + 1 \<and>
     ae_Action e = ae_Action entry \<and> ae_UserID e = ae_UserID entry \<and> ae_ResourceID e = ae_ResourceID entry"
  by (auto simp: appendMemoryAuditLocked_def Let_def split: option.splits if_splits)

text \<open>
  C35. Changing a user's authority ends the sessions it was granted in. If
  \<open>UpdateAuthority\<close> returns an error, nothing changed. If it changed the role or the active
  flag, then the new authority is stored, no session of the user is active any more at the time of the
  change or later, exactly one audit entry was appended, and a login that checked the old version of the
  account is refused (unless the two versions carry the same timestamp). If there was nothing to change,
  nothing changed.
\<close>

theorem authority_change_ends_sessions:
  assumes run: "Lifecycle_UpdateAuthority configured now s i role active updatedAt entry = (res, s')"
  shows "case res of
      Inl e \<Rightarrow> s' = s
    | Inr (u, families) \<Rightarrow> tbl_get (as_users s') i = Some u \<and> us_Role u = role \<and> us_Active u = active \<and>
        (s' = s \<or>
         (\<forall>x \<ge> updatedAt. active_families (as_tokens s') i x = []) \<and>
         set families = set (active_families (as_tokens s) i updatedAt) \<and>
         length (au_entries (as_audit s')) = Suc (length (au_entries (as_audit s))) \<and>
         (\<forall>t. as_withUsers s' \<and> rt_UserID t = i \<and> rt_AuthorityUpdatedAt t \<notin> {0, updatedAt} \<longrightarrow>
            createSession now' s' t 5 aud = (Inl ErrSessionAuthorityChanged, s')))"
proof (cases res)
  case (Inl e)
  with run show ?thesis
    by (auto simp: Lifecycle_UpdateAuthority_def Let_def split: if_splits option.splits prod.splits sum.splits)
next
  case (Inr p)
  obtain u families where p: "p = (u, families)" by fastforce
  from run Inr p obtain current where cur: "tbl_get (as_users s) i = Some current"
    and alt: "us_Role current = role \<and> us_Active current = active \<and> u = current \<and> s' = s \<or>
      (\<exists>audit. appendMemoryAuditLocked now (as_audit s) entry = (Inr (), audit) \<and>
        families = memoryActiveFamiliesLocked (as_tokens s) i updatedAt \<and>
        u = current\<lparr>us_Role := role, us_Active := active, us_UpdatedAt := updatedAt\<rparr> \<and>
        s' = s\<lparr>as_audit := audit, as_users := tbl_put i u (as_users s),
               as_tokens := revokeMemoryFamiliesLocked (as_tokens s) families updatedAt\<rparr>)"
    by (auto simp: Lifecycle_UpdateAuthority_def Let_def split: if_splits option.splits prod.splits sum.splits)
  from alt show ?thesis
  proof (elim disjE exE conjE)
    fix audit
    assume a: "appendMemoryAuditLocked now (as_audit s) entry = (Inr (), audit)"
      and f: "families = memoryActiveFamiliesLocked (as_tokens s) i updatedAt"
      and u: "u = current\<lparr>us_Role := role, us_Active := active, us_UpdatedAt := updatedAt\<rparr>"
      and s': "s' = s\<lparr>as_audit := audit, as_users := tbl_put i u (as_users s),
               as_tokens := revokeMemoryFamiliesLocked (as_tokens s) families updatedAt\<rparr>"
    have usr: "tbl_get (as_users s') i = Some u" by (simp add: s' tbl_simps)
    have refused: "createSession now' s' t 5 aud = (Inl ErrSessionAuthorityChanged, s')"
      if "as_withUsers s'" "rt_UserID t = i" "rt_AuthorityUpdatedAt t \<notin> {0, updatedAt}" for t
      using that usr u by (simp add: createSession_def authority_current_def)
    have gone: "active_families (as_tokens s') i x = []" if "updatedAt \<le> x" for x
      using all_sessions_revoked [OF that] by (simp add: s' f)
    have "length (au_entries (as_audit s')) = Suc (length (au_entries (as_audit s)))"
      using append_audit_ok [OF a] by (auto simp: s')
    then show ?thesis
      unfolding Inr p sum.case prod.case
      using usr u refused gone f by (simp only: memoryActiveFamilies_set) simp
  qed (use Inr p cur in auto)
qed

definition sample_admin :: User where
  "sample_admin = \<lparr>us_ID = ''u1'', us_Email = ''a@example.com'', us_PasswordHash = ''x'', us_Role = RoleAdmin,
     us_Active = True, us_CreatedAt = 1, us_UpdatedAt = 1\<rparr>"

definition sample_entry :: AuditEntry where
  "sample_entry = \<lparr>ae_ID = 0, ae_UserID = ''u0'', ae_Action = ''user_update'', ae_ResourceType = ''users'',
     ae_ResourceID = ''u2'', ae_Details = [], ae_IPAddress = [], ae_UserAgent = [], ae_CreatedAt = 0\<rparr>"

text \<open>Two administrators, the second one logged in.\<close>

definition sample_auth :: AuthStore where
  "sample_auth = snd (createSession 100
     (NewAuthStore\<lparr>as_users := [(''u1'', sample_admin), (''u2'', sample_admin\<lparr>us_ID := ''u2'', us_Email := ''b@example.com''\<rparr>)]\<rparr>)
     (sample_token\<lparr>rt_UserID := ''u2''\<rparr>) 5 None)"

theorem authority_change_ends_sessions_witness:
  "\<exists>u fs s'. Lifecycle_UpdateAuthority True 300 sample_auth ''u2'' RoleViewer True 250 sample_entry = (Inr (u, fs), s') \<and>
     fs = [''fam1''] \<and> active_families (as_tokens s') ''u2'' 250 = []"
proof -
  let ?run = "Lifecycle_UpdateAuthority True 300 sample_auth ''u2'' RoleViewer True 250 sample_entry"
  have "is_ok (fst ?run)" by code_simp
  then obtain u fs s' where run: "?run = (Inr (u, fs), s')" by (metis is_ok_iff prod.collapse)
  have fs: "map_sum (\<lambda>_. ()) snd (fst ?run) = Inr [''fam1'']" by code_simp
  have "as_tokens (snd ?run) \<noteq> as_tokens sample_auth" by code_simp
  then have "s' \<noteq> sample_auth" using run by auto
  with authority_change_ends_sessions [OF run, of 0 None] fs run show ?thesis by auto
qed

subsection \<open>The last administrator\<close>

inductive user_step :: "AuthStore \<Rightarrow> AuthStore \<Rightarrow> bool" where
  create_user: "user_step s (snd (Lifecycle_CreateUser configured now s user entry))"
| update_authority: "user_step s (snd (Lifecycle_UpdateAuthority configured now s i role active updatedAt entry))"
| reset_password: "user_step s (snd (Lifecycle_ResetPassword configured now s i hash updatedAt entry))"
| session: "session_step (s, clock) (s', clock') \<Longrightarrow> as_users s' = as_users s \<Longrightarrow> user_step s s'"

definition users_ok :: "AuthStore \<Rightarrow> bool" where
  "users_ok s \<longleftrightarrow> tbl_wf (as_users s) \<and> (\<exists>k u. tbl_get (as_users s) k = Some u \<and> is_active_admin u)"

text \<open>If more than one value satisfies \<open>P\<close> then one does under another key.\<close>

lemma another_value:
  assumes "tbl_wf t" and "tbl_get t k = Some v" and "P v" and "length (filter P (tbl_vals t)) \<noteq> 1"
  shows "\<exists>k' w. k' \<noteq> k \<and> tbl_get t k' = Some w \<and> P w"
proof (rule ccontr)
  assume no: "\<not> ?thesis"
  have only: "p = (k, v)" if "p \<in> set (filter (P \<circ> snd) t)" for p
  proof -
    obtain a b where p: "p = (a, b)" by (cases p)
    with that have ab: "(a, b) \<in> set t" "P b" by simp_all
    have get: "tbl_get t a = Some b" using ab(1) assms(1) by (simp add: tbl_wf_def)
    with no ab(2) have "a = k" by blast
    with get p assms(2) show ?thesis by simp
  qed
  have "(k, v) \<in> set (filter (P \<circ> snd) t)" using map_of_SomeD [OF assms(2)] assms(3) by simp
  with only have "set (filter (P \<circ> snd) t) = {(k, v)}" by blast
  moreover have "distinct (filter (P \<circ> snd) t)"
    using assms(1) by (simp add: tbl_wf_def distinct_map)
  ultimately have "length (filter (P \<circ> snd) t) = 1" by (metis card_1_singleton_iff distinct_card One_nat_def)
  then have "length (filter P (tbl_vals t)) = 1" by (simp add: filter_map)
  with assms(4) show False by simp
qed

lemma admin_after_put:
  assumes "tbl_get t k = Some u" and "is_active_admin u" and "j = k \<Longrightarrow> is_active_admin v"
  shows "\<exists>k' w. tbl_get (tbl_put j v t) k' = Some w \<and> is_active_admin w"
  using assms by (intro exI [of _ k]) (auto simp: tbl_simps)

lemma UpdateAuthority_keeps_admin:
  assumes ok: "users_ok s"
  shows "users_ok (snd (Lifecycle_UpdateAuthority configured now s i role active updatedAt entry))"
proof -
  let ?run = "Lifecycle_UpdateAuthority configured now s i role active updatedAt entry"
  have "as_users (snd ?run) = as_users s \<or> (\<exists>cur. tbl_get (as_users s) i = Some cur \<and>
      as_users (snd ?run) = tbl_put i (cur\<lparr>us_Role := role, us_Active := active, us_UpdatedAt := updatedAt\<rparr>) (as_users s) \<and>
      (is_active_admin cur \<and> (\<not> active \<or> role \<noteq> RoleAdmin) \<longrightarrow>
         length (filter is_active_admin (tbl_vals (as_users s))) \<noteq> 1))"
    by (auto simp: Lifecycle_UpdateAuthority_def Let_def is_active_admin_def [abs_def]
        split: option.split prod.split sum.split)
  then consider "as_users (snd ?run) = as_users s"
    | cur where "tbl_get (as_users s) i = Some cur"
      "as_users (snd ?run) = tbl_put i (cur\<lparr>us_Role := role, us_Active := active, us_UpdatedAt := updatedAt\<rparr>) (as_users s)"
      "is_active_admin cur \<and> (\<not> active \<or> role \<noteq> RoleAdmin) \<longrightarrow>
         length (filter is_active_admin (tbl_vals (as_users s))) \<noteq> 1"
    by blast
  then show ?thesis
  proof cases
    case 1
    with ok show ?thesis by (simp add: users_ok_def)
  next
    case (2 cur)
    from ok obtain k u where wf: "tbl_wf (as_users s)" and u: "tbl_get (as_users s) k = Some u" "is_active_admin u"
      by (auto simp: users_ok_def)
    have "\<exists>k' w. tbl_get (as_users (snd ?run)) k' = Some w \<and> is_active_admin w"
    proof (cases "k = i \<and> (\<not> active \<or> role \<noteq> RoleAdmin)")
      case True
      with u 2 have "length (filter is_active_admin (tbl_vals (as_users s))) \<noteq> 1" by simp
      from another_value [where P = is_active_admin, OF wf u(1,2) this] True obtain k' w
        where "k' \<noteq> i" "tbl_get (as_users s) k' = Some w" "is_active_admin w" by blast
      then have "tbl_get (as_users (snd ?run)) k' = Some w" by (simp add: 2(2) tbl_simps)
      with \<open>is_active_admin w\<close> show ?thesis by blast
    next
      case False
      then show ?thesis unfolding 2(2) by (intro admin_after_put [OF u]) (auto simp: is_active_admin_def)
    qed
    with wf 2(2) show ?thesis by (simp add: users_ok_def)
  qed
qed

lemma user_step_keeps_admin: "user_step s s' \<Longrightarrow> users_ok s \<Longrightarrow> users_ok s'"
proof (induction rule: user_step.induct)
  case (create_user s configured now user entry)
  then obtain k u where u: "tbl_wf (as_users s)" "tbl_get (as_users s) k = Some u" "is_active_admin u"
    by (auto simp: users_ok_def)
  have "as_users (snd (Lifecycle_CreateUser configured now s user entry)) = as_users s \<or>
      tbl_get (as_users s) (us_ID user) = None \<and>
      as_users (snd (Lifecycle_CreateUser configured now s user entry)) = tbl_put (us_ID user) user (as_users s)"
    by (auto simp: Lifecycle_CreateUser_def split: prod.split sum.split)
  then show ?case
  proof (elim disjE conjE)
    assume "tbl_get (as_users s) (us_ID user) = None"
      and run: "as_users (snd (Lifecycle_CreateUser configured now s user entry)) = tbl_put (us_ID user) user (as_users s)"
    then have "us_ID user \<noteq> k" using u(2) by auto
    then have "\<exists>k' w. tbl_get (tbl_put (us_ID user) user (as_users s)) k' = Some w \<and> is_active_admin w"
      by (intro admin_after_put [OF u(2,3)]) simp
    with u(1) run show ?thesis by (simp add: users_ok_def)
  qed (use create_user.prems in \<open>simp add: users_ok_def\<close>)
next
  case (update_authority s configured now i role active updatedAt entry)
  then show ?case by (intro UpdateAuthority_keeps_admin)
next
  case (reset_password s configured now i hash updatedAt entry)
  then obtain k u where u: "tbl_wf (as_users s)" "tbl_get (as_users s) k = Some u" "is_active_admin u"
    by (auto simp: users_ok_def)
  have "as_users (snd (Lifecycle_ResetPassword configured now s i hash updatedAt entry)) = as_users s \<or>
      (\<exists>cur. tbl_get (as_users s) i = Some cur \<and> as_users (snd (Lifecycle_ResetPassword configured now s i hash updatedAt entry)) =
         tbl_put i (cur\<lparr>us_PasswordHash := hash, us_UpdatedAt := updatedAt\<rparr>) (as_users s))"
    by (auto simp: Lifecycle_ResetPassword_def Let_def split: option.split prod.split sum.split)
  then show ?case
  proof (elim disjE exE conjE)
    fix cur assume "tbl_get (as_users s) i = Some cur"
      and run: "as_users (snd (Lifecycle_ResetPassword configured now s i hash updatedAt entry)) =
         tbl_put i (cur\<lparr>us_PasswordHash := hash, us_UpdatedAt := updatedAt\<rparr>) (as_users s)"
    then have "\<exists>k' w. tbl_get (tbl_put i (cur\<lparr>us_PasswordHash := hash, us_UpdatedAt := updatedAt\<rparr>) (as_users s)) k' = Some w \<and>
        is_active_admin w"
      using u by (intro admin_after_put [OF u(2,3)]) (auto simp: is_active_admin_def)
    with u(1) run show ?thesis by (simp add: users_ok_def)
  qed (use reset_password.prems in \<open>simp add: users_ok_def\<close>)
next
  case (session s clock s' clock')
  then show ?case by (simp add: users_ok_def)
qed

text \<open>
  C36. The last administrator stays. Once the system has an active administrator, it has one after any
  sequence of account creations, role changes, deactivations, password resets and session
  operations.
\<close>

theorem last_admin_stays:
  assumes "user_step\<^sup>*\<^sup>* s s'" and "tbl_wf (as_users s)"
    and "tbl_get (as_users s) k = Some u" and "us_Active u" and "us_Role u = RoleAdmin"
  shows "\<exists>k' u'. tbl_get (as_users s') k' = Some u' \<and> us_Active u' \<and> us_Role u' = RoleAdmin"
proof -
  have "users_ok s" using assms(2-5) by (auto simp: users_ok_def is_active_admin_def)
  with assms(1) have "users_ok s'" by (induction rule: rtranclp_induct) (auto intro: user_step_keeps_admin)
  then show ?thesis by (auto simp: users_ok_def is_active_admin_def)
qed

theorem last_admin_stays_witness:
  "\<exists>k' u'. tbl_get (as_users (snd (Lifecycle_UpdateAuthority True 300 sample_auth ''u2'' RoleViewer True 250 sample_entry))) k'
      = Some u' \<and> us_Active u' \<and> us_Role u' = RoleAdmin"
proof (rule last_admin_stays)
  show "user_step\<^sup>*\<^sup>* sample_auth
      (snd (Lifecycle_UpdateAuthority True 300 sample_auth ''u2'' RoleViewer True 250 sample_entry))"
    by (rule r_into_rtranclp, rule user_step.update_authority)
  show "tbl_wf (as_users sample_auth)" by code_simp
  show "tbl_get (as_users sample_auth) ''u1'' = Some sample_admin" by code_simp
qed (simp_all add: sample_admin_def)

text \<open>
  Resetting a password ends every session. A successful reset stores the new hash, leaves no session of the
  user active at the time of the reset or later, and appends one audit entry; a failed one changes
  nothing.
\<close>

theorem password_reset_ends_sessions:
  assumes "Lifecycle_ResetPassword configured now s i hash updatedAt entry = (res, s')"
  shows "case res of
      Inl e \<Rightarrow> s' = s
    | Inr (u, families) \<Rightarrow> tbl_get (as_users s') i = Some u \<and> us_PasswordHash u = hash \<and>
        (\<forall>x \<ge> updatedAt. active_families (as_tokens s') i x = []) \<and>
        length (au_entries (as_audit s')) = Suc (length (au_entries (as_audit s)))"
proof (cases res)
  case (Inl e)
  with assms show ?thesis
    by (auto simp: Lifecycle_ResetPassword_def Let_def split: if_splits option.splits prod.splits sum.splits)
next
  case (Inr p)
  obtain u fs where p: "p = (u, fs)" by fastforce
  from assms Inr p obtain cur audit where
    a: "appendMemoryAuditLocked now (as_audit s) entry = (Inr (), audit)"
    and s': "s' = s\<lparr>as_audit := audit, as_users := tbl_put i u (as_users s),
        as_tokens := revokeMemoryFamiliesLocked (as_tokens s) (memoryActiveFamiliesLocked (as_tokens s) i updatedAt) updatedAt\<rparr>"
    and u: "u = cur\<lparr>us_PasswordHash := hash, us_UpdatedAt := updatedAt\<rparr>"
    by (auto simp: Lifecycle_ResetPassword_def Let_def split: if_splits option.splits prod.splits sum.splits)
  have "active_families (as_tokens s') i x = []" if "updatedAt \<le> x" for x
    using all_sessions_revoked [OF that] by (simp add: s')
  with append_audit_ok [OF a] Inr p u show ?thesis by (auto simp: s' tbl_simps)
qed

theorem password_reset_ends_sessions_witness:
  "active_families (as_tokens sample_auth) ''u2'' 250 = [''fam1''] \<and>
   active_families (as_tokens (snd (Lifecycle_ResetPassword True 300 sample_auth ''u2'' ''new'' 250 sample_entry))) ''u2'' 250 = []"
proof
  show "active_families (as_tokens sample_auth) ''u2'' 250 = [''fam1'']" by code_simp
  let ?run = "Lifecycle_ResetPassword True 300 sample_auth ''u2'' ''new'' 250 sample_entry"
  have "is_ok (fst ?run)" by code_simp
  then obtain u fs s' where run: "?run = (Inr (u, fs), s')" by (metis is_ok_iff prod.collapse)
  with password_reset_ends_sessions [OF run] show "active_families (as_tokens (snd ?run)) ''u2'' 250 = []" by simp
qed

end
