(* ===== verification/Transactions.thy ===== *)
theory Transactions
  imports Identifiers Paging
begin

text \<open>
  Transactions: the record of \<^verbatim>\<open>src/api/internal/domain/transaction.go\<close>, the repository
  \<^verbatim>\<open>MemoryTransactionRepo\<close> of \<^verbatim>\<open>src/api/internal/store/memory.go\<close> with its three indexes, and the
  snapshot loader of \<^verbatim>\<open>src/api/internal/transactionhistory/history.go\<close>, which monitoring, batch runs
  and backtests share.

  The loader's two loops have no bound in the code; they are partial functions in the option
  monad, \<open>None\<close> standing for a run that does not return (or panics). The theorem
  \<open>snapshot_complete\<close> shows that on the memory repository both return, with the same transactions.
\<close>

subsection \<open>Data\<close>

datatype TransactionDirection =
  DirectionInbound | DirectionOutbound | DirectionInternal | DirectionOther string

datatype CounterpartyType =
  CounterpartyTypeVASP | CounterpartyTypeUnhostedWallet | CounterpartyTypeUnknown | CounterpartyTypeOther string

datatype TravelRuleStatus =
  TravelRuleComplete | TravelRuleIncomplete | TravelRuleNotApplicable | TravelRuleOther string

record CounterpartyParty =
  cp_Name :: string
  cp_AccountNumber :: string
  cp_VASPName :: string

record Counterparty =
  cy_CounterpartyType :: CounterpartyType
  cy_Originator :: CounterpartyParty
  cy_Beneficiary :: CounterpartyParty
  cy_TravelRuleStatus :: TravelRuleStatus

record Transaction =
  tx_ID :: string
  tx_CustomerID :: string
  tx_ExternalID :: string
  tx_Amount :: float64
  tx_Currency :: string
  tx_Direction :: TransactionDirection
  tx_TransactionType :: string
  tx_CounterpartyID :: string
  tx_CounterpartyCountry :: string
  tx_Channel :: string
  tx_AccountID :: "string option"
  tx_Counterparty :: "Counterparty option"
  tx_Metadata :: "(string \<times> any) list"
  tx_IdempotencyKey :: "string option"
  tx_ExecutedAt :: time
  tx_CreatedAt :: time
  tx_TravelRuleApplicable :: "bool option"
  tx_TravelRuleEvidence :: "(string \<times> any) list"
  tx_TravelRuleNotApplicableReason :: string
  tx_TravelRuleNotApplicableReasonCode :: string
  tx_TravelRuleStatus :: string
  tx_TravelRuleAssessment :: "(string \<times> any) list"

subsection \<open>The repository\<close>

record MemoryTransactionRepo =
  mt_data :: "Transaction tbl"
  mt_byCustomer :: "string list tbl"
  mt_external :: "string tbl"
  mt_idempotencyKey :: "string tbl"

definition NewMemoryTransactionRepo :: MemoryTransactionRepo where
  "NewMemoryTransactionRepo = \<lparr>mt_data = [], mt_byCustomer = [], mt_external = [], mt_idempotencyKey = []\<rparr>"

definition mt_index :: "MemoryTransactionRepo \<Rightarrow> string \<Rightarrow> string list" where
  "mt_index r cid = (case tbl_get (mt_byCustomer r) cid of None \<Rightarrow> [] | Some ids \<Rightarrow> ids)"

definition mt_indexed :: "MemoryTransactionRepo \<Rightarrow> string \<Rightarrow> Transaction list" where
  "mt_indexed r cid = List.map_filter (tbl_get (mt_data r)) (mt_index r cid)"

definition lookup_by :: "string tbl \<Rightarrow> MemoryTransactionRepo \<Rightarrow> string \<Rightarrow> Transaction result" where
  "lookup_by index r key =
    (case tbl_get index key of
       None \<Rightarrow> Inl (ErrNotFound ''transaction'' key)
     | Some i \<Rightarrow> (case tbl_get (mt_data r) i of
         None \<Rightarrow> Inl (ErrNotFound ''transaction'' key)
       | Some t \<Rightarrow> Inr t))"

definition Txn_GetByExternalID :: "MemoryTransactionRepo \<Rightarrow> string \<Rightarrow> Transaction result" where
  "Txn_GetByExternalID r externalID = lookup_by (mt_external r) r externalID"

definition Txn_Get :: "MemoryTransactionRepo \<Rightarrow> string \<Rightarrow> Transaction result" where
  "Txn_Get r i =
    (let i = CanonicalUUID i in
     case tbl_get (mt_data r) i of None \<Rightarrow> Inl (ErrNotFound ''transaction'' i) | Some t \<Rightarrow> Inr t)"

definition Txn_GetByIdempotencyKey :: "MemoryTransactionRepo \<Rightarrow> string \<Rightarrow> Transaction result" where
  "Txn_GetByIdempotencyKey r key = lookup_by (mt_idempotencyKey r) r key"

definition Txn_ListByCustomer :: "MemoryTransactionRepo \<Rightarrow> string \<Rightarrow> int \<Rightarrow> int \<Rightarrow> Transaction list option" where
  "Txn_ListByCustomer r cid limit offset =
     pageByOffset (sortByCreatedAtDesc (mt_indexed r (CanonicalUUID cid)) tx_CreatedAt tx_ID) limit offset"

definition Txn_CountByCustomer :: "MemoryTransactionRepo \<Rightarrow> string \<Rightarrow> int" where
  "Txn_CountByCustomer r cid = int (length (mt_index r (CanonicalUUID cid)))"

definition Txn_ListByCustomerCursor :: "MemoryTransactionRepo \<Rightarrow> string \<Rightarrow> int \<Rightarrow> Cursor option \<Rightarrow> Transaction list" where
  "Txn_ListByCustomerCursor r cid limit after =
     sortAndPageByCursor (mt_indexed r (CanonicalUUID cid)) limit after tx_CreatedAt tx_ID"

definition CountExecutedSince :: "MemoryTransactionRepo \<Rightarrow> time \<Rightarrow> int" where
  "CountExecutedSince r since = int (length (filter (\<lambda>t. \<not> tx_ExecutedAt t < since) (tbl_vals (mt_data r))))"

record TransactionEventCursor =
  ec_ExecutedAt :: time
  ec_ID :: string

definition event_less :: "Transaction \<Rightarrow> Transaction \<Rightarrow> bool" where
  "event_less = asc_less tx_ExecutedAt tx_ID"

definition after_event :: "TransactionEventCursor \<Rightarrow> Transaction \<Rightarrow> bool" where
  "after_event c t \<longleftrightarrow>
     tx_ExecutedAt t > ec_ExecutedAt c \<or> tx_ExecutedAt t = ec_ExecutedAt c \<and> tx_ID t > ec_ID c"

definition ListByCustomerEventRange ::
  "MemoryTransactionRepo \<Rightarrow> string \<Rightarrow> time \<Rightarrow> time \<Rightarrow> time \<Rightarrow> int \<Rightarrow> TransactionEventCursor option \<Rightarrow> Transaction list" where
  "ListByCustomerEventRange r cid from to createdBefore limit after =
    (let cid = CanonicalUUID cid;
         all = filter (\<lambda>t. \<not> tx_ExecutedAt t < from \<and> tx_ExecutedAt t < to \<and> \<not> tx_CreatedAt t > createdBefore \<and>
                 (case after of None \<Rightarrow> True | Some c \<Rightarrow> after_event c t)) (mt_indexed r cid);
         all = go_sort event_less all
     in if limit > 0 \<and> int (length all) > limit then take (nat limit) all else all)"

definition canonical_txn :: "Transaction \<Rightarrow> Transaction" where
  "canonical_txn t = t\<lparr>tx_ID := CanonicalUUID (tx_ID t), tx_CustomerID := CanonicalUUID (tx_CustomerID t),
     tx_AccountID := map_option CanonicalUUID (tx_AccountID t)\<rparr>"

definition insert_txn :: "Transaction \<Rightarrow> MemoryTransactionRepo \<Rightarrow> MemoryTransactionRepo" where
  "insert_txn t r =
    r\<lparr>mt_data := tbl_put (tx_ID t) t (mt_data r),
      mt_idempotencyKey := (case tx_IdempotencyKey t of None \<Rightarrow> mt_idempotencyKey r
        | Some key \<Rightarrow> tbl_put key (tx_ID t) (mt_idempotencyKey r)),
      mt_external := (if tx_ExternalID t \<noteq> [] then tbl_put (tx_ExternalID t) (tx_ID t) (mt_external r)
        else mt_external r),
      mt_byCustomer := tbl_put (tx_CustomerID t) (mt_index r (tx_CustomerID t) @ [tx_ID t]) (mt_byCustomer r)\<rparr>"

definition Txn_Create :: "MemoryTransactionRepo \<Rightarrow> Transaction \<Rightarrow> unit result \<times> MemoryTransactionRepo" where
  "Txn_Create r t =
    (let t = canonical_txn t in
     if tbl_get (mt_data r) (tx_ID t) \<noteq> None
     then (Inl (ErrConflict ''transaction'' (tx_ID t) ''id already exists''), r)
     else if (case tx_IdempotencyKey t of None \<Rightarrow> False | Some key \<Rightarrow> tbl_get (mt_idempotencyKey r) key \<noteq> None)
     then (Inl (ErrConflict ''transaction'' (tx_ID t) ''idempotency key already used''), r)
     else if tx_ExternalID t \<noteq> [] \<and>
             (case tbl_get (mt_external r) (tx_ExternalID t) of None \<Rightarrow> False | Some existing \<Rightarrow> existing \<noteq> tx_ID t)
     then (Inl (ErrConflict ''transaction'' (tx_ID t) ''external_id already exists''), r)
     else (Inr (), insert_txn t r))"

subsection \<open>Snapshots of the history\<close>

record Query =
  q_From :: time
  q_To :: time
  q_CreatedThrough :: time
  q_CreatedBeforeExclusive :: bool
  q_PageSize :: int

definition defaultPageSize :: int where
  "defaultPageSize = 1000"

text \<open>
  The two capabilities the loader asks a repository for. \<open>None\<close> in the second field: the
  repository does not implement \<^verbatim>\<open>TransactionHistoryRepository\<close>.
\<close>

record TransactionRepository =
  repo_ListByCustomer :: "string \<Rightarrow> int \<Rightarrow> int \<Rightarrow> Transaction list result option"
  repo_ListByCustomerEventRange ::
    "(string \<Rightarrow> time \<Rightarrow> time \<Rightarrow> time \<Rightarrow> int \<Rightarrow> TransactionEventCursor option \<Rightarrow> Transaction list result option) option"

definition matchesQuery :: "Query \<Rightarrow> Transaction \<Rightarrow> bool" where
  "matchesQuery q t \<longleftrightarrow>
    (let createdInSnapshot = (if q_CreatedBeforeExclusive q then tx_CreatedAt t < q_CreatedThrough q
                              else \<not> tx_CreatedAt t > q_CreatedThrough q)
     in \<not> tx_ExecutedAt t < q_From q \<and> tx_ExecutedAt t < q_To q \<and> createdInSnapshot)"

partial_function (option) history_pages ::
  "(TransactionEventCursor option \<Rightarrow> Transaction list result option) \<Rightarrow> int \<Rightarrow> Query \<Rightarrow> Transaction list \<Rightarrow>
   TransactionEventCursor option \<Rightarrow> Transaction list result option" where
  [code]: "history_pages fetch pageSize q out after =
    (case fetch after of
       None \<Rightarrow> None
     | Some (Inl e) \<Rightarrow> Some (Inl e)
     | Some (Inr page) \<Rightarrow>
         let out = out @ filter (matchesQuery q) page in
         if int (length page) < pageSize then Some (Inr out)
         else history_pages fetch pageSize q out
                (Some \<lparr>ec_ExecutedAt = tx_ExecutedAt (last page), ec_ID = tx_ID (last page)\<rparr>))"

partial_function (option) offset_pages ::
  "(int \<Rightarrow> Transaction list result option) \<Rightarrow> int \<Rightarrow> Query \<Rightarrow> Transaction list \<Rightarrow> int \<Rightarrow> Transaction list result option" where
  [code]: "offset_pages fetch pageSize q out offset =
    (case fetch offset of
       None \<Rightarrow> None
     | Some (Inl e) \<Rightarrow> Some (Inl e)
     | Some (Inr page) \<Rightarrow>
         let out = out @ filter (matchesQuery q) page in
         if int (length page) < pageSize then Some (Inr out)
         else offset_pages fetch pageSize q out (offset + pageSize))"

text \<open>The first argument is the error of a cancelled context, the second a nil repository.\<close>

definition ListCustomerTransactionsAsOf ::
  "go_error option \<Rightarrow> TransactionRepository option \<Rightarrow> string \<Rightarrow> Query \<Rightarrow> Transaction list result option" where
  "ListCustomerTransactionsAsOf ctx repo cid q =
    (case repo of
       None \<Rightarrow> Some (Inl (ErrText ''transaction repository is required''))
     | Some repo \<Rightarrow>
       if \<not> q_To q > q_From q then Some (Inl (ErrText ''transaction event window end must be after start''))
       else if IsZero (q_CreatedThrough q) then Some (Inl (ErrText ''transaction snapshot cutoff is required''))
       else case ctx of Some e \<Rightarrow> Some (Inl e) | None \<Rightarrow>
         let pageSize = (if q_PageSize q \<le> 0 then defaultPageSize else q_PageSize q) in
         (case repo_ListByCustomerEventRange repo of
            Some fetch \<Rightarrow>
              let createdThrough = (if q_CreatedBeforeExclusive q then q_CreatedThrough q - 1 else q_CreatedThrough q)
              in history_pages (fetch cid (q_From q) (q_To q) createdThrough pageSize) pageSize q [] None
          | None \<Rightarrow>
              (case offset_pages (\<lambda>offset. repo_ListByCustomer repo cid pageSize offset) pageSize q [] 0 of
                 None \<Rightarrow> None
               | Some (Inl e) \<Rightarrow> Some (Inl e)
               | Some (Inr out) \<Rightarrow> Some (Inr (go_sort event_less out)))))"

definition memory_transactions :: "MemoryTransactionRepo \<Rightarrow> TransactionRepository" where
  "memory_transactions r =
    \<lparr>repo_ListByCustomer = (\<lambda>cid limit offset. map_option Inr (Txn_ListByCustomer r cid limit offset)),
     repo_ListByCustomerEventRange = Some (\<lambda>cid from to createdBefore limit after.
       Some (Inr (ListByCustomerEventRange r cid from to createdBefore limit after)))\<rparr>"

text \<open>The same store behind an adapter that offers only offset pages.\<close>

definition offset_only :: "TransactionRepository \<Rightarrow> TransactionRepository" where
  "offset_only repo = repo\<lparr>repo_ListByCustomerEventRange := None\<rparr>"

interpretation event: go_less event_less
  unfolding event_less_def by (rule asc.go_less_axioms)

subsection \<open>The indexes agree with the records\<close>

definition txn_repo_ok :: "MemoryTransactionRepo \<Rightarrow> bool" where
  "txn_repo_ok r \<longleftrightarrow> tbl_wf (mt_data r) \<and>
     (\<forall>k t. tbl_get (mt_data r) k = Some t \<longrightarrow> tx_ID t = k \<and> CanonicalUUID (tx_CustomerID t) = tx_CustomerID t) \<and>
     (\<forall>cid. distinct (mt_index r cid) \<and>
        (\<forall>k. k \<in> set (mt_index r cid) \<longleftrightarrow> (\<exists>t. tbl_get (mt_data r) k = Some t \<and> tx_CustomerID t = cid))) \<and>
     (\<forall>key k. tbl_get (mt_idempotencyKey r) key = Some k \<longleftrightarrow>
        (\<exists>t. tbl_get (mt_data r) k = Some t \<and> tx_IdempotencyKey t = Some key)) \<and>
     (\<forall>x k. tbl_get (mt_external r) x = Some k \<longleftrightarrow>
        (\<exists>t. tbl_get (mt_data r) k = Some t \<and> tx_ExternalID t = x \<and> x \<noteq> []))"

inductive txn_step :: "MemoryTransactionRepo \<Rightarrow> MemoryTransactionRepo \<Rightarrow> bool" where
  create: "txn_step r (snd (Txn_Create r t))"

lemma NewMemoryTransactionRepo_ok: "txn_repo_ok NewMemoryTransactionRepo"
  by (simp add: txn_repo_ok_def NewMemoryTransactionRepo_def mt_index_def)

text \<open>What a successful creation found.\<close>

lemma canonical_txn_simps [simp]:
  "tx_ID (canonical_txn t) = CanonicalUUID (tx_ID t)"
  "tx_CustomerID (canonical_txn t) = CanonicalUUID (tx_CustomerID t)"
  "tx_IdempotencyKey (canonical_txn t) = tx_IdempotencyKey t"
  "tx_ExternalID (canonical_txn t) = tx_ExternalID t"
  by (simp_all add: canonical_txn_def)

definition txn_unused :: "MemoryTransactionRepo \<Rightarrow> Transaction \<Rightarrow> bool" where
  "txn_unused r t \<longleftrightarrow> tbl_get (mt_data r) (CanonicalUUID (tx_ID t)) = None \<and>
     (\<forall>key. tx_IdempotencyKey t = Some key \<longrightarrow> tbl_get (mt_idempotencyKey r) key = None) \<and>
     (tx_ExternalID t = [] \<or> tbl_get (mt_external r) (tx_ExternalID t) = None \<or>
      tbl_get (mt_external r) (tx_ExternalID t) = Some (CanonicalUUID (tx_ID t)))"

lemma Txn_Create_unused: "txn_unused r t \<Longrightarrow> Txn_Create r t = (Inr (), insert_txn (canonical_txn t) r)"
  by (auto simp: Txn_Create_def Let_def txn_unused_def split: option.split)

lemma Txn_Create_used: "\<not> txn_unused r t \<Longrightarrow> \<exists>reason. Txn_Create r t =
    (Inl (ErrConflict ''transaction'' (CanonicalUUID (tx_ID t)) reason), r)"
  by (auto simp: Txn_Create_def Let_def txn_unused_def split: option.split)

lemma mt_index_insert:
  "mt_index (insert_txn t r) cid =
     (if cid = tx_CustomerID t then mt_index r cid @ [tx_ID t] else mt_index r cid)"
  by (simp add: insert_txn_def mt_index_def tbl_simps)

text \<open>
  What the records, the customer index and the idempotency index promise one another; an atomic
  section that is rolled back restores these three, and leaves the index of external identifiers.\<close>

definition txn_base_ok :: "MemoryTransactionRepo \<Rightarrow> bool" where
  "txn_base_ok r \<longleftrightarrow> tbl_wf (mt_data r) \<and>
     (\<forall>k t. tbl_get (mt_data r) k = Some t \<longrightarrow> tx_ID t = k \<and> CanonicalUUID (tx_CustomerID t) = tx_CustomerID t) \<and>
     (\<forall>cid. distinct (mt_index r cid) \<and>
        (\<forall>k. k \<in> set (mt_index r cid) \<longleftrightarrow> (\<exists>t. tbl_get (mt_data r) k = Some t \<and> tx_CustomerID t = cid))) \<and>
     (\<forall>key k. tbl_get (mt_idempotencyKey r) key = Some k \<longleftrightarrow>
        (\<exists>t. tbl_get (mt_data r) k = Some t \<and> tx_IdempotencyKey t = Some key))"

lemma txn_repo_ok_base:
  "txn_repo_ok r \<longleftrightarrow> txn_base_ok r \<and> (\<forall>x k. tbl_get (mt_external r) x = Some k \<longleftrightarrow>
     (\<exists>t. tbl_get (mt_data r) k = Some t \<and> tx_ExternalID t = x \<and> x \<noteq> []))"
  unfolding txn_repo_ok_def txn_base_ok_def by blast

lemma txn_base_idem:
  "txn_base_ok r \<Longrightarrow> tbl_get (mt_idempotencyKey r) key = Some k \<longleftrightarrow>
     (\<exists>t. tbl_get (mt_data r) k = Some t \<and> tx_IdempotencyKey t = Some key)"
  unfolding txn_base_ok_def by blast

lemma mt_data_insert: "tbl_get (mt_data (insert_txn t r)) k = (if k = tx_ID t then Some t else tbl_get (mt_data r) k)"
  by (simp add: insert_txn_def tbl_simps)

lemma insert_txn_base_ok:
  assumes ok: "txn_base_ok r" and new: "tbl_get (mt_data r) (tx_ID t) = None"
    and key: "\<And>key. tx_IdempotencyKey t = Some key \<Longrightarrow> tbl_get (mt_idempotencyKey r) key = None"
    and can: "CanonicalUUID (tx_CustomerID t) = tx_CustomerID t"
  shows "txn_base_ok (insert_txn t r)"
proof -
  have idx: "distinct (mt_index (insert_txn t r) cid) \<and>
      (\<forall>k. k \<in> set (mt_index (insert_txn t r) cid) \<longleftrightarrow>
         (\<exists>u. tbl_get (mt_data (insert_txn t r)) k = Some u \<and> tx_CustomerID u = cid))" for cid
    using ok new unfolding mt_index_insert mt_data_insert txn_base_ok_def by auto
  have idem: "tbl_get (mt_idempotencyKey r) y = Some k \<longleftrightarrow>
      (\<exists>u. tbl_get (mt_data r) k = Some u \<and> tx_IdempotencyKey u = Some y)" for y k
    by (rule txn_base_idem [OF ok])
  have idem': "tbl_get (mt_idempotencyKey (insert_txn t r)) y = Some k \<longleftrightarrow>
      (\<exists>u. tbl_get (mt_data (insert_txn t r)) k = Some u \<and> tx_IdempotencyKey u = Some y)" for y k
    using key [of y] idem [of y k] idem [of y "tx_ID t"] new unfolding mt_data_insert
    by (cases "tx_IdempotencyKey t") (auto simp: insert_txn_def tbl_simps)
  have "tbl_wf (mt_data (insert_txn t r))" using ok by (simp add: insert_txn_def txn_base_ok_def)
  moreover have "\<forall>k u. tbl_get (mt_data (insert_txn t r)) k = Some u \<longrightarrow>
      tx_ID u = k \<and> CanonicalUUID (tx_CustomerID u) = tx_CustomerID u"
    using ok can unfolding mt_data_insert txn_base_ok_def by auto
  ultimately show ?thesis using idx idem' unfolding txn_base_ok_def by blast
qed

lemma insert_txn_ok:
  assumes ok: "txn_repo_ok r" and new: "tbl_get (mt_data r) (tx_ID t) = None"
    and key: "\<And>key. tx_IdempotencyKey t = Some key \<Longrightarrow> tbl_get (mt_idempotencyKey r) key = None"
    and ext: "tx_ExternalID t = [] \<or> tbl_get (mt_external r) (tx_ExternalID t) = None"
    and can: "CanonicalUUID (tx_CustomerID t) = tx_CustomerID t"
  shows "txn_repo_ok (insert_txn t r)"
proof -
  have exts: "tbl_get (mt_external r) y = Some k \<longleftrightarrow>
      (\<exists>u. tbl_get (mt_data r) k = Some u \<and> tx_ExternalID u = y \<and> y \<noteq> [])" for y k
    using ok unfolding txn_repo_ok_def by blast
  have "tbl_get (mt_external (insert_txn t r)) y = Some k \<longleftrightarrow>
      (\<exists>u. tbl_get (mt_data (insert_txn t r)) k = Some u \<and> tx_ExternalID u = y \<and> y \<noteq> [])" for y k
    using ext exts [of y k] exts [of y "tx_ID t"] new unfolding mt_data_insert
    by (cases "tx_ExternalID t = []") (auto simp: insert_txn_def tbl_simps)
  then show ?thesis using insert_txn_base_ok [OF _ new key can] ok by (simp add: txn_repo_ok_base)
qed

lemma txn_step_ok: "txn_step r r' \<Longrightarrow> txn_repo_ok r \<Longrightarrow> txn_repo_ok r'"
proof (induction rule: txn_step.induct)
  case (create r t)
  show ?case
  proof (cases "txn_unused r t")
    case False
    then show ?thesis using Txn_Create_used [OF False] create by auto
  next
    case True
    then have "tbl_get (mt_external r) (tx_ExternalID t) \<noteq> Some (CanonicalUUID (tx_ID t))"
      using create by (auto simp: txn_repo_ok_def txn_unused_def)
    with True have "txn_repo_ok (insert_txn (canonical_txn t) r)"
      by (intro insert_txn_ok [OF create]) (auto simp: txn_unused_def)
    then show ?thesis by (simp add: Txn_Create_unused [OF True])
  qed
qed

lemma txn_steps_ok: "txn_step\<^sup>*\<^sup>* r r' \<Longrightarrow> txn_repo_ok r \<Longrightarrow> txn_repo_ok r'"
  by (induction rule: rtranclp_induct) (auto intro: txn_step_ok)

text \<open>
  Atomic sections: \<^verbatim>\<open>RunAtomic\<close> copies the repositories first, and puts the copies back when its
  function fails; creations outside the section go on beside it. The state is the repository, the copy
  of the section that is open, and a list kept for the specification only: every transaction a creation
  has accepted so far, whether or not a rollback took it back.\<close>

definition restore_transactions :: "MemoryTransactionRepo \<Rightarrow> MemoryTransactionRepo \<Rightarrow> MemoryTransactionRepo" where
  "restore_transactions snapshot r =
    r\<lparr>mt_data := mt_data snapshot, mt_byCustomer := mt_byCustomer snapshot, mt_idempotencyKey := mt_idempotencyKey snapshot\<rparr>"

type_synonym txn_state = "MemoryTransactionRepo \<times> MemoryTransactionRepo option \<times> Transaction list"

inductive atomic_txn_step :: "txn_state \<Rightarrow> txn_state \<Rightarrow> bool" where
  accepted: "Txn_Create r t = (Inr (), r') \<Longrightarrow> atomic_txn_step (r, snap, made) (r', snap, canonical_txn t # made)"
| refused: "Txn_Create r t = (Inl e, r') \<Longrightarrow> atomic_txn_step (r, snap, made) (r', snap, made)"
| begin_section: "atomic_txn_step (r, None, made) (r, Some r, made)"
| commit: "atomic_txn_step (r, Some snapshot, made) (r, None, made)"
| rollback: "atomic_txn_step (r, Some snapshot, made) (restore_transactions snapshot r, None, made)"

text \<open>
  The external index remembers the identifier of every creation accepted so far. The records are
  among those creations and stored under canonical identifiers, and so are those of the copy.\<close>

definition stored_from :: "Transaction list \<Rightarrow> MemoryTransactionRepo \<Rightarrow> bool" where
  "stored_from made r \<longleftrightarrow> (\<forall>k u. tbl_get (mt_data r) k = Some u \<longrightarrow> u \<in> set made)"

definition external_ok :: "Transaction list \<Rightarrow> MemoryTransactionRepo \<Rightarrow> bool" where
  "external_ok made r \<longleftrightarrow> (\<forall>u \<in> set made. CanonicalUUID (tx_ID u) = tx_ID u) \<and>
     (\<forall>x k. x \<noteq> [] \<longrightarrow> (tbl_get (mt_external r) x = Some k \<longleftrightarrow> (\<exists>u \<in> set made. tx_ExternalID u = x \<and> tx_ID u = k)))"

fun atomic_txn_ok :: "txn_state \<Rightarrow> bool" where
  "atomic_txn_ok (r, snap, made) \<longleftrightarrow> txn_base_ok r \<and> stored_from made r \<and> external_ok made r \<and>
     (\<forall>snapshot. snap = Some snapshot \<longrightarrow> txn_base_ok snapshot \<and> stored_from made snapshot)"

lemma Txn_Create_accepted: "Txn_Create r t = (Inr (), r') \<Longrightarrow> txn_unused r t \<and> r' = insert_txn (canonical_txn t) r"
  using Txn_Create_unused [of r t] Txn_Create_used [of r t] by (cases "txn_unused r t") auto

lemma Txn_Create_refused: "Txn_Create r t = (Inl e, r') \<Longrightarrow> r' = r"
  using Txn_Create_unused [of r t] Txn_Create_used [of r t] by (cases "txn_unused r t") auto

lemma insert_external_ok:
  assumes "external_ok made r" and "txn_unused r t"
  shows "external_ok (canonical_txn t # made) (insert_txn (canonical_txn t) r)"
proof -
  have same: "tx_ID u = CanonicalUUID (tx_ID t)" if "u \<in> set made" "tx_ExternalID u = tx_ExternalID t" "tx_ExternalID t \<noteq> []" for u
  proof -
    have "tbl_get (mt_external r) (tx_ExternalID t) = Some (tx_ID u)" using assms(1) that unfolding external_ok_def by blast
    then show ?thesis using assms(2) that(3) by (simp add: txn_unused_def)
  qed
  have "tbl_get (mt_external (insert_txn (canonical_txn t) r)) x = Some k \<longleftrightarrow>
      (\<exists>u \<in> set (canonical_txn t # made). tx_ExternalID u = x \<and> tx_ID u = k)" if "x \<noteq> []" for x k
  proof -
    have "tbl_get (mt_external r) x = Some k \<longleftrightarrow> (\<exists>u \<in> set made. tx_ExternalID u = x \<and> tx_ID u = k)"
      using assms(1) that by (simp add: external_ok_def)
    then show ?thesis using same that by (auto simp: insert_txn_def tbl_simps)
  qed
  then show ?thesis using assms(1) by (auto simp: external_ok_def)
qed

lemma atomic_txn_step_ok: "atomic_txn_step s s' \<Longrightarrow> atomic_txn_ok s \<Longrightarrow> atomic_txn_ok s'"
proof (induction rule: atomic_txn_step.induct)
  case (accepted r t r' snap made)
  from Txn_Create_accepted [OF accepted(1)] have unused: "txn_unused r t" and r': "r' = insert_txn (canonical_txn t) r" by auto
  have "txn_base_ok r'" unfolding r'
    by (rule insert_txn_base_ok) (use accepted(2) unused in \<open>auto simp: txn_unused_def\<close>)
  moreover have "external_ok (canonical_txn t # made) r'" unfolding r'
    using insert_external_ok [OF _ unused] accepted(2) by simp
  ultimately show ?case using accepted(2) by (auto simp: stored_from_def r' mt_data_insert)
next
  case (refused r t e r' snap made)
  then show ?case using Txn_Create_refused [OF refused(1)] by simp
next
  case (rollback r snapshot made)
  then show ?case by (simp add: restore_transactions_def txn_base_ok_def stored_from_def external_ok_def mt_index_def)
qed auto

lemma atomic_txn_reachable_ok:
  assumes "atomic_txn_step\<^sup>*\<^sup>* (NewMemoryTransactionRepo, None, []) s"
  shows "atomic_txn_ok s"
  using assms
proof (induction rule: rtranclp_induct)
  case base
  show ?case using NewMemoryTransactionRepo_ok
    by (simp add: txn_repo_ok_base stored_from_def external_ok_def NewMemoryTransactionRepo_def)
next
  case (step s s')
  then show ?case by (blast intro: atomic_txn_step_ok)
qed

text \<open>
  A new transaction clashes with a stored one that has its identifier or its idempotency key, and
  with an accepted creation of another identifier that had its external identifier.\<close>

definition clashes :: "Transaction \<Rightarrow> Transaction \<Rightarrow> bool" where
  "clashes t u \<longleftrightarrow> SameIdentifier (tx_ID t) (tx_ID u) \<or>
     tx_IdempotencyKey t \<noteq> None \<and> tx_IdempotencyKey u = tx_IdempotencyKey t"

definition reserved :: "Transaction \<Rightarrow> Transaction \<Rightarrow> bool" where
  "reserved t u \<longleftrightarrow> tx_ExternalID t \<noteq> [] \<and> tx_ExternalID u = tx_ExternalID t \<and> \<not> SameIdentifier (tx_ID t) (tx_ID u)"

lemma txn_unused_iff:
  assumes ok: "atomic_txn_ok (r, snap, made)"
  shows "txn_unused r t \<longleftrightarrow> \<not> (\<exists>u \<in> set (tbl_vals (mt_data r)). clashes t u) \<and> \<not> (\<exists>u \<in> set made. reserved t u)"
proof -
  let ?i = "CanonicalUUID (tx_ID t)"
  have base: "txn_base_ok r" "stored_from made r" "external_ok made r" using ok by auto
  have wf: "tbl_wf (mt_data r)" using base(1) by (simp add: txn_base_ok_def)
  have same: "SameIdentifier (tx_ID t) (tx_ID u) \<longleftrightarrow> tx_ID u = ?i" if "u \<in> set made" for u
    using that base(3) by (auto simp: external_ok_def SameIdentifier_def CanonicalIdentifier_def)
  have keys: "tbl_get (mt_data r) k = Some u \<Longrightarrow> tx_ID u = k \<and> u \<in> set made" for k u
    using base(1,2) by (auto simp: txn_base_ok_def stored_from_def)
  have id: "tbl_get (mt_data r) ?i = None \<longleftrightarrow> (\<forall>k u. tbl_get (mt_data r) k = Some u \<longrightarrow> \<not> SameIdentifier (tx_ID t) (tx_ID u))"
  proof -
    have "SameIdentifier (tx_ID t) (tx_ID u) \<longleftrightarrow> k = ?i" if "tbl_get (mt_data r) k = Some u" for k u
      using keys [OF that] same by auto
    then show ?thesis by (cases "tbl_get (mt_data r) ?i") auto
  qed
  have idem: "tbl_get (mt_idempotencyKey r) key = None \<longleftrightarrow>
      (\<forall>k u. tbl_get (mt_data r) k = Some u \<longrightarrow> tx_IdempotencyKey u \<noteq> Some key)" for key
  proof -
    have "tbl_get (mt_idempotencyKey r) key = None \<longleftrightarrow> (\<forall>k. tbl_get (mt_idempotencyKey r) key \<noteq> Some k)"
      by (cases "tbl_get (mt_idempotencyKey r) key") simp_all
    then show ?thesis by (auto simp: txn_base_idem [OF base(1)])
  qed
  have ext: "tbl_get (mt_external r) x = None \<or> tbl_get (mt_external r) x = Some ?i \<longleftrightarrow>
      (\<forall>u \<in> set made. tx_ExternalID u = x \<longrightarrow> tx_ID u = ?i)" if "x \<noteq> []" for x
  proof -
    have index: "tbl_get (mt_external r) x = Some k \<longleftrightarrow> (\<exists>u \<in> set made. tx_ExternalID u = x \<and> tx_ID u = k)" for k
      using base(3) that unfolding external_ok_def by blast
    then have made: "u \<in> set made \<Longrightarrow> tx_ExternalID u = x \<Longrightarrow> tbl_get (mt_external r) x = Some (tx_ID u)" for u by blast
    show ?thesis
    proof (cases "tbl_get (mt_external r) x")
      case None
      with made show ?thesis by fastforce
    next
      case (Some k)
      with index obtain u where "u \<in> set made" "tx_ExternalID u = x" "tx_ID u = k" by blast
      moreover have "tx_ID v = k" if "v \<in> set made" "tx_ExternalID v = x" for v using made [OF that] Some by simp
      ultimately show ?thesis using Some by auto
    qed
  qed
  have "txn_unused r t \<longleftrightarrow> (\<forall>k u. tbl_get (mt_data r) k = Some u \<longrightarrow> \<not> clashes t u) \<and> (\<forall>u \<in> set made. \<not> reserved t u)"
    unfolding txn_unused_def id idem clashes_def reserved_def using ext same
    by (cases "tx_IdempotencyKey t"; cases "tx_ExternalID t = []") auto
  then show ?thesis using tbl_vals_iff [OF wf] by blast
qed

lemma stored_unique:
  assumes ok: "atomic_txn_ok (r, snap, made)" and uv: "u \<in> set (tbl_vals (mt_data r))" "v \<in> set (tbl_vals (mt_data r))"
    and same: "tx_ID u = tx_ID v \<or> tx_IdempotencyKey u \<noteq> None \<and> tx_IdempotencyKey u = tx_IdempotencyKey v \<or>
      tx_ExternalID u \<noteq> [] \<and> tx_ExternalID u = tx_ExternalID v"
  shows "u = v"
proof -
  have base: "txn_base_ok r" "stored_from made r" "external_ok made r" using ok by auto
  then have wf: "tbl_wf (mt_data r)" by (simp add: txn_base_ok_def)
  have keys: "tbl_get (mt_data r) (tx_ID w) = Some w" if "w \<in> set (tbl_vals (mt_data r))" for w
    using that tbl_vals_iff [OF wf] base(1) by (auto simp: txn_base_ok_def)
  have idem: "tx_ID u = tx_ID v" if "tx_IdempotencyKey u = Some key" "tx_IdempotencyKey v = Some key" for key
  proof -
    have "tbl_get (mt_idempotencyKey r) key = Some (tx_ID u)" "tbl_get (mt_idempotencyKey r) key = Some (tx_ID v)"
      using keys [OF uv(1)] keys [OF uv(2)] that by (simp_all add: txn_base_idem [OF base(1)])
    then show ?thesis by simp
  qed
  have ext: "tx_ID u = tx_ID v" if "tx_ExternalID u \<noteq> []" "tx_ExternalID u = tx_ExternalID v"
  proof -
    have "u \<in> set made" "v \<in> set made" using keys [OF uv(1)] keys [OF uv(2)] base(2) unfolding stored_from_def by blast+
    then have "tbl_get (mt_external r) (tx_ExternalID u) = Some (tx_ID u)" "tbl_get (mt_external r) (tx_ExternalID u) = Some (tx_ID v)"
      using that base(3) unfolding external_ok_def by auto
    then show ?thesis by simp
  qed
  have "tx_ID u = tx_ID v" using same idem ext by (elim disjE conjE) (simp, metis not_None_eq, blast)
  then show ?thesis using keys [OF uv(1)] keys [OF uv(2)] by (metis option.inject)
qed

text \<open>What an accepted creation changes.\<close>

lemma insert_txn_adds:
  assumes "txn_base_ok r" and "txn_unused r t"
  shows "tbl_get (mt_data (insert_txn (canonical_txn t) r)) = (tbl_get (mt_data r))(CanonicalUUID (tx_ID t) \<mapsto> canonical_txn t)"
    and "mt_indexed (insert_txn (canonical_txn t) r) cid =
      mt_indexed r cid @ (if cid = CanonicalUUID (tx_CustomerID t) then [canonical_txn t] else [])"
    and "Txn_Get (insert_txn (canonical_txn t) r) (tx_ID t) = Inr (canonical_txn t)"
    and "tx_IdempotencyKey t = Some key \<Longrightarrow> Txn_GetByIdempotencyKey (insert_txn (canonical_txn t) r) key = Inr (canonical_txn t)"
    and "tx_ExternalID t \<noteq> [] \<Longrightarrow> Txn_GetByExternalID (insert_txn (canonical_txn t) r) (tx_ExternalID t) = Inr (canonical_txn t)"
proof -
  have "CanonicalUUID (tx_ID t) \<notin> set (mt_index r cid)" using assms by (auto simp: txn_base_ok_def txn_unused_def)
  then show "mt_indexed (insert_txn (canonical_txn t) r) cid =
      mt_indexed r cid @ (if cid = CanonicalUUID (tx_CustomerID t) then [canonical_txn t] else [])"
    unfolding mt_indexed_def mt_index_insert List.map_filter_def
    by (auto simp: mt_data_insert intro!: map_cong filter_cong)
  show "tbl_get (mt_data (insert_txn (canonical_txn t) r)) = (tbl_get (mt_data r))(CanonicalUUID (tx_ID t) \<mapsto> canonical_txn t)"
    by (rule ext) (simp add: mt_data_insert)
qed (auto simp: Txn_Get_def Txn_GetByIdempotencyKey_def Txn_GetByExternalID_def lookup_by_def insert_txn_def tbl_simps)

text \<open>
  C5. Transactions are recorded exactly once, over any history of creations and of atomic sections that
  commit or are rolled back. Stored transactions differ in their identifiers, idempotency keys and
  external identifiers. \<open>Create\<close> accepts a transaction exactly when no stored one has its
  identifier or its idempotency key and no creation ever accepted under another identifier, rolled back
  or not, had its external identifier. An accepted transaction is added under its identifier and at the
  end of its customer's list, every other record and list is untouched, and each of the three lookups
  finds it; a refused one changes nothing and is reported as a conflict.
\<close>

theorem transaction_exactly_once:
  assumes "atomic_txn_step\<^sup>*\<^sup>* (NewMemoryTransactionRepo, None, []) (r, snap, made)"
  shows "(\<forall>u \<in> set (tbl_vals (mt_data r)). \<forall>v \<in> set (tbl_vals (mt_data r)).
      tx_ID u = tx_ID v \<or> tx_IdempotencyKey u \<noteq> None \<and> tx_IdempotencyKey u = tx_IdempotencyKey v \<or>
      tx_ExternalID u \<noteq> [] \<and> tx_ExternalID u = tx_ExternalID v \<longrightarrow> u = v) \<and>
    (if (\<exists>u \<in> set (tbl_vals (mt_data r)). clashes t u) \<or> (\<exists>u \<in> set made. reserved t u)
     then \<exists>reason. Txn_Create r t = (Inl (ErrConflict ''transaction'' (CanonicalUUID (tx_ID t)) reason), r)
     else \<exists>r'. Txn_Create r t = (Inr (), r') \<and>
       tbl_get (mt_data r') = (tbl_get (mt_data r))(CanonicalUUID (tx_ID t) \<mapsto> canonical_txn t) \<and>
       (\<forall>cid. mt_indexed r' cid = mt_indexed r cid @ (if cid = CanonicalUUID (tx_CustomerID t) then [canonical_txn t] else [])) \<and>
       Txn_Get r' (tx_ID t) = Inr (canonical_txn t) \<and>
       (\<forall>key. tx_IdempotencyKey t = Some key \<longrightarrow> Txn_GetByIdempotencyKey r' key = Inr (canonical_txn t)) \<and>
       (tx_ExternalID t \<noteq> [] \<longrightarrow> Txn_GetByExternalID r' (tx_ExternalID t) = Inr (canonical_txn t)))"
proof -
  have ok: "atomic_txn_ok (r, snap, made)" by (rule atomic_txn_reachable_ok [OF assms])
  then have base: "txn_base_ok r" by auto
  show ?thesis
  proof (cases "txn_unused r t")
    case False
    with txn_unused_iff [OF ok, of t] Txn_Create_used [OF False] stored_unique [OF ok] show ?thesis by simp
  next
    case True
    with txn_unused_iff [OF ok, of t] Txn_Create_unused [OF True] insert_txn_adds [OF base True] stored_unique [OF ok]
    show ?thesis by simp
  qed
qed

definition sample_txn :: Transaction where
  "sample_txn = \<lparr>tx_ID = ''t1'', tx_CustomerID = ''c1'', tx_ExternalID = ''e1'', tx_Amount = F64 400000,
     tx_Currency = ''JPY'', tx_Direction = DirectionInbound, tx_TransactionType = [], tx_CounterpartyID = [],
     tx_CounterpartyCountry = ''JP'', tx_Channel = [], tx_AccountID = None, tx_Counterparty = None,
     tx_Metadata = [], tx_IdempotencyKey = Some ''k1'', tx_ExecutedAt = 5, tx_CreatedAt = 7,
     tx_TravelRuleApplicable = None, tx_TravelRuleEvidence = [], tx_TravelRuleNotApplicableReason = [],
     tx_TravelRuleNotApplicableReasonCode = [], tx_TravelRuleStatus = [], tx_TravelRuleAssessment = []\<rparr>"

definition sample_txns :: MemoryTransactionRepo where
  "sample_txns = snd (Txn_Create NewMemoryTransactionRepo sample_txn)"

lemma sample_txns_reachable: "txn_step\<^sup>*\<^sup>* NewMemoryTransactionRepo sample_txns"
  unfolding sample_txns_def by (rule r_into_rtranclp, rule txn_step.create)

text \<open>
  The sample transaction is stored; a second one, created inside a section that is rolled back,
  keeps its external identifier reserved.\<close>

theorem transaction_exactly_once_witness:
  "\<exists>r t reason. Txn_Create r t = (Inl (ErrConflict ''transaction'' ''t3'' reason), r) \<and> tbl_vals (mt_data r) = [sample_txn] \<and>
     tx_ExternalID t = ''e2'' \<and> tx_ID t = ''t3''"
proof -
  let ?t = "sample_txn\<lparr>tx_ID := ''t2'', tx_ExternalID := ''e2'', tx_IdempotencyKey := None\<rparr>"
  let ?r1 = "insert_txn sample_txn NewMemoryTransactionRepo" and ?r2 = "insert_txn ?t (insert_txn sample_txn NewMemoryTransactionRepo)"
  let ?r = "restore_transactions ?r1 ?r2" and ?t' = "?t\<lparr>tx_ID := ''t3''\<rparr>"
  have canonical: "canonical_txn sample_txn = sample_txn" "canonical_txn ?t = ?t" by code_simp+
  have "Txn_Create NewMemoryTransactionRepo sample_txn = (Inr (), ?r1)" "Txn_Create ?r1 ?t = (Inr (), ?r2)"
    by code_simp+
  note steps = accepted [OF this(1), of None "[]", unfolded canonical] begin_section
    accepted [OF this(2), of "Some ?r1" "[sample_txn]", unfolded canonical] rollback
  have "atomic_txn_step\<^sup>*\<^sup>* (NewMemoryTransactionRepo, None, []) (?r, None, [?t, sample_txn])"
    using steps by (meson rtranclp.rtrancl_refl rtranclp.rtrancl_into_rtrancl)
  moreover have "\<exists>u \<in> set [?t, sample_txn]. reserved ?t' u"
  proof -
    have "\<not> SameIdentifier ''t3'' ''t2''" by code_simp
    then show ?thesis by (simp add: reserved_def)
  qed
  moreover have "CanonicalUUID (tx_ID ?t') = ''t3''" "tbl_vals (mt_data ?r) = [sample_txn]" by code_simp+
  ultimately show ?thesis
    using transaction_exactly_once [of ?r None "[?t, sample_txn]" ?t'] by (intro exI [of _ ?r] exI [of _ ?t']) auto
qed

subsection \<open>Snapshots\<close>

text \<open>
  Both loops walk a fixed list from position \<open>m\<close>: whichever way the next position is named, the loop
  returns the accumulated transactions followed by the matching ones of the rest.
\<close>

lemma history_pages_from:
  assumes pos: "1 \<le> n"
    and page: "\<And>k. k < length xs \<Longrightarrow>
      fetch (Some \<lparr>ec_ExecutedAt = tx_ExecutedAt (xs ! k), ec_ID = tx_ID (xs ! k)\<rparr>) =
        Some (Inr (take (nat n) (drop (Suc k) xs)))"
    and start: "fetch after = Some (Inr (take (nat n) (drop m xs)))"
  shows "history_pages fetch n q out after = Some (Inr (out @ filter (matchesQuery q) (drop m xs)))"
  using start
proof (induction "length xs - m" arbitrary: m after out rule: less_induct)
  case less
  let ?n = "nat n"
  show ?case
  proof (cases "length xs - m < ?n")
    case True
    then show ?thesis using less.prems pos by (subst history_pages.simps) (auto simp: Let_def)
  next
    case False
    define k where "k = m + ?n - 1"
    have k: "k < length xs" "Suc k = m + ?n" using False pos by (auto simp: k_def)
    have "last (take ?n (drop m xs)) = xs ! k"
      using False pos by (subst last_conv_nth) (auto simp: k_def min_def)
    moreover have "\<not> int (length (take ?n (drop m xs))) < n" using False pos by auto
    moreover have "history_pages fetch n q (out @ filter (matchesQuery q) (take ?n (drop m xs)))
        (Some \<lparr>ec_ExecutedAt = tx_ExecutedAt (xs ! k), ec_ID = tx_ID (xs ! k)\<rparr>) =
      Some (Inr ((out @ filter (matchesQuery q) (take ?n (drop m xs))) @ filter (matchesQuery q) (drop (Suc k) xs)))"
      using k pos by (intro less.hyps page) auto
    moreover have "take ?n (drop m xs) @ drop (Suc k) xs = drop m xs"
      using k(2) by (metis append_take_drop_id drop_drop add.commute)
    then have "filter (matchesQuery q) (take ?n (drop m xs)) @ filter (matchesQuery q) (drop (Suc k) xs) =
        filter (matchesQuery q) (drop m xs)" by (metis filter_append)
    ultimately show ?thesis using less.prems by (subst history_pages.simps) (simp add: Let_def)
  qed
qed

lemma offset_pages_from:
  assumes pos: "1 \<le> n"
    and page: "\<And>m. fetch (int m) = Some (Inr (take (nat n) (drop m xs)))"
  shows "offset_pages fetch n q out (int m) = Some (Inr (out @ filter (matchesQuery q) (drop m xs)))"
proof (induction "length xs - m" arbitrary: m out rule: less_induct)
  case less
  let ?n = "nat n"
  show ?case
  proof (cases "length xs - m < ?n")
    case True
    then show ?thesis using page [of m] pos by (subst offset_pages.simps) (auto simp: Let_def)
  next
    case False
    have "\<not> int (length (take ?n (drop m xs))) < n" using False pos by auto
    moreover have "int m + n = int (m + ?n)" using pos by simp
    moreover have "offset_pages fetch n q (out @ filter (matchesQuery q) (take ?n (drop m xs))) (int (m + ?n)) =
      Some (Inr ((out @ filter (matchesQuery q) (take ?n (drop m xs))) @ filter (matchesQuery q) (drop (m + ?n) xs)))"
      using False pos by (intro less.hyps) auto
    moreover have "filter (matchesQuery q) (take ?n (drop m xs)) @ filter (matchesQuery q) (drop (m + ?n) xs) =
        filter (matchesQuery q) (drop m xs)"
      by (metis append_take_drop_id drop_drop add.commute filter_append)
    ultimately show ?thesis using page [of m] by (subst offset_pages.simps) (simp add: Let_def)
  qed
qed

lemma map_filter_Some_inj:
  assumes "\<And>k. k \<in> set ks \<Longrightarrow> \<exists>v. f k = Some v \<and> g v = k"
  shows "map g (List.map_filter f ks) = ks"
  using assms by (induction ks) (force simp: List.map_filter_simps)+

lemma mt_indexed_ids: "txn_repo_ok r \<Longrightarrow> map tx_ID (mt_indexed r cid) = mt_index r cid"
  unfolding mt_indexed_def by (rule map_filter_Some_inj) (auto simp: txn_repo_ok_def)

lemma mem_map_filter: "y \<in> set (List.map_filter f xs) \<longleftrightarrow> (\<exists>x \<in> set xs. f x = Some y)"
  by (induction xs) (auto simp: List.map_filter_simps split: option.split)

lemma mt_indexed_mem:
  assumes "txn_repo_ok r"
  shows "t \<in> set (mt_indexed r cid) \<longleftrightarrow> t \<in> set (tbl_vals (mt_data r)) \<and> tx_CustomerID t = cid"
proof -
  have wf: "tbl_wf (mt_data r)" using assms by (simp add: txn_repo_ok_def)
  have idx: "k \<in> set (mt_index r cid) \<longleftrightarrow> (\<exists>t. tbl_get (mt_data r) k = Some t \<and> tx_CustomerID t = cid)" for k
    using assms by (simp add: txn_repo_ok_def)
  have "t \<in> set (mt_indexed r cid) \<longleftrightarrow> (\<exists>k \<in> set (mt_index r cid). tbl_get (mt_data r) k = Some t)"
    by (simp add: mt_indexed_def mem_map_filter)
  also have "\<dots> \<longleftrightarrow> (\<exists>k. tbl_get (mt_data r) k = Some t) \<and> tx_CustomerID t = cid"
    by (auto simp: Bex_def idx)
  finally show ?thesis unfolding tbl_vals_iff [OF wf] .
qed

lemma event_sorted_strict: "distinct (map tx_ID xs) \<Longrightarrow> sorted_wrt event_less (go_sort event_less xs)"
  by (rule event.sorted_strict [OF event.go_sort_sorted])
    (auto simp: distinct_map event_less_def dest: inj_onD intro!: asc_less_total)

lemma after_event_less: "after_event \<lparr>ec_ExecutedAt = tx_ExecutedAt t, ec_ID = tx_ID t\<rparr> = event_less t"
  by (auto simp: after_event_def event_less_def asc_less_def fun_eq_iff)

lemma positive_page: "1 \<le> n \<Longrightarrow> (if n > 0 \<and> int (length xs) > n then take (nat n) xs else xs) = take (nat n) xs"
  by auto

lemma event_page:
  assumes "1 \<le> n" and xs: "xs = go_sort event_less (filter P (mt_indexed r (CanonicalUUID cid)))"
    and P: "\<And>t. P t \<longleftrightarrow> \<not> tx_ExecutedAt t < from \<and> tx_ExecutedAt t < to \<and> \<not> tx_CreatedAt t > limit"
  shows "ListByCustomerEventRange r cid from to limit n None = take (nat n) xs"
    and "ListByCustomerEventRange r cid from to limit n (Some c) = take (nat n) (filter (after_event c) xs)"
proof -
  have "filter (\<lambda>t. P t \<and> after_event c t) ys = filter (after_event c) (filter P ys)" for ys
    by (simp add: conj_commute)
  then have "go_sort event_less (filter (\<lambda>t. P t \<and> after_event c t) (mt_indexed r (CanonicalUUID cid))) =
      filter (after_event c) xs"
    unfolding xs by (simp only: event.go_sort_filter)
  then show "ListByCustomerEventRange r cid from to limit n (Some c) = take (nat n) (filter (after_event c) xs)"
    by (simp only: ListByCustomerEventRange_def Let_def positive_page [OF assms(1)] P conj_assoc option.case)
  show "ListByCustomerEventRange r cid from to limit n None = take (nat n) xs"
    unfolding xs ListByCustomerEventRange_def Let_def positive_page [OF assms(1)] option.case
    by (simp only: P [abs_def] simp_thms)
qed

text \<open>
  C37. Snapshots are complete and stable. On the memory repository, after any history of creations
  and for any page size, the loader returns: the transactions of the customer executed inside the
  half-open window and recorded before the cutoff, each once, ordered by event time; and a
  repository that offers only offset pages over the same store gives the same list.
\<close>

theorem snapshot_complete:
  assumes reach: "txn_step\<^sup>*\<^sup>* NewMemoryTransactionRepo r"
    and window: "q_From q < q_To q" and cutoff: "q_CreatedThrough q \<noteq> 0"
  shows "\<exists>xs. ListCustomerTransactionsAsOf None (Some (memory_transactions r)) cid q = Some (Inr xs) \<and>
    ListCustomerTransactionsAsOf None (Some (offset_only (memory_transactions r))) cid q = Some (Inr xs) \<and>
    sorted_wrt event_less xs \<and>
    set xs = {t \<in> set (tbl_vals (mt_data r)). SameIdentifier (tx_CustomerID t) cid \<and> matchesQuery q t}"
proof -
  define n where "n = (if q_PageSize q \<le> 0 then defaultPageSize else q_PageSize q)"
  define limit where "limit = (if q_CreatedBeforeExclusive q then q_CreatedThrough q - 1 else q_CreatedThrough q)"
  define ys where "ys = mt_indexed r (CanonicalUUID cid)"
  define xs where "xs = go_sort event_less (filter (matchesQuery q) ys)"
  have n: "1 \<le> n" by (simp add: n_def defaultPageSize_def)
  have ok: "txn_repo_ok r" using txn_steps_ok [OF reach NewMemoryTransactionRepo_ok] .
  have dist: "distinct (map tx_ID ys)" unfolding ys_def mt_indexed_ids [OF ok] using ok by (simp add: txn_repo_ok_def)
  then have srt: "sorted_wrt event_less xs"
    unfolding xs_def by (intro event_sorted_strict) (rule distinct_map_filter)
  have P: "matchesQuery q t \<longleftrightarrow> \<not> tx_ExecutedAt t < q_From q \<and> tx_ExecutedAt t < q_To q \<and> \<not> tx_CreatedAt t > limit" for t
    by (auto simp: matchesQuery_def Let_def limit_def)
  note pages = event_page [OF n xs_def [unfolded ys_def] P]
  have "filter (matchesQuery q) xs = xs" by (auto simp: xs_def filter_id_conv)
  moreover have "history_pages (\<lambda>after. Some (Inr (ListByCustomerEventRange r cid (q_From q) (q_To q) limit n after))) n q [] None =
      Some (Inr ([] @ filter (matchesQuery q) (drop 0 xs)))"
    by (rule history_pages_from [OF n])
      (simp_all add: pages after_event_less event.filter_after_nth [OF srt])
  ultimately have hist: "ListCustomerTransactionsAsOf None (Some (memory_transactions r)) cid q = Some (Inr xs)"
    using window cutoff
    by (simp add: ListCustomerTransactionsAsOf_def memory_transactions_def Let_def n_def [symmetric] limit_def [symmetric])
  let ?zs = "sortByCreatedAtDesc ys tx_CreatedAt tx_ID"
  have "offset_pages (\<lambda>offset. map_option Inr (Txn_ListByCustomer r cid n offset)) n q [] (int 0) =
      Some (Inr ([] @ filter (matchesQuery q) (drop 0 ?zs)))"
    by (rule offset_pages_from [OF n])
      (use n in \<open>simp add: Txn_ListByCustomer_def pageByOffset_eq ys_def\<close>)
  moreover have "go_sort event_less (filter (matchesQuery q) ?zs) = xs"
    unfolding xs_def
  proof (rule event.go_sort_unique)
    show "mset (filter (matchesQuery q) ?zs) = mset (filter (matchesQuery q) ys)"
      by (simp add: sortByCreatedAtDesc_def)
    show "event_less x y \<or> event_less y x"
      if "x \<in> set (filter (matchesQuery q) ?zs)" "y \<in> set (filter (matchesQuery q) ?zs)" "x \<noteq> y" for x y
      using that dist unfolding event_less_def
      by (intro asc_less_total) (auto simp: sortByCreatedAtDesc_def distinct_map dest: inj_onD)
  qed
  ultimately have "ListCustomerTransactionsAsOf None (Some (offset_only (memory_transactions r))) cid q = Some (Inr xs)"
    using window cutoff
    by (simp add: ListCustomerTransactionsAsOf_def memory_transactions_def offset_only_def Let_def n_def [symmetric])
  moreover have "SameIdentifier (tx_CustomerID t) cid \<longleftrightarrow> tx_CustomerID t = CanonicalUUID cid"
    if mem: "t \<in> set (tbl_vals (mt_data r))" for t
  proof -
    have "tbl_wf (mt_data r)" using ok by (simp add: txn_repo_ok_def)
    from tbl_vals_get [OF this mem] obtain k where "tbl_get (mt_data r) k = Some t" ..
    with ok have "CanonicalUUID (tx_CustomerID t) = tx_CustomerID t" by (simp add: txn_repo_ok_def)
    then show ?thesis by (simp add: SameIdentifier_def CanonicalIdentifier_def)
  qed
  then have "t \<in> set xs \<longleftrightarrow>
      t \<in> set (tbl_vals (mt_data r)) \<and> SameIdentifier (tx_CustomerID t) cid \<and> matchesQuery q t" for t
    unfolding xs_def ys_def set_go_sort set_filter mem_Collect_eq mt_indexed_mem [OF ok] by blast
  then have "set xs = {t \<in> set (tbl_vals (mt_data r)). SameIdentifier (tx_CustomerID t) cid \<and> matchesQuery q t}"
    by blast
  ultimately show ?thesis using hist srt by blast
qed

definition sample_query :: Query where
  "sample_query = \<lparr>q_From = 1, q_To = 9, q_CreatedThrough = 8, q_CreatedBeforeExclusive = True, q_PageSize = 1\<rparr>"

theorem snapshot_complete_witness:
  "\<exists>xs. ListCustomerTransactionsAsOf None (Some (memory_transactions sample_txns)) ''c1'' sample_query = Some (Inr xs) \<and>
    ListCustomerTransactionsAsOf None (Some (offset_only (memory_transactions sample_txns))) ''c1'' sample_query = Some (Inr xs) \<and>
    set xs = {sample_txn}"
proof -
  have "tbl_vals (mt_data sample_txns) = [sample_txn]" by code_simp
  moreover have "SameIdentifier (tx_CustomerID sample_txn) ''c1'' \<and> matchesQuery sample_query sample_txn" by code_simp
  ultimately have "{t \<in> set (tbl_vals (mt_data sample_txns)). SameIdentifier (tx_CustomerID t) ''c1'' \<and>
      matchesQuery sample_query t} = {sample_txn}" by auto
  with snapshot_complete [OF sample_txns_reachable, of sample_query "''c1''"] show ?thesis
    by (auto simp: sample_query_def)
qed

end
