(* ===== verification/Float64.thy ===== *)
theory Float64
  imports Prelude
begin

text \<open>
  Binary64 arithmetic as the Go specification asks for it (IEEE 754, rounding to nearest, ties to
  even): a finite value is the rational number it denotes, an operation computes the exact
  rational result and rounds it. Values whose magnitude reaches \<open>2 ^ 1024\<close> become infinities,
  and values below the normal range are rounded to multiples of \<open>2 ^ -1074\<close>. The two zeros are one
  value; a division by zero has the sign of the dividend, which is what the positive zero gives.

  The main fact is \<open>f64_round_int\<close>: integers of magnitude up to \<open>2 ^ 53\<close> are rounded to themselves,
  so that sums of such amounts are exact.
\<close>

subsection \<open>Rounding\<close>

function bits :: "int \<Rightarrow> nat" where
  "bits n = (if n \<le> 0 then 0 else Suc (bits (n div 2)))"
  by auto

termination
  by (relation "measure nat") auto

declare bits.simps [simp del]

definition pow2 :: "int \<Rightarrow> rat" where
  "pow2 e = (if 0 \<le> e then 2 ^ nat e else 1 / 2 ^ nat (- e))"

text \<open>The exponent \<open>e\<close> with \<open>2 ^ e \<le> |q| < 2 ^ (e + 1)\<close>, for \<open>q \<noteq> 0\<close>.\<close>

definition ilog2 :: "rat \<Rightarrow> int" where
  "ilog2 q = (case quotient_of \<bar>q\<bar> of (n, d) \<Rightarrow>
     let e = int (bits n) - int (bits d) in if pow2 e \<le> \<bar>q\<bar> then e else e - 1)"

definition round_half_even :: "rat \<Rightarrow> int" where
  "round_half_even q =
    (let n = \<lfloor>q\<rfloor>; r = q - of_int n in
     if r < 1 / 2 then n else if r > 1 / 2 then n + 1 else if even n then n else n + 1)"

text \<open>
  With \<open>2 ^ 52 \<le> m \<le> 2 ^ 53\<close> the magnitude \<open>m * 2 ^ e\<close> reaches \<open>2 ^ 1024\<close> exactly when \<open>e > 971\<close>, or
  \<open>e = 971\<close> and \<open>m = 2 ^ 53\<close>.
\<close>

definition f64_round :: "rat \<Rightarrow> float64" where
  "f64_round q =
    (if q = 0 then F64 0
     else let e = max (- 1074) (ilog2 q - 52); m = round_half_even (q / pow2 e) in
       if e > 971 \<or> e = 971 \<and> \<bar>m\<bar> = 2 ^ 53 then (if q < 0 then F64_NegInf else F64_PosInf)
       else F64 (of_int m * pow2 e))"

subsection \<open>Arithmetic\<close>

fun f64_add :: "float64 \<Rightarrow> float64 \<Rightarrow> float64" where
  "f64_add (F64 a) (F64 b) = f64_round (a + b)"
| "f64_add F64_NaN _ = F64_NaN"
| "f64_add _ F64_NaN = F64_NaN"
| "f64_add F64_PosInf F64_NegInf = F64_NaN"
| "f64_add F64_NegInf F64_PosInf = F64_NaN"
| "f64_add F64_PosInf _ = F64_PosInf"
| "f64_add _ F64_PosInf = F64_PosInf"
| "f64_add F64_NegInf _ = F64_NegInf"
| "f64_add _ F64_NegInf = F64_NegInf"

fun f64_neg :: "float64 \<Rightarrow> float64" where
  "f64_neg (F64 a) = F64 (- a)"
| "f64_neg F64_NaN = F64_NaN"
| "f64_neg F64_PosInf = F64_NegInf"
| "f64_neg F64_NegInf = F64_PosInf"

definition f64_sub :: "float64 \<Rightarrow> float64 \<Rightarrow> float64" where
  "f64_sub x y = f64_add x (f64_neg y)"

definition f64_inf :: "bool \<Rightarrow> float64" where
  "f64_inf negative = (if negative then F64_NegInf else F64_PosInf)"

definition f64_negative :: "float64 \<Rightarrow> bool" where
  "f64_negative x = f64_lt x (F64 0)"

fun f64_mul :: "float64 \<Rightarrow> float64 \<Rightarrow> float64" where
  "f64_mul (F64 a) (F64 b) = f64_round (a * b)"
| "f64_mul F64_NaN _ = F64_NaN"
| "f64_mul _ F64_NaN = F64_NaN"
| "f64_mul x y = (if x = F64 0 \<or> y = F64 0 then F64_NaN else f64_inf (f64_negative x \<noteq> f64_negative y))"

fun f64_div :: "float64 \<Rightarrow> float64 \<Rightarrow> float64" where
  "f64_div (F64 a) (F64 b) =
    (if b \<noteq> 0 then f64_round (a / b) else if a = 0 then F64_NaN else f64_inf (a < 0))"
| "f64_div F64_NaN _ = F64_NaN"
| "f64_div _ F64_NaN = F64_NaN"
| "f64_div (F64 a) _ = F64 0"
| "f64_div x (F64 b) = f64_inf (f64_negative x \<noteq> (b < 0))"
| "f64_div _ _ = F64_NaN"

abbreviation f64_of_int :: "int \<Rightarrow> float64" where
  "f64_of_int n \<equiv> f64_round (of_int n)"

text \<open>
  \<^verbatim>\<open>int64(x)\<close>: truncation towards zero. The language leaves the result open when it does not fit;
  the value here is the one of the amd64 conversion instruction.
\<close>

fun int64_of_f64 :: "float64 \<Rightarrow> int" where
  "int64_of_f64 (F64 q) =
    (let n = (if 0 \<le> q then \<lfloor>q\<rfloor> else \<lceil>q\<rceil>) in
     if - (2 ^ 63) \<le> n \<and> n < 2 ^ 63 then n else - (2 ^ 63))"
| "int64_of_f64 _ = - (2 ^ 63)"

subsection \<open>Integers up to \<open>2 ^ 53\<close> are exact\<close>

lemma bits_bounds: "0 < n \<Longrightarrow> 2 ^ (bits n - 1) \<le> n \<and> n < 2 ^ bits n"
proof (induction n rule: bits.induct)
  case (1 n)
  show ?case
  proof (cases "n div 2 = 0")
    case True
    with 1(2) have "n = 1" by linarith
    then show ?thesis by (simp add: bits.simps)
  next
    case False
    with 1(2) have "0 < n div 2" by linarith
    with 1 have ih: "2 ^ (bits (n div 2) - 1) \<le> n div 2" "n div 2 < 2 ^ bits (n div 2)" by simp_all
    have b: "bits n = Suc (bits (n div 2))" using 1(2) by (subst bits.simps) simp
    moreover have "0 < bits (n div 2)" using \<open>0 < n div 2\<close> by (subst bits.simps) simp
    ultimately have "(2::int) ^ (bits n - 1) = 2 * 2 ^ (bits (n div 2) - 1)" by (cases "bits (n div 2)") auto
    moreover have "(2::int) ^ bits n = 2 * 2 ^ bits (n div 2)" by (simp add: b)
    moreover have "2 * (n div 2) \<le> n" "n < 2 * (n div 2) + 2" by linarith+
    ultimately show ?thesis using ih by linarith
  qed
qed

lemma bits_1 [simp]: "bits 1 = 1"
  by (simp add: bits.simps)

lemma bits_pos: "0 < n \<Longrightarrow> 0 < bits n"
  by (subst bits.simps) simp

lemma pow2_pos [simp]: "0 < pow2 e"
  by (simp add: pow2_def)

lemma pow2_nonneg [simp]: "0 \<le> pow2 e"
  by (simp add: less_imp_le)

lemma round_half_even_int [simp]: "round_half_even (of_int n) = n"
  by (simp add: round_half_even_def)

lemma abs_of_int_le: "\<bar>of_int n :: rat\<bar> \<le> 2 ^ k \<longleftrightarrow> \<bar>n\<bar> \<le> 2 ^ k"
  using of_int_le_iff [of "\<bar>n\<bar>" "2 ^ k", where 'a = rat] by simp

lemma abs_of_int_ge: "2 ^ k \<le> \<bar>of_int n :: rat\<bar> \<longleftrightarrow> 2 ^ k \<le> \<bar>n\<bar>"
  using of_int_le_iff [of "2 ^ k" "\<bar>n\<bar>", where 'a = rat] by simp

lemma ilog2_int:
  assumes "n \<noteq> 0"
  shows "pow2 (ilog2 (of_int n)) \<le> \<bar>of_int n\<bar>" and "0 \<le> ilog2 (of_int n)"
proof -
  have "\<bar>of_int n\<bar> = (of_int \<bar>n\<bar> :: rat)" by simp
  then have q: "quotient_of \<bar>of_int n\<bar> = (\<bar>n\<bar>, 1)" by (simp only: quotient_of_rat_of_int)
  have b: "0 < bits \<bar>n\<bar>" using assms by (intro bits_pos) simp
  have "2 ^ (bits \<bar>n\<bar> - 1) \<le> \<bar>n\<bar>" using bits_bounds [of "\<bar>n\<bar>"] assms by simp
  then have "(2 :: rat) ^ (bits \<bar>n\<bar> - 1) \<le> \<bar>of_int n\<bar>" by (simp add: abs_of_int_ge)
  moreover have "pow2 (int (bits \<bar>n\<bar>) - 1) = 2 ^ (bits \<bar>n\<bar> - 1)"
    using b by (simp add: pow2_def nat_diff_distrib)
  ultimately have l: "ilog2 (of_int n) = int (bits \<bar>n\<bar>) - 1 \<and>
      pow2 (int (bits \<bar>n\<bar>) - 1) \<le> \<bar>of_int n\<bar>"
    by (simp add: ilog2_def q)
  then show "pow2 (ilog2 (of_int n)) \<le> \<bar>of_int n\<bar>" by simp
  show "0 \<le> ilog2 (of_int n)" using l b by simp
qed

lemma scaled_int_exact:
  assumes "e \<le> 0 \<or> 2 dvd n \<and> e = 1"
  shows "of_int (round_half_even (of_int n / pow2 e)) * pow2 e = of_int n"
proof -
  have "\<exists>m. of_int n / pow2 e = of_int m"
  proof (cases "e \<le> 0")
    case True
    then have "of_int n / pow2 e = of_int (n * 2 ^ nat (- e))" by (simp add: pow2_def)
    then show ?thesis by blast
  next
    case False
    with assms obtain k where "n = 2 * k" "e = 1" by auto
    then show ?thesis by (auto simp: pow2_def)
  qed
  then obtain m where m: "of_int n / pow2 e = of_int m" ..
  then have "of_int n = of_int m * pow2 e" using pow2_pos [of e] by (simp add: field_simps)
  with m show ?thesis by simp
qed

lemma f64_round_int:
  assumes "\<bar>n\<bar> \<le> 2 ^ 53"
  shows "f64_round (of_int n) = F64 (of_int n)"
proof (cases "n = 0")
  case False
  let ?l = "ilog2 (of_int n)"
  let ?e = "max (- 1074) (?l - 52)"
  have "?e \<le> 0 \<or> 2 dvd n \<and> ?e = 1"
  proof (cases "?l \<le> 52")
    case False
    have l: "pow2 ?l = 2 ^ nat ?l" using False by (simp add: pow2_def)
    have "\<bar>of_int n :: rat\<bar> \<le> 2 ^ 53" using assms by (simp only: abs_of_int_le)
    with ilog2_int [OF \<open>n \<noteq> 0\<close>] l have p: "(2 :: rat) ^ nat ?l \<le> 2 ^ 53" by linarith
    then have "nat ?l \<le> 53" by (rule power_le_imp_le_exp [rotated]) simp
    with False have l53: "?l = 53" by linarith
    with l have "pow2 ?l = 2 ^ 53" by (simp only: nat_numeral)
    with ilog2_int(1) [OF \<open>n \<noteq> 0\<close>] have "(2 :: rat) ^ 53 \<le> \<bar>of_int n\<bar>" by (simp only:)
    then have "2 ^ 53 \<le> \<bar>n\<bar>" by (simp only: abs_of_int_ge)
    with assms have "\<bar>n\<bar> = 2 ^ 53" by linarith
    then have "n = 2 ^ 53 \<or> n = - (2 ^ 53)" by linarith
    then have "2 dvd n" by auto
    with l53 show ?thesis by simp
  qed linarith
  then have "?e \<le> 1" and v: "of_int (round_half_even (of_int n / pow2 ?e)) * pow2 ?e = of_int n"
    by (auto intro: scaled_int_exact)
  then have "\<not> ?e > 971" "?e \<noteq> 971" by linarith+
  with False v show ?thesis by (simp only: f64_round_def Let_def of_int_eq_0_iff if_False simp_thms)
qed (simp add: f64_round_def)

lemma f64_add_int: "\<bar>m + n\<bar> \<le> 2 ^ 53 \<Longrightarrow> f64_add (F64 (of_int m)) (F64 (of_int n)) = F64 (of_int (m + n))"
  using f64_round_int [of "m + n"] by simp

lemma f64_sub_int: "\<bar>m - n\<bar> \<le> 2 ^ 53 \<Longrightarrow> f64_sub (F64 (of_int m)) (F64 (of_int n)) = F64 (of_int (m - n))"
  using f64_round_int [of "m - n"] by (simp add: f64_sub_def)

lemma f64_le_F64 [simp]: "f64_le (F64 a) (F64 b) \<longleftrightarrow> a \<le> b"
  by (auto simp: f64_le_def f64_eq_def)

lemma f64_add_NaN [simp]: "f64_add x F64_NaN = F64_NaN"
  by (cases x) simp_all


lemma f64_le_F64_mono: "f64_le x (F64 a) \<Longrightarrow> a \<le> b \<Longrightarrow> f64_le x (F64 b)"
  by (cases x) (auto simp: f64_le_def f64_eq_def)


subsection \<open>Rounding between zero and one\<close>

lemma bits_mono: "m \<le> n \<Longrightarrow> bits m \<le> bits n"
proof (induction m arbitrary: n rule: bits.induct)
  case (1 m)
  show ?case
  proof (cases "m \<le> 0")
    case False
    with 1 have "bits (m div 2) \<le> bits (n div 2)" by (simp add: zdiv_mono1)
    with False 1(2) show ?thesis by (subst (1 2) bits.simps) simp
  qed (simp add: bits.simps)
qed

lemma pow2_le_1: "pow2 e \<le> 1 \<Longrightarrow> e \<le> 0"
proof (rule ccontr)
  assume "pow2 e \<le> 1" "\<not> e \<le> 0"
  then have "(2 :: rat) ^ nat e \<le> 1" by (simp add: pow2_def)
  moreover have "(1 :: rat) < 2 ^ nat e" using \<open>\<not> e \<le> 0\<close> by (intro one_less_power) simp_all
  ultimately show False by simp
qed

lemma ilog2_unit:
  assumes "0 < q" and "q \<le> 1"
  shows "ilog2 q \<le> 0"
proof -
  obtain n d where nd: "quotient_of q = (n, d)" by force
  then have q: "q = of_int n / of_int d" "0 < d" by (simp_all add: quotient_of_div quotient_of_denom_pos)
  then have "n \<le> d" using assms(2) by (simp add: divide_le_eq_1_pos)
  then have "bits n \<le> bits d" by (rule bits_mono)
  then show ?thesis using assms nd pow2_le_1 [of "int (bits n) - int (bits d)"] by (simp add: ilog2_def Let_def)
qed

lemma round_half_even_le: "q \<le> of_int n \<Longrightarrow> round_half_even q \<le> n"
  by (simp add: round_half_even_def Let_def) linarith

lemma round_half_even_ge: "of_int n \<le> q \<Longrightarrow> n \<le> round_half_even q"
  by (simp add: round_half_even_def Let_def) linarith

lemma f64_round_unit:
  assumes "0 \<le> q" and "q \<le> 1"
  shows "\<exists>r. f64_round q = F64 r \<and> 0 \<le> r \<and> r \<le> 1"
proof (cases "q = 0")
  case False
  define e where "e = max (- 1074) (ilog2 q - 52)"
  define m where "m = round_half_even (q / pow2 e)"
  have "e \<le> 0" using ilog2_unit [of q] assms False unfolding e_def by simp
  then have one: "1 / pow2 e = of_int (2 ^ nat (- e))" by (simp add: pow2_def)
  have "q / pow2 e \<le> of_int (2 ^ nat (- e))"
    unfolding one [symmetric] using assms(2) pow2_pos [of e] by (intro divide_right_mono) (simp_all add: less_imp_le)
  then have "m \<le> 2 ^ nat (- e)" unfolding m_def by (rule round_half_even_le)
  then have "of_int m \<le> 1 / pow2 e" unfolding one by (simp only: of_int_le_iff)
  then have up: "of_int m * pow2 e \<le> 1" using pow2_pos [of e] by (simp add: field_simps)
  have "0 \<le> m" unfolding m_def using assms(1) pow2_pos [of e] by (intro round_half_even_ge) simp
  then have low: "0 \<le> of_int m * pow2 e" using pow2_pos [of e] by (simp add: less_imp_le)
  have "f64_round q = F64 (of_int m * pow2 e)"
    using False \<open>e \<le> 0\<close> unfolding f64_round_def Let_def e_def [symmetric] m_def [symmetric] by simp
  with up low show ?thesis by blast
qed (simp add: f64_round_def)

end
