(* ===== verification/Formatting.thy ===== *)
theory Formatting
  imports Float64
begin

text \<open>
  The parts of Go's \<^verbatim>\<open>strconv\<close>, \<^verbatim>\<open>fmt\<close> and \<^verbatim>\<open>time\<close> packages that the evaluation engine uses for its
  texts and for numbers written as text: \<^verbatim>\<open>%d\<close>, \<^verbatim>\<open>%.0f\<close> and \<^verbatim>\<open>%.2f\<close>, the shortest decimal form of a
  floating-point number, \<^verbatim>\<open>fmt.Sprint\<close> of a decoded value, \<^verbatim>\<open>Duration.String\<close>, \<^verbatim>\<open>strconv.ParseFloat\<close>
  and \<^verbatim>\<open>time.ParseDuration\<close>. Hexadecimal floating-point literals are not covered by \<open>ParseFloat\<close>.
\<close>

subsection \<open>Case and digits\<close>

definition upper_char :: "char \<Rightarrow> char" where
  "upper_char c =
     (case map_of (zip ''abcdefghijklmnopqrstuvwxyz'' ''ABCDEFGHIJKLMNOPQRSTUVWXYZ'') c of
        Some d \<Rightarrow> d | None \<Rightarrow> c)"

definition ToUpper :: "string \<Rightarrow> string" where
  "ToUpper s = map upper_char s"

definition HasPrefix :: "string \<Rightarrow> string \<Rightarrow> bool" where
  "HasPrefix s p \<longleftrightarrow> take (length p) s = p"

definition digit :: "int \<Rightarrow> char" where
  "digit d = ''0123456789'' ! nat d"

definition digit_value :: "char \<Rightarrow> int option" where
  "digit_value c = map_of (zip ''0123456789'' [0, 1, 2, 3, 4, 5, 6, 7, 8, 9]) c"

function nat_string :: "int \<Rightarrow> string" where
  "nat_string n = (if n < 10 then [digit n] else nat_string (n div 10) @ [digit (n mod 10)])"
  by auto

termination
  by (relation "measure nat") auto

declare nat_string.simps [simp del]

text \<open>\<^verbatim>\<open>%d\<close>.\<close>

definition int_string :: "int \<Rightarrow> string" where
  "int_string n = (if n < 0 then ''-'' @ nat_string (- n) else nat_string n)"

definition pad_left :: "nat \<Rightarrow> string \<Rightarrow> string" where
  "pad_left n s = replicate (n - length s) CHR ''0'' @ s"

text \<open>\<^verbatim>\<open>%.<prec>f\<close>: correctly rounded, ties to even.\<close>

fun format_fixed :: "nat \<Rightarrow> float64 \<Rightarrow> string" where
  "format_fixed prec (F64 q) =
    (let n = round_half_even (\<bar>q\<bar> * 10 ^ prec);
         whole = nat_string (n div 10 ^ prec);
         frac = (if prec = 0 then [] else ''.'' @ pad_left prec (nat_string (n mod 10 ^ prec)))
     in (if q < 0 then ''-'' else []) @ whole @ frac)"
| "format_fixed prec F64_PosInf = ''+Inf''"
| "format_fixed prec F64_NegInf = ''-Inf''"
| "format_fixed prec F64_NaN = ''NaN''"

subsection \<open>Shortest decimal form\<close>

definition pow10 :: "int \<Rightarrow> rat" where
  "pow10 e = (if 0 \<le> e then 10 ^ nat e else 1 / 10 ^ nat (- e))"

text \<open>The exponent \<open>x\<close> with \<open>10 ^ x \<le> q < 10 ^ (x + 1)\<close>, for \<open>0 < q\<close>.\<close>

definition ilog10 :: "rat \<Rightarrow> int" where
  "ilog10 q = (case quotient_of q of (n, d) \<Rightarrow>
     let e = int (length (nat_string n)) - int (length (nat_string d)) in if pow10 e \<le> q then e else e - 1)"

text \<open>
  The \<open>n\<close>-digit decimals next to \<open>q\<close> that read back as \<open>q\<close>, the nearer one first; the result is the
  digits and the exponent of the last digit.
\<close>

definition digits_of_length :: "rat \<Rightarrow> int \<Rightarrow> nat \<Rightarrow> (int \<times> int) option" where
  "digits_of_length q x n =
    (let e = x - int n + 1; lo = \<lfloor>q / pow10 e\<rfloor>; near = round_half_even (q / pow10 e);
         far = (if near = lo then lo + 1 else lo)
     in if f64_round (of_int near * pow10 e) = F64 q then Some (near, e)
        else if f64_round (of_int far * pow10 e) = F64 q then Some (far, e) else None)"

fun shortest_from :: "rat \<Rightarrow> int \<Rightarrow> nat \<Rightarrow> nat \<Rightarrow> int \<times> int" where
  "shortest_from q x n 0 = (round_half_even (q / pow10 (x - 16)), x - 16)"
| "shortest_from q x n (Suc k) =
    (case digits_of_length q x n of Some d \<Rightarrow> d | None \<Rightarrow> shortest_from q x (Suc n) k)"

definition shortest_digits :: "rat \<Rightarrow> int \<times> int" where
  "shortest_digits q = shortest_from q (ilog10 q) 1 17"

definition strip_zeros :: "string \<Rightarrow> string" where
  "strip_zeros s = rev (dropWhile (\<lambda>c. c = CHR ''0'') (rev s))"

definition exponent_string :: "int \<Rightarrow> string" where
  "exponent_string e = ''e'' @ (if e < 0 then ''-'' else ''+'') @ pad_left 2 (nat_string \<bar>e\<bar>)"

text \<open>\<^verbatim>\<open>'g'\<close> with the exponent form from \<open>limit\<close> on (6 in \<^verbatim>\<open>strconv\<close>, 21 in \<^verbatim>\<open>fmt\<close>).\<close>

definition layout_g :: "int \<Rightarrow> int \<times> int \<Rightarrow> string" where
  "layout_g limit digits =
    (case digits of (d, e) \<Rightarrow>
       let raw = nat_string d; x = int (length raw) - 1 + e; ds = strip_zeros raw in
       if x < - 4 \<or> x \<ge> limit
       then hd ds # (if tl ds = [] then [] else ''.'' @ tl ds) @ exponent_string x
       else if x < 0 then ''0.'' @ replicate (nat (- x - 1)) CHR ''0'' @ ds
       else let whole = take (nat (x + 1)) ds; frac = drop (nat (x + 1)) ds in
         whole @ replicate (nat (x + 1) - length whole) CHR ''0'' @ (if frac = [] then [] else ''.'' @ frac))"

definition positive_g :: "int \<Rightarrow> rat \<Rightarrow> string" where
  "positive_g limit q = layout_g limit (shortest_digits q)"

text \<open>\<^verbatim>\<open>%.6g\<close>: six significant digits.\<close>

definition six_digits :: "rat \<Rightarrow> int \<times> int" where
  "six_digits q =
    (let x = ilog10 q; n = round_half_even (q / pow10 (x - 5)) in if n = 1000000 then (100000, x - 4) else (n, x - 5))"

fun format_g6 :: "float64 \<Rightarrow> string" where
  "format_g6 (F64 q) =
    (if q = 0 then ''0'' else (if q < 0 then ''-'' else []) @ layout_g 6 (six_digits \<bar>q\<bar>))"
| "format_g6 F64_PosInf = ''+Inf''"
| "format_g6 F64_NegInf = ''-Inf''"
| "format_g6 F64_NaN = ''NaN''"

fun format_g :: "int \<Rightarrow> float64 \<Rightarrow> string" where
  "format_g limit (F64 q) =
    (if q = 0 then ''0'' else if q < 0 then ''-'' @ positive_g limit (- q) else positive_g limit q)"
| "format_g limit F64_PosInf = ''+Inf''"
| "format_g limit F64_NegInf = ''-Inf''"
| "format_g limit F64_NaN = ''NaN''"

definition FormatFloat :: "float64 \<Rightarrow> string" where
  "FormatFloat x = format_g 6 x"

text \<open>\<^verbatim>\<open>strconv.FormatFloat(x, 'f', -1, 64)\<close>: the shortest digits, never in exponent form.\<close>

definition layout_f :: "int \<times> int \<Rightarrow> string" where
  "layout_f digits =
    (case digits of (d, e) \<Rightarrow>
       let raw = nat_string d; x = int (length raw) - 1 + e; ds = strip_zeros raw in
       if x < 0 then ''0.'' @ replicate (nat (- x - 1)) CHR ''0'' @ ds
       else let whole = take (nat (x + 1)) ds; frac = drop (nat (x + 1)) ds in
         whole @ replicate (nat (x + 1) - length whole) CHR ''0'' @ (if frac = [] then [] else ''.'' @ frac))"

fun FormatFloat_f :: "float64 \<Rightarrow> string" where
  "FormatFloat_f (F64 q) =
    (if q = 0 then ''0'' else (if q < 0 then ''-'' else []) @ layout_f (shortest_digits \<bar>q\<bar>))"
| "FormatFloat_f F64_PosInf = ''+Inf''"
| "FormatFloat_f F64_NegInf = ''-Inf''"
| "FormatFloat_f F64_NaN = ''NaN''"

text \<open>\<^verbatim>\<open>fmt.Sprint\<close> of one decoded value; the keys of an object are printed in order.\<close>

definition join :: "string \<Rightarrow> string list \<Rightarrow> string" where
  "join sep parts = (case parts of [] \<Rightarrow> [] | p # ps \<Rightarrow> p @ concat (map (\<lambda>q. sep @ q) ps))"

fun Sprint :: "any \<Rightarrow> string" where
  "Sprint JNull = ''<nil>''"
| "Sprint (JBool b) = (if b then ''true'' else ''false'')"
| "Sprint (JNumber x) = format_g 21 x"
| "Sprint (JString s) = s"
| "Sprint (JArray xs) = ''['' @ join '' '' (map Sprint xs) @ '']''"
| "Sprint (JObject kvs) =
    ''map['' @ join '' '' (map (\<lambda>(k, s). k @ '':'' @ s)
       (sort_key fst (map (\<lambda>(k, v). (k, Sprint v)) kvs))) @ '']''"

text \<open>\<^verbatim>\<open>%q\<close> of ASCII text.\<close>

definition hex_digit :: "nat \<Rightarrow> char" where
  "hex_digit d = ''0123456789abcdef'' ! d"

definition quote_char :: "char \<Rightarrow> string" where
  "quote_char c =
    (case map_of [(CHR 0x22, CHR 0x22), (CHR 0x5C, CHR 0x5C), (CHR 7, CHR ''a''), (CHR 8, CHR ''b''), (CHR 9, CHR ''t''),
        (CHR 0x0A, CHR ''n''), (CHR 0x0B, CHR ''v''), (CHR 0x0C, CHR ''f''), (CHR 0x0D, CHR ''r'')] c of
       Some d \<Rightarrow> [CHR 0x5C, d]
     | None \<Rightarrow>
         let n = (of_char c :: nat) in
         if n < 32 \<or> n = 127 then [CHR 0x5C, CHR ''x'', hex_digit (n div 16), hex_digit (n mod 16)] else [c])"

definition Quote :: "string \<Rightarrow> string" where
  "Quote s = [CHR 0x22] @ concat (map quote_char s) @ [CHR 0x22]"

subsection \<open>Error texts\<close>

fun Error :: "go_error \<Rightarrow> string" where
  "Error (ErrNotFound entity i) = entity @ '' not found: '' @ i"
| "Error (ErrConflict entity i reason) = entity @ '' conflict: '' @ i @ '': '' @ reason"
| "Error (ErrInvalidStateTransition entity i from to) = entity @ '' invalid state transition: '' @ from @ '' -> '' @ to"
| "Error (ErrSeparationOfDuties rule version author reason) =
     ''rule_definition separation of duties: '' @ rule @ ''@v'' @ int_string version @ '': '' @ reason"
| "Error ErrRefreshTokenReuse = ''refresh token reuse detected''"
| "Error ErrRefreshTokenExpired = ''refresh token expired''"
| "Error ErrSessionAuthorityChanged = ''session authority changed before creation''"
| "Error (ErrField path message) = message"
| "Error (ErrWrap context err) = context @ '': '' @ Error err"
| "Error (ErrText message) = message"

text \<open>\<^verbatim>\<open>errors.As\<close> finds an error of a kind under the texts that wrap it.\<close>

fun as_conflict :: "go_error \<Rightarrow> bool" where
  "as_conflict (ErrConflict _ _ _) = True"
| "as_conflict (ErrWrap _ err) = as_conflict err"
| "as_conflict _ = False"

fun as_not_found :: "go_error \<Rightarrow> bool" where
  "as_not_found (ErrNotFound _ _) = True"
| "as_not_found (ErrWrap _ err) = as_not_found err"
| "as_not_found _ = False"

subsection \<open>Durations\<close>

text \<open>The fraction \<open>v / 10 ^ prec\<close> without trailing zeros, as \<^verbatim>\<open>fmtFrac\<close> prints it.\<close>

definition frac_string :: "int \<Rightarrow> nat \<Rightarrow> string" where
  "frac_string v prec =
    (let ds = strip_zeros (pad_left prec (nat_string (v mod 10 ^ prec))) in if ds = [] then [] else ''.'' @ ds)"

definition Duration_String :: "duration \<Rightarrow> string" where
  "Duration_String d =
    (let u = \<bar>d\<bar>; sign = (if d < 0 then ''-'' else []) in
     if d = 0 then ''0s''
     else if u < 1000 then sign @ nat_string u @ ''ns''
     else if u < 1000000 then sign @ nat_string (u div 1000) @ frac_string u 3 @ [CHR 0xC2, CHR 0xB5] @ ''s''
     else if u < Second then sign @ nat_string (u div 1000000) @ frac_string u 6 @ ''ms''
     else let s = u div Second; m = s div 60; h = m div 60 in
       sign @ (if h > 0 then nat_string h @ ''h'' else []) @
       (if m > 0 then nat_string (m mod 60) @ ''m'' else []) @
       nat_string (s mod 60) @ frac_string u 9 @ ''s'')"

definition duration_units :: "(string \<times> int) list" where
  "duration_units = [(''ns'', 1), (''us'', 1000), ([CHR 0xC2, CHR 0xB5] @ ''s'', 1000), ([CHR 0xCE, CHR 0xBC] @ ''s'', 1000),
     (''ms'', 1000000), (''s'', Second), (''m'', 60 * Second), (''h'', Hour)]"

definition is_digit :: "char \<Rightarrow> bool" where
  "is_digit c \<longleftrightarrow> digit_value c \<noteq> None"

definition read_digits :: "string \<Rightarrow> int" where
  "read_digits s = foldl (\<lambda>n c. 10 * n + (case digit_value c of Some d \<Rightarrow> d | None \<Rightarrow> 0)) 0 s"

text \<open>
  The number-unit pairs of \<^verbatim>\<open>ParseDuration\<close>, with the total so far; no partial result may exceed
  \<open>2 ^ 63\<close>. The fraction of a pair is cut off after the digits that fit an \<^verbatim>\<open>int64\<close>; its share of the
  unit is computed in floating point and truncated to nanoseconds.
\<close>

definition leading_fraction :: "string \<Rightarrow> int \<times> nat" where
  "leading_fraction ds =
    (case foldl (\<lambda>(f, k, overflow) c.
        if overflow \<or> f > (2 ^ 63 - 1) div 10 then (f, k, True)
        else let y = 10 * f + (case digit_value c of Some d \<Rightarrow> d | None \<Rightarrow> 0) in
          if y > 2 ^ 63 then (f, k, True) else (y, Suc k, False)) (0, 0, False) ds of (f, k, _) \<Rightarrow> (f, k))"

definition fraction_of :: "string \<Rightarrow> int \<Rightarrow> int" where
  "fraction_of ds u = (case leading_fraction ds of (f, k) \<Rightarrow>
     if f > 0 then int64_of_f64 (f64_mul (f64_of_int f) (f64_div (f64_of_int u) (f64_round (10 ^ k)))) else 0)"

definition duration_part :: "string \<Rightarrow> (int \<times> string) option" where
  "duration_part s =
    (let whole = takeWhile is_digit s; s = dropWhile is_digit s;
         (frac, s) = (case s of CHR ''.'' # r \<Rightarrow> (takeWhile is_digit r, dropWhile is_digit r) | _ \<Rightarrow> ([], s));
         unit = takeWhile (\<lambda>c. c \<noteq> CHR ''.'' \<and> \<not> is_digit c) s; rest = dropWhile (\<lambda>c. c \<noteq> CHR ''.'' \<and> \<not> is_digit c) s
     in if whole = [] \<and> frac = [] then None
        else case map_of duration_units unit of
          None \<Rightarrow> None
        | Some u \<Rightarrow>
            let v = read_digits whole * u + fraction_of frac u in
            if read_digits whole > 2 ^ 63 \<or> read_digits whole * u > 2 ^ 63 \<or> v > 2 ^ 63 then None else Some (v, rest))"

fun duration_parts :: "nat \<Rightarrow> int \<Rightarrow> string \<Rightarrow> int option" where
  "duration_parts fuel d [] = Some d"
| "duration_parts 0 d s = None"
| "duration_parts (Suc fuel) d s =
    (case duration_part s of
       None \<Rightarrow> None
     | Some (v, rest) \<Rightarrow> if d + v > 2 ^ 63 then None else duration_parts fuel (d + v) rest)"

definition ParseDuration :: "string \<Rightarrow> duration option" where
  "ParseDuration s =
    (let neg = (s \<noteq> [] \<and> hd s = CHR ''-''); s = (if s \<noteq> [] \<and> (hd s = CHR ''-'' \<or> hd s = CHR ''+'') then tl s else s) in
     if s = ''0'' then Some 0
     else if s = [] then None
     else case duration_parts (length s) 0 s of
       None \<Rightarrow> None
     | Some d \<Rightarrow> if neg then Some (- d) else if d > 2 ^ 63 - 1 then None else Some d)"

subsection \<open>Numbers\<close>

text \<open>
  \<^verbatim>\<open>strconv.ParseFloat\<close> with the error dropped, as the code uses it: a syntax error gives 0, a value
  that is too large an infinity.
\<close>

definition parse_exponent :: "string \<Rightarrow> int option" where
  "parse_exponent s =
    (case s of
       [] \<Rightarrow> Some 0
     | c # r \<Rightarrow>
         if lower_char c \<noteq> CHR ''e'' then None
         else let neg = (r \<noteq> [] \<and> hd r = CHR ''-''); ds = (if r \<noteq> [] \<and> hd r \<in> {CHR ''-'', CHR ''+''} then tl r else r)
              in if ds = [] \<or> \<not> list_all is_digit ds then None
                 else Some (if neg then - read_digits ds else read_digits ds))"

definition ParseFloat :: "string \<Rightarrow> float64" where
  "ParseFloat s =
    (let neg = (s \<noteq> [] \<and> hd s = CHR ''-''); r = (if s \<noteq> [] \<and> hd s \<in> {CHR ''-'', CHR ''+''} then tl s else s);
         whole = takeWhile is_digit r; r' = dropWhile is_digit r;
         (frac, e) = (case r' of CHR ''.'' # t \<Rightarrow> (takeWhile is_digit t, dropWhile is_digit t) | _ \<Rightarrow> ([], r'))
     in if ToLower r \<in> {''inf'', ''infinity''} then f64_inf neg
        else if ToLower s = ''nan'' then F64_NaN
        else if whole = [] \<and> frac = [] then F64 0
        else case parse_exponent e of
          None \<Rightarrow> F64 0
        | Some x \<Rightarrow>
            let q = of_int (read_digits (whole @ frac)) * pow10 (x - int (length frac))
            in f64_round (if neg then - q else q))"

lemma is_digit_digit: "0 \<le> d \<Longrightarrow> d < 10 \<Longrightarrow> digit_value (digit d) = Some d"
proof -
  assume "0 \<le> d" "d < 10"
  then have "d \<in> {0, 1, 2, 3, 4, 5, 6, 7, 8, 9}" by simp arith
  then show ?thesis by (auto simp: digit_def digit_value_def)
qed

text \<open>Decimal text is read back.\<close>

lemma read_nat_string:
  assumes "0 \<le> n"
  shows "read_digits (nat_string n) = n \<and> list_all is_digit (nat_string n)"
  using assms
proof (induction n rule: nat_string.induct)
  case (1 n)
  show ?case
  proof (cases "n < 10")
    case True
    then show ?thesis
      using 1(2) is_digit_digit [of n] by (simp add: nat_string.simps [of n] read_digits_def is_digit_def)
  next
    case False
    then have ih: "read_digits (nat_string (n div 10)) = n div 10" "list_all is_digit (nat_string (n div 10))"
      using 1 by simp_all
    have "digit_value (digit (n mod 10)) = Some (n mod 10)" by (rule is_digit_digit) simp_all
    then show ?thesis
      using False ih by (subst (1 2) nat_string.simps) (simp add: read_digits_def is_digit_def)
  qed
qed

lemma nat_string_nonempty [simp]: "nat_string n \<noteq> []"
  by (subst nat_string.simps) simp

end
