(* ===== verification/Detection_Windows.thy ===== *)
theory Detection_Windows
  imports Detection
begin

text \<open>
  What the window detectors find. The shared part shows that the two pointers always delimit the
  window that starts at \<open>left\<close>: the transactions from there on that are not later than the window
  length (\<open>slide_window\<close>). The detectors then are searches for the first window that satisfies a
  condition (\<open>structuring_scan_eq\<close>, \<open>hfsa_scan_ids\<close>, \<open>rapid_scan_eq\<close>), and because taking in more
  transactions only raises counts and amounts, such a window exists exactly when some group of
  transactions inside one period satisfies it.
\<close>

subsection \<open>Windows\<close>

definition window_at :: "int \<Rightarrow> Transaction list \<Rightarrow> nat \<Rightarrow> Transaction list" where
  "window_at w q l = takeWhile (\<lambda>t. seconds t \<le> seconds (q ! l) + w) (drop l q)"

definition time_sorted :: "Transaction list \<Rightarrow> bool" where
  "time_sorted q \<longleftrightarrow> sorted_wrt (\<lambda>t u. seconds t \<le> seconds u) q"

definition times_fit :: "int \<Rightarrow> Transaction list \<Rightarrow> bool" where
  "times_fit w q \<longleftrightarrow> 0 \<le> w \<and> (\<forall>t \<in> set q. - (2 ^ 63) \<le> seconds t + w \<and> seconds t + w < 2 ^ 63)"

definition pointers_ok :: "int \<Rightarrow> Transaction list \<Rightarrow> nat \<Rightarrow> nat \<Rightarrow> bool" where
  "pointers_ok w q left right \<longleftrightarrow> left \<le> right \<and> right \<le> length q \<and>
     (left < length q \<longrightarrow> (\<forall>t \<in> set (window_slice q left right). seconds t \<le> seconds (q ! left) + w))"

lemma slide_eq:
  "slide add q e right st =
    (right + length (takeWhile (\<lambda>t. seconds t \<le> e) (drop right q)),
     fold add (takeWhile (\<lambda>t. seconds t \<le> e) (drop right q)) st)"
proof (induction add q e right st rule: slide.induct)
  case (1 add q e right st)
  show ?case
  proof (cases "right < length q \<and> seconds (q ! right) \<le> e")
    case True
    then have "drop right q = q ! right # drop (Suc right) q" by (simp add: Cons_nth_drop_Suc)
    with True 1 show ?thesis by (subst slide.simps) simp
  next
    case False
    then show ?thesis by (subst slide.simps) (cases "right < length q", auto simp: Cons_nth_drop_Suc [symmetric])
  qed
qed

lemma window_at_nonempty:
  assumes "left < length q" and "0 \<le> w"
  shows "\<exists>rest. window_at w q left = q ! left # rest \<and>
    rest = takeWhile (\<lambda>t. seconds t \<le> seconds (q ! left) + w) (drop (Suc left) q)"
  using assms by (simp add: window_at_def Cons_nth_drop_Suc [symmetric])

lemma window_slice_take: "left \<le> right \<Longrightarrow> drop left q = window_slice q left right @ drop right q"
  by (metis append_take_drop_id drop_drop le_add_diff_inverse2 window_slice_def)

lemma time_sortedD: "time_sorted q \<Longrightarrow> i \<le> j \<Longrightarrow> j < length q \<Longrightarrow> seconds (q ! i) \<le> seconds (q ! j)"
  by (cases "i = j") (auto simp: time_sorted_def sorted_wrt_iff_nth_less)

lemma slide_window:
  assumes srt: "time_sorted q" and fit: "times_fit w q" and ok: "pointers_ok w q left right" and l: "left < length q"
  shows "slide add q (int64 (seconds (q ! left) + w)) right st =
      (left + length (window_at w q left), fold add (drop (right - left) (window_at w q left)) st)"
    and "window_at w q left = window_slice q left right @ drop (right - left) (window_at w q left)"
    and "window_slice q left (left + length (window_at w q left)) = window_at w q left"
    and "pointers_ok w q (Suc left) (left + length (window_at w q left))"
proof -
  let ?e = "seconds (q ! left) + w"
  have e: "int64 ?e = ?e" using fit l by (intro int64_id) (auto simp: times_fit_def)
  have lr: "left \<le> right" "right \<le> length q" and sl: "\<forall>t \<in> set (window_slice q left right). seconds t \<le> ?e"
    using ok l by (auto simp: pointers_ok_def)
  have len: "length (window_slice q left right) = right - left" using lr by (simp add: window_slice_def)
  have win: "window_at w q left = window_slice q left right @ takeWhile (\<lambda>t. seconds t \<le> ?e) (drop right q)"
    unfolding window_at_def window_slice_take [OF lr(1), of q] using sl by (subst takeWhile_append2) auto
  then have new: "drop (right - left) (window_at w q left) = takeWhile (\<lambda>t. seconds t \<le> ?e) (drop right q)"
    using len by simp
  show "window_at w q left = window_slice q left right @ drop (right - left) (window_at w q left)"
    using win new by simp
  have "right + length (takeWhile (\<lambda>t. seconds t \<le> ?e) (drop right q)) = left + length (window_at w q left)"
    using win len lr by simp
  then show "slide add q (int64 ?e) right st =
      (left + length (window_at w q left), fold add (drop (right - left) (window_at w q left)) st)"
    unfolding e slide_eq new by simp
  show "window_slice q left (left + length (window_at w q left)) = window_at w q left"
    by (simp add: window_slice_def window_at_def takeWhile_eq_take [symmetric])
  obtain rest where rest: "window_at w q left = q ! left # rest"
      "rest = takeWhile (\<lambda>t. seconds t \<le> ?e) (drop (Suc left) q)"
    using window_at_nonempty [OF l, of w] fit by (auto simp: times_fit_def)
  have "window_slice q (Suc left) (left + length (window_at w q left)) = rest"
    by (simp add: rest(1) window_slice_def) (simp add: rest(2) takeWhile_eq_take [symmetric])
  moreover have "seconds t \<le> seconds (q ! Suc left) + w" if "t \<in> set rest" "Suc left < length q" for t
    using that set_takeWhileD [of t] time_sortedD [OF srt, of left "Suc left"] rest(2) by fastforce
  moreover have "length (window_at w q left) \<le> length q - left"
    unfolding window_at_def by (metis length_drop length_takeWhile_le)
  ultimately show "pointers_ok w q (Suc left) (left + length (window_at w q left))"
    using l rest(1) by (auto simp: pointers_ok_def)
qed

lemma pointers_start: "pointers_ok w q 0 0"
  by (simp add: pointers_ok_def window_slice_def)

subsection \<open>Whole amounts\<close>

definition amt :: "Transaction \<Rightarrow> int" where
  "amt t = (case tx_Amount t of F64 a \<Rightarrow> \<lfloor>a\<rfloor> | _ \<Rightarrow> 0)"

definition total_amount :: "Transaction list \<Rightarrow> int" where
  "total_amount ts = sum_list (map amt ts)"

text \<open>Amounts in whole currency units, not negative, adding up to at most \<open>2 ^ 53\<close>.\<close>

definition whole_amounts :: "Transaction list \<Rightarrow> bool" where
  "whole_amounts q \<longleftrightarrow> (\<forall>t \<in> set q. tx_Amount t = F64 (of_int (amt t)) \<and> 0 \<le> amt t) \<and> total_amount q \<le> 2 ^ 53"

lemma total_amount_simps [simp]:
  "total_amount [] = 0" "total_amount (t # ts) = amt t + total_amount ts"
  "total_amount (ts @ us) = total_amount ts + total_amount us"
  by (simp_all add: total_amount_def)

lemma total_amount_nonneg: "\<forall>t \<in> set ts. 0 \<le> amt t \<Longrightarrow> 0 \<le> total_amount ts"
  by (induction ts) auto

lemma fold_add_amount:
  assumes "\<forall>t \<in> set ts. tx_Amount t = F64 (of_int (amt t)) \<and> 0 \<le> amt t" and "0 \<le> n" and "n + total_amount ts \<le> 2 ^ 53"
  shows "fold add_amount ts (F64 (of_int n)) = F64 (of_int (n + total_amount ts))"
  using assms
proof (induction ts arbitrary: n)
  case (Cons t ts)
  have "0 \<le> total_amount ts" using Cons.prems by (intro total_amount_nonneg) simp
  then have "add_amount t (F64 (of_int n)) = F64 (of_int (n + amt t))"
    using Cons.prems f64_add_int [of n "amt t"] by (simp add: add_amount_def)
  moreover have "fold add_amount ts (F64 (of_int (n + amt t))) = F64 (of_int (n + amt t + total_amount ts))"
    using Cons.prems by (intro Cons.IH) auto
  ultimately show ?case by (simp add: add.assoc)
qed simp

lemma total_amount_subseq: "subseq S ts \<Longrightarrow> \<forall>t \<in> set ts. 0 \<le> amt t \<Longrightarrow> total_amount S \<le> total_amount ts"
  by (induction rule: list_emb.induct) (auto simp: total_amount_nonneg)

subsection \<open>Searching for a window\<close>

lemma find_upt_Cons: "l < n \<Longrightarrow> find P [l..<n] = (if P l then Some l else find P [Suc l..<n])"
  by (simp add: upt_conv_Cons)

text \<open>Groups of transactions that lie inside one period.\<close>

definition within_period :: "int \<Rightarrow> Transaction list \<Rightarrow> bool" where
  "within_period w S \<longleftrightarrow> S \<noteq> [] \<and> (\<forall>t \<in> set S. \<forall>u \<in> set S. seconds t - seconds u \<le> w)"

lemma takeWhile_sorted: "time_sorted q \<Longrightarrow> takeWhile (\<lambda>t. seconds t \<le> e) q = filter (\<lambda>t. seconds t \<le> e) q"
proof (induction q)
  case (Cons t q)
  show ?case
  proof (cases "seconds t \<le> e")
    case True
    with Cons show ?thesis by (simp add: time_sorted_def)
  next
    case False
    with Cons.prems have "\<forall>u \<in> set q. \<not> seconds u \<le> e" by (auto simp: time_sorted_def)
    with False show ?thesis by (simp add: filter_empty_conv)
  qed
qed simp

lemma time_sorted_drop: "time_sorted q \<Longrightarrow> time_sorted (drop n q)"
  unfolding time_sorted_def by (rule sorted_wrt_drop)

text \<open>A window is a group inside one period, and every such group is part of a window.\<close>

lemma window_within:
  assumes "time_sorted q" and "l < length q" and "0 \<le> w"
  shows "within_period w (window_at w q l) \<and> subseq (window_at w q l) q"
proof -
  have "seconds (q ! l) \<le> seconds t" if "t \<in> set (drop l q)" for t
    using that assms(1,2) by (auto simp: in_set_conv_nth intro: time_sortedD)
  moreover have "t \<in> set (drop l q) \<and> seconds t \<le> seconds (q ! l) + w" if "t \<in> set (window_at w q l)" for t
    using that set_takeWhileD [of t] by (auto simp: window_at_def)
  ultimately have "within_period w (window_at w q l)"
    using window_at_nonempty [OF assms(2,3)] by (fastforce simp: within_period_def)
  moreover have "subseq (window_at w q l) q"
    unfolding window_at_def takeWhile_sorted [OF time_sorted_drop [OF assms(1)]]
    by (meson subseq_filter_left subseq_order.order_trans subseq_drop_many subseq_order.order_refl suffix_drop suffix_imp_subseq)
  ultimately show ?thesis by simp
qed

lemma group_in_window:
  assumes "time_sorted q" and "subseq S q" and "within_period w S"
  shows "\<exists>l < length q. subseq S (window_at w q l)"
proof -
  obtain x xs where S: "S = x # xs" using assms(3) by (cases S) (auto simp: within_period_def)
  with list_emb_ConsD [of "(=)" x xs q] assms(2) obtain us vs where q: "q = us @ x # vs" "subseq xs vs" by auto
  let ?l = "length us"
  have l: "?l < length q" "q ! ?l = x" "drop ?l q = x # vs" by (simp_all add: q(1))
  have "\<forall>t \<in> set S. seconds t \<le> seconds x + w" using assms(3) by (force simp: within_period_def S)
  then have "S = filter (\<lambda>t. seconds t \<le> seconds x + w) S" by (simp add: filter_id_conv [THEN iffD2])
  moreover have "subseq S (x # vs)" using q(2) by (simp add: S)
  ultimately have "subseq S (filter (\<lambda>t. seconds t \<le> seconds x + w) (x # vs))" by (metis subseq_filter)
  also have "filter (\<lambda>t. seconds t \<le> seconds x + w) (x # vs) = window_at w q ?l"
    unfolding window_at_def l(2) by (metis takeWhile_sorted time_sorted_drop assms(1) l(3))
  finally show ?thesis using l(1) by blast
qed

text \<open>
  A condition that every larger group inherits holds for some window exactly when it holds for
  some group inside one period.
\<close>

lemma window_search:
  assumes srt: "time_sorted q" and w: "0 \<le> w"
    and mono: "\<And>S T. subseq S T \<Longrightarrow> subseq T q \<Longrightarrow> P S \<Longrightarrow> P T"
  shows "(\<exists>l. find (\<lambda>l. P (window_at w q l)) [0..<length q] = Some l) \<longleftrightarrow>
      (\<exists>S. subseq S q \<and> within_period w S \<and> P S)"
proof
  assume "\<exists>l. find (\<lambda>l. P (window_at w q l)) [0..<length q] = Some l"
  then obtain l where "l < length q" "P (window_at w q l)" by (auto simp: find_Some_iff)
  with window_within [OF srt _ w] show "\<exists>S. subseq S q \<and> within_period w S \<and> P S" by blast
next
  assume "\<exists>S. subseq S q \<and> within_period w S \<and> P S"
  then obtain S l where "P S" "l < length q" "subseq S (window_at w q l)" using group_in_window [OF srt] by blast
  with mono window_within [OF srt _ w] have "l < length q" "P (window_at w q l)" by blast+
  then have "find (\<lambda>l. P (window_at w q l)) [0..<length q] \<noteq> None" by (auto simp: find_None_iff)
  then show "\<exists>l. find (\<lambda>l. P (window_at w q l)) [0..<length q] = Some l" by auto
qed

subsection \<open>Structuring\<close>

definition structuring_group :: "structuring_params \<Rightarrow> Transaction list \<Rightarrow> bool" where
  "structuring_group p S \<longleftrightarrow> sp_min p \<le> int (length S) \<and>
     (f64_le (sp_threshold p) (F64 (of_int (total_amount S))) \<or> f64_le (sp_absolute p) (F64 (of_int (total_amount S))))"

lemma window_total_bound:
  assumes "\<forall>t \<in> set q. 0 \<le> amt t" and "left < length q"
  shows "(if left > 0 then amt (q ! (left - 1)) else 0) + total_amount (window_at w q left) \<le> total_amount q"
proof -
  have "total_amount (window_at w q left) \<le> total_amount (drop left q)"
    using assms(1) unfolding window_at_def
    by (intro total_amount_subseq) (auto dest: in_set_dropD intro: prefix_imp_subseq takeWhile_is_prefix)
  moreover have "total_amount q = total_amount (take left q) + total_amount (drop left q)"
    by (metis append_take_drop_id total_amount_simps(3))
  moreover have "(if left > 0 then amt (q ! (left - 1)) else 0) \<le> total_amount (take left q)"
  proof (cases left)
    case (Suc k)
    then have "take left q = take k q @ [q ! k]" using assms(2) by (simp add: take_Suc_conv_app_nth)
    moreover have "0 \<le> total_amount (take k q)" using assms(1) by (intro total_amount_nonneg) (auto dest: in_set_takeD)
    ultimately show ?thesis using Suc by simp
  qed simp
  ultimately show ?thesis by linarith
qed

text \<open>The running total after \<open>right\<close> has moved, still with the transaction that has just left the window.\<close>

lemma running_total:
  assumes whole: "whole_amounts q" and l: "left < length q"
    and win: "window_at w q left = window_slice q left right @ drop (right - left) (window_at w q left)"
    and prev: "prev = (if left > 0 then amt (q ! (left - 1)) else 0)"
  shows "fold add_amount (drop (right - left) (window_at w q left))
      (F64 (of_int (prev + total_amount (window_slice q left right)))) = F64 (of_int (prev + total_amount (window_at w q left)))"
    and "(if left > 0 then f64_sub (F64 (of_int (prev + total_amount (window_at w q left)))) (tx_Amount (q ! (left - 1)))
      else F64 (of_int (prev + total_amount (window_at w q left)))) = F64 (of_int (total_amount (window_at w q left)))"
proof -
  let ?W = "window_at w q left"
  have sub: "set ?W \<subseteq> set q" by (auto simp: window_at_def dest!: set_takeWhileD in_set_dropD)
  have amts: "\<forall>t \<in> set q. tx_Amount t = F64 (of_int (amt t)) \<and> 0 \<le> amt t" and le: "total_amount q \<le> 2 ^ 53"
    using whole by (auto simp: whole_amounts_def)
  have pos: "0 \<le> prev" using amts l by (auto simp: prev)
  have "prev + total_amount ?W \<le> total_amount q" using amts l unfolding prev by (intro window_total_bound) auto
  with le have bound: "prev + total_amount ?W \<le> 2 ^ 53" by linarith
  have split: "total_amount ?W = total_amount (window_slice q left right) + total_amount (drop (right - left) ?W)"
    using win by (metis total_amount_simps(3))
  have sl: "set (window_slice q left right) \<subseteq> set q" "set (drop (right - left) ?W) \<subseteq> set q"
    using sub by (auto simp: window_slice_def dest: in_set_takeD in_set_dropD)
  have nonneg: "0 \<le> prev + total_amount (window_slice q left right)"
    using pos amts sl(1) by (intro add_nonneg_nonneg total_amount_nonneg) auto
  show "fold add_amount (drop (right - left) ?W) (F64 (of_int (prev + total_amount (window_slice q left right)))) =
      F64 (of_int (prev + total_amount ?W))"
    using amts sl(2) bound split
    by (subst fold_add_amount [OF _ nonneg]) (auto simp: add.assoc)
  have W: "0 \<le> total_amount ?W" using amts sub by (intro total_amount_nonneg) auto
  show "(if left > 0 then f64_sub (F64 (of_int (prev + total_amount ?W))) (tx_Amount (q ! (left - 1)))
      else F64 (of_int (prev + total_amount ?W))) = F64 (of_int (total_amount ?W))"
  proof (cases "left > 0")
    case True
    then have "tx_Amount (q ! (left - 1)) = F64 (of_int prev)" using amts l by (auto simp: prev)
    moreover have "prev + total_amount ?W - prev = total_amount ?W" by simp
    ultimately show ?thesis
      using f64_sub_int [of "prev + total_amount ?W" prev] W bound pos True by (simp only: if_True)
  qed (simp add: prev)
qed

lemma structuring_scan_eq:
  assumes srt: "time_sorted q" and fit: "times_fit (sp_window p) q" and whole: "whole_amounts q"
    and "pointers_ok (sp_window p) q left right"
    and "amount = F64 (of_int ((if left > 0 \<and> left \<le> length q then amt (q ! (left - 1)) else 0) +
           total_amount (window_slice q left right)))"
  shows "structuring_scan p q left right amount =
    (case find (\<lambda>l. structuring_group p (window_at (sp_window p) q l)) [left..<length q] of
       None \<Rightarrow> []
     | Some l \<Rightarrow> [structuring_alert p (window_at (sp_window p) q l)
         (F64 (of_int (total_amount (window_at (sp_window p) q l))))])"
  using assms(4,5)
proof (induction "length q - left" arbitrary: left right amount)
  case 0
  then show ?case by (subst structuring_scan.simps) simp
next
  case (Suc n)
  let ?w = "sp_window p"
  let ?W = "window_at ?w q left"
  let ?prev = "if left > 0 then amt (q ! (left - 1)) else 0"
  have l: "left < length q" using Suc.hyps(2) by linarith
  note sw = slide_window [OF srt fit Suc.prems(1) l]
  have start: "amount = F64 (of_int (?prev + total_amount (window_slice q left right)))" using Suc.prems(2) l by simp
  note total = running_total [OF whole l sw(2) refl]
  have next_ok: "structuring_scan p q (Suc left) (left + length ?W) (F64 (of_int (total_amount ?W))) =
    (case find (\<lambda>l. structuring_group p (window_at ?w q l)) [Suc left..<length q] of
       None \<Rightarrow> [] | Some l \<Rightarrow> [structuring_alert p (window_at ?w q l) (F64 (of_int (total_amount (window_at ?w q l))))])"
  proof (rule Suc.hyps(1))
    show "n = length q - Suc left" using Suc.hyps(2) by simp
    show "pointers_ok ?w q (Suc left) (left + length ?W)" by (rule sw(4))
    obtain rest where rest: "?W = q ! left # rest" using window_at_nonempty [OF l, of ?w] fit by (auto simp: times_fit_def)
    then have "window_slice q (Suc left) (left + length ?W) = rest"
      using sw(3) by (simp add: window_slice_def drop_Suc Cons_nth_drop_Suc [OF l, symmetric] flip: drop_Suc)
    then show "F64 (of_int (total_amount ?W)) = F64 (of_int ((if Suc left > 0 \<and> Suc left \<le> length q
        then amt (q ! (Suc left - 1)) else 0) + total_amount (window_slice q (Suc left) (left + length ?W))))"
      using l rest by simp
  qed
  show ?case
    using l next_ok
    by (subst structuring_scan.simps)
      (auto simp add: Let_def sw(1) start total(1) total(2) [simplified] sw(3) find_upt_Cons structuring_group_def simp del: of_int_add)
qed


lemma subseq_set: "subseq S T \<Longrightarrow> set S \<subseteq> set T"
  by (induction rule: list_emb.induct) auto

lemma subseq_filter_iff: "subseq S (filter P ts) \<longleftrightarrow> subseq S ts \<and> (\<forall>t \<in> set S. P t)"
proof (intro iffI conjI)
  assume *: "subseq S (filter P ts)"
  then show "subseq S ts" using subseq_filter_left subseq_order.order_trans by blast
  show "\<forall>t \<in> set S. P t" using subseq_set [OF *] by auto
next
  assume *: "subseq S ts \<and> (\<forall>t \<in> set S. P t)"
  then have "filter P S = S" by (simp add: filter_id_conv)
  with * show "subseq S (filter P ts)" by (metis subseq_filter)
qed

text \<open>The transactions a detector is given are in the order they were executed.\<close>

lemma seconds_mono: "tx_ExecutedAt t \<le> tx_ExecutedAt u \<Longrightarrow> seconds t \<le> seconds u"
  by (simp add: Unix_def zdiv_mono1)

lemma time_sorted_filter: "time_sorted q \<Longrightarrow> time_sorted (filter P q)"
  unfolding time_sorted_def by (rule sorted_wrt_filter)

lemma customerTransactions_sorted: "time_sorted (customerTransactions cid txns)"
proof -
  have "sorted_wrt (\<lambda>t u. \<not> event_less u t) (customerTransactions cid txns)"
    unfolding customerTransactions_def by (rule event.go_sort_sorted)
  then show ?thesis
    unfolding time_sorted_def
    by (rule sorted_wrt_mono_rel [rotated]) (rule seconds_mono, auto simp: event_less_def asc_less_def split: if_splits)
qed

lemma filterTransactions_sorted: "time_sorted q \<Longrightarrow> time_sorted (filterTransactions s q)"
  by (simp add: filterTransactions_def Let_def time_sorted_filter)

lemmas detector_input_sorted = filterTransactions_sorted [OF customerTransactions_sorted]

lemma structuring_group_mono:
  assumes "\<forall>t \<in> set q. 0 \<le> amt t" and "subseq S T" and "subseq T q" and "structuring_group p S"
  shows "structuring_group p T"
proof -
  have "set T \<subseteq> set q" using assms(3) by (rule subseq_set)
  then have "total_amount S \<le> total_amount T" using assms(1,2) by (intro total_amount_subseq) auto
  moreover have "length S \<le> length T" using assms(2) by (rule list_emb_length)
  moreover have "f64_le x (F64 (of_int (total_amount T)))" if "f64_le x (F64 (of_int (total_amount S)))" for x
    using that by (rule f64_le_F64_mono) (simp add: \<open>total_amount S \<le> total_amount T\<close>)
  ultimately show ?thesis
    using assms(4) by (auto simp: structuring_group_def)
qed


lemma evalStructuring_eq:
  assumes "time_sorted ts" and "q = filter (\<lambda>t. f64_lt (F64 0) (tx_Amount t) \<and> f64_lt (tx_Amount t) (sp_below p)) ts"
    and "p = structuring_of s customerType tier" and "times_fit (sp_window p) q" and "whole_amounts q"
  shows "evalStructuring s customerType tier ts =
    (case find (\<lambda>l. structuring_group p (window_at (sp_window p) q l)) [0..<length q] of
       None \<Rightarrow> []
     | Some l \<Rightarrow> [structuring_alert p (window_at (sp_window p) q l) (F64 (of_int (total_amount (window_at (sp_window p) q l))))])"
  unfolding evalStructuring_def Let_def assms(3) [symmetric] assms(2) [symmetric]
  by (rule structuring_scan_eq) (use assms(1,4,5) in \<open>auto simp: assms(2) time_sorted_filter pointers_start window_slice_def\<close>)


text \<open>
  C4. The structuring detector is complete and sound for whole amounts that add up to at most \<open>2 ^
  53\<close>, a window of non-negative length and transaction times whose sum with it does not leave 64
  bits: run on the transactions of a customer it raises an alert exactly when some group of them, each
  below the individual limit, lies inside one window, has at least the minimum count and adds up to the
  aggregate threshold or the safety valve; it raises at most one, and the transactions it names are such
  a group, each of them positive and below the individual limit. The one pass of the two pointers misses
  no group.\<close>

theorem structuring_detects:
  assumes "p = structuring_of s customerType tier" and "ts = filterTransactions s (customerTransactions cid txns)"
    and "q = filter (\<lambda>t. f64_lt (F64 0) (tx_Amount t) \<and> f64_lt (tx_Amount t) (sp_below p)) ts"
    and "times_fit (sp_window p) q" and "whole_amounts q"
  shows "(evalStructuring s customerType tier ts \<noteq> [] \<longleftrightarrow>
      (\<exists>S. subseq S ts \<and> (\<forall>t \<in> set S. f64_lt (F64 0) (tx_Amount t) \<and> f64_lt (tx_Amount t) (sp_below p)) \<and>
         within_period (sp_window p) S \<and> structuring_group p S)) \<and>
    (\<forall>a \<in> set (evalStructuring s customerType tier ts). evalStructuring s customerType tier ts = [a] \<and>
      (\<exists>S. subseq S ts \<and> (\<forall>t \<in> set S. f64_lt (F64 0) (tx_Amount t) \<and> f64_lt (tx_Amount t) (sp_below p)) \<and>
         within_period (sp_window p) S \<and> structuring_group p S \<and> sa_ids a = idsOf S))"
proof -
  let ?P = "\<lambda>l. structuring_group p (window_at (sp_window p) q l)"
  have "time_sorted ts" unfolding assms(2) by (rule detector_input_sorted)
  then have srt: "time_sorted q" unfolding assms(3) by (rule time_sorted_filter)
  have w: "0 \<le> sp_window p" using assms(4) by (simp add: times_fit_def)
  have amts: "\<forall>t \<in> set q. 0 \<le> amt t" using assms(5) by (simp add: whole_amounts_def)
  note eq = evalStructuring_eq [OF \<open>time_sorted ts\<close> assms(3,1,4,5)]
  have "(\<exists>l. find ?P [0..<length q] = Some l) \<longleftrightarrow> (\<exists>S. subseq S q \<and> within_period (sp_window p) S \<and> structuring_group p S)"
    by (rule window_search [OF srt w structuring_group_mono [OF amts]])
  then have "evalStructuring s customerType tier ts \<noteq> [] \<longleftrightarrow>
      (\<exists>S. subseq S q \<and> within_period (sp_window p) S \<and> structuring_group p S)"
    unfolding eq by (cases "find ?P [0..<length q]") (simp_all only: option.simps not_Cons_self2 list.distinct simp_thms)
  then have found: "evalStructuring s customerType tier ts \<noteq> [] \<longleftrightarrow>
      (\<exists>S. subseq S ts \<and> (\<forall>t \<in> set S. f64_lt (F64 0) (tx_Amount t) \<and> f64_lt (tx_Amount t) (sp_below p)) \<and>
         within_period (sp_window p) S \<and> structuring_group p S)"
    unfolding assms(3) subseq_filter_iff by (simp only: conj_assoc)
  show ?thesis
  proof (cases "find ?P [0..<length q]")
    case None
    then have "evalStructuring s customerType tier ts = []" unfolding eq by simp
    with found show ?thesis by simp
  next
    case (Some l)
    let ?W = "window_at (sp_window p) q l"
    have l: "l < length q" "?P l" using Some by (auto simp: find_Some_iff)
    note W = window_within [OF srt l(1) w]
    from W have "within_period (sp_window p) ?W" by blast
    moreover have "subseq ?W ts \<and> (\<forall>t \<in> set ?W. f64_lt (F64 0) (tx_Amount t) \<and> f64_lt (tx_Amount t) (sp_below p))"
      by (rule iffD1 [OF subseq_filter_iff]) (use W in \<open>simp only: assms(3) [symmetric]\<close>)
    ultimately have "\<exists>S. subseq S ts \<and> (\<forall>t \<in> set S. f64_lt (F64 0) (tx_Amount t) \<and> f64_lt (tx_Amount t) (sp_below p)) \<and>
        within_period (sp_window p) S \<and> structuring_group p S \<and> sa_ids (structuring_alert p ?W x) = idsOf S" for x
      using l(2) by (intro exI [of _ ?W]) (simp add: structuring_alert_def Let_def)
    moreover have "evalStructuring s customerType tier ts = [structuring_alert p ?W (F64 (of_int (total_amount ?W)))]"
      unfolding eq by (simp add: Some)
    ultimately show ?thesis using found by simp
  qed
qed


lemma sample_structuring:
  "structuring_of sample_scenario [] ''low'' =
    \<lparr>sp_window = 86400, sp_threshold = F64 1000000, sp_min = 3, sp_below = F64 500000, sp_absolute = F64 10000000\<rparr>"
  by code_simp

lemma sample_history_eval:
  "filterTransactions sample_scenario (customerTransactions ''c1'' sample_history) = sample_history"
  "filter (\<lambda>t. f64_lt (F64 0) (tx_Amount t) \<and> f64_lt (tx_Amount t) (F64 500000)) sample_history = sample_history"
  by code_simp+

lemma sample_history_within: "within_period 86400 sample_history" "times_fit 86400 sample_history" "whole_amounts sample_history"
  unfolding within_period_def times_fit_def whole_amounts_def by code_simp+

theorem structuring_detects_witness:
  "evalStructuring sample_scenario [] ''low'' sample_history \<noteq> []"
proof -
  let ?p = "\<lparr>sp_window = 86400, sp_threshold = F64 1000000, sp_min = 3, sp_below = F64 500000, sp_absolute = F64 10000000\<rparr>"
  have group: "subseq sample_history sample_history \<and>
      (\<forall>t \<in> set sample_history. f64_lt (F64 0) (tx_Amount t) \<and> f64_lt (tx_Amount t) (sp_below ?p)) \<and>
      within_period (sp_window ?p) sample_history \<and> structuring_group ?p sample_history"
    unfolding structuring_params.select_convs
    using sample_history_within(1) by (intro conjI subseq_order.order_refl) (code_simp+)
  have prems: "sample_history = filter (\<lambda>t. f64_lt (F64 0) (tx_Amount t) \<and> f64_lt (tx_Amount t) (sp_below ?p)) sample_history"
      "times_fit (sp_window ?p) sample_history"
    unfolding structuring_params.select_convs sample_history_eval(2) by (rule refl, rule sample_history_within)
  show ?thesis
    by (rule iffD2 [OF conjunct1 [OF structuring_detects
          [OF sample_structuring [symmetric] sample_history_eval(1) [symmetric] prems sample_history_within(3)]]], rule exI [of _ sample_history], rule group)
qed


subsection \<open>High frequency\<close>

lemma hfsa_scan_found:
  assumes srt: "time_sorted q" and fit: "times_fit (hp_window p) q" and "pointers_ok (hp_window p) q left right"
  shows "map sa_ids (hfsa_scan p q left right amount) =
    (case find (\<lambda>l. hp_count p \<le> int (length (window_at (hp_window p) q l)) \<or>
         hp_absolute p \<le> int (length (window_at (hp_window p) q l))) [left..<length q] of
       None \<Rightarrow> []
     | Some l \<Rightarrow> [idsOf (window_at (hp_window p) q l)])"
  using assms(3)
proof (induction "length q - left" arbitrary: left right amount)
  case 0
  then show ?case by (subst hfsa_scan.simps) simp
next
  case (Suc n)
  have l: "left < length q" using Suc.hyps(2) by linarith
  note sw = slide_window [OF srt fit Suc.prems l]
  note next_ok = Suc.hyps(1) [OF _ sw(4)]
  show ?case
    using l Suc.hyps(2) next_ok
    by (subst hfsa_scan.simps) (simp add: Let_def sw(1) sw(3) find_upt_Cons hfsa_alert_def)
qed

text \<open>
  The high-frequency detector needs no arithmetic on amounts: for any amounts it raises an
  alert exactly when some group of transactions of at most the maximum amount inside one window
  reaches the count threshold or the safety valve, and at most one.\<close>

theorem hfsa_detects:
  assumes "p = hfsa_of s customerType tier" and "ts = filterTransactions s (customerTransactions cid txns)"
    and "\<forall>t \<in> set ts. - (2 ^ 63) \<le> seconds t + hp_window p \<and> seconds t + hp_window p < 2 ^ 63"
    and "0 < hp_window p"
  shows "(evalHFSA s customerType tier ts \<noteq> [] \<longleftrightarrow>
      (\<exists>S. subseq S ts \<and> (\<forall>t \<in> set S. f64_lt (F64 0) (tx_Amount t) \<and> f64_le (tx_Amount t) (hp_max p)) \<and>
         within_period (hp_window p) S \<and> (hp_count p \<le> int (length S) \<or> hp_absolute p \<le> int (length S)))) \<and>
    length (evalHFSA s customerType tier ts) \<le> 1"
proof -
  define q where "q = filter (\<lambda>t. f64_lt (F64 0) (tx_Amount t) \<and> f64_le (tx_Amount t) (hp_max p)) ts"
  define P where "P S \<longleftrightarrow> hp_count p \<le> int (length S) \<or> hp_absolute p \<le> int (length S)" for S :: "Transaction list"
  have srt: "time_sorted q" unfolding q_def assms(2) by (intro time_sorted_filter detector_input_sorted)
  have fit: "times_fit (hp_window p) q" using assms(3,4) by (auto simp: times_fit_def q_def)
  have w: "0 \<le> hp_window p" using assms(4) by simp
  have "evalHFSA s customerType tier ts = hfsa_scan p q 0 0 (F64 0)"
    by (simp add: evalHFSA_def Let_def q_def assms(1))
  then have eq: "map sa_ids (evalHFSA s customerType tier ts) =
    (case find (\<lambda>l. P (window_at (hp_window p) q l)) [0..<length q] of None \<Rightarrow> [] | Some l \<Rightarrow> [idsOf (window_at (hp_window p) q l)])"
    unfolding P_def by (simp add: hfsa_scan_found [OF srt fit pointers_start])
  have "P S \<Longrightarrow> subseq S T \<Longrightarrow> P T" for S T unfolding P_def using list_emb_length [of "(=)" S T] by auto
  then have "(\<exists>l. find (\<lambda>l. P (window_at (hp_window p) q l)) [0..<length q] = Some l) \<longleftrightarrow>
      (\<exists>S. subseq S q \<and> within_period (hp_window p) S \<and> P S)"
    by (intro window_search [OF srt w]) blast
  then have "map sa_ids (evalHFSA s customerType tier ts) \<noteq> [] \<longleftrightarrow> (\<exists>S. subseq S q \<and> within_period (hp_window p) S \<and> P S)"
    unfolding eq by (cases "find (\<lambda>l. P (window_at (hp_window p) q l)) [0..<length q]")
      (simp_all only: option.simps not_Cons_self2 list.distinct simp_thms)
  then have "evalHFSA s customerType tier ts \<noteq> [] \<longleftrightarrow>
      (\<exists>S. subseq S ts \<and> (\<forall>t \<in> set S. f64_lt (F64 0) (tx_Amount t) \<and> f64_le (tx_Amount t) (hp_max p)) \<and>
         within_period (hp_window p) S \<and> P S)"
    unfolding q_def subseq_filter_iff by (simp only: map_is_Nil_conv conj_assoc)
  moreover have "length (map sa_ids (evalHFSA s customerType tier ts)) \<le> 1"
    unfolding eq by (simp split: option.split)
  ultimately show ?thesis unfolding P_def by simp
qed

theorem hfsa_detects_witness:
  "evalHFSA sample_scenario [] ''low'' sample_history = []"
proof -
  define p where "p = hfsa_of sample_scenario [] ''low''"
  have p: "hp_window p = 3600" "hp_max p = F64 100000" unfolding p_def by code_simp+
  have small: "\<not> f64_le (tx_Amount t) (F64 100000)" if "t \<in> set sample_history" for t
    using that by (auto simp: sample_history_def sample_txn_def)
  have none: "\<not> (\<exists>S. subseq S sample_history \<and> (\<forall>t \<in> set S. f64_lt (F64 0) (tx_Amount t) \<and> f64_le (tx_Amount t) (hp_max p)) \<and>
      within_period (hp_window p) S \<and> (hp_count p \<le> int (length S) \<or> hp_absolute p \<le> int (length S)))"
  proof (intro notI, elim exE conjE)
    fix S assume "subseq S sample_history" "\<forall>t \<in> set S. f64_lt (F64 0) (tx_Amount t) \<and> f64_le (tx_Amount t) (hp_max p)"
      "within_period (hp_window p) S"
    then obtain t where "t \<in> set S" "t \<in> set sample_history" "f64_le (tx_Amount t) (F64 100000)"
      using subseq_set unfolding p within_period_def by (metis list.set_intros(1) neq_Nil_conv subsetD)
    with small show False by blast
  qed
  have fits: "\<forall>t \<in> set sample_history. - (2 ^ 63) \<le> seconds t + hp_window p \<and> seconds t + hp_window p < 2 ^ 63"
    unfolding p by code_simp
  have "0 < hp_window p" by (simp add: p)
  from conjunct1 [OF hfsa_detects [OF p_def sample_history_eval(1) [symmetric] fits this]] none
  show ?thesis by (simp only: not_False_eq_True simp_thms) 
qed

end
