(* ===== verification/Engine_State.thy ===== *)
theory Engine_State
  imports Detection
begin

text \<open>
  The configuration an evaluation engine holds (\<^verbatim>\<open>engine/native/native.go\<close>): the weights of the risk
  factors and the score bands, the country table, the monitoring scenarios and the screening lists.
  Maps that the code only reads are association lists; where it ranges over one, the list is the
  order of that iteration. The lists carry a read-write lock in the code; every operation takes the
  state as one step.
\<close>

record riskFactor =
  rf_Weight :: float64
  rf_Values :: "(string \<times> float64) list"
  rf_Source :: string
  rf_Description :: string
  rf_Applies :: "string list"

record threshold =
  th_Min :: float64
  th_Max :: float64

record cddConfig =
  cdd_SchemaVersion :: string
  cdd_PresetID :: string
  cdd_RiskFactors :: "(string \<times> riskFactor) list"
  cdd_TierThresholds :: "(string \<times> threshold) list"

record countryRisk =
  cr_DefaultScore :: float64
  cr_Countries :: "(string \<times> float64) list"

record screeningEntry =
  se_ID :: string
  se_Names :: "string list"
  se_DatesOfBirth :: "string list"
  se_Addresses :: "string list"
  se_Country :: string
  se_EntityType :: string
  se_Type :: string

record screeningList =
  sl_ID :: string
  sl_Type :: string
  sl_Name :: string
  sl_Source :: string
  sl_Entries :: "screeningEntry list"

record Engine =
  en_cdd :: cddConfig
  en_cddDigest :: string
  en_country :: "countryRisk option"
  en_scenarios :: "scenario list"
  en_tmDigest :: string
  en_tmCompatibilityWarnings :: "string list"
  en_lists :: "screeningList list"
  en_screeningDigest :: string
  en_screeningThreshold :: float64
  en_screeningHMACKey :: string
  en_screeningHMACKeyID :: string

subsection \<open>Risk tiers as map keys\<close>

definition tier_keys :: "string list" where
  "tier_keys = [''LOW'', ''MEDIUM'', ''HIGH'']"

fun normalize_tiers :: "(string \<times> 'a) list \<Rightarrow> string \<Rightarrow> (string \<times> 'a) list \<Rightarrow> (string \<times> 'a) list result" where
  "normalize_tiers [] field normalized = Inr normalized"
| "normalize_tiers ((key, v) # vs) field normalized =
    (let canonical = ToUpper key in
     if canonical \<notin> set tier_keys then Inl (ErrText (field @ '' contains unknown risk tier '' @ Quote key))
     else if canonical \<in> set (map fst normalized)
       then Inl (ErrText (field @ '' contains case-colliding risk tier '' @ Quote key))
     else normalize_tiers vs field (normalized @ [(canonical, v)]))"

definition normalizeRiskTierMap :: "(string \<times> 'a) list \<Rightarrow> string \<Rightarrow> (string \<times> 'a) list result" where
  "normalizeRiskTierMap vs field = normalize_tiers vs field []"

text \<open>What it accepts has the canonical keys, each at most once, and the same values.\<close>

lemma normalize_tiers_ok:
  assumes "normalize_tiers vs field normalized = Inr m" and "set (map fst normalized) \<subseteq> set tier_keys"
    and "distinct (map fst normalized)"
  shows "m = normalized @ map (\<lambda>(k, v). (ToUpper k, v)) vs \<and> set (map fst m) \<subseteq> set tier_keys \<and> distinct (map fst m)"
  using assms
proof (induction vs field normalized rule: normalize_tiers.induct)
  case (2 key v vs field normalized)
  from 2(2) have new: "ToUpper key \<in> set tier_keys" "ToUpper key \<notin> set (map fst normalized)"
      "normalize_tiers vs field (normalized @ [(ToUpper key, v)]) = Inr m"
    by (simp_all only: normalize_tiers.simps Let_def split: if_split_asm) auto
  then have "m = (normalized @ [(ToUpper key, v)]) @ map (\<lambda>(k, v). (ToUpper k, v)) vs \<and>
      set (map fst m) \<subseteq> set tier_keys \<and> distinct (map fst m)"
    by (intro 2(1) [OF refl]) (use 2(3,4) in simp_all)
  moreover have "(normalized @ [(ToUpper key, v)]) @ map (\<lambda>(k, v). (ToUpper k, v)) vs =
      normalized @ map (\<lambda>(k, v). (ToUpper k, v)) ((key, v) # vs)" by simp
  ultimately show ?case by metis
qed simp

lemma normalizeRiskTierMap_ok:
  assumes "normalizeRiskTierMap vs field = Inr m"
  shows "m = map (\<lambda>(k, v). (ToUpper k, v)) vs" and "set (map fst m) \<subseteq> set tier_keys" and "distinct (map fst m)"
proof -
  have "m = [] @ map (\<lambda>(k, v). (ToUpper k, v)) vs \<and> set (map fst m) \<subseteq> set tier_keys \<and> distinct (map fst m)"
    by (rule normalize_tiers_ok [OF assms [unfolded normalizeRiskTierMap_def]]) simp_all
  then show "m = map (\<lambda>(k, v). (ToUpper k, v)) vs" and "set (map fst m) \<subseteq> set tier_keys" and "distinct (map fst m)"
    unfolding append_Nil by blast+
qed

subsection \<open>Country scores\<close>

definition Trunc :: "float64 \<Rightarrow> float64" where
  "Trunc x = (case x of F64 q \<Rightarrow> F64 (of_int (if q < 0 then \<lceil>q\<rceil> else \<lfloor>q\<rfloor>)) | _ \<Rightarrow> x)"

definition validCountryRiskScore :: "float64 \<Rightarrow> bool" where
  "validCountryRiskScore score \<longleftrightarrow> f64_le (F64 1) score \<and> f64_le score (F64 5) \<and> f64_eq (Trunc score) score"

definition validateCountryRisk :: "countryRisk \<Rightarrow> go_error option" where
  "validateCountryRisk table =
    (if \<not> validCountryRiskScore (cr_DefaultScore table)
     then Some (ErrField ''default_score'' ''country risk default_score must be an integer between 1 and 5'')
     else map_option (\<lambda>(code, _). ErrField (''countries.'' @ code @ ''.score'')
            (''country '' @ Quote code @ '' score must be an integer between 1 and 5''))
       (find (\<lambda>(_, score). \<not> validCountryRiskScore score) (cr_Countries table)))"

lemma valid_country_score_cases:
  assumes "validCountryRiskScore x"
  shows "x \<in> {F64 1, F64 2, F64 3, F64 4, F64 5}"
proof (cases x)
  case (F64 q)
  with assms have q: "1 \<le> q" "q \<le> 5" and whole: "\<exists>n. q = of_int n"
    by (simp_all add: validCountryRiskScore_def Trunc_def f64_eq_def split: if_split_asm)
  then obtain n where n: "q = of_int n" by blast
  with q have "1 \<le> n" "n \<le> 5" by simp_all
  then have "n \<in> {1, 2, 3, 4, 5}" by auto
  moreover note n
  ultimately show ?thesis using F64 by auto
qed (use assms in \<open>auto simp: validCountryRiskScore_def f64_le_def f64_eq_def\<close>)


text \<open>A small configuration for examples.\<close>

definition sample_weights :: cddConfig where
  "sample_weights = \<lparr>cdd_SchemaVersion = ''1'', cdd_PresetID = ''preset'',
     cdd_RiskFactors = [(''customer_type'', \<lparr>rf_Weight = F64 (1 / 2), rf_Values = [(''individual'', F64 1)], rf_Source = [],
         rf_Description = [], rf_Applies = []\<rparr>),
       (''geography'', \<lparr>rf_Weight = F64 (1 / 2), rf_Values = [(''JP'', F64 1)], rf_Source = [], rf_Description = [],
         rf_Applies = []\<rparr>)],
     cdd_TierThresholds = [(''LOW'', \<lparr>th_Min = F64 0, th_Max = F64 2\<rparr>), (''MEDIUM'', \<lparr>th_Min = F64 2, th_Max = F64 4\<rparr>)]\<rparr>"

definition sample_engine :: Engine where
  "sample_engine = \<lparr>en_cdd = sample_weights, en_cddDigest = ''d1'', en_country = None, en_scenarios = [], en_tmDigest = ''d2'',
     en_tmCompatibilityWarnings = [], en_lists = [], en_screeningDigest = ''d3'', en_screeningThreshold = f64_round (85 / 100),
     en_screeningHMACKey = ''k'', en_screeningHMACKeyID = ''screening:ephemeral''\<rparr>"

end
