(* ===== verification/Scoring.thy ===== *)
theory Scoring
  imports Engine_State
begin

text \<open>
  Customer risk scoring (\<^verbatim>\<open>engine/native/native.go\<close>: \<^verbatim>\<open>validateCDD\<close>, \<^verbatim>\<open>normalizeCDD\<close>, \<^verbatim>\<open>resolveFactor\<close>,
  \<^verbatim>\<open>scoreCustomer\<close> and its entry points). A score is the weighted mean of the factors that apply to
  the type of the customer; the tier is the band the score falls in. Decoding a definition from YAML
  and its SHA-256 digest are parameters. \<open>score_fail_alert\<close> shows the rule the comments of the code
  state: a factor that cannot be resolved never yields a low or medium tier.
\<close>

subsection \<open>Validation of a weight set\<close>

fun sum_weights :: "(string \<times> riskFactor) list \<Rightarrow> float64 \<Rightarrow> float64 result" where
  "sum_weights [] acc = Inr acc"
| "sum_weights ((name, factor) # factors) acc =
    (if f64_le (rf_Weight factor) (F64 0)
     then Inl (ErrField (''risk_factors.'' @ name @ ''.weight'') (''CDD risk_factor '' @ Quote name @ '' weight must be positive''))
     else if rf_Values factor = [] \<and> rf_Source factor = []
     then Inl (ErrField (''risk_factors.'' @ name) (''CDD risk_factor '' @ Quote name @ '' must have either values or source''))
     else sum_weights factors (f64_add acc (rf_Weight factor)))"

definition bands_meet :: "(string \<times> threshold) list \<Rightarrow> string \<Rightarrow> string \<Rightarrow> go_error option" where
  "bands_meet bands lower upper =
    (case (map_of bands lower, map_of bands upper) of
       (Some l, Some u) \<Rightarrow>
         if \<not> f64_eq (th_Max l) (F64 0) \<and> \<not> f64_eq (th_Min u) (F64 0) \<and> \<not> f64_eq (th_Max l) (th_Min u)
         then Some (ErrField ''tier_thresholds'' (lower @ ''.max ('' @ format_g6 (th_Max l) @ '') must equal '' @
           upper @ ''.min ('' @ format_g6 (th_Min u) @ '')''))
         else None
     | _ \<Rightarrow> None)"

text \<open>
  The factors are ranged over in the order of the list. Go ranges over a map in an order of its own
  on every run, so two validations of one document are two lists with the same entries;
  \<open>validateCDD_order_matters\<close> below shows that they can disagree.
\<close>

definition validateCDD :: "cddConfig \<Rightarrow> go_error option" where
  "validateCDD c =
    (if cdd_RiskFactors c = [] then Some (ErrField ''risk_factors'' ''CDD risk_factors must not be empty'')
     else case sum_weights (cdd_RiskFactors c) (F64 0) of
       Inl e \<Rightarrow> Some e
     | Inr total_weight \<Rightarrow>
         if f64_lt total_weight (f64_round (99 / 100)) \<or> f64_lt (f64_round (101 / 100)) total_weight
         then Some (ErrField ''risk_factors''
           (''CDD risk_factor weights must sum to 1.0, got '' @ format_fixed 4 total_weight))
         else case bands_meet (cdd_TierThresholds c) ''LOW'' ''MEDIUM'' of
           Some e \<Rightarrow> Some e
         | None \<Rightarrow> bands_meet (cdd_TierThresholds c) ''MEDIUM'' ''HIGH'')"

definition normalizeCDD :: "cddConfig \<Rightarrow> cddConfig result" where
  "normalizeCDD c =
    (case normalizeRiskTierMap (cdd_TierThresholds c) ''tier_thresholds'' of
       Inl e \<Rightarrow> Inl e
     | Inr normalized \<Rightarrow> Inr (c\<lparr>cdd_TierThresholds := normalized\<rparr>))"

subsection \<open>Factors\<close>

definition attr :: "(string \<times> string) list \<Rightarrow> string \<Rightarrow> string" where
  "attr attrs name = (case map_of attrs name of Some v \<Rightarrow> v | None \<Rightarrow> [])"

definition factorObservedValue :: "string \<Rightarrow> Customer \<Rightarrow> (string \<times> string) list \<Rightarrow> string" where
  "factorObservedValue name c attrs =
    (case map_of attrs name of
       Some v \<Rightarrow> v
     | None \<Rightarrow>
         if name = ''customer_type'' then CustomerType_string (cu_CustomerType c)
         else if name = ''country_code'' then cu_CountryCode c
         else if name = ''product_type'' then join '','' (cu_ProductTypes c)
         else if name = ''risk_tier'' then (case cu_RiskTier c of Some t \<Rightarrow> RiskTier_string t | None \<Rightarrow> [])
         else [])"

definition resolveFactor ::
  "Engine \<Rightarrow> string \<Rightarrow> riskFactor \<Rightarrow> Customer \<Rightarrow> (string \<times> string) list \<Rightarrow> float64 option" where
  "resolveFactor e name f c attrs =
    (case (if rf_Source f = ''country_risk_table'' then en_country e else None) of
       Some table \<Rightarrow>
         let code = (if name \<noteq> ''geography'' then attr attrs name else cu_CountryCode c) in
         Some (case map_of (cr_Countries table) code of Some score \<Rightarrow> score | None \<Rightarrow> cr_DefaultScore table)
     | None \<Rightarrow>
         let key =
           (if name = ''customer_type'' then CustomerType_string (cu_CustomerType c)
            else if name = ''geography'' then cu_CountryCode c
            else if name \<in> {''product_channel'', ''product_type''} \<and> cu_ProductTypes c \<noteq> [] then hd (cu_ProductTypes c)
            else attr attrs name)
         in map_of (rf_Values f) key)"

subsection \<open>Scoring\<close>

definition applies_to :: "Customer \<Rightarrow> riskFactor \<Rightarrow> bool" where
  "applies_to c f \<longleftrightarrow> rf_Applies f = [] \<or> CustomerType_string (cu_CustomerType c) \<in> set (rf_Applies f)"

definition applicable_factors :: "cddConfig \<Rightarrow> Customer \<Rightarrow> (string \<times> riskFactor) list" where
  "applicable_factors cdd c = go_sort (\<lambda>p q. fst p < fst q) (filter (\<lambda>(_, f). applies_to c f) (cdd_RiskFactors cdd))"

definition customer_attrs :: "Customer \<Rightarrow> (string \<times> string) list" where
  "customer_attrs c = map (\<lambda>(k, v). (k, Sprint v)) (cu_Attributes c)"

definition score_factor :: "Engine \<Rightarrow> Customer \<Rightarrow> float64 \<Rightarrow> string \<times> riskFactor \<Rightarrow> Factor" where
  "score_factor e c weight p =
    (case p of (name, f) \<Rightarrow>
     let attrs = customer_attrs c;
         resolved = resolveFactor e name f c attrs;
         v = (case resolved of Some v \<Rightarrow> v | None \<Rightarrow> F64 5)
     in \<lparr>fa_Name = name, fa_Axis = name, fa_Score = v,
         fa_Description = name @ ''='' @ FormatFloat v @ (if resolved = None then '' (fallback: unresolved)'' else []),
         fa_BusinessMeaning = (if rf_Description f = [] then ''CDD factor '' @ name else rf_Description f),
         fa_Weight = rf_Weight f, fa_Contribution = f64_mul (f64_div (rf_Weight f) weight) v,
         fa_ObservedValue = factorObservedValue name c attrs,
         fa_Rule = (if rf_Source f = [] then ''values'' else rf_Source f), fa_Fallback = (resolved = None)\<rparr>)"

definition tier_of :: "(string \<times> threshold) list \<Rightarrow> float64 \<Rightarrow> RiskTier" where
  "tier_of bands score =
    (let tier = RiskTierHigh;
         tier = (case map_of bands ''LOW'' of
             Some th \<Rightarrow> if f64_eq (th_Max th) (F64 0) \<or> f64_lt score (th_Max th) then RiskTierLow else tier
           | None \<Rightarrow> tier);
         tier = (case map_of bands ''MEDIUM'' of
             Some th \<Rightarrow> if f64_le (th_Min th) score \<and> (f64_eq (th_Max th) (F64 0) \<or> f64_lt score (th_Max th))
               then RiskTierMedium else tier
           | None \<Rightarrow> tier)
     in tier)"

definition score_record :: "time \<Rightarrow> Customer \<Rightarrow> string \<Rightarrow> cddConfig \<Rightarrow> string \<Rightarrow> Factor list \<Rightarrow> ScoreRecord" where
  "score_record now c reportedRuleSetID cdd cddDigest resultFactors =
    (let score = foldl (\<lambda>t f. f64_add t (fa_Contribution f)) (F64 0) resultFactors;
         usedFallback = list_ex fa_Fallback resultFactors
     in \<lparr>sc_ID = [], sc_CustomerID = cu_ID c, sc_Score = score,
         sc_Tier = (if usedFallback then RiskTierHigh else tier_of (cdd_TierThresholds cdd) score),
         sc_Factors = resultFactors,
         sc_RuleSetID = (if reportedRuleSetID = [] then cdd_PresetID cdd else reportedRuleSetID),
         sc_RuleSetSHA256 = cddDigest, sc_RuleSetVersion = 0, sc_ScoredAt = now,
         sc_Rationale = (if usedFallback then ''Fail-alert fallback applied for one or more unresolved CDD factors'' else []),
         sc_Actor = [], sc_OverrideEvidence = []\<rparr>)"

definition scoreCustomer ::
  "time \<Rightarrow> go_error option \<Rightarrow> Engine \<Rightarrow> Customer option \<Rightarrow> string \<Rightarrow> cddConfig \<Rightarrow> string \<Rightarrow> ScoreRecord result" where
  "scoreCustomer now ctx e customer reportedRuleSetID cdd cddDigest =
    (case ctx of Some err \<Rightarrow> Inl err | None \<Rightarrow>
     case customer of None \<Rightarrow> Inl (ErrText ''customer is required'') | Some c \<Rightarrow>
     let factors = applicable_factors cdd c;
         weight = foldl (\<lambda>w (_, f). f64_add w (rf_Weight f)) (F64 0) factors
     in if f64_eq weight (F64 0) then Inl (ErrText ''CDD factors have no applicable weight'')
        else Inr (score_record now c reportedRuleSetID cdd cddDigest (map (score_factor e c weight) factors)))"

definition ScoreCustomer :: "time \<Rightarrow> go_error option \<Rightarrow> Engine \<Rightarrow> Customer option \<Rightarrow> ScoreRecord result" where
  "ScoreCustomer now ctx e customer = scoreCustomer now ctx e customer (cdd_PresetID (en_cdd e)) (en_cdd e) (en_cddDigest e)"

definition ScoreCustomerWithRuleSet ::
  "(string \<Rightarrow> cddConfig result) \<Rightarrow> (string \<Rightarrow> string) \<Rightarrow> time \<Rightarrow> go_error option \<Rightarrow> Engine \<Rightarrow> Customer option \<Rightarrow>
     string \<Rightarrow> string \<Rightarrow> ScoreRecord result" where
  "ScoreCustomerWithRuleSet unmarshal digest now ctx e customer ruleSetID body =
    (if TrimSpace ruleSetID = [] then Inl (ErrText ''rule set id must not be empty'')
     else case unmarshal body of
       Inl err \<Rightarrow> Inl (ErrWrap (''parse CDD rule set '' @ Quote ruleSetID) err)
     | Inr cdd \<Rightarrow>
         (case normalizeCDD cdd of
            Inl err \<Rightarrow> Inl (ErrWrap (''normalize CDD rule set '' @ Quote ruleSetID) err)
          | Inr cdd \<Rightarrow>
              (case validateCDD cdd of
                 Some err \<Rightarrow> Inl (ErrWrap (''validate CDD rule set '' @ Quote ruleSetID) err)
               | None \<Rightarrow> scoreCustomer now ctx e customer ruleSetID cdd (digest body))))"

definition TierThresholds :: "Engine \<Rightarrow> (string \<times> float64 \<times> float64) list" where
  "TierThresholds e = map (\<lambda>(tier, band). (tier, th_Min band, th_Max band)) (cdd_TierThresholds (en_cdd e))"


subsection \<open>The order of the factors matters to the validation\<close>

text \<open>The weights 0.06, 0.08 and 0.85 add up to 0.99 or to less, depending on the order.\<close>

definition weight_of_hundredths :: "string \<Rightarrow> rat \<Rightarrow> string \<times> riskFactor" where
  "weight_of_hundredths name w = (name, \<lparr>rf_Weight = f64_round (w / 100), rf_Values = [(''x'', F64 1)], rf_Source = [],
     rf_Description = [], rf_Applies = []\<rparr>)"

lemma validateCDD_order_matters:
  "\<exists>c fs. mset fs = mset (cdd_RiskFactors c) \<and> validateCDD c = None \<and> validateCDD (c\<lparr>cdd_RiskFactors := fs\<rparr>) \<noteq> None"
proof -
  let ?a = "weight_of_hundredths ''a'' 6" and ?b = "weight_of_hundredths ''b'' 8" and ?c = "weight_of_hundredths ''c'' 85"
  let ?w = "\<lambda>fs. \<lparr>cdd_SchemaVersion = [], cdd_PresetID = [], cdd_RiskFactors = fs, cdd_TierThresholds = []\<rparr>"
  have "validateCDD (?w [?a, ?b, ?c]) = None" "validateCDD (?w [?a, ?c, ?b]) \<noteq> None" by code_simp+
  then show ?thesis
    by (intro exI [of _ "?w [?a, ?b, ?c]"] exI [of _ "[?a, ?c, ?b]"]) (simp add: add_mset_commute)
qed

subsection \<open>What a score says\<close>

definition unresolved :: "Engine \<Rightarrow> cddConfig \<Rightarrow> Customer \<Rightarrow> bool" where
  "unresolved e cdd c \<longleftrightarrow> list_ex (\<lambda>(name, f). applies_to c f \<and> resolveFactor e name f c (customer_attrs c) = None) (cdd_RiskFactors cdd)"

lemma fallback_used:
  "list_ex fa_Fallback (map (score_factor e c weight) (applicable_factors cdd c)) \<longleftrightarrow> unresolved e cdd c"
  by (auto simp: unresolved_def list_ex_iff applicable_factors_def score_factor_def Let_def)

lemma tier_of_bands:
  assumes "map_of bands ''LOW'' = Some low" and "map_of bands ''MEDIUM'' = Some mid"
    and "th_Max low = F64 a" and "th_Min mid = F64 a" and "th_Max mid = F64 b" and "a \<noteq> 0" and "b \<noteq> 0" and "a \<le> b"
  shows "tier_of bands (F64 x) = (if x < a then RiskTierLow else if x < b then RiskTierMedium else RiskTierHigh)"
  using assms by (simp add: tier_of_def Let_def f64_eq_def)

text \<open>
  C7. A score of a customer is complete and fails towards alerting: the result has one line for every
  factor that applies to the customer's type, marked as fallback exactly when the factor could not be
  resolved; the score is the sum of the contributions of these lines; if a factor could not be resolved
  the tier is high and the rationale says so, whatever the score and the bands; otherwise the rationale
  is empty and the tier is the band of a finite score, for bands of which the low and the medium one are
  present, meet, have non-zero bounds and are in order (which the validation of a weight set does not
  enforce).\<close>

theorem score_fail_alert:
  assumes "scoreCustomer now ctx e (Some c) ruleSetID cdd dg = Inr r"
  shows "mset (map (\<lambda>l. (fa_Name l, fa_Fallback l)) (sc_Factors r)) =
      mset (map (\<lambda>(name, f). (name, resolveFactor e name f c (customer_attrs c) = None))
        (filter (\<lambda>(_, f). applies_to c f) (cdd_RiskFactors cdd))) \<and>
    sc_Score r = foldl (\<lambda>t l. f64_add t (fa_Contribution l)) (F64 0) (sc_Factors r) \<and>
    (unresolved e cdd c \<longrightarrow> sc_Tier r = RiskTierHigh) \<and>
    (sc_Rationale r \<noteq> [] \<longleftrightarrow> unresolved e cdd c) \<and>
    (\<forall>low mid a b x. \<not> unresolved e cdd c \<and> map_of (cdd_TierThresholds cdd) ''LOW'' = Some low \<and>
        map_of (cdd_TierThresholds cdd) ''MEDIUM'' = Some mid \<and> th_Max low = F64 a \<and> th_Min mid = F64 a \<and> th_Max mid = F64 b \<and>
        a \<noteq> 0 \<and> b \<noteq> 0 \<and> a \<le> b \<and> sc_Score r = F64 x \<longrightarrow>
      sc_Tier r = (if x < a then RiskTierLow else if x < b then RiskTierMedium else RiskTierHigh))"
proof -
  obtain weight where "r = score_record now c ruleSetID cdd dg (map (score_factor e c weight) (applicable_factors cdd c))"
    using assms(1) unfolding scoreCustomer_def Let_def by (cases ctx) (simp_all split: if_split_asm, metis)
  then have w: "sc_Factors r = map (score_factor e c weight) (applicable_factors cdd c)"
      "sc_Tier r = (if unresolved e cdd c then RiskTierHigh else tier_of (cdd_TierThresholds cdd) (sc_Score r))"
      "sc_Rationale r = (if unresolved e cdd c then ''Fail-alert fallback applied for one or more unresolved CDD factors'' else [])"
      "sc_Score r = foldl (\<lambda>t l. f64_add t (fa_Contribution l)) (F64 0) (sc_Factors r)"
    by (simp_all only: score_record_def Let_def fallback_used ScoreRecord.select_convs)
  have line: "(fa_Name l, fa_Fallback l) = (\<lambda>(name, f). (name, resolveFactor e name f c (customer_attrs c) = None)) p"
    if "l = score_factor e c weight p" for l p
    using that by (simp add: score_factor_def Let_def split: prod.splits)
  have "mset (map (\<lambda>l. (fa_Name l, fa_Fallback l)) (sc_Factors r)) =
      mset (map (\<lambda>(name, f). (name, resolveFactor e name f c (customer_attrs c) = None)) (applicable_factors cdd c))"
    unfolding w(1) map_map comp_def using line [OF refl] by simp
  moreover have "sc_Tier r = (if x < a then RiskTierLow else if x < b then RiskTierMedium else RiskTierHigh)"
    if "\<not> unresolved e cdd c" "map_of (cdd_TierThresholds cdd) ''LOW'' = Some low" "map_of (cdd_TierThresholds cdd) ''MEDIUM'' = Some mid"
      "th_Max low = F64 a" "th_Min mid = F64 a" "th_Max mid = F64 b" "a \<noteq> 0" "b \<noteq> 0" "a \<le> b" "sc_Score r = F64 x" for low mid a b x
    using that(1) unfolding w(2) that(10) tier_of_bands [OF that(2-9)] by simp
  ultimately show ?thesis
    using w(2-4) by (auto simp: applicable_factors_def)
qed


text \<open>A resident of a country the table does not list: the score is in the medium band, the tier high.\<close>

theorem score_fail_alert_witness:
  "\<exists>r. ScoreCustomer 7 None sample_engine (Some (sample_customer\<lparr>cu_CountryCode := ''XX''\<rparr>)) = Inr r \<and>
     sc_Score r = F64 3 \<and> sc_Tier r = RiskTierHigh"
proof -
  let ?c = "sample_customer\<lparr>cu_CountryCode := ''XX''\<rparr>"
  have "map_sum (\<lambda>_. ()) sc_Score (scoreCustomer 7 None sample_engine (Some ?c) ''preset'' sample_weights ''d1'') = Inr (F64 3)"
    by code_simp
  then obtain r where r: "scoreCustomer 7 None sample_engine (Some ?c) ''preset'' sample_weights ''d1'' = Inr r" "sc_Score r = F64 3"
    by (cases "scoreCustomer 7 None sample_engine (Some ?c) ''preset'' sample_weights ''d1''") simp_all
  have "unresolved sample_engine sample_weights ?c" by code_simp
  then have "sc_Tier r = RiskTierHigh"
    using score_fail_alert [OF r(1)] by blast
  with r show ?thesis by (auto simp: ScoreCustomer_def sample_engine_def sample_weights_def)
qed

end
