(* ===== verification/Edit_Distance.thy ===== *)
theory Edit_Distance
  imports Formatting
begin

text \<open>
  The name comparison of the screening engine (\<^verbatim>\<open>similarity\<close> and \<^verbatim>\<open>normalize\<close> in
  \<^verbatim>\<open>engine/native/native.go\<close>). The code fills the table of the edit distance row by row and keeps only
  the last row. It is related here to the definition of the distance: the least number of
  insertions, deletions and replacements of single characters that turn one text into the other,
  given by the alignments of the two texts. Text is ASCII, so that a byte is a character.
\<close>

subsection \<open>Normalised text\<close>

fun split_where :: "(char \<Rightarrow> bool) \<Rightarrow> string \<Rightarrow> string list" where
  "split_where P [] = [[]]"
| "split_where P (c # cs) =
    (if P c then [] # split_where P cs
     else case split_where P cs of [] \<Rightarrow> [[c]] | w # ws \<Rightarrow> (c # w) # ws)"

definition Fields :: "string \<Rightarrow> string list" where
  "Fields s = filter (\<lambda>w. w \<noteq> []) (split_where is_space s)"

definition is_alnum :: "char \<Rightarrow> bool" where
  "is_alnum c \<longleftrightarrow> c \<in> set ''abcdefghijklmnopqrstuvwxyzABCDEFGHIJKLMNOPQRSTUVWXYZ0123456789''"

definition dropped_char :: "char \<Rightarrow> bool" where
  "dropped_char c \<longleftrightarrow> (let r = (of_char c :: nat) in 0x21 \<le> r \<and> r \<le> 0x7E) \<and> \<not> is_alnum c \<and> c \<noteq> CHR ''-''"

definition normalize :: "string \<Rightarrow> string" where
  "normalize s = join '' '' (Fields (ToLower (filter (\<lambda>c. \<not> dropped_char c) s)))"

subsection \<open>The table\<close>

text \<open>One row from the row above it, \<open>c\<close> being the value on the left of the rest.\<close>

fun edit_row :: "'a \<Rightarrow> 'a list \<Rightarrow> int list \<Rightarrow> int \<Rightarrow> int list" where
  "edit_row ca (cb # br) (p0 # p1 # prev) c =
    c # edit_row ca br (p1 # prev) (min (p1 + 1) (min (c + 1) (p0 + (if ca \<noteq> cb then 1 else 0))))"
| "edit_row ca br prev c = [c]"

fun edit_rows :: "'a list \<Rightarrow> 'a list \<Rightarrow> int \<Rightarrow> int list \<Rightarrow> int list" where
  "edit_rows [] br i prev = prev"
| "edit_rows (ca # ar) br i prev = edit_rows ar br (i + 1) (edit_row ca br prev (i + 1))"

definition edit_distance :: "'a list \<Rightarrow> 'a list \<Rightarrow> int" where
  "edit_distance ar br = edit_rows ar br 0 (map int [0..<length br + 1]) ! length br"

definition similarity :: "string \<Rightarrow> string \<Rightarrow> float64" where
  "similarity a b =
    (let a = normalize a; b = normalize b in
     if a = b then F64 1
     else if a = [] \<or> b = [] then F64 0
     else f64_sub (F64 1) (f64_div (f64_of_int (edit_distance a b)) (f64_of_int (max (int (length a)) (int (length b))))))"

subsection \<open>Alignments\<close>

text \<open>An alignment read from left to right, with the number of characters it inserts, deletes or replaces.\<close>

inductive align :: "'a list \<Rightarrow> 'a list \<Rightarrow> int \<Rightarrow> bool" where
  start: "align [] [] 0"
| delete: "align xs ys n \<Longrightarrow> align (xs @ [x]) ys (n + 1)"
| ins: "align xs ys n \<Longrightarrow> align xs (ys @ [y]) (n + 1)"
| keep: "align xs ys n \<Longrightarrow> align (xs @ [x]) (ys @ [x]) n"
| replace: "align xs ys n \<Longrightarrow> x \<noteq> y \<Longrightarrow> align (xs @ [x]) (ys @ [y]) (n + 1)"

text \<open>The recursion of the distance, on the reversed texts.\<close>

fun lev :: "'a list \<Rightarrow> 'a list \<Rightarrow> int" where
  "lev [] ys = int (length ys)"
| "lev xs [] = int (length xs)"
| "lev (x # xs) (y # ys) =
    min (lev xs (y # ys) + 1) (min (lev (x # xs) ys + 1) (lev xs ys + (if x \<noteq> y then 1 else 0)))"

lemma lev_Nil [simp]: "lev xs [] = int (length xs)"
  by (cases xs) simp_all

lemma lev_delete: "lev (x # xs) ys \<le> lev xs ys + 1"
  by (cases ys) auto

lemma lev_insert: "lev xs (y # ys) \<le> lev xs ys + 1"
  by (cases xs) auto

lemma lev_replace: "lev (x # xs) (y # ys) \<le> lev xs ys + (if x \<noteq> y then 1 else 0)"
  by simp

lemma lev_nonneg: "0 \<le> lev xs ys"
  by (induction xs ys rule: lev.induct) auto

lemma lev_sym: "lev xs ys = lev ys xs"
  by (induction xs ys rule: lev.induct) auto

lemma lev_self [simp]: "lev xs xs = 0"
proof (induction xs)
  case (Cons x xs)
  then have "lev (x # xs) (x # xs) \<le> 0" using lev_replace [of x xs x xs] by simp
  then show ?case using lev_nonneg [of "x # xs" "x # xs"] by linarith
qed simp

lemma lev_le_max: "lev xs ys \<le> max (int (length xs)) (int (length ys))"
  by (induction xs ys rule: lev.induct) auto

lemma lev_zero: "lev xs ys = 0 \<Longrightarrow> xs = ys"
proof (induction xs ys rule: lev.induct)
  case (3 x xs y ys)
  have "0 \<le> lev xs (y # ys)" "0 \<le> lev (x # xs) ys" "0 \<le> lev xs ys" by (rule lev_nonneg)+
  with 3 show ?case by (auto split: if_splits simp: min_def)
qed simp_all

text \<open>\<open>lev\<close> is the least cost of an alignment.\<close>

lemma align_lower: "align xs ys n \<Longrightarrow> lev (rev xs) (rev ys) \<le> n"
proof (induction rule: align.induct)
  case (delete xs ys n x)
  then show ?case using lev_delete [of x "rev xs" "rev ys"] by simp
next
  case (ins xs ys n y)
  then show ?case using lev_insert [of "rev xs" y "rev ys"] by simp
next
  case (keep xs ys n x)
  then show ?case using lev_replace [of x "rev xs" x "rev ys"] by simp
next
  case (replace xs ys n x y)
  then show ?case using lev_replace [of x "rev xs" y "rev ys"] by simp
qed simp

lemma align_inserts: "align [] ys (int (length ys))"
proof (induction ys rule: rev_induct)
  case (snoc y ys)
  from align.ins [OF this, of y] show ?case by (simp add: add.commute)
qed (simp add: align.start)

lemma align_deletes: "align xs [] (int (length xs))"
proof (induction xs rule: rev_induct)
  case (snoc x xs)
  from align.delete [OF this, of x] show ?case by (simp add: add.commute)
qed (simp add: align.start)

lemma align_lev: "align (rev xs) (rev ys) (lev xs ys)"
proof (induction xs ys rule: lev.induct)
  case (1 ys)
  then show ?case using align_inserts [of "rev ys"] by simp
next
  case (2 v va)
  then show ?case using align_deletes [of "rev (v # va)"] by simp
next
  case (3 x xs y ys)
  from align.delete [OF 3(1), of x] align.ins [OF 3(2), of y] align.keep [OF 3(3), of x] align.replace [OF 3(3), of x y]
  show ?case by (auto simp: min_def)
qed

subsection \<open>The table holds the distance\<close>

lemma edit_row_eq:
  assumes "b = pre @ br"
  shows "edit_row ca br (map (\<lambda>j. lev (rev a) (rev (take j b))) [length pre..<length b + 1]) (lev (rev (a @ [ca])) (rev pre)) =
    map (\<lambda>j. lev (rev (a @ [ca])) (rev (take j b))) [length pre..<length b + 1]"
  using assms
proof (induction br arbitrary: pre)
  case Nil
  then show ?case by simp
next
  case (Cons cb br)
  let ?f = "\<lambda>j. lev (rev a) (rev (take j b))"
  have up: "[length pre..<Suc (length b)] = length pre # [Suc (length pre)..<Suc (length b)]"
      "[Suc (length pre)..<Suc (length b)] = Suc (length pre) # [Suc (Suc (length pre))..<Suc (length b)]"
    using Cons.prems by (simp_all only: upt_conv_Cons) (simp_all add: upt_conv_Cons del: upt_Suc)
  have pre: "take (length pre) b = pre" "take (Suc (length pre)) b = pre @ [cb]" using Cons.prems by simp_all
  have ih: "edit_row ca br (map ?f [Suc (length pre)..<length b + 1]) (lev (rev (a @ [ca])) (rev (pre @ [cb]))) =
      map (\<lambda>j. lev (rev (a @ [ca])) (rev (take j b))) [Suc (length pre)..<length b + 1]"
    using Cons.IH [of "pre @ [cb]"] Cons.prems by simp
  show ?case
    using ih by (simp add: up pre del: upt_Suc)
qed

lemma edit_rows_eq:
  assumes "prev = map (\<lambda>j. lev (rev a) (rev (take j b))) [0..<length b + 1]"
  shows "edit_rows ar b (int (length a)) prev = map (\<lambda>j. lev (rev (a @ ar)) (rev (take j b))) [0..<length b + 1]"
  using assms
proof (induction ar arbitrary: a prev)
  case (Cons ca ar)
  have "edit_row ca b prev (int (length a) + 1) = map (\<lambda>j. lev (rev (a @ [ca])) (rev (take j b))) [0..<length b + 1]"
    using edit_row_eq [of b "[]" b ca a] Cons.prems by (simp del: upt_Suc add: add.commute)
  then show ?case using Cons.IH [of "edit_row ca b prev (int (length a) + 1)" "a @ [ca]"] by (simp add: add.commute)
qed simp

lemma edit_distance_lev: "edit_distance ar br = lev (rev ar) (rev br)"
proof -
  have "map int [0..<length br + 1] = map (\<lambda>j. lev (rev []) (rev (take j br))) [0..<length br + 1]"
    by (rule map_cong) auto
  from edit_rows_eq [OF this, of ar] show ?thesis by (simp add: edit_distance_def del: upt_Suc)
qed


text \<open>
  C38. The two-row table computes the edit distance: the result is the cost of some alignment of
  the two texts and no alignment is cheaper; it is zero exactly on equal texts, symmetric, and at
  most the length of the longer text.\<close>

theorem edit_distance_least:
  "align a b (edit_distance a b) \<and> (\<forall>n. align a b n \<longrightarrow> edit_distance a b \<le> n) \<and>
   (edit_distance a b = 0 \<longleftrightarrow> a = b) \<and> edit_distance a b = edit_distance b a \<and>
   0 \<le> edit_distance a b \<and> edit_distance a b \<le> max (int (length a)) (int (length b))"
  using align_lev [of "rev a" "rev b"] align_lower [of a b] lev_zero [of "rev a" "rev b"] lev_sym [of "rev a" "rev b"]
    lev_nonneg [of "rev a" "rev b"] lev_le_max [of "rev a" "rev b"]
  by (auto simp: edit_distance_lev)

text \<open>The hypothesis of the second part at one alignment: \<open>abc\<close> becomes \<open>adc\<close> by one replacement.\<close>

theorem edit_distance_least_witness: "edit_distance ''abc'' ''adc'' \<le> 1"
proof -
  have "align ([] @ ''a'') ([] @ ''a'') 0" by (intro align.keep align.start)
  then have "align (''a'' @ ''b'') (''a'' @ ''d'') (0 + 1)" by (intro align.replace) simp_all
  then have "align (''ab'' @ ''c'') (''ad'' @ ''c'') (0 + 1)" by (intro align.keep) simp_all
  then have "align ''abc'' ''adc'' 1" by simp
  with edit_distance_least [of "''abc''" "''adc''"] show ?thesis by blast
qed


subsection \<open>Similarity lies between zero and one\<close>

lemma split_where_length: "sum_list (map (\<lambda>w. length w + 1) (split_where P s)) = length s + 1"
  by (induction s) (auto split: list.splits)

lemma sum_list_filter_le: "sum_list (map f (filter P xs)) \<le> (sum_list (map f xs) :: nat)"
  by (induction xs) auto

lemma join_length: "ws \<noteq> [] \<Longrightarrow> length (join '' '' ws) + 1 = sum_list (map (\<lambda>w. length w + 1) ws)"
proof (induction ws)
  case (Cons w ws)
  then show ?case by (cases ws) (auto simp: join_def)
qed simp

lemma normalize_length: "length (normalize s) \<le> length s"
proof -
  let ?t = "ToLower (filter (\<lambda>c. \<not> dropped_char c) s)"
  have t: "length ?t \<le> length s" by simp
  have "length (join '' '' (Fields ?t)) \<le> length ?t"
  proof (cases "Fields ?t = []")
    case False
    have "length (join '' '' (Fields ?t)) + 1 \<le> sum_list (map (\<lambda>w. length w + 1) (split_where is_space ?t))"
      using join_length [OF False] unfolding Fields_def by (metis sum_list_filter_le)
    then show ?thesis unfolding split_where_length by linarith
  qed (simp add: join_def)
  with t show ?thesis unfolding normalize_def by linarith
qed

lemma distance_ratio:
  assumes "int (length a) \<le> 2 ^ 53" and "int (length b) \<le> 2 ^ 53" and "a \<noteq> []"
  shows "\<exists>x. f64_div (f64_of_int (edit_distance a b)) (f64_of_int (max (int (length a)) (int (length b)))) = F64 x \<and>
    0 \<le> x \<and> x \<le> 1"
proof -
  let ?d = "edit_distance a b" and ?m = "max (int (length a)) (int (length b))"
  have d: "0 \<le> ?d" "?d \<le> ?m" using lev_nonneg [of "rev a" "rev b"] lev_le_max [of "rev a" "rev b"]
    by (simp_all add: edit_distance_lev)
  have "0 < int (length a)" using assms(3) by simp
  then have m: "0 < ?m" "?m \<le> 2 ^ 53" using assms(1,2) by linarith+
  then have "f64_of_int ?d = F64 (of_int ?d)" "f64_of_int ?m = F64 (of_int ?m)" using d by (intro f64_round_int; linarith)+
  moreover have "0 \<le> of_int ?d / (of_int ?m :: rat)" "of_int ?d / (of_int ?m :: rat) \<le> 1"
    using d m(1) by (simp_all only: of_int_0_le_iff of_int_le_iff of_int_0_less_iff divide_nonneg_pos divide_le_eq_1_pos simp_thms)
  ultimately show ?thesis using m(1) f64_round_unit [of "of_int ?d / of_int ?m"] by (simp del: of_int_max)
qed

lemma similarity_unit:
  assumes "int (length a) \<le> 2 ^ 53" and "int (length b) \<le> 2 ^ 53"
  shows "\<exists>x. similarity a b = F64 x \<and> 0 \<le> x \<and> x \<le> 1"
proof (cases "normalize a = normalize b \<or> normalize a = [] \<or> normalize b = []")
  case False
  have "int (length (normalize a)) \<le> 2 ^ 53" "int (length (normalize b)) \<le> 2 ^ 53"
    using assms normalize_length [of a] normalize_length [of b] by linarith+
  with False obtain x where x: "f64_div (f64_of_int (edit_distance (normalize a) (normalize b)))
      (f64_of_int (max (int (length (normalize a))) (int (length (normalize b))))) = F64 x" "0 \<le> x" "x \<le> 1"
    using distance_ratio by blast
  then have "\<exists>r. f64_sub (F64 1) (F64 x) = F64 r \<and> 0 \<le> r \<and> r \<le> 1"
    using f64_round_unit [of "1 - x"] by (simp add: f64_sub_def)
  with False x(1) show ?thesis by (simp add: similarity_def Let_def)
qed (auto simp: similarity_def Let_def)

end
