(* ===== verification/Screening.thy ===== *)
theory Screening
  imports Edit_Distance Engine_State
begin

text \<open>
  Screening a customer against the loaded lists (\<^verbatim>\<open>engine/native/native.go\<close>: \<^verbatim>\<open>ScreenCustomer\<close>,
  \<^verbatim>\<open>ReplaceScreeningLists\<close>, \<^verbatim>\<open>SetScreeningFingerprintKey\<close>, \<^verbatim>\<open>validateScreeningList\<close> and the comparison
  of secondary identifiers). SHA-256, HMAC-SHA-256 and the JSON encoder are parameters. A cancelled
  context is seen at the start of the call.
\<close>

record crypto =
  cr_digest :: "string \<Rightarrow> string"
  cr_hmac :: "string \<Rightarrow> string \<Rightarrow> string"
  cr_marshal :: "any \<Rightarrow> string"

subsection \<open>Secondary identifiers\<close>

record screeningCustomerIdentifiers =
  ci_datesOfBirth :: "string list"
  ci_addresses :: "string list"
  ci_country :: string
  ci_entityType :: string

record secondaryComparison =
  cmp_statuses :: "(string \<times> string) list"
  cmp_adjustment :: float64
  cmp_dobValues :: "string list"
  cmp_addresses :: "string list"

definition firstNonEmpty :: "string list \<Rightarrow> string" where
  "firstNonEmpty vs = (case find (\<lambda>v. TrimSpace v \<noteq> []) vs of Some v \<Rightarrow> TrimSpace v | None \<Rightarrow> [])"

definition entryHasSecondaryIdentifiers :: "screeningEntry \<Rightarrow> bool" where
  "entryHasSecondaryIdentifiers entry \<longleftrightarrow> se_DatesOfBirth entry \<noteq> [] \<or> se_Addresses entry \<noteq> [] \<or>
     TrimSpace (se_Country entry) \<noteq> [] \<or> firstNonEmpty [se_EntityType entry, se_Type entry] \<noteq> []"

definition appendUniqueScreening :: "string list \<Rightarrow> string \<Rightarrow> string list" where
  "appendUniqueScreening vs addition =
    (let addition = TrimSpace addition in if addition = [] \<or> addition \<in> set vs then vs else vs @ [addition])"

fun appendIdentifierValue :: "(any \<Rightarrow> string) \<Rightarrow> string list \<Rightarrow> any \<Rightarrow> string list" where
  "appendIdentifierValue marshal vs (JString s) = (if TrimSpace s \<noteq> [] then appendUniqueScreening vs s else vs)"
| "appendIdentifierValue marshal vs (JArray items) = foldl (\<lambda>acc item. appendIdentifierValue marshal acc item) vs items"
| "appendIdentifierValue marshal vs (JObject m) =
    (let b = marshal (JObject m) in if b \<noteq> [] then appendUniqueScreening vs b else vs)"
| "appendIdentifierValue marshal vs JNull = vs"
| "appendIdentifierValue marshal vs v = appendUniqueScreening vs (Sprint v)"

definition customerAttributeValues :: "(any \<Rightarrow> string) \<Rightarrow> (string \<times> any) list \<Rightarrow> string list \<Rightarrow> string list" where
  "customerAttributeValues marshal attributes keys =
    foldl (\<lambda>vs key. case map_of attributes key of None \<Rightarrow> vs | Some v \<Rightarrow> appendIdentifierValue marshal vs v) [] keys"

definition firstStringValue :: "(string \<times> any) list \<Rightarrow> string list \<Rightarrow> string" where
  "firstStringValue attributes keys =
    (case find (\<lambda>key. TrimSpace (stringValue (map_of attributes key)) \<noteq> []) keys of
       Some key \<Rightarrow> stringValue (map_of attributes key)
     | None \<Rightarrow> [])"

definition screeningIdentifiersForCustomer :: "(any \<Rightarrow> string) \<Rightarrow> Customer \<Rightarrow> screeningCustomerIdentifiers" where
  "screeningIdentifiersForCustomer marshal c =
    \<lparr>ci_datesOfBirth = customerAttributeValues marshal (cu_Attributes c) [''date_of_birth'', ''dob'', ''birth_date''],
     ci_addresses = customerAttributeValues marshal (cu_Attributes c) [''address'', ''addresses'', ''address_pref''],
     ci_country = firstNonEmpty [cu_CountryCode c, firstStringValue (cu_Attributes c) [''country_code'', ''country'']],
     ci_entityType = firstNonEmpty [CustomerType_string (cu_CustomerType c),
       firstStringValue (cu_Attributes c) [''entity_type'', ''customer_type'']]\<rparr>"

definition normalizeIdentifier :: "string \<Rightarrow> string" where
  "normalizeIdentifier s = ToLower (filter is_alnum s)"

definition identifierTokens :: "string \<Rightarrow> string list" where
  "identifierTokens s =
     remdups (filter (\<lambda>t. t \<noteq> []) (split_where (\<lambda>c. \<not> (is_alnum c \<and> c = lower_char c)) (ToLower s)))"

definition addressTokenSimilarity :: "string \<Rightarrow> string \<Rightarrow> float64" where
  "addressTokenSimilarity left right =
    (let l = identifierTokens left; r = identifierTokens right in
     if l = [] \<or> r = [] then (if l = [] \<and> r = [] then F64 1 else F64 0)
     else f64_div (f64_of_int (2 * int (length (filter (\<lambda>t. t \<in> set r) l)))) (f64_of_int (int (length l) + int (length r))))"

definition compareIdentifierSet :: "string list \<Rightarrow> string list \<Rightarrow> float64 \<Rightarrow> float64 \<Rightarrow> string \<times> float64" where
  "compareIdentifierSet customer listed adjustment weight =
    (if customer = [] \<or> listed = [] then (''missing'', adjustment)
     else if list_ex (\<lambda>l. list_ex (\<lambda>r. normalizeIdentifier l = normalizeIdentifier r) listed) customer
     then (''match'', f64_add adjustment weight)
     else (''mismatch'', f64_sub adjustment weight))"

definition compareScalarIdentifier :: "string \<Rightarrow> string \<Rightarrow> float64 \<Rightarrow> float64 \<Rightarrow> string \<times> float64" where
  "compareScalarIdentifier customer listed adjustment weight =
    (if TrimSpace customer = [] \<or> TrimSpace listed = [] then (''missing'', adjustment)
     else if normalizeIdentifier customer = normalizeIdentifier listed then (''match'', f64_add adjustment weight)
     else (''mismatch'', f64_sub adjustment weight))"

definition compareAddressSet :: "string list \<Rightarrow> string list \<Rightarrow> float64 \<Rightarrow> string \<times> float64" where
  "compareAddressSet customer listed adjustment =
    (if customer = [] \<or> listed = [] then (''missing'', adjustment)
     else let best = foldl (\<lambda>best (l, r). maxFloat best (addressTokenSimilarity l r)) (F64 0) (List.product customer listed)
       in if f64_le (f64_round (8 / 10)) best then (''match'', f64_add adjustment (f64_round (5 / 100)))
          else if f64_lt best (F64 (1 / 2)) then (''mismatch'', f64_sub adjustment (f64_round (5 / 100)))
          else (''indeterminate'', adjustment))"

definition compareSecondaryIdentifiers :: "screeningCustomerIdentifiers \<Rightarrow> screeningEntry \<Rightarrow> secondaryComparison" where
  "compareSecondaryIdentifiers c entry =
    (let (dob, a) = compareIdentifierSet (ci_datesOfBirth c) (se_DatesOfBirth entry) (F64 0) (f64_round (10 / 100));
         (address, a) = compareAddressSet (ci_addresses c) (se_Addresses entry) a;
         (country, a) = compareScalarIdentifier (ci_country c) (se_Country entry) a (f64_round (3 / 100));
         (entity, a) = compareScalarIdentifier (ci_entityType c) (firstNonEmpty [se_EntityType entry, se_Type entry]) a
           (f64_round (2 / 100))
     in \<lparr>cmp_statuses = [(''date_of_birth'', dob), (''address'', address), (''country'', country), (''entity_type'', entity)],
         cmp_adjustment = a, cmp_dobValues = ci_datesOfBirth c, cmp_addresses = ci_addresses c\<rparr>)"

definition clampScreeningConfidence :: "float64 \<Rightarrow> float64" where
  "clampScreeningConfidence v = (if f64_lt v (F64 0) then F64 0 else if f64_lt (F64 1) v then F64 1 else v)"

definition screeningFingerprints :: "crypto \<Rightarrow> Engine \<Rightarrow> string list \<Rightarrow> any" where
  "screeningFingerprints k e vs = JArray (map (\<lambda>v. JObject [(''key_id'', JString (en_screeningHMACKeyID e)),
     (''hmac_sha256'', JString (cr_hmac k (en_screeningHMACKey e) (normalizeIdentifier v)))]) vs)"

definition overall_status :: "string list \<Rightarrow> string" where
  "overall_status statuses =
    (if ''mismatch'' \<in> set statuses then ''mismatch''
     else if ''indeterminate'' \<in> set statuses \<or> ''missing'' \<in> set statuses then ''indeterminate'' else ''match'')"

definition screeningMatchEvidence :: "crypto \<Rightarrow> Engine \<Rightarrow> secondaryComparison \<Rightarrow> screeningEntry \<Rightarrow> (string \<times> any) list" where
  "screeningMatchEvidence k e cmp entry =
    [(''status'', JString (overall_status (map snd (cmp_statuses cmp)))),
     (''policy_version'', JString ''screening-secondary-identifiers-v1''),
     (''policy_digest'', JString (cr_digest k ''screening-secondary-identifiers-v1|dob=.10|address=.05|country=.03|entity_type=.02|address_match=.80|address_mismatch=.50'')),
     (''algorithm_version'', JString ''normalized-token-similarity-v1''),
     (''list_snapshot_digest'', JString (en_screeningDigest e)),
     (''secondary_identifiers'', JObject (map (\<lambda>(n, s). (n, JString s)) (cmp_statuses cmp))),
     (''fingerprints'', JObject
       ((if cmp_dobValues cmp \<noteq> [] then [(''date_of_birth'', screeningFingerprints k e (cmp_dobValues cmp))] else []) @
        (if cmp_addresses cmp \<noteq> [] then [(''address'', screeningFingerprints k e (cmp_addresses cmp))] else []))),
     (''list_entry_identifier_count'', JNumber (f64_of_int (int (length (se_DatesOfBirth entry) + length (se_Addresses entry)))))]"

subsection \<open>Matches\<close>

record ScreenMatch =
  sm_ListID :: string
  sm_EntryID :: string
  sm_MatchedName :: string
  sm_Similarity :: float64
  sm_Confidence :: float64
  sm_ListType :: string
  sm_Source :: string
  sm_MatchEvidence :: "(string \<times> any) list option"

record ScreenResult =
  sr_CustomerID :: string
  sr_Hit :: bool
  sr_Matches :: "ScreenMatch list"
  sr_ListsChecked :: int
  sr_ScreenedAt :: time

definition better :: "string \<Rightarrow> float64 \<times> string \<Rightarrow> string \<Rightarrow> float64 \<times> string" where
  "better q best n = (let s = similarity q n in if f64_lt (fst best) s then (s, n) else best)"

definition best_name :: "string list \<Rightarrow> screeningEntry \<Rightarrow> float64 \<times> string" where
  "best_name queries entry = foldl (\<lambda>best q. foldl (better q) best (se_Names entry)) (F64 0, []) queries"

definition entry_match ::
  "crypto \<Rightarrow> Engine \<Rightarrow> screeningCustomerIdentifiers \<Rightarrow> screeningList \<Rightarrow> screeningEntry \<Rightarrow> float64 \<times> string \<Rightarrow> ScreenMatch" where
  "entry_match k e ids l entry best =
    (let m = \<lparr>sm_ListID = sl_ID l, sm_EntryID = se_ID entry, sm_MatchedName = snd best, sm_Similarity = fst best,
           sm_Confidence = F64 0, sm_ListType = sl_Type l, sm_Source = sl_Source l, sm_MatchEvidence = None\<rparr>
     in if entryHasSecondaryIdentifiers entry
        then let secondary = compareSecondaryIdentifiers ids entry in
          m\<lparr>sm_Confidence := clampScreeningConfidence (f64_add (fst best) (cmp_adjustment secondary)),
            sm_MatchEvidence := Some (screeningMatchEvidence k e secondary entry)\<rparr>
        else m)"

definition list_matches ::
  "crypto \<Rightarrow> Engine \<Rightarrow> screeningCustomerIdentifiers \<Rightarrow> string list \<Rightarrow> screeningList \<Rightarrow> ScreenMatch list" where
  "list_matches k e ids queries l =
     List.map_filter (\<lambda>entry. let best = best_name queries entry in
       if f64_le (en_screeningThreshold e) (fst best) then Some (entry_match k e ids l entry best) else None) (sl_Entries l)"

definition match_before :: "ScreenMatch \<Rightarrow> ScreenMatch \<Rightarrow> bool" where
  "match_before a b \<longleftrightarrow>
    (if \<not> f64_eq (sm_Confidence a) (sm_Confidence b) then f64_lt (sm_Confidence b) (sm_Confidence a)
     else if \<not> f64_eq (sm_Similarity a) (sm_Similarity b) then f64_lt (sm_Similarity b) (sm_Similarity a)
     else if sm_ListID a \<noteq> sm_ListID b then sm_ListID a < sm_ListID b
     else if sm_EntryID a \<noteq> sm_EntryID b then sm_EntryID a < sm_EntryID b
     else sm_MatchedName a < sm_MatchedName b)"

definition screening_queries :: "Customer \<Rightarrow> string list" where
  "screening_queries c =
    (let name = stringValue (map_of (cu_Attributes c) ''name''); name = (if name = [] then cu_ExternalID c else name);
         kana = stringValue (map_of (cu_Attributes c) ''name_kana'')
     in if kana \<noteq> [] then [name, kana] else [name])"

definition checked_lists :: "Engine \<Rightarrow> string list \<Rightarrow> screeningList list" where
  "checked_lists e listIDs = filter (\<lambda>l. listIDs = [] \<or> sl_ID l \<in> set listIDs) (en_lists e)"

definition ScreenCustomer ::
  "crypto \<Rightarrow> time \<Rightarrow> go_error option \<Rightarrow> Engine \<Rightarrow> Customer option \<Rightarrow> string list \<Rightarrow> ScreenResult result" where
  "ScreenCustomer k now ctx e customer listIDs =
    (case ctx of Some err \<Rightarrow> Inl err | None \<Rightarrow>
     case customer of None \<Rightarrow> Inl (ErrText ''customer is required'') | Some c \<Rightarrow>
     let lists = checked_lists e listIDs;
         ids = screeningIdentifiersForCustomer (cr_marshal k) c;
         matches = concat (map (list_matches k e ids (screening_queries c)) lists)
     in Inr \<lparr>sr_CustomerID = cu_ID c, sr_Hit = (matches \<noteq> []), sr_Matches = go_sort match_before matches,
          sr_ListsChecked = int (length lists), sr_ScreenedAt = now\<rparr>)"

subsection \<open>Lists\<close>

record RawListData =
  rl_ListID :: string
  rl_ListType :: string
  rl_Name :: string
  rl_Source :: string
  rl_Entries :: "screeningEntry list"

definition raw_list :: "RawListData \<Rightarrow> screeningList" where
  "raw_list item = \<lparr>sl_ID = rl_ListID item, sl_Type = rl_ListType item, sl_Name = rl_Name item, sl_Source = rl_Source item,
     sl_Entries = map (\<lambda>entry. entry\<lparr>se_EntityType := firstNonEmpty [se_EntityType entry, se_Type entry]\<rparr>) (rl_Entries item)\<rparr>"

definition ReplaceScreeningLists :: "(screeningList list \<Rightarrow> string) \<Rightarrow> Engine \<Rightarrow> RawListData list \<Rightarrow> Engine" where
  "ReplaceScreeningLists snapshot_digest e raw =
    (let lists = go_sort (\<lambda>a b. sl_ID a < sl_ID b) (map raw_list raw)
     in e\<lparr>en_lists := lists, en_screeningDigest := snapshot_digest lists\<rparr>)"

definition SetScreeningFingerprintKey :: "Engine \<Rightarrow> string \<Rightarrow> string \<Rightarrow> go_error option \<times> Engine" where
  "SetScreeningFingerprintKey e key keyID =
    (if length key < 32 \<or> TrimSpace keyID = []
     then (Some (ErrText ''screening fingerprint key and key ID are required''), e)
     else (None, e\<lparr>en_screeningHMACKey := key, en_screeningHMACKeyID := TrimSpace keyID\<rparr>))"

definition validateScreeningList :: "screeningList \<Rightarrow> go_error option" where
  "validateScreeningList l =
    (if sl_ID l = [] then Some (ErrField ''list_id'' ''list_id must not be empty'')
     else if sl_Entries l = [] then Some (ErrField ''entries'' ''entries must not be empty'')
     else map_option (\<lambda>(i, entry). ErrField (''entries['' @ int_string (int i) @ ''].names'')
          (''entry '' @ Quote (se_ID entry) @ '' must have at least one name''))
        (find (\<lambda>(_, entry). se_Names entry = []) (enumerate 0 (sl_Entries l))))"


subsection \<open>What screening finds\<close>

definition texts_fit :: "string list \<Rightarrow> bool" where
  "texts_fit ts \<longleftrightarrow> (\<forall>t \<in> set ts. int (length t) \<le> 2 ^ 53)"

definition pick :: "float64 \<times> string \<Rightarrow> float64 \<times> string \<Rightarrow> float64 \<times> string" where
  "pick best cand = (if f64_lt (fst best) (fst cand) then cand else best)"

definition candidates :: "string list \<Rightarrow> screeningEntry \<Rightarrow> (float64 \<times> string) list" where
  "candidates queries entry = map (\<lambda>(q, n). (similarity q n, n)) (List.product queries (se_Names entry))"

lemma foldl_better: "foldl (better q) best names = foldl pick best (map (\<lambda>n. (similarity q n, n)) names)"
  by (induction names arbitrary: best) (auto simp: better_def pick_def Let_def)

lemma best_name_candidates: "best_name queries entry = foldl pick (F64 0, []) (candidates queries entry)"
proof -
  have "foldl (\<lambda>best q. foldl (better q) best (se_Names entry)) best queries = foldl pick best (candidates queries entry)" for best
    by (induction queries arbitrary: best) (simp_all add: foldl_better candidates_def comp_def)
  then show ?thesis by (simp add: best_name_def)
qed

text \<open>Picking keeps a greatest element.\<close>

lemma pick_greatest:
  assumes "\<forall>c \<in> set cs. \<exists>x. fst c = F64 x"
  shows "\<exists>r n. foldl pick (F64 b, n0) cs = (F64 r, n) \<and> b \<le> r \<and> (\<forall>c \<in> set cs. f64_le (fst c) (F64 r)) \<and>
    ((F64 r, n) = (F64 b, n0) \<or> (F64 r, n) \<in> set cs)"
  using assms
proof (induction cs arbitrary: b n0)
  case (Cons c cs)
  obtain x m where c: "c = (F64 x, m)" using Cons.prems by (cases c) auto
  show ?case
  proof (cases "b < x")
    case True
    then have "pick (F64 b, n0) c = (F64 x, m)" by (simp add: pick_def c)
    moreover obtain r n where "foldl pick (F64 x, m) cs = (F64 r, n)" "x \<le> r" "\<forall>c \<in> set cs. f64_le (fst c) (F64 r)"
        "(F64 r, n) = (F64 x, m) \<or> (F64 r, n) \<in> set cs"
      using Cons.IH [of x m] Cons.prems by auto
    ultimately show ?thesis using True c by auto
  next
    case False
    then have "pick (F64 b, n0) c = (F64 b, n0)" by (simp add: pick_def c)
    moreover obtain r n where "foldl pick (F64 b, n0) cs = (F64 r, n)" "b \<le> r" "\<forall>c \<in> set cs. f64_le (fst c) (F64 r)"
        "(F64 r, n) = (F64 b, n0) \<or> (F64 r, n) \<in> set cs"
      using Cons.IH [of b n0] Cons.prems by auto
    ultimately show ?thesis using False c by auto
  qed
qed simp

lemma best_name_greatest:
  assumes "texts_fit queries" and "texts_fit (se_Names entry)" and "0 < t"
  shows "f64_le (F64 t) (fst (best_name queries entry)) \<longleftrightarrow>
      (\<exists>q \<in> set queries. \<exists>n \<in> set (se_Names entry). f64_le (F64 t) (similarity q n))" (is "?hit \<longleftrightarrow> ?some")
    and "\<forall>q \<in> set queries. \<forall>n \<in> set (se_Names entry). f64_le (similarity q n) (fst (best_name queries entry))"
    and "f64_le (F64 t) (fst (best_name queries entry)) \<Longrightarrow>
      \<exists>q \<in> set queries. snd (best_name queries entry) \<in> set (se_Names entry) \<and>
        fst (best_name queries entry) = similarity q (snd (best_name queries entry))"
proof -
  have unit: "\<forall>c \<in> set (candidates queries entry). \<exists>x. fst c = F64 x"
    using assms(1,2) similarity_unit by (fastforce simp: candidates_def texts_fit_def)
  obtain r n where r: "best_name queries entry = (F64 r, n)" "0 \<le> r"
      "\<forall>c \<in> set (candidates queries entry). f64_le (fst c) (F64 r)"
      "(F64 r, n) = (F64 0, []) \<or> (F64 r, n) \<in> set (candidates queries entry)"
    using pick_greatest [OF unit, of 0 "[]"] unfolding best_name_candidates by blast
  show all: "\<forall>q \<in> set queries. \<forall>n \<in> set (se_Names entry). f64_le (similarity q n) (fst (best_name queries entry))"
    using r(1,3) by (auto simp: candidates_def)
  show from_names: "\<exists>q \<in> set queries. snd (best_name queries entry) \<in> set (se_Names entry) \<and>
      fst (best_name queries entry) = similarity q (snd (best_name queries entry))"
    if "f64_le (F64 t) (fst (best_name queries entry))"
  proof -
    have "(F64 r, n) \<in> set (candidates queries entry)" using r(1,4) assms(3) that by auto
    then show ?thesis using r(1) by (auto simp: candidates_def)
  qed
  show "?hit \<longleftrightarrow> ?some"
  proof
    assume ?hit
    with from_names show ?some by metis
  next
    assume ?some
    with all show ?hit using f64_le_trans by blast
  qed
qed

lemma entry_match_simps [simp]:
  "sm_ListID (entry_match k e ids l entry best) = sl_ID l"
  "sm_EntryID (entry_match k e ids l entry best) = se_ID entry"
  "sm_MatchedName (entry_match k e ids l entry best) = snd best"
  "sm_Similarity (entry_match k e ids l entry best) = fst best"
  by (simp_all add: entry_match_def Let_def)

lemma list_matches_filter:
  "list_matches k e ids queries l = map (\<lambda>entry. entry_match k e ids l entry (best_name queries entry))
     (filter (\<lambda>entry. f64_le (en_screeningThreshold e) (fst (best_name queries entry))) (sl_Entries l))"
  unfolding list_matches_def Let_def by (induction "sl_Entries l") (simp_all add: List.map_filter_def)

text \<open>
  C6. Screening is complete: for a positive threshold a customer is a hit exactly when some name
  on a selected list is at least that similar to the customer's name or its reading, there is one
  match for every such entry, and a match reports the most similar name of its entry with the
  similarity of that name.\<close>

theorem screening_complete:
  assumes "ScreenCustomer k now None e (Some c) listIDs = Inr r" and "en_screeningThreshold e = F64 t" and "0 < t"
    and "texts_fit (screening_queries c)" and "\<forall>l \<in> set (en_lists e). \<forall>entry \<in> set (sl_Entries l). texts_fit (se_Names entry)"
  shows "(sr_Hit r \<longleftrightarrow> (\<exists>l \<in> set (checked_lists e listIDs). \<exists>entry \<in> set (sl_Entries l).
      \<exists>q \<in> set (screening_queries c). \<exists>n \<in> set (se_Names entry). f64_le (F64 t) (similarity q n))) \<and>
    mset (map (\<lambda>m. (sm_ListID m, sm_EntryID m)) (sr_Matches r)) =
      mset (concat (map (\<lambda>l. map (\<lambda>entry. (sl_ID l, se_ID entry)) (filter (\<lambda>entry.
        \<exists>q \<in> set (screening_queries c). \<exists>n \<in> set (se_Names entry). f64_le (F64 t) (similarity q n)) (sl_Entries l)))
        (checked_lists e listIDs))) \<and>
    (\<forall>m \<in> set (sr_Matches r). \<exists>l \<in> set (checked_lists e listIDs). \<exists>entry \<in> set (sl_Entries l).
      sm_ListID m = sl_ID l \<and> sm_EntryID m = se_ID entry \<and> sm_MatchedName m \<in> set (se_Names entry) \<and>
      (\<exists>q \<in> set (screening_queries c). sm_Similarity m = similarity q (sm_MatchedName m)) \<and>
      (\<forall>q \<in> set (screening_queries c). \<forall>n \<in> set (se_Names entry). f64_le (similarity q n) (sm_Similarity m)))"
proof -
  let ?qs = "screening_queries c" and ?ls = "checked_lists e listIDs"
  let ?ids = "screeningIdentifiersForCustomer (cr_marshal k) c"
  let ?hit = "\<lambda>entry. \<exists>q \<in> set ?qs. \<exists>n \<in> set (se_Names entry). f64_le (F64 t) (similarity q n)"
  have fit: "texts_fit (se_Names entry)" if "l \<in> set ?ls" "entry \<in> set (sl_Entries l)" for l entry
    using that assms(5) by (auto simp: checked_lists_def)
  note best = best_name_greatest [OF assms(4) fit assms(3)]
  have eq: "map (list_matches k e ?ids ?qs) ?ls =
      map (\<lambda>l. map (\<lambda>entry. entry_match k e ?ids l entry (best_name ?qs entry)) (filter ?hit (sl_Entries l))) ?ls"
    unfolding list_matches_filter assms(2) by (intro map_cong refl arg_cong [where f = "map _"] filter_cong) (rule best(1))
  have r: "sr_Hit r \<longleftrightarrow> concat (map (\<lambda>l. filter ?hit (sl_Entries l)) ?ls) \<noteq> []"
      "sr_Matches r = go_sort match_before
        (concat (map (\<lambda>l. map (\<lambda>entry. entry_match k e ?ids l entry (best_name ?qs entry)) (filter ?hit (sl_Entries l))) ?ls))"
    using assms(1) unfolding ScreenCustomer_def Let_def option.simps eq by auto
  have "sr_Hit r \<longleftrightarrow> (\<exists>l \<in> set ?ls. \<exists>entry \<in> set (sl_Entries l). ?hit entry)"
    unfolding r(1) by (simp add: filter_empty_conv)
  moreover have "mset (map (\<lambda>m. (sm_ListID m, sm_EntryID m)) (sr_Matches r)) =
      mset (concat (map (\<lambda>l. map (\<lambda>entry. (sl_ID l, se_ID entry)) (filter ?hit (sl_Entries l))) ?ls))"
    unfolding r(2) mset_map mset_go_sort unfolding mset_map [symmetric] map_concat map_map comp_def entry_match_simps by (rule refl)
  moreover have "\<exists>l \<in> set ?ls. \<exists>entry \<in> set (sl_Entries l). sm_ListID m = sl_ID l \<and> sm_EntryID m = se_ID entry \<and>
      sm_MatchedName m \<in> set (se_Names entry) \<and> (\<exists>q \<in> set ?qs. sm_Similarity m = similarity q (sm_MatchedName m)) \<and>
      (\<forall>q \<in> set ?qs. \<forall>n \<in> set (se_Names entry). f64_le (similarity q n) (sm_Similarity m))"
    if m: "m \<in> set (sr_Matches r)" for m
  proof -
    obtain l entry where le: "l \<in> set ?ls" "entry \<in> set (sl_Entries l)" "?hit entry"
        "m = entry_match k e ?ids l entry (best_name ?qs entry)"
      using m unfolding r(2) by auto
    have "f64_le (F64 t) (fst (best_name ?qs entry))" using best(1) [OF le(1,2)] le(3) by blast
    from best(3) [OF le(1,2) this] best(2) [OF le(1,2)] le show ?thesis
      by (intro bexI [of _ l] bexI [of _ entry]) simp_all
  qed
  ultimately show ?thesis by blast
qed


definition sample_screener :: Engine where
  "sample_screener = sample_engine\<lparr>en_screeningThreshold := F64 (1 / 2),
     en_lists := [\<lparr>sl_ID = ''l1'', sl_Type = ''sanctions'', sl_Name = ''L'', sl_Source = ''s'',
       sl_Entries = [\<lparr>se_ID = ''e1'', se_Names = [''EXT-1''], se_DatesOfBirth = [], se_Addresses = [], se_Country = [],
         se_EntityType = [], se_Type = []\<rparr>]\<rparr>]\<rparr>"

definition sample_crypto :: crypto where
  "sample_crypto = \<lparr>cr_digest = (\<lambda>s. s), cr_hmac = (\<lambda>key s. key @ s), cr_marshal = Sprint\<rparr>"

theorem screening_complete_witness:
  "\<exists>r. ScreenCustomer sample_crypto 7 None sample_screener (Some sample_customer) [] = Inr r \<and> sr_Hit r"
proof -
  obtain r where r: "ScreenCustomer sample_crypto 7 None sample_screener (Some sample_customer) [] = Inr r"
    by (simp add: ScreenCustomer_def Let_def)
  have qs: "screening_queries sample_customer = [''ext-1'']" by code_simp
  have ls: "checked_lists sample_screener [] = en_lists sample_screener" by (simp add: checked_lists_def)
  have "en_screeningThreshold sample_screener = F64 (1 / 2)" by (simp add: sample_screener_def)
  moreover have "texts_fit (screening_queries sample_customer)" by (simp add: qs texts_fit_def)
  moreover have "\<forall>l \<in> set (en_lists sample_screener). \<forall>entry \<in> set (sl_Entries l). texts_fit (se_Names entry)"
    by (simp add: sample_screener_def texts_fit_def)
  ultimately have "sr_Hit r \<longleftrightarrow> (\<exists>l \<in> set (checked_lists sample_screener []). \<exists>entry \<in> set (sl_Entries l).
      \<exists>q \<in> set (screening_queries sample_customer). \<exists>n \<in> set (se_Names entry). f64_le (F64 (1 / 2)) (similarity q n))"
    using conjunct1 [OF screening_complete [OF r]] by simp
  moreover have "similarity ''ext-1'' ''EXT-1'' = F64 1" by code_simp
  ultimately have "sr_Hit r" by (simp add: ls qs) (simp add: sample_screener_def)
  with r show ?thesis by blast
qed

end
