(* ===== verification/Monitoring.thy ===== *)
theory Monitoring
  imports Engine_State
begin

text \<open>
  Running the monitoring scenarios (\<^verbatim>\<open>engine/native/native.go\<close>: \<^verbatim>\<open>evaluate\<close>, its entry points,
  \<^verbatim>\<open>RealtimeHistoryWindow\<close>) and the provenance record of an alert
  (\<^verbatim>\<open>engine/native/provenance.go\<close>). The build version and the clock are parameters; one clock
  reading stands for the readings of one call. A cancelled context is seen at the start of the call.
\<close>

subsection \<open>Requests and provenance\<close>

datatype EvaluationMode = EvaluationModeRealtime | EvaluationModeBatch | EvaluationModeBoth | EvaluationModeOther string

record MonitoringRequest =
  mr_CustomerID :: string
  mr_CustomerType :: CustomerType
  mr_RiskTier :: RiskTier
  mr_Transactions :: "Transaction list"
  mr_ScenarioIDs :: "string list"
  mr_Mode :: EvaluationMode
  mr_EvaluatedAt :: time
  mr_WindowFrom :: "time option"
  mr_WindowTo :: "time option"
  mr_ConfigDigests :: "(string \<times> string) list"

record provenanceContext =
  pc_configDigests :: "(string \<times> string) list"
  pc_evaluatedAt :: "time option"
  pc_windowFrom :: "time option"
  pc_windowTo :: "time option"
  pc_captured :: bool

definition no_provenance :: provenanceContext where
  "no_provenance = \<lparr>pc_configDigests = [], pc_evaluatedAt = None, pc_windowFrom = None, pc_windowTo = None, pc_captured = False\<rparr>"

definition provenanceContextFrom :: "MonitoringRequest \<Rightarrow> provenanceContext" where
  "provenanceContextFrom req =
    \<lparr>pc_configDigests = mr_ConfigDigests req,
     pc_evaluatedAt = (if \<not> IsZero (mr_EvaluatedAt req) then Some (mr_EvaluatedAt req) else None),
     pc_windowFrom = mr_WindowFrom req, pc_windowTo = mr_WindowTo req, pc_captured = True\<rparr>"

definition digests :: "Engine \<Rightarrow> (string \<times> string) list" where
  "digests e =
    (if en_cddDigest e \<noteq> [] then [(''engine:cdd_weights'', en_cddDigest e)] else []) @
    (if en_tmDigest e \<noteq> [] then [(''engine:tm_scenarios'', en_tmDigest e)] else []) @
    (if en_screeningDigest e \<noteq> [] then [(''engine:screening_lists'', en_screeningDigest e)] else [])"

definition appliedThreshold :: "scenario \<Rightarrow> string \<Rightarrow> string \<Rightarrow> float64 option" where
  "appliedThreshold s customerType tier =
    (case (case map_of (sn_Thresholds s) customerType of Some byTier \<Rightarrow> Some byTier | None \<Rightarrow> map_of (sn_Thresholds s) []) of
       None \<Rightarrow> None
     | Some byTier \<Rightarrow> (case map_of byTier tier of Some v \<Rightarrow> Some v | None \<Rightarrow> map_of byTier []))"

definition forScenario ::
  "string \<Rightarrow> provenanceContext \<Rightarrow> scenario \<Rightarrow> string \<Rightarrow> string \<Rightarrow> string \<Rightarrow> (string \<times> string) list \<Rightarrow> AlertProvenance option" where
  "forScenario version p s customerType tier mode engineDigests =
    (if \<not> pc_captured p then None
     else Some \<lparr>pv_ScenarioID = sn_ID s,
       pv_ConfigDigests = foldl (\<lambda>m (name, digest). tbl_put name digest m) engineDigests (pc_configDigests p),
       pv_EngineVersion = version, pv_EvaluationMode = mode, pv_EvaluatedAt = pc_evaluatedAt p,
       pv_WindowFrom = pc_windowFrom p, pv_WindowTo = pc_windowTo p,
       pv_AppliedThreshold = appliedThreshold s customerType tier, pv_RuleName = [], pv_RuleVersion = None,
       pv_RuleDigest = [], pv_Availability = ProvenanceAvailable\<rparr>)"

subsection \<open>Evaluation\<close>

definition new_alert ::
  "string \<Rightarrow> time \<Rightarrow> Engine \<Rightarrow> string \<Rightarrow> string \<Rightarrow> string \<Rightarrow> string \<Rightarrow> provenanceContext \<Rightarrow> scenario \<Rightarrow> scenarioAlert \<Rightarrow> Alert" where
  "new_alert version now e cid customerType tier mode prov s a =
    \<lparr>al_ID = [], al_CustomerID = cid, al_ScenarioID = sn_ID s, al_Severity = sa_severity a, al_Status = AlertStatusOpen,
     al_Score = sa_score a, al_Description = sa_description a, al_TransactionIDs = sa_ids a, al_DetectedAt = now,
     al_ResolvedAt = None, al_ResolvedBy = [], al_Suppressed = False, al_SuppressionReason = [],
     al_AggregationWindowStart = None, al_BatchRunID = [], al_BatchReviewedAt = None, al_AssignedTo = [],
     al_AssignedTeam = [], al_DueAt = None, al_Disposition = [], al_DispositionRationale = [],
     al_Provenance = forScenario version prov s customerType tier mode (digests e), al_CreatedAt = now, al_UpdatedAt = now\<rparr>"

fun run_scenarios ::
  "(scenario \<Rightarrow> scenarioAlert \<Rightarrow> Alert) \<Rightarrow> string \<Rightarrow> string \<Rightarrow> Transaction list \<Rightarrow> string list \<Rightarrow> string \<Rightarrow> scenario list \<Rightarrow>
     Alert list \<Rightarrow> Alert list result" where
  "run_scenarios mk customerType tier txns ids mode [] out = Inr out"
| "run_scenarios mk customerType tier txns ids mode (s # ss) out =
    (if \<not> scenarioSelected s ids \<or> \<not> runsUnder (sn_Mode s) mode
     then run_scenarios mk customerType tier txns ids mode ss out
     else case evaluateScenario None s customerType tier txns of
       Inl e \<Rightarrow> Inl e
     | Inr alerts \<Rightarrow> run_scenarios mk customerType tier txns ids mode ss (out @ map (mk s) alerts))"

definition evaluate ::
  "string \<Rightarrow> time \<Rightarrow> go_error option \<Rightarrow> Engine \<Rightarrow> string \<Rightarrow> string \<Rightarrow> RiskTier \<Rightarrow> Transaction list \<Rightarrow> string list \<Rightarrow> string \<Rightarrow>
     provenanceContext \<Rightarrow> Alert list result" where
  "evaluate version now ctx e cid customerType tier txns ids mode prov =
    (case ctx of Some err \<Rightarrow> Inl err | None \<Rightarrow>
     let customerTxns = customerTransactions cid txns in
     if customerTxns = [] then Inr []
     else run_scenarios (new_alert version now e cid customerType (RiskTier_string tier) mode prov)
       customerType (RiskTier_string tier) customerTxns ids mode (en_scenarios e) [])"

definition EvaluateTransactions where
  "EvaluateTransactions version now ctx e cid tier txns ids =
     evaluate version now ctx e cid ''unspecified'' tier txns ids ''realtime'' no_provenance"

definition EvaluateTransactionsBatch where
  "EvaluateTransactionsBatch version now ctx e cid tier txns ids =
     evaluate version now ctx e cid ''unspecified'' tier txns ids ''batch'' no_provenance"

definition type_or_unspecified :: "CustomerType \<Rightarrow> string" where
  "type_or_unspecified t = (if CustomerType_string t = [] then ''unspecified'' else CustomerType_string t)"

definition request_mode :: "EvaluationMode \<Rightarrow> string" where
  "request_mode m = (if m = EvaluationModeBatch then ''batch'' else ''realtime'')"

definition Evaluate :: "string \<Rightarrow> time \<Rightarrow> go_error option \<Rightarrow> Engine \<Rightarrow> MonitoringRequest \<Rightarrow> Alert list result" where
  "Evaluate version now ctx e req =
     evaluate version now ctx e (mr_CustomerID req) (type_or_unspecified (mr_CustomerType req)) (mr_RiskTier req)
       (mr_Transactions req) (mr_ScenarioIDs req) (request_mode (mr_Mode req)) (provenanceContextFrom req)"

subsection \<open>The history a realtime evaluation needs\<close>

definition window_fallback :: "string \<Rightarrow> duration option" where
  "window_fallback detector =
    (if detector = detectorStructuring then Some (24 * Hour) else if detector = detectorRapid then Some (48 * Hour)
     else if detector = detectorHFSA then Some Hour else None)"

definition longest_window :: "scenario \<Rightarrow> duration \<Rightarrow> duration \<Rightarrow> duration" where
  "longest_window s fallback longest =
    foldl (\<lambda>longest tier. let w = int64 (windowSeconds s tier fallback * Second) in if w > longest then w else longest)
      longest tier_keys"

definition detector_of :: "scenario \<Rightarrow> string" where
  "detector_of s =
    (if sn_Detector s = [] then (case legacyDetectorForID (sn_ID s) of Some d \<Rightarrow> d | None \<Rightarrow> []) else sn_Detector s)"

fun history_window :: "scenario list \<Rightarrow> duration \<Rightarrow> duration \<times> bool" where
  "history_window [] longest = (longest, True)"
| "history_window (s # ss) longest =
    (if \<not> runsUnder (sn_Mode s) ''realtime'' then history_window ss longest
     else case window_fallback (detector_of s) of
       Some fallback \<Rightarrow> history_window ss (longest_window s fallback longest)
     | None \<Rightarrow> if detector_of s = detectorDormant then (0, False) else history_window ss longest)"

definition RealtimeHistoryWindow :: "Engine \<Rightarrow> duration \<times> bool" where
  "RealtimeHistoryWindow e = history_window (en_scenarios e) 0"


subsection \<open>What an alert records\<close>

lemma run_scenarios_origin:
  assumes "run_scenarios mk customerType tier txns ids mode ss out = Inr alerts" and "a \<in> set alerts"
  shows "a \<in> set out \<or> (\<exists>s \<in> set ss. \<exists>found. evaluateScenario None s customerType tier txns = Inr found \<and>
    scenarioSelected s ids \<and> runsUnder (sn_Mode s) mode \<and> a \<in> mk s ` set found)"
  using assms(1)
proof (induction mk customerType tier txns ids mode ss out rule: run_scenarios.induct)
  case (1 mk customerType tier txns ids mode out)
  then show ?case using assms(2) by simp
next
  case (2 mk customerType tier txns ids mode s ss out)
  show ?case
  proof (cases "\<not> scenarioSelected s ids \<or> \<not> runsUnder (sn_Mode s) mode")
    case True
    then have "run_scenarios mk customerType tier txns ids mode ss out = Inr alerts" using 2(3) by auto
    from 2(1) [OF True this] show ?thesis by auto
  next
    case False
    then obtain found where f: "evaluateScenario None s customerType tier txns = Inr found"
        "run_scenarios mk customerType tier txns ids mode ss (out @ map (mk s) found) = Inr alerts"
      using 2(3) by (auto split: sum.splits)
    from 2(2) [OF False f] show ?thesis using False f(1) by auto
  qed
qed

text \<open>Alerts leave the engine open and without an aggregation window.\<close>

lemma evaluated_alert_unwindowed:
  assumes "EvaluateTransactions version now ctx e cid tier txns ids = Inr alerts" and "a \<in> set alerts"
  shows "al_AggregationWindowStart a = None \<and> evidence_ok a"
proof -
  have "run_scenarios (new_alert version now e cid ''unspecified'' (RiskTier_string tier) ''realtime'' no_provenance) ''unspecified''
      (RiskTier_string tier) (customerTransactions cid txns) ids ''realtime'' (en_scenarios e) [] = Inr alerts"
    using assms by (auto simp: EvaluateTransactions_def evaluate_def Let_def split: option.splits if_splits)
  from run_scenarios_origin [OF this assms(2)] show ?thesis by (auto simp: new_alert_def evidence_ok_def)
qed

lemma merged_digests:
  assumes "distinct (map fst new)"
  shows "map_of (foldl (\<lambda>m (name, digest). tbl_put name digest m) old new) n =
    (case map_of new n of Some d \<Rightarrow> Some d | None \<Rightarrow> map_of old n)"
  using assms
proof (induction new arbitrary: old)
  case (Cons p new)
  obtain name digest where p: "p = (name, digest)" by (cases p)
  have "map_of new name = None" using Cons.prems by (simp add: p map_of_eq_None_iff)
  with Cons show ?case by (simp add: p tbl_simps split: option.split)
qed simp

lemma canonical_tier_unmatched:
  assumes "tier \<in> {RiskTierLow, RiskTierMedium, RiskTierHigh}"
    and "\<forall>(_, byTier) \<in> set (sn_Thresholds s). fst ` set byTier \<subseteq> set tier_keys"
  shows "appliedThreshold s customerType (RiskTier_string tier) = None"
proof -
  have none: "map_of byTier k = None" if "(ct, byTier) \<in> set (sn_Thresholds s)" "k \<in> {''low'', ''medium'', ''high'', []}" for ct byTier k
    using that assms(2) by (fastforce simp: map_of_eq_None_iff tier_keys_def)
  have tier: "RiskTier_string tier \<in> {''low'', ''medium'', ''high'', []}" using assms(1) by auto
  have table: "map_of byTier (RiskTier_string tier) = None \<and> map_of byTier [] = None" if "map_of (sn_Thresholds s) ct = Some byTier" for ct byTier
    using none [OF map_of_SomeD [OF that] tier] none [OF map_of_SomeD [OF that]] by simp
  show ?thesis
    unfolding appliedThreshold_def by (cases "map_of (sn_Thresholds s) customerType"; cases "map_of (sn_Thresholds s) []") (simp_all add: table)
qed

text \<open>
  Every alert of an evaluation request comes from the detector of a scenario of the engine that the
  request selects and that runs under the request's mode, and pins what was in force: that scenario,
  the mode and window of the request, and the configuration digests, those of the request taking
  precedence over the engine's own.\<close>

lemma evaluation_origin:
  assumes "Evaluate version now None e req = Inr alerts" and "a \<in> set alerts" and "distinct (map fst (mr_ConfigDigests req))"
  shows "\<exists>p found. \<exists>s \<in> set (en_scenarios e). \<exists>x \<in> set found. al_Provenance a = Some p \<and> al_CustomerID a = mr_CustomerID req \<and>
    scenarioSelected s (mr_ScenarioIDs req) \<and> runsUnder (sn_Mode s) (request_mode (mr_Mode req)) \<and>
    evaluateScenario None s (type_or_unspecified (mr_CustomerType req)) (RiskTier_string (mr_RiskTier req))
      (customerTransactions (mr_CustomerID req) (mr_Transactions req)) = Inr found \<and>
    al_ScenarioID a = sn_ID s \<and> pv_ScenarioID p = sn_ID s \<and> al_TransactionIDs a = sa_ids x \<and>
    pv_EvaluationMode p = request_mode (mr_Mode req) \<and> pv_WindowFrom p = mr_WindowFrom req \<and> pv_WindowTo p = mr_WindowTo req \<and>
    (\<forall>n. map_of (pv_ConfigDigests p) n =
       (case map_of (mr_ConfigDigests req) n of Some d \<Rightarrow> Some d | None \<Rightarrow> map_of (digests e) n))"
proof -
  let ?ct = "type_or_unspecified (mr_CustomerType req)" and ?mode = "request_mode (mr_Mode req)"
  let ?tier = "RiskTier_string (mr_RiskTier req)" and ?prov = "provenanceContextFrom req"
  have "run_scenarios (new_alert version now e (mr_CustomerID req) ?ct ?tier ?mode ?prov) ?ct ?tier
      (customerTransactions (mr_CustomerID req) (mr_Transactions req)) (mr_ScenarioIDs req) ?mode (en_scenarios e) [] = Inr alerts"
    using assms(1,2) by (auto simp: Evaluate_def evaluate_def Let_def split: if_splits)
  from run_scenarios_origin [OF this assms(2)] obtain s found x where s: "s \<in> set (en_scenarios e)" "x \<in> set found"
      "scenarioSelected s (mr_ScenarioIDs req)" "runsUnder (sn_Mode s) ?mode"
      "evaluateScenario None s ?ct ?tier (customerTransactions (mr_CustomerID req) (mr_Transactions req)) = Inr found"
      "a = new_alert version now e (mr_CustomerID req) ?ct ?tier ?mode ?prov s x"
    by auto
  then show ?thesis
    by (intro exI [of _ "the (forScenario version ?prov s ?ct ?tier ?mode (digests e))"] exI [of _ found] bexI [OF _ s(1)] bexI [OF _ s(2)])
      (simp add: new_alert_def forScenario_def provenanceContextFrom_def merged_digests [OF assms(3)])
qed

text \<open>
  The threshold that decided the detection is documented as part of the record and is missing from
  it: the thresholds of a loaded scenario are stored under upper-case tier names
  (\<open>normalizeRiskTierMap_ok\<close>), \<^verbatim>\<open>appliedThreshold\<close> looks them up under the lower-case names of the risk
  tiers (\<open>canonical_tier_unmatched\<close>), and the field stays empty where the detector used a threshold of
  the tier.\<close>

definition sample_monitor :: Engine where
  "sample_monitor = sample_engine\<lparr>en_scenarios :=
     [sample_scenario\<lparr>sn_Thresholds := [(''individual'', [(''LOW'', F64 900000)])]\<rparr>]\<rparr>"

definition sample_request :: MonitoringRequest where
  "sample_request = \<lparr>mr_CustomerID = ''c1'', mr_CustomerType = CustomerTypeIndividual, mr_RiskTier = RiskTierLow,
     mr_Transactions = sample_history, mr_ScenarioIDs = [], mr_Mode = EvaluationModeBatch, mr_EvaluatedAt = 9,
     mr_WindowFrom = None, mr_WindowTo = None, mr_ConfigDigests = [(''engine:tm_scenarios'', ''pinned'')]\<rparr>"

lemma applied_threshold_missing:
  "paramFor (hd (en_scenarios sample_monitor)) ''threshold_amount'' ''individual'' ''low'' (F64 0) = F64 900000"
  "map_sum (\<lambda>_. ()) (map (map_option pv_AppliedThreshold \<circ> al_Provenance)) (Evaluate ''v1'' 7 None sample_monitor sample_request) =
     Inr [Some None]"
  by code_simp+


subsection \<open>The realtime window covers every detector window\<close>

lemma upper_char_idem [simp]: "upper_char (upper_char c) = upper_char c"
  by (simp add: upper_char_def split: option.splits)

lemma ToUpper_idem [simp]: "ToUpper (ToUpper s) = ToUpper s"
  by (simp add: ToUpper_def)

lemma param_upper: "param s name (ToUpper tier) fallback = param s name tier fallback"
  by (simp add: param_def paramFor_def)

lemma windowSeconds_upper: "windowSeconds s (ToUpper tier) fallback = windowSeconds s tier fallback"
  by (simp only: windowSeconds_def intParam_def param_upper)

lemma foldl_max_ge:
  fixes longest :: int
  shows "longest \<le> foldl (\<lambda>longest t. let w = f t in if w > longest then w else longest) longest ts \<and>
    (\<forall>t \<in> set ts. f t \<le> foldl (\<lambda>longest t. let w = f t in if w > longest then w else longest) longest ts)"
proof (induction ts arbitrary: longest)
  case (Cons t ts)
  from Cons [of "if f t > longest then f t else longest"] show ?case by (auto simp: Let_def)
qed simp

lemma longest_window_ge:
  "longest \<le> longest_window s fallback longest"
  "t \<in> set tier_keys \<Longrightarrow> int64 (windowSeconds s t fallback * Second) \<le> longest_window s fallback longest"
  using foldl_max_ge [of longest "\<lambda>t. int64 (windowSeconds s t fallback * Second)" tier_keys] unfolding longest_window_def by blast+

text \<open>
  The detector the evaluator dispatches a scenario to and the window that detector is run with, read
  off the evaluators' own parameters.\<close>

definition evaluated_detector :: "scenario \<Rightarrow> string option" where
  "evaluated_detector s =
    (let detector = ToLower (TrimSpace (sn_Detector s))
     in if detector = [] then legacyDetectorForID (sn_ID s) else Some detector)"

definition evaluated_window :: "scenario \<Rightarrow> string \<Rightarrow> string \<Rightarrow> int option" where
  "evaluated_window s customerType tier =
    (case evaluated_detector s of
       None \<Rightarrow> None
     | Some detector \<Rightarrow>
         let s = s\<lparr>sn_Detector := detector\<rparr> in
         if detector = detectorStructuring then Some (sp_window (structuring_of s customerType tier))
         else if detector = detectorRapid then Some (rp_window (rapid_of s customerType tier))
         else if detector = detectorHFSA then Some (hp_window (hfsa_of s customerType tier))
         else None)"

definition loaded_detector :: "scenario \<Rightarrow> bool" where
  "loaded_detector s \<longleftrightarrow> sn_Detector s = [] \<or> sn_Detector s \<in> set supportedDetectors"

lemma windowSeconds_detector [simp]: "windowSeconds (s\<lparr>sn_Detector := d\<rparr>) tier fallback = windowSeconds s tier fallback"
  by (simp add: windowSeconds_def intParam_def param_def paramFor_def threshold_for_def Let_def cong: if_cong option.case_cong)

lemma supported_normal: "d \<in> set supportedDetectors \<Longrightarrow> ToLower (TrimSpace d) = d \<and> d \<noteq> []"
proof -
  have "\<forall>d \<in> set supportedDetectors. ToLower (TrimSpace d) = d \<and> d \<noteq> []" by code_simp
  then show "d \<in> set supportedDetectors \<Longrightarrow> ToLower (TrimSpace d) = d \<and> d \<noteq> []" by blast
qed

lemma detector_of_evaluated:
  assumes "loaded_detector s"
  shows "detector_of s = (case evaluated_detector s of Some d \<Rightarrow> d | None \<Rightarrow> [])"
proof (cases "sn_Detector s = []")
  case True
  have "ToLower (TrimSpace []) = []" by code_simp
  with True show ?thesis by (simp add: detector_of_def evaluated_detector_def)
next
  case False
  with assms supported_normal [of "sn_Detector s"] show ?thesis
    by (simp add: detector_of_def evaluated_detector_def loaded_detector_def)
qed

lemma detectors_distinct:
  "distinct [[], detectorStructuring, detectorRapid, detectorHFSA, detectorDormant]"
  by code_simp

lemma evaluated_window_fallback:
  assumes "loaded_detector s"
  shows "evaluated_window s customerType tier = map_option (windowSeconds s tier) (window_fallback (detector_of s))"
  using detectors_distinct
  by (auto simp: detector_of_evaluated [OF assms] evaluated_window_def window_fallback_def structuring_of_def rapid_of_def hfsa_of_def
      Let_def split: option.split)

lemma evaluated_dormant:
  assumes "loaded_detector s"
  shows "evaluated_detector s = Some detectorDormant \<longleftrightarrow> detector_of s = detectorDormant"
  using detectors_distinct by (auto simp: detector_of_evaluated [OF assms] split: option.split)

lemma history_window_bounded:
  "snd (history_window ss longest) \<longleftrightarrow>
    (\<forall>s \<in> set ss. runsUnder (sn_Mode s) ''realtime'' \<longrightarrow> detector_of s \<noteq> detectorDormant)"
proof (induction ss longest rule: history_window.induct)
  case (2 s ss longest)
  have "window_fallback detectorDormant = None" using detectors_distinct by (auto simp: window_fallback_def)
  with 2 show ?case by (auto split: option.split)
qed simp

lemma history_window_covers:
  assumes "history_window ss longest = (d, True)"
  shows "longest \<le> d \<and> (\<forall>s \<in> set ss. \<forall>fallback. \<forall>t \<in> set tier_keys. runsUnder (sn_Mode s) ''realtime'' \<longrightarrow>
    window_fallback (detector_of s) = Some fallback \<longrightarrow> int64 (windowSeconds s t fallback * Second) \<le> d)"
  using assms
proof (induction ss longest rule: history_window.induct)
  case (2 s ss longest)
  show ?case
  proof (cases "runsUnder (sn_Mode s) ''realtime''")
    case False
    with 2 show ?thesis by simp
  next
    case True
    show ?thesis
    proof (cases "window_fallback (detector_of s)")
      case None
      with True 2 show ?thesis by (simp split: if_split_asm)
    next
      case (Some fallback)
      then have rest: "history_window ss (longest_window s fallback longest) = (d, True)" using True 2(4) by simp
      have ih: "longest_window s fallback longest \<le> d \<and> (\<forall>s \<in> set ss. \<forall>fallback. \<forall>t \<in> set tier_keys.
          runsUnder (sn_Mode s) ''realtime'' \<longrightarrow> window_fallback (detector_of s) = Some fallback \<longrightarrow>
          int64 (windowSeconds s t fallback * Second) \<le> d)"
        using 2(3) [OF _ Some rest] True by blast
      have "longest \<le> d" using ih longest_window_ge(1) [of longest s fallback] by linarith
      moreover have "int64 (windowSeconds s t fallback * Second) \<le> d" if "t \<in> set tier_keys" for t
        using ih longest_window_ge(2) [OF that, of s fallback longest] by linarith
      ultimately show ?thesis using ih Some by auto
    qed
  qed
qed simp

lemma foldl_max_attained:
  fixes longest :: int
  shows "foldl (\<lambda>longest t. let w = f t in if w > longest then w else longest) longest ts \<in> insert longest (f ` set ts)"
proof (induction ts arbitrary: longest)
  case (Cons t ts)
  from Cons [of "if f t > longest then f t else longest"] show ?case by (auto simp: Let_def split: if_splits)
qed simp

lemma history_window_attained:
  assumes "history_window ss longest = (d, True)"
  shows "d = longest \<or> (\<exists>s \<in> set ss. \<exists>fallback. \<exists>t \<in> set tier_keys. runsUnder (sn_Mode s) ''realtime'' \<and>
    window_fallback (detector_of s) = Some fallback \<and> d = int64 (windowSeconds s t fallback * Second))"
  using assms
proof (induction ss longest rule: history_window.induct)
  case (2 s ss longest)
  show ?case
  proof (cases "runsUnder (sn_Mode s) ''realtime''")
    case False
    with 2 show ?thesis by auto
  next
    case True
    show ?thesis
    proof (cases "window_fallback (detector_of s)")
      case None
      with True 2 show ?thesis by (auto split: if_split_asm)
    next
      case (Some fallback)
      then have rest: "history_window ss (longest_window s fallback longest) = (d, True)" using True 2(4) by simp
      have "longest_window s fallback longest \<in> insert longest ((\<lambda>t. int64 (windowSeconds s t fallback * Second)) ` set tier_keys)"
        unfolding longest_window_def by (rule foldl_max_attained)
      with 2(3) [OF _ Some rest] True Some show ?thesis by auto
    qed
  qed
qed simp

lemma tier_key_of: "tier \<in> {RiskTierLow, RiskTierMedium, RiskTierHigh} \<Longrightarrow> ToUpper (RiskTier_string tier) \<in> set tier_keys"
  by (auto simp: tier_keys_def ToUpper_def upper_char_def)

lemma tier_key_from:
  assumes "t \<in> set tier_keys"
  obtains tier where "tier \<in> {RiskTierLow, RiskTierMedium, RiskTierHigh}" "ToUpper (RiskTier_string tier) = t"
proof -
  have "t \<in> (\<lambda>tier. ToUpper (RiskTier_string tier)) ` {RiskTierLow, RiskTierMedium, RiskTierHigh}"
    using assms by (auto simp: tier_keys_def ToUpper_def upper_char_def)
  then show thesis using that by blast
qed

text \<open>
  C40. The history window handed to the realtime path is exactly the one the evaluators need. It is
  reported as bounded exactly when no realtime scenario is dispatched to the dormancy detector, which
  needs the transaction before the gap whatever its age. A bounded window is at least the window each
  realtime scenario's own detector runs with at each risk tier, wherever that window in nanoseconds
  fits 64 bits, and is either zero or the window of one of them. The scenarios' detectors are empty or
  supported ones, as loading leaves them.\<close>

theorem realtime_window_covers:
  assumes "\<forall>s \<in> set (en_scenarios e). loaded_detector s"
  shows "(snd (RealtimeHistoryWindow e) \<longleftrightarrow>
      (\<forall>s \<in> set (en_scenarios e). runsUnder (sn_Mode s) ''realtime'' \<longrightarrow> evaluated_detector s \<noteq> Some detectorDormant)) \<and>
    (\<forall>d. RealtimeHistoryWindow e = (d, True) \<longrightarrow>
      (\<forall>s \<in> set (en_scenarios e). \<forall>customerType w. \<forall>tier \<in> {RiskTierLow, RiskTierMedium, RiskTierHigh}.
        runsUnder (sn_Mode s) ''realtime'' \<and> evaluated_window s customerType (RiskTier_string tier) = Some w \<and>
        \<bar>w * Second\<bar> < 2 ^ 63 \<longrightarrow> w * Second \<le> d) \<and>
      (d = 0 \<or> (\<exists>s \<in> set (en_scenarios e). \<exists>customerType w. \<exists>tier \<in> {RiskTierLow, RiskTierMedium, RiskTierHigh}.
        runsUnder (sn_Mode s) ''realtime'' \<and> evaluated_window s customerType (RiskTier_string tier) = Some w \<and>
        d = int64 (w * Second))))"
proof (intro conjI allI impI ballI)
  show "snd (RealtimeHistoryWindow e) \<longleftrightarrow>
      (\<forall>s \<in> set (en_scenarios e). runsUnder (sn_Mode s) ''realtime'' \<longrightarrow> evaluated_detector s \<noteq> Some detectorDormant)"
    using assms by (auto simp: RealtimeHistoryWindow_def history_window_bounded evaluated_dormant)
next
  fix d s customerType w tier
  assume bounded: "RealtimeHistoryWindow e = (d, True)" and s: "s \<in> set (en_scenarios e)"
    and tier: "tier \<in> {RiskTierLow, RiskTierMedium, RiskTierHigh}"
    and w: "runsUnder (sn_Mode s) ''realtime'' \<and> evaluated_window s customerType (RiskTier_string tier) = Some w \<and> \<bar>w * Second\<bar> < 2 ^ 63"
  obtain fallback where f: "window_fallback (detector_of s) = Some fallback" "w = windowSeconds s (ToUpper (RiskTier_string tier)) fallback"
    using w assms s by (auto simp: evaluated_window_fallback windowSeconds_upper)
  have "int64 (w * Second) \<le> d"
    using history_window_covers s w tier_key_of [OF tier] f bounded unfolding RealtimeHistoryWindow_def by blast
  moreover have "int64 (w * Second) = w * Second" using w by (intro int64_id) linarith+
  ultimately show "w * Second \<le> d" by simp
next
  fix d
  assume bounded: "RealtimeHistoryWindow e = (d, True)"
  show "d = 0 \<or> (\<exists>s \<in> set (en_scenarios e). \<exists>customerType w. \<exists>tier \<in> {RiskTierLow, RiskTierMedium, RiskTierHigh}.
      runsUnder (sn_Mode s) ''realtime'' \<and> evaluated_window s customerType (RiskTier_string tier) = Some w \<and> d = int64 (w * Second))"
  proof (cases "d = 0")
    case False
    then obtain s fallback t where s: "s \<in> set (en_scenarios e)" "runsUnder (sn_Mode s) ''realtime''" "t \<in> set tier_keys"
        "window_fallback (detector_of s) = Some fallback" "d = int64 (windowSeconds s t fallback * Second)"
      using history_window_attained [of "en_scenarios e" 0 d] bounded unfolding RealtimeHistoryWindow_def by blast
    from s(3) obtain tier where tier: "tier \<in> {RiskTierLow, RiskTierMedium, RiskTierHigh}" "ToUpper (RiskTier_string tier) = t"
      by (rule tier_key_from)
    have "evaluated_window s [] (RiskTier_string tier) = Some (windowSeconds s t fallback)"
      using assms s(1,4) by (simp add: evaluated_window_fallback windowSeconds_upper tier(2) [symmetric])
    with s tier(1) show ?thesis by blast
  qed blast
qed

theorem realtime_window_covers_witness:
  "RealtimeHistoryWindow sample_monitor = (24 * Hour, True) \<and>
   evaluated_window (hd (en_scenarios sample_monitor)) ''individual'' ''low'' = Some (24 * 3600) \<and> 24 * 3600 * Second \<le> 24 * Hour"
proof -
  have w: "RealtimeHistoryWindow sample_monitor = (24 * Hour, True)" by code_simp
  let ?s = "hd (en_scenarios sample_monitor)"
  have s: "?s \<in> set (en_scenarios sample_monitor)" by (simp add: sample_monitor_def)
  have loaded: "\<forall>s \<in> set (en_scenarios sample_monitor). loaded_detector s"
    by (simp add: sample_monitor_def loaded_detector_def sample_scenario_def)
  have "runsUnder (sn_Mode ?s) ''realtime''" by code_simp
  moreover have ew: "evaluated_window ?s ''individual'' (RiskTier_string RiskTierLow) = Some (24 * 3600)" by code_simp
  moreover have "\<bar>24 * 3600 * Second\<bar> < 2 ^ 63" by code_simp
  ultimately have "24 * 3600 * Second \<le> 24 * Hour"
    using realtime_window_covers [OF loaded] w s by blast
  with w ew show ?thesis by simp
qed


end
