(* ===== verification/Backtests.thy ===== *)
theory Backtests
  imports Monitoring
begin

text \<open>
  Replaying the scenarios over recorded transactions (\<^verbatim>\<open>engine/native/native.go\<close>: \<^verbatim>\<open>RunBacktest\<close>,
  \<^verbatim>\<open>RunBacktestDetailed\<close>, \<^verbatim>\<open>replayDetection\<close> and \<^verbatim>\<open>RunBacktestWithRuleSetDetailed\<close>). The hash of a
  detection's identifier and the parser of a candidate definition are parameters.
  \<open>backtest_accounts\<close> shows that the totals of a report account for every alert.
\<close>

subsection \<open>Backtests\<close>

record BacktestScenarioResult =
  bs_ScenarioID :: string
  bs_AlertsGenerated :: int
  bs_HighSeverityCount :: int
  bs_MediumSeverityCount :: int
  bs_LowSeverityCount :: int
  bs_AffectedCustomerIDs :: "string list"
  bs_AddedCustomerIDs :: "string list"
  bs_RemovedCustomerIDs :: "string list"

record BacktestResult =
  br_BacktestID :: string
  br_TotalTransactions :: int
  br_TotalCustomers :: int
  br_TotalAlerts :: int
  br_ScenarioResults :: "BacktestScenarioResult list"
  br_ExecutionTimeMs :: float64

record replay_detection =
  rd_ID :: string
  rd_CustomerID :: string
  rd_ScenarioID :: string
  rd_TransactionIDs :: "string list"
  rd_WindowFrom :: "time option"
  rd_WindowTo :: "time option"
  rd_DetectedAt :: time

definition new_scenario_result :: "string \<Rightarrow> BacktestScenarioResult" where
  "new_scenario_result i = \<lparr>bs_ScenarioID = i, bs_AlertsGenerated = 0, bs_HighSeverityCount = 0, bs_MediumSeverityCount = 0,
     bs_LowSeverityCount = 0, bs_AffectedCustomerIDs = [], bs_AddedCustomerIDs = [], bs_RemovedCustomerIDs = []\<rparr>"

definition tally :: "string \<Rightarrow> Alert \<Rightarrow> BacktestScenarioResult \<Rightarrow> BacktestScenarioResult" where
  "tally cid a sr = sr
    \<lparr>bs_AlertsGenerated := bs_AlertsGenerated sr + 1,
     bs_HighSeverityCount := bs_HighSeverityCount sr + (if al_Severity a \<in> {AlertSeverityHigh, AlertSeverityCritical} then 1 else 0),
     bs_MediumSeverityCount := bs_MediumSeverityCount sr + (if al_Severity a = AlertSeverityMedium then 1 else 0),
     bs_LowSeverityCount := bs_LowSeverityCount sr + (if al_Severity a = AlertSeverityLow then 1 else 0),
     bs_AffectedCustomerIDs :=
       (if cid \<in> set (bs_AffectedCustomerIDs sr) then bs_AffectedCustomerIDs sr else bs_AffectedCustomerIDs sr @ [cid])\<rparr>"

text \<open>The search keeps the last index; \<open>-1\<close> is \<open>None\<close>.\<close>

definition count_alert :: "string \<Rightarrow> BacktestScenarioResult list \<Rightarrow> Alert \<Rightarrow> BacktestScenarioResult list" where
  "count_alert cid results a =
    (let (results, found) =
       (case find (\<lambda>i. bs_ScenarioID (results ! i) = al_ScenarioID a) (rev [0..<length results]) of
          Some i \<Rightarrow> (results, i)
        | None \<Rightarrow> (results @ [new_scenario_result (al_ScenarioID a)], length results))
     in results[found := tally cid a (results ! found)])"

definition widen :: "replay_detection \<Rightarrow> Transaction \<Rightarrow> replay_detection" where
  "widen d t = (let at' = tx_ExecutedAt t in d
     \<lparr>rd_WindowFrom := (case rd_WindowFrom d of None \<Rightarrow> Some at' | Some w \<Rightarrow> if at' < w then Some at' else Some w),
      rd_WindowTo := (case rd_WindowTo d of None \<Rightarrow> Some at' | Some w \<Rightarrow> if at' > w then Some at' else Some w),
      rd_DetectedAt := (if IsZero (rd_DetectedAt d) \<or> at' > rd_DetectedAt d then at' else rd_DetectedAt d)\<rparr>)"

definition replayDetection :: "(string \<Rightarrow> string) \<Rightarrow> Alert \<Rightarrow> Transaction tbl \<Rightarrow> replay_detection" where
  "replayDetection digest16 a transactions =
    (let ids = sort (al_TransactionIDs a);
         d = \<lparr>rd_ID = ''replay:'' @ digest16 (al_CustomerID a @ [CHR 0x00] @ al_ScenarioID a @ [CHR 0x00] @ join [CHR 0x00] ids),
              rd_CustomerID = al_CustomerID a, rd_ScenarioID = al_ScenarioID a, rd_TransactionIDs = ids,
              rd_WindowFrom = None, rd_WindowTo = None, rd_DetectedAt = 0\<rparr>
     in foldl (\<lambda>d i. case tbl_get transactions i of
          Some t \<Rightarrow> if IsZero (tx_ExecutedAt t) then d else widen d t
        | None \<Rightarrow> d) d ids)"

fun backtest_customers ::
  "(Customer \<Rightarrow> Alert list result) \<Rightarrow> (Alert \<Rightarrow> replay_detection) \<Rightarrow> Customer list \<Rightarrow>
     BacktestScenarioResult list \<times> replay_detection list \<times> int \<Rightarrow>
     (BacktestScenarioResult list \<times> replay_detection list \<times> int) result" where
  "backtest_customers run replay [] acc = Inr acc"
| "backtest_customers run replay (c # cs) (results, detections, n) =
    (case run c of
       Inl e \<Rightarrow> Inl e
     | Inr alerts \<Rightarrow> backtest_customers run replay cs
         (foldl (count_alert (cu_ID c)) results alerts, detections @ map replay alerts, n + int (length alerts)))"

definition backtest_tier :: "Customer \<Rightarrow> RiskTier" where
  "backtest_tier c = (case cu_RiskTier c of Some t \<Rightarrow> t | None \<Rightarrow> RiskTierMedium)"

definition RunBacktestDetailed ::
  "(string \<Rightarrow> string) \<Rightarrow> string \<Rightarrow> time \<Rightarrow> float64 \<Rightarrow> go_error option \<Rightarrow> Engine \<Rightarrow> Customer list \<Rightarrow> Transaction list \<Rightarrow> string list \<Rightarrow>
     (BacktestResult \<times> replay_detection list) result" where
  "RunBacktestDetailed digest16 version now elapsed ctx e customers txns ids =
    (case ctx of Some err \<Rightarrow> Inl err | None \<Rightarrow>
     let transactionsByID = foldl (\<lambda>m t. tbl_put (tx_ID t) t m) [] txns in
     case backtest_customers
         (\<lambda>c. evaluate version now None e (cu_ID c) (type_or_unspecified (cu_CustomerType c)) (backtest_tier c) txns ids ''both'' no_provenance)
         (\<lambda>a. replayDetection digest16 a transactionsByID) customers ([], [], 0) of
       Inl err \<Rightarrow> Inl err
     | Inr (results, detections, n) \<Rightarrow>
         Inr (\<lparr>br_BacktestID = ''native-'' @ int_string (int64 (now - unix_epoch)), br_TotalTransactions = int (length txns),
               br_TotalCustomers = int (length customers), br_TotalAlerts = n,
               br_ScenarioResults = map (\<lambda>r. r\<lparr>bs_AffectedCustomerIDs := sort (bs_AffectedCustomerIDs r)\<rparr>)
                 (go_sort (\<lambda>a b. bs_ScenarioID a < bs_ScenarioID b) results),
               br_ExecutionTimeMs = elapsed\<rparr>,
              go_sort (\<lambda>a b. rd_ID a < rd_ID b) detections))"

definition RunBacktest where
  "RunBacktest digest16 version now elapsed ctx e customers txns ids =
     map_sum (\<lambda>err. err) fst (RunBacktestDetailed digest16 version now elapsed ctx e customers txns ids)"

definition RunBacktestWithRuleSetDetailed where
  "RunBacktestWithRuleSetDetailed parseScenario digest16 version now elapsed ctx e customers txns ids ruleSetID definition_text =
    (case ctx of Some err \<Rightarrow> Inl err | None \<Rightarrow>
     if TrimSpace ruleSetID = [] then Inl (ErrText ''rule set id must not be empty'')
     else case parseScenario definition_text of
       Inl err \<Rightarrow> Inl (ErrWrap (''parse rule set '' @ Quote ruleSetID) err)
     | Inr s \<Rightarrow>
         if \<not> scenarioHasSupportedDetector s
         then Inl (ErrText (''rule set '' @ Quote ruleSetID @ '' has unknown scenario type: '' @ sn_ID s))
         else RunBacktestDetailed digest16 version now elapsed None
           (e\<lparr>en_scenarios := [s], en_tmCompatibilityWarnings := []\<rparr>) customers txns ids)"

lemma find_SomeD: "find P xs = Some x \<Longrightarrow> x \<in> set xs \<and> P x"
  by (induction xs) (auto split: if_splits)

lemma sum_list_bump: "i < length xs \<Longrightarrow> sum_list (xs[i := xs ! i + 1]) = sum_list xs + (1 :: int)"
proof (induction xs arbitrary: i)
  case (Cons x xs)
  then show ?case by (cases i) auto
qed simp

subsection \<open>Backtests account for every alert\<close>

lemma count_alert_cases:
  "(\<exists>i < length rs. bs_ScenarioID (rs ! i) = al_ScenarioID a \<and> count_alert cid rs a = rs[i := tally cid a (rs ! i)]) \<or>
   (al_ScenarioID a \<notin> set (map bs_ScenarioID rs) \<and>
    count_alert cid rs a = rs @ [tally cid a (new_scenario_result (al_ScenarioID a))])"
proof (cases "find (\<lambda>i. bs_ScenarioID (rs ! i) = al_ScenarioID a) (rev [0..<length rs])")
  case None
  then have "al_ScenarioID a \<notin> set (map bs_ScenarioID rs)" by (auto simp: find_None_iff in_set_conv_nth)
  with None show ?thesis by (simp add: count_alert_def list_update_append)
next
  case (Some i)
  from find_SomeD [OF Some] have i: "i < length rs" "bs_ScenarioID (rs ! i) = al_ScenarioID a" by simp_all
  have "count_alert cid rs a = rs[i := tally cid a (rs ! i)]" by (simp only: count_alert_def Some option.simps Let_def split_conv)
  with i show ?thesis by blast
qed

definition known_severity :: "Alert \<Rightarrow> bool" where
  "known_severity a \<longleftrightarrow> al_Severity a \<in> {AlertSeverityLow, AlertSeverityMedium, AlertSeverityHigh, AlertSeverityCritical}"

definition tallies_ok :: "BacktestScenarioResult list \<Rightarrow> bool" where
  "tallies_ok rs \<longleftrightarrow> distinct (map bs_ScenarioID rs) \<and> (\<forall>r \<in> set rs. distinct (bs_AffectedCustomerIDs r) \<and>
     bs_AlertsGenerated r = bs_HighSeverityCount r + bs_MediumSeverityCount r + bs_LowSeverityCount r)"

lemma count_alert_ok:
  assumes "tallies_ok rs" and "known_severity a"
  shows "tallies_ok (count_alert cid rs a) \<and>
    sum_list (map bs_AlertsGenerated (count_alert cid rs a)) = sum_list (map bs_AlertsGenerated rs) + 1"
proof -
  have step: "bs_ScenarioID (tally cid a r) = bs_ScenarioID r" "bs_AlertsGenerated (tally cid a r) = bs_AlertsGenerated r + 1"
      "distinct (bs_AffectedCustomerIDs r) \<Longrightarrow> distinct (bs_AffectedCustomerIDs (tally cid a r))"
      "bs_AlertsGenerated r = bs_HighSeverityCount r + bs_MediumSeverityCount r + bs_LowSeverityCount r \<Longrightarrow>
        bs_AlertsGenerated (tally cid a r) =
          bs_HighSeverityCount (tally cid a r) + bs_MediumSeverityCount (tally cid a r) + bs_LowSeverityCount (tally cid a r)" for r
    using assms(2) by (auto simp: tally_def known_severity_def)
  from count_alert_cases [of rs a cid] show ?thesis
  proof (elim disjE exE conjE)
    fix i assume i: "i < length rs" and eq: "count_alert cid rs a = rs[i := tally cid a (rs ! i)]"
    have ids: "map bs_ScenarioID (rs[i := tally cid a (rs ! i)]) = map bs_ScenarioID rs"
      by (simp add: map_update step(1)) (metis list_update_id map_update)
    have "sum_list (map bs_AlertsGenerated (rs[i := tally cid a (rs ! i)])) = sum_list (map bs_AlertsGenerated rs) + 1"
      using i sum_list_bump [of i "map bs_AlertsGenerated rs"] by (simp add: map_update step(2))
    then show ?thesis
      using assms(1) i ids step(3,4) unfolding eq tallies_ok_def by (auto dest!: subsetD [OF set_update_subset_insert])
  next
    assume new: "al_ScenarioID a \<notin> set (map bs_ScenarioID rs)"
      and eq: "count_alert cid rs a = rs @ [tally cid a (new_scenario_result (al_ScenarioID a))]"
    then show ?thesis
      using assms(1) step [of "new_scenario_result (al_ScenarioID a)"] unfolding eq tallies_ok_def
      by (auto simp: new_scenario_result_def)
  qed
qed

lemma count_alerts_ok:
  assumes "tallies_ok rs" and "\<forall>a \<in> set alerts. known_severity a"
  shows "tallies_ok (foldl (count_alert cid) rs alerts) \<and>
    sum_list (map bs_AlertsGenerated (foldl (count_alert cid) rs alerts)) = sum_list (map bs_AlertsGenerated rs) + int (length alerts)"
  using assms
proof (induction alerts arbitrary: rs)
  case (Cons a alerts)
  have "tallies_ok (count_alert cid rs a)" "sum_list (map bs_AlertsGenerated (count_alert cid rs a)) = sum_list (map bs_AlertsGenerated rs) + 1"
    using count_alert_ok [of rs a cid] Cons.prems by simp_all
  with Cons.IH [of "count_alert cid rs a"] Cons.prems show ?case by simp
qed simp

text \<open>The detectors only use medium, high and critical severities.\<close>

definition detector_severity :: "scenarioAlert \<Rightarrow> bool" where
  "detector_severity a \<longleftrightarrow> sa_severity a \<in> {AlertSeverityMedium, AlertSeverityHigh, AlertSeverityCritical}"

lemma structuring_severity: "a \<in> set (structuring_scan p q left right amount) \<Longrightarrow> detector_severity a"
proof (induction "length q - left" arbitrary: left right amount rule: less_induct)
  case less
  from less.prems have "left < length q" by (subst (asm) structuring_scan.simps) (simp split: if_split_asm)
  obtain r x where sl: "slide add_amount q (int64 (seconds (q ! left) + sp_window p)) right amount = (r, x)" by force
  from less.prems \<open>left < length q\<close> show ?case
    by (subst (asm) structuring_scan.simps)
      (auto simp: Let_def sl structuring_alert_def detector_severity_def split: if_split_asm dest: less.hyps [unfolded detector_severity_def, rotated])
qed

lemma rapid_severity: "a \<in> set (rapid_scan p q left right st) \<Longrightarrow> detector_severity a"
proof (induction "length q - left" arbitrary: left right st rule: less_induct)
  case less
  from less.prems have "left < length q" by (subst (asm) rapid_scan.simps) (simp split: if_split_asm)
  obtain r x where sl: "slide add_flow q (int64 (seconds (q ! left) + rp_window p)) right st = (r, x)" by (rule prod.exhaust)
  from less.prems \<open>left < length q\<close> show ?case
    by (subst (asm) rapid_scan.simps)
      (auto simp: Let_def sl rapid_alert_def detector_severity_def split: if_split_asm dest: less.hyps [unfolded detector_severity_def, rotated])
qed

lemma hfsa_severity: "a \<in> set (hfsa_scan p q left right amount) \<Longrightarrow> detector_severity a"
proof (induction "length q - left" arbitrary: left right amount rule: less_induct)
  case less
  from less.prems have "left < length q" by (subst (asm) hfsa_scan.simps) (simp split: if_split_asm)
  obtain r x where sl: "slide add_amount q (int64 (seconds (q ! left) + hp_window p)) right amount = (r, x)" by force
  from less.prems \<open>left < length q\<close> show ?case
    by (subst (asm) hfsa_scan.simps)
      (auto simp: Let_def sl hfsa_alert_def detector_severity_def split: if_split_asm dest: less.hyps [unfolded detector_severity_def, rotated])
qed

lemma dormant_severity: "a \<in> set (dormant_scan p ts) \<Longrightarrow> detector_severity a"
  by (induction p ts rule: dormant_scan.induct)
    (auto simp: dormant_alert_def detector_severity_def Let_def split: if_split_asm)

lemma detector_severities:
  "a \<in> set (evalStructuring s customerType tier txns) \<Longrightarrow> detector_severity a"
  "a \<in> set (evalRapid s customerType tier txns) \<Longrightarrow> detector_severity a"
  "a \<in> set (evalHFSA s customerType tier txns) \<Longrightarrow> detector_severity a"
  "a \<in> set (evalDormant s customerType tier txns) \<Longrightarrow> detector_severity a"
  by (auto simp: evalStructuring_def evalRapid_def evalHFSA_def evalDormant_def Let_def
      intro: structuring_severity rapid_severity hfsa_severity dormant_severity)

lemma high_risk_severity: "a \<in> set (evalHighRisk s customerType tier txns) \<Longrightarrow> detector_severity a"
  by (auto simp: evalHighRisk_def Let_def high_risk_alert_def detector_severity_def)

lemma evaluateScenario_severity:
  assumes "evaluateScenario None s customerType tier txns = Inr found" and "a \<in> set found"
  shows "detector_severity a"
  using assms unfolding evaluateScenario_def Let_def option.simps
  by (auto dest: detector_severities high_risk_severity split: option.split_asm if_split_asm)

lemma evaluate_severity:
  assumes "evaluate version now None e cid customerType tier txns ids mode prov = Inr alerts" and "a \<in> set alerts"
  shows "known_severity a"
proof -
  have "run_scenarios (new_alert version now e cid customerType (RiskTier_string tier) mode prov) customerType
      (RiskTier_string tier) (customerTransactions cid txns) ids mode (en_scenarios e) [] = Inr alerts"
    using assms by (auto simp: evaluate_def Let_def split: if_split_asm)
  from run_scenarios_origin [OF this assms(2)] obtain s found x where
      "evaluateScenario None s customerType (RiskTier_string tier) (customerTransactions cid txns) = Inr found" "x \<in> set found"
      "al_Severity a = sa_severity x"
    by (auto simp: new_alert_def)
  from evaluateScenario_severity [OF this(1,2)] this(3) show ?thesis
    by (auto simp: detector_severity_def known_severity_def)
qed

lemma backtest_customers_ok:
  assumes "backtest_customers run replay cs (rs, ds, n) = Inr (rs', ds', n')"
    and "tallies_ok rs" and "sum_list (map bs_AlertsGenerated rs) = n" and "int (length ds) = n"
    and "\<And>c alerts a. run c = Inr alerts \<Longrightarrow> a \<in> set alerts \<Longrightarrow> known_severity a"
  shows "tallies_ok rs' \<and> sum_list (map bs_AlertsGenerated rs') = n' \<and> int (length ds') = n'"
  using assms(1-4)
proof (induction cs arbitrary: rs ds n)
  case (Cons c cs)
  then obtain alerts where alerts: "run c = Inr alerts" by (auto split: sum.split_asm)
  have "\<forall>a \<in> set alerts. known_severity a" using assms(5) [OF alerts] by blast
  note ok = count_alerts_ok [OF Cons.prems(2) this, of "cu_ID c"]
  from Cons.prems(1) alerts have "backtest_customers run replay cs
      (foldl (count_alert (cu_ID c)) rs alerts, ds @ map replay alerts, n + int (length alerts)) = Inr (rs', ds', n')" by simp
  from Cons.IH [OF this] ok Cons.prems(3,4) show ?case by simp
qed simp

text \<open>
  C39. A backtest report accounts for every alert of the replay: the alerts of the scenarios add up
  to the total, which is the number of detections; every scenario appears once, its high, medium and
  low counts add up to its alerts, and a customer appears at most once among those affected.\<close>

theorem backtest_accounts:
  assumes "RunBacktestDetailed digest16 version now elapsed ctx e customers txns ids = Inr (report, detections)"
  shows "br_TotalAlerts report = sum_list (map bs_AlertsGenerated (br_ScenarioResults report)) \<and>
    br_TotalAlerts report = int (length detections) \<and> distinct (map bs_ScenarioID (br_ScenarioResults report)) \<and>
    (\<forall>r \<in> set (br_ScenarioResults report). distinct (bs_AffectedCustomerIDs r) \<and>
      bs_AlertsGenerated r = bs_HighSeverityCount r + bs_MediumSeverityCount r + bs_LowSeverityCount r)"
proof -
  let ?fin = "map (\<lambda>r. r\<lparr>bs_AffectedCustomerIDs := sort (bs_AffectedCustomerIDs r)\<rparr>)"
  obtain rs ds n where run: "backtest_customers
         (\<lambda>c. evaluate version now None e (cu_ID c) (type_or_unspecified (cu_CustomerType c)) (backtest_tier c) txns ids ''both'' no_provenance)
         (\<lambda>a. replayDetection digest16 a (foldl (\<lambda>m t. tbl_put (tx_ID t) t m) [] txns)) customers ([], [], 0) = Inr (rs, ds, n)"
      and report: "br_TotalAlerts report = n" "detections = go_sort (\<lambda>a b. rd_ID a < rd_ID b) ds"
        "br_ScenarioResults report = ?fin (go_sort (\<lambda>a b. bs_ScenarioID a < bs_ScenarioID b) rs)"
    using assms unfolding RunBacktestDetailed_def Let_def by (auto split: option.split_asm sum.split_asm)
  have ok: "tallies_ok rs \<and> sum_list (map bs_AlertsGenerated rs) = n \<and> int (length ds) = n"
    by (rule backtest_customers_ok [OF run]) (auto simp: tallies_ok_def intro: evaluate_severity)
  let ?sorted = "go_sort (\<lambda>a b. bs_ScenarioID a < bs_ScenarioID b) rs"
  have m: "mset ?sorted = mset rs" by simp
  then have "mset (map bs_AlertsGenerated ?sorted) = mset (map bs_AlertsGenerated rs)"
      "mset (map bs_ScenarioID ?sorted) = mset (map bs_ScenarioID rs)" by simp_all
  then have "sum_list (map bs_AlertsGenerated ?sorted) = sum_list (map bs_AlertsGenerated rs)"
      "distinct (map bs_ScenarioID ?sorted)" using ok
    by (metis sum_mset_sum_list, metis mset_eq_imp_distinct_iff tallies_ok_def)
  moreover have "map bs_AlertsGenerated (?fin ?sorted) = map bs_AlertsGenerated ?sorted"
      "map bs_ScenarioID (?fin ?sorted) = map bs_ScenarioID ?sorted" by simp_all
  moreover have "\<forall>r \<in> set (?fin ?sorted). distinct (bs_AffectedCustomerIDs r) \<and>
      bs_AlertsGenerated r = bs_HighSeverityCount r + bs_MediumSeverityCount r + bs_LowSeverityCount r"
    using ok by (auto simp: tallies_ok_def)
  ultimately show ?thesis using ok unfolding report length_go_sort by (simp only:)
qed

theorem backtest_accounts_witness:
  "\<exists>report detections. RunBacktestDetailed (\<lambda>s. s) ''v1'' 7 (F64 0) None sample_monitor [sample_customer] sample_history [] =
     Inr (report, detections) \<and> br_TotalAlerts report = int (length detections) \<and> br_TotalAlerts report = 1"
proof -
  let ?run = "RunBacktestDetailed (\<lambda>s. s) ''v1'' 7 (F64 0) None sample_monitor [sample_customer] sample_history []"
  have one: "map_sum (\<lambda>_. ()) (\<lambda>x. br_TotalAlerts (fst x)) ?run = Inr 1" by code_simp
  obtain report detections where r: "?run = Inr (report, detections)" using one by (cases ?run) auto
  with one have "br_TotalAlerts report = 1" by simp
  with backtest_accounts [OF r] r show ?thesis by blast
qed

end
