(* ===== verification/Encoding.thy ===== *)
theory Encoding
  imports Formatting "HOL-Library.Monad_Syntax"
begin

text \<open>
  The encodings of Go's standard library that opaque cursors are built from: \<^verbatim>\<open>base64.URLEncoding\<close>,
  \<^verbatim>\<open>strconv.Itoa\<close> and \<^verbatim>\<open>Atoi\<close>, and times in the \<^verbatim>\<open>RFC3339Nano\<close> layout over the proleptic Gregorian
  calendar. Each comes with its round trip: \<open>b64_round_trip\<close>, \<open>Atoi_int_string\<close> and
  \<open>time_round_trip\<close> (for the years 1 to 9999).
\<close>

subsection \<open>Base64\<close>

definition b64_alphabet :: string where
  "b64_alphabet = ''ABCDEFGHIJKLMNOPQRSTUVWXYZabcdefghijklmnopqrstuvwxyz0123456789-_''"

definition b64_char :: "nat \<Rightarrow> char" where
  "b64_char n = b64_alphabet ! n"

definition b64_value :: "char \<Rightarrow> nat option" where
  "b64_value c = map_of (zip b64_alphabet [0..<64]) c"

abbreviation byte :: "char \<Rightarrow> nat" where "byte c \<equiv> of_char c"

fun b64_encode :: "string \<Rightarrow> string" where
  "b64_encode [] = []"
| "b64_encode [x] = [b64_char (byte x div 4), b64_char ((byte x mod 4) * 16), CHR ''='', CHR ''='']"
| "b64_encode [x, y] =
    [b64_char (byte x div 4), b64_char ((byte x mod 4) * 16 + byte y div 16), b64_char ((byte y mod 16) * 4), CHR ''='']"
| "b64_encode (x # y # z # s) =
    b64_char (byte x div 4) # b64_char ((byte x mod 4) * 16 + byte y div 16) #
    b64_char ((byte y mod 16) * 4 + byte z div 64) # b64_char (byte z mod 64) # b64_encode s"

text \<open>The decoder skips line breaks; the unused bits before the padding are not looked at.\<close>

fun b64_quanta :: "string \<Rightarrow> string option" where
  "b64_quanta [] = Some []"
| "b64_quanta (a # b # c # d # s) =
    (case (b64_value a, b64_value b) of
       (Some p, Some q) \<Rightarrow>
         if c = CHR ''='' then (if d = CHR ''='' \<and> s = [] then Some [char_of (p * 4 + q div 16)] else None)
         else (case b64_value c of
           None \<Rightarrow> None
         | Some r \<Rightarrow>
             if d = CHR ''='' then (if s = [] then Some [char_of (p * 4 + q div 16), char_of ((q mod 16) * 16 + r div 4)] else None)
             else (case b64_value d of
               None \<Rightarrow> None
             | Some t \<Rightarrow> map_option (\<lambda>rest. char_of (p * 4 + q div 16) # char_of ((q mod 16) * 16 + r div 4) #
                 char_of ((r mod 4) * 64 + t) # rest) (b64_quanta s)))
     | _ \<Rightarrow> None)"
| "b64_quanta _ = None"

definition b64_decode :: "string \<Rightarrow> string option" where
  "b64_decode s = b64_quanta (filter (\<lambda>c. c \<noteq> CHR 0x0A \<and> c \<noteq> CHR 0x0D) s)"

lemma b64_alphabet_distinct: "distinct b64_alphabet" "length b64_alphabet = 64"
  by (simp_all add: b64_alphabet_def)

lemma b64_value_char [simp]: "n < 64 \<Longrightarrow> b64_value (b64_char n) = Some n"
  unfolding b64_value_def b64_char_def using b64_alphabet_distinct
  by (subst map_of_zip_nth) simp_all

lemma b64_char_clean: "n < 64 \<Longrightarrow> b64_char n \<notin> {CHR ''='', CHR 0x0A, CHR 0x0D}"
proof -
  assume "n < 64"
  then have "b64_char n \<in> set b64_alphabet" unfolding b64_char_def using b64_alphabet_distinct(2) by (intro nth_mem) simp
  then show ?thesis by (auto simp: b64_alphabet_def)
qed

lemma byte_less [simp]: "byte c < 256"
proof -
  have "byte c \<in> byte ` UNIV" by blast
  then show ?thesis by (simp add: range_nat_of_char)
qed

lemma sextets:
  "byte x div 4 < 64" "(byte x mod 4) * 16 + byte y div 16 < 64" "(byte y mod 16) * 4 + byte z div 64 < 64"
  "byte z mod 64 < 64" "(byte x mod 4) * 16 < 64" "(byte y mod 16) * 4 < 64"
proof -
  have "byte x < 256" "byte y < 256" "byte z < 256" by (rule byte_less)+
  then show "byte x div 4 < 64" "(byte x mod 4) * 16 + byte y div 16 < 64" "(byte y mod 16) * 4 + byte z div 64 < 64"
    "byte z mod 64 < 64" "(byte x mod 4) * 16 < 64" "(byte y mod 16) * 4 < 64" by linarith+
qed

lemma b64_encode_clean: "filter (\<lambda>c. c \<noteq> CHR 0x0A \<and> c \<noteq> CHR 0x0D) (b64_encode s) = b64_encode s"
  by (induction s rule: b64_encode.induct) (use b64_char_clean sextets in \<open>simp_all\<close>)

lemma high_low: "r < m \<Longrightarrow> (q * m + r) div m = q" "r < m \<Longrightarrow> (q * m + r) mod m = (r :: nat)"
  by simp_all

lemma regroup: "b < 256 \<Longrightarrow> a div 4 * 4 + ((a mod 4) * 16 + b div 16) div 16 = (a :: nat)"
  by (subst high_low(1)) simp_all

lemma regroup_rest:
  fixes a b c :: nat
  assumes "b < 256" and "c < 256"
  shows "((a mod 4) * 16 + b div 16) mod 16 * 16 + ((b mod 16) * 4 + c div 64) div 4 = b"
    and "((b mod 16) * 4 + c div 64) mod 4 * 64 + c mod 64 = c"
    and "a div 4 * 4 + (a mod 4) * 16 div 16 = a"
    and "((a mod 4) * 16 + b div 16) mod 16 * 16 + (b mod 16) * 4 div 4 = b"
proof -
  have "b div 16 < 16" "c div 64 < 4" using assms by linarith+
  then have "((a mod 4) * 16 + b div 16) mod 16 = b div 16" "((b mod 16) * 4 + c div 64) div 4 = b mod 16"
      "((b mod 16) * 4 + c div 64) mod 4 = c div 64"
    by (simp_all only: high_low)
  then show "((a mod 4) * 16 + b div 16) mod 16 * 16 + ((b mod 16) * 4 + c div 64) div 4 = b"
      "((a mod 4) * 16 + b div 16) mod 16 * 16 + (b mod 16) * 4 div 4 = b"
      "((b mod 16) * 4 + c div 64) mod 4 * 64 + c mod 64 = c" by simp_all
  show "a div 4 * 4 + (a mod 4) * 16 div 16 = a" by simp
qed

lemma b64_quanta_encode: "b64_quanta (b64_encode s) = Some s"
proof (induction s rule: b64_encode.induct)
  case (2 x)
  have "byte x div 4 * 4 + (byte x mod 4) * 16 div 16 = byte x" by (rule regroup_rest(3)) (rule byte_less)+
  then show ?case using sextets b64_char_clean by (simp del: byte_less)
next
  case (3 x y)
  have "byte x div 4 * 4 + ((byte x mod 4) * 16 + byte y div 16) div 16 = byte x" by (rule regroup) (rule byte_less)
  moreover have "((byte x mod 4) * 16 + byte y div 16) mod 16 * 16 + (byte y mod 16) * 4 div 4 = byte y"
    by (rule regroup_rest(4)) (rule byte_less)+
  ultimately show ?case using sextets b64_char_clean by simp
next
  case (4 x y z s)
  have "byte x div 4 * 4 + ((byte x mod 4) * 16 + byte y div 16) div 16 = byte x" by (rule regroup) (rule byte_less)
  moreover have "((byte x mod 4) * 16 + byte y div 16) mod 16 * 16 + ((byte y mod 16) * 4 + byte z div 64) div 4 = byte y"
    by (rule regroup_rest(1)) (rule byte_less)+
  moreover have "((byte y mod 16) * 4 + byte z div 64) mod 4 * 64 + byte z mod 64 = byte z"
    by (rule regroup_rest(2)) (rule byte_less)+
  ultimately show ?case using 4 sextets b64_char_clean by simp
qed simp

lemma b64_round_trip: "b64_decode (b64_encode s) = Some s"
  by (simp add: b64_decode_def b64_encode_clean b64_quanta_encode)


subsection \<open>Integers\<close>

definition Atoi :: "string \<Rightarrow> int option" where
  "Atoi s =
    (let neg = (s \<noteq> [] \<and> hd s = CHR ''-''); ds = (if s \<noteq> [] \<and> hd s \<in> {CHR ''-'', CHR ''+''} then tl s else s);
         n = (if neg then - read_digits ds else read_digits ds)
     in if ds = [] \<or> \<not> list_all is_digit ds \<or> n < - (2 ^ 63) \<or> n \<ge> 2 ^ 63 then None else Some n)"

lemma nat_string_head: "0 \<le> n \<Longrightarrow> hd (nat_string n) \<notin> {CHR ''-'', CHR ''+''}"
proof -
  assume "0 \<le> n"
  then have "list_all is_digit (nat_string n)" by (rule conjunct2 [OF read_nat_string])
  then have "is_digit (hd (nat_string n))" by (simp add: list_all_iff)
  then show ?thesis by (auto simp: is_digit_def digit_value_def)
qed

lemma Atoi_int_string: "- (2 ^ 63) \<le> n \<Longrightarrow> n < 2 ^ 63 \<Longrightarrow> Atoi (int_string n) = Some n"
  using read_nat_string [of n] read_nat_string [of "- n"] nat_string_head [of n]
  by (auto simp: Atoi_def int_string_def Let_def)

subsection \<open>The calendar\<close>

definition leap :: "int \<Rightarrow> bool" where
  "leap y \<longleftrightarrow> y mod 4 = 0 \<and> (y mod 100 \<noteq> 0 \<or> y mod 400 = 0)"

definition days_before_year :: "int \<Rightarrow> int" where
  "days_before_year y = 365 * (y - 1) + (y - 1) div 4 - (y - 1) div 100 + (y - 1) div 400"

definition month_lengths :: "int \<Rightarrow> int list" where
  "month_lengths y = [31, if leap y then 29 else 28, 31, 30, 31, 30, 31, 31, 30, 31, 30, 31]"

definition days_in_month :: "int \<Rightarrow> int \<Rightarrow> int" where
  "days_in_month y m = month_lengths y ! nat (m - 1)"

definition days_of_date :: "int \<Rightarrow> int \<Rightarrow> int \<Rightarrow> int" where
  "days_of_date y m d = days_before_year y + sum_list (take (nat (m - 1)) (month_lengths y)) + (d - 1)"

lemma leap_cases:
  assumes "r \<Longrightarrow> q" and "q \<Longrightarrow> p"
  shows "365 + (if p then 1 else 0) - (if q then 1 else 0) + (if r then 1 else 0) = (if p \<and> (\<not> q \<or> r) then 366 else 365 :: int)"
proof -
  have "r \<longrightarrow> q" "q \<longrightarrow> p" using assms by blast+
  then show ?thesis by (cases p; cases q; cases r) simp_all
qed

lemma days_before_year_Suc: "days_before_year (y + 1) = days_before_year y + (if leap y then 366 else 365)"
proof -
  have step: "y div k = (y - 1) div k + (if y mod k = 0 then 1 else 0)" if "1 < k" for k :: int
  proof -
    have "y = (y - 1) + 1" by simp
    then have "y div k = (y - 1) div k + 1 div k + ((y - 1) mod k + 1 mod k) div k" by (metis div_add1_eq)
    moreover have "1 div k = 0" "1 mod k = 1" using that by simp_all
    moreover have "((y - 1) mod k + 1) div k = (if y mod k = 0 then 1 else 0)"
    proof -
      have b: "0 \<le> (y - 1) mod k" "(y - 1) mod k < k" using that by simp_all
      have "y mod k = ((y - 1) mod k + 1) mod k" by (metis diff_add_cancel mod_add_left_eq)
      moreover have "(y - 1) mod k + 1 = k \<or> (y - 1) mod k + 1 < k" using b by linarith
      ultimately show ?thesis using b(1) that by (auto simp: div_pos_pos_trivial dest: zdvd_imp_le)
    qed
    ultimately show ?thesis by simp
  qed
  have dvd: "y mod 400 = 0 \<Longrightarrow> y mod 100 = 0" "y mod 100 = 0 \<Longrightarrow> y mod 4 = 0" by presburger+
  define b4 b100 b400 :: int where "b4 = (if y mod 4 = 0 then 1 else 0)" and "b100 = (if y mod 100 = 0 then 1 else 0)"
    and "b400 = (if y mod 400 = 0 then 1 else 0)"
  define a4 a100 a400 where "a4 = (y - 1) div 4" and "a100 = (y - 1) div 100" and "a400 = (y - 1) div 400"
  have "y div 4 = a4 + b4" "y div 100 = a100 + b100" "y div 400 = a400 + b400"
    unfolding a4_def a100_def a400_def b4_def b100_def b400_def by (rule step, simp)+
  then have "days_before_year (y + 1) = 365 * y + (a4 + b4) - (a100 + b100) + (a400 + b400)"
    by (simp only: days_before_year_def add_diff_cancel_right')
  moreover have "days_before_year y = 365 * (y - 1) + a4 - a100 + a400"
    by (simp only: days_before_year_def a4_def a100_def a400_def)
  ultimately have "days_before_year (y + 1) = days_before_year y + 365 + b4 - b100 + b400" by (simp add: algebra_simps)
  moreover have "365 + b4 - b100 + b400 = (if leap y then 366 else 365)"
    unfolding b4_def b100_def b400_def leap_def by (rule leap_cases [OF dvd])
  ultimately show ?thesis by linarith
qed

lemma days_before_year_step: "days_before_year y < days_before_year (y + 1)" "days_before_year (y + 1) \<le> days_before_year y + 366"
  by (simp_all add: days_before_year_Suc)

function year_from :: "int \<Rightarrow> int \<Rightarrow> int" where
  "year_from y n = (if days_before_year (y + 1) \<le> n then year_from (y + 1) n else y)"
  by auto

termination
proof (relation "measure (\<lambda>(y, n). nat (n + 1 - days_before_year y))")
  fix y n :: int assume "days_before_year (y + 1) \<le> n"
  then show "((y + 1, n), y, n) \<in> measure (\<lambda>(y, n). nat (n + 1 - days_before_year y))"
    using days_before_year_step(1) [of y] by simp
qed simp

declare year_from.simps [simp del]

fun month_day :: "int list \<Rightarrow> int \<Rightarrow> int \<Rightarrow> int \<times> int" where
  "month_day (l # ls) m k = (if k < l then (m, k + 1) else month_day ls (m + 1) (k - l))"
| "month_day [] m k = (m, k + 1)"

definition date_of_days :: "int \<Rightarrow> int \<times> int \<times> int" where
  "date_of_days n = (let y = year_from (n div 366 + 1) n in (y, month_day (month_lengths y) 1 (n - days_before_year y)))"

lemma year_from_spec: "days_before_year y \<le> n \<Longrightarrow> y \<le> year_from y n \<and>
   days_before_year (year_from y n) \<le> n \<and> n < days_before_year (year_from y n + 1)"
proof (induction y n rule: year_from.induct)
  case (1 y n)
  then show ?case by (cases "days_before_year (y + 1) \<le> n") (simp_all add: year_from.simps [of y n])
qed

lemma month_day_spec:
  assumes "0 \<le> k" and "k < sum_list ls"
  shows "\<exists>i < length ls. month_day ls m k = (m + int i, k - sum_list (take i ls) + 1) \<and>
    0 \<le> k - sum_list (take i ls) \<and> k - sum_list (take i ls) < ls ! i"
  using assms
proof (induction ls m k rule: month_day.induct)
  case (1 l ls m k)
  show ?case
  proof (cases "k < l")
    case True
    with 1(2) show ?thesis by (intro exI [of _ 0]) simp
  next
    case False
    with 1 obtain i where "i < length ls" "month_day ls (m + 1) (k - l) = (m + 1 + int i, k - l - sum_list (take i ls) + 1)"
        "0 \<le> k - l - sum_list (take i ls)" "k - l - sum_list (take i ls) < ls ! i" by auto
    with False show ?thesis by (intro exI [of _ "Suc i"]) (simp add: algebra_simps)
  qed
qed simp

lemma days_before_year_first: "0 \<le> n \<Longrightarrow> days_before_year (n div 366 + 1) \<le> n"
  unfolding days_before_year_def by simp

lemma days_before_year_mono: "a \<le> b \<Longrightarrow> days_before_year a \<le> days_before_year b"
proof (induction "nat (b - a)" arbitrary: b)
  case (Suc k)
  then have "days_before_year a \<le> days_before_year (b - 1)" by simp
  then show ?case using days_before_year_step(1) [of "b - 1"] by simp
qed simp

text \<open>The date of a day, and back.\<close>

lemma date_of_days_spec:
  assumes "0 \<le> n" and "n < days_before_year 10000" and "date_of_days n = (y, m, d)"
  shows "1 \<le> y" "y \<le> 9999" "1 \<le> m" "m \<le> 12" "1 \<le> d" "d \<le> days_in_month y m" "days_of_date y m d = n"
proof -
  let ?y = "year_from (n div 366 + 1) n"
  note ys = year_from_spec [OF days_before_year_first [OF assms(1)]]
  have y: "y = ?y" and md: "month_day (month_lengths y) 1 (n - days_before_year y) = (m, d)"
    using assms(3) by (auto simp: date_of_days_def Let_def)
  have "0 \<le> n div 366" using assms(1) by simp
  with ys y show "1 \<le> y" by linarith
  show "y \<le> 9999"
  proof (rule ccontr)
    assume "\<not> y \<le> 9999"
    then have "days_before_year 10000 \<le> days_before_year y" by (intro days_before_year_mono) simp
    with ys y assms(2) show False by simp
  qed
  have "sum_list (month_lengths y) = (if leap y then 366 else 365)" by (simp add: month_lengths_def)
  then have "0 \<le> n - days_before_year y" "n - days_before_year y < sum_list (month_lengths y)"
    using ys y days_before_year_Suc [of y] by simp_all
  from month_day_spec [OF this, of 1] md obtain i where i: "i < 12" "m = 1 + int i"
      "d = n - days_before_year y - sum_list (take i (month_lengths y)) + 1"
      "0 \<le> n - days_before_year y - sum_list (take i (month_lengths y))"
      "n - days_before_year y - sum_list (take i (month_lengths y)) < month_lengths y ! i"
    by (auto simp: month_lengths_def)
  then show "1 \<le> m" "m \<le> 12" "1 \<le> d" "d \<le> days_in_month y m" "days_of_date y m d = n"
    by (simp_all add: days_in_month_def days_of_date_def)
qed


subsection \<open>Times\<close>

definition two :: "int \<Rightarrow> string" where
  "two n = pad_left 2 (nat_string n)"

text \<open>\<^verbatim>\<open>t.UTC().Format(time.RFC3339Nano)\<close> for the years 0 to 9999.\<close>

definition format_time :: "time \<Rightarrow> string" where
  "format_time t =
    (case date_of_days (t div Day) of (y, m, d) \<Rightarrow>
       let s = t mod Day div Second in
       pad_left 4 (nat_string y) @ ''-'' @ two m @ ''-'' @ two d @ ''T'' @ two (s div 3600) @ '':'' @
       two (s div 60 mod 60) @ '':'' @ two (s mod 60) @ frac_string (t mod Second) 9 @ ''Z'')"

text \<open>The elements of the layout, as \<^verbatim>\<open>time.Parse\<close> reads them: a value and the rest of the text.\<close>

definition literal :: "char \<Rightarrow> string \<Rightarrow> string option" where
  "literal c s = (case s of d # r \<Rightarrow> if d = c then Some r else None | [] \<Rightarrow> None)"

definition fixed_digits :: "nat \<Rightarrow> string \<Rightarrow> (int \<times> string) option" where
  "fixed_digits n s = (if n \<le> length s \<and> list_all is_digit (take n s) then Some (read_digits (take n s), drop n s) else None)"

definition hour_digits :: "string \<Rightarrow> (int \<times> string) option" where
  "hour_digits s = (case fixed_digits 2 s of Some x \<Rightarrow> Some x | None \<Rightarrow> fixed_digits 1 s)"

definition fraction :: "string \<Rightarrow> int \<times> string" where
  "fraction s =
    (case s of
       p # c # r \<Rightarrow>
         if p \<in> {CHR ''.'', CHR '',''} \<and> is_digit c
         then let ds = take 9 (takeWhile is_digit (c # r))
              in (read_digits ds * 10 ^ (9 - length ds), dropWhile is_digit (c # r))
         else (0, s)
     | _ \<Rightarrow> (0, s))"

definition zone :: "string \<Rightarrow> (int \<times> string) option" where
  "zone s =
    (case s of
       [] \<Rightarrow> None
     | c # r \<Rightarrow>
         if c = CHR ''Z'' then Some (0, r)
         else if c \<notin> {CHR ''+'', CHR ''-''} then None
         else do {
           (hh, r) \<leftarrow> fixed_digits 2 r;
           r \<leftarrow> literal (CHR '':'') r;
           (mm, r) \<leftarrow> fixed_digits 2 r;
           if hh > 24 \<or> mm > 60 then None
           else Some ((if c = CHR ''-'' then - 1 else 1) * (hh * 60 + mm) * 60, r)
         })"

definition parse_time :: "string \<Rightarrow> time option" where
  "parse_time s = do {
     (y, s) \<leftarrow> fixed_digits 4 s;
     s \<leftarrow> literal (CHR ''-'') s;
     (m, s) \<leftarrow> fixed_digits 2 s;
     s \<leftarrow> literal (CHR ''-'') s;
     (d, s) \<leftarrow> fixed_digits 2 s;
     s \<leftarrow> literal (CHR ''T'') s;
     (hh, s) \<leftarrow> hour_digits s;
     s \<leftarrow> literal (CHR '':'') s;
     (mm, s) \<leftarrow> fixed_digits 2 s;
     s \<leftarrow> literal (CHR '':'') s;
     (ss, s) \<leftarrow> fixed_digits 2 s;
     let (nsec, s) = fraction s;
     (offset, s) \<leftarrow> zone s;
     if s \<noteq> [] \<or> m < 1 \<or> 12 < m \<or> hh \<ge> 24 \<or> mm \<ge> 60 \<or> ss \<ge> 60 \<or> d < 1 \<or> d > days_in_month y m then None
     else Some (days_of_date y m d * Day + (hh * 3600 + mm * 60 + ss - offset) * Second + nsec)
   }"

lemma read_digits_zeros: "read_digits (replicate k CHR ''0'' @ s) = read_digits s"
proof -
  have zero: "digit_value CHR ''0'' = Some 0" by (simp add: digit_value_def)
  have "foldl (\<lambda>n c. 10 * n + (case digit_value c of Some d \<Rightarrow> d | None \<Rightarrow> 0)) 0 (replicate k CHR ''0'') = (0 :: int)"
    by (induction k) (simp_all add: zero)
  then show ?thesis by (simp add: read_digits_def)
qed

lemma is_digit_zero [simp]: "is_digit CHR ''0''"
  by (simp add: is_digit_def digit_value_def)

lemma read_pad_left: "0 \<le> n \<Longrightarrow> read_digits (pad_left k (nat_string n)) = n \<and> list_all is_digit (pad_left k (nat_string n))"
  using read_nat_string [of n] by (auto simp: pad_left_def read_digits_zeros list_all_iff)

lemma nat_string_length: "0 \<le> n \<Longrightarrow> n < 10 ^ k \<Longrightarrow> 0 < k \<Longrightarrow> length (nat_string n) \<le> k"
proof (induction k arbitrary: n)
  case (Suc k)
  show ?case
  proof (cases "n < 10")
    case False
    then have "0 < k" using Suc.prems by (cases k) auto
    then have "length (nat_string (n div 10)) \<le> k" using Suc False by simp
    then show ?thesis using False by (subst nat_string.simps) simp
  qed (simp add: nat_string.simps)
qed simp

lemma fixed_digits_pad:
  assumes "0 \<le> n" and "n < 10 ^ k" and "0 < k"
  shows "fixed_digits k (pad_left k (nat_string n) @ r) = Some (n, r)"
proof -
  have "length (pad_left k (nat_string n)) = k" using nat_string_length [OF assms] by (simp add: pad_left_def)
  then show ?thesis using read_pad_left [OF assms(1), of k] by (simp add: fixed_digits_def)
qed

lemma fixed_digits_two: "0 \<le> n \<Longrightarrow> n < 100 \<Longrightarrow> fixed_digits 2 (two n @ r) = Some (n, r)"
  unfolding two_def by (rule fixed_digits_pad) simp_all


lemma read_digits_append: "read_digits (s @ t) = read_digits s * 10 ^ length t + read_digits t"
proof (induction t rule: rev_induct)
  case (snoc c t)
  have snoc_read: "read_digits (u @ [c]) = 10 * read_digits u + (case digit_value c of Some d \<Rightarrow> d | None \<Rightarrow> 0)" for u
    by (simp add: read_digits_def)
  have "read_digits (s @ t @ [c]) = read_digits ((s @ t) @ [c])" by simp
  with snoc show ?case unfolding snoc_read by (simp add: snoc_read algebra_simps)
qed (simp add: read_digits_def)

lemma strip_zeros_split: "\<exists>k. s = strip_zeros s @ replicate k CHR ''0''"
proof -
  have "takeWhile (\<lambda>c. c = CHR ''0'') (rev s) = replicate (length (takeWhile (\<lambda>c. c = CHR ''0'') (rev s))) CHR ''0''"
    by (rule replicate_eqI) (auto dest: set_takeWhileD)
  then have "rev s = replicate (length (takeWhile (\<lambda>c. c = CHR ''0'') (rev s))) CHR ''0'' @ dropWhile (\<lambda>c. c = CHR ''0'') (rev s)"
    by (metis takeWhile_dropWhile_id)
  then have "s = strip_zeros s @ replicate (length (takeWhile (\<lambda>c. c = CHR ''0'') (rev s))) CHR ''0''"
    unfolding strip_zeros_def by (metis rev_append rev_replicate rev_rev_ident)
  then show ?thesis by blast
qed

lemma fraction_round_trip:
  assumes "0 \<le> n" and "n < Second"
  shows "fraction (frac_string n 9 @ ''Z'') = (n, ''Z'')"
proof -
  let ?p = "pad_left 9 (nat_string n)"
  obtain k where k: "?p = strip_zeros ?p @ replicate k CHR ''0''" using strip_zeros_split by blast
  let ?ds = "strip_zeros ?p"
  have len: "length ?p = 9" using nat_string_length [of n 9] assms by (simp add: pad_left_def)
  have read: "read_digits ?p = n" "list_all is_digit ?p" using read_pad_left [OF assms(1)] by blast+
  have digits: "list_all is_digit ?ds" using read(2) k by (metis list_all_append)
  have zeros: "read_digits (replicate k CHR ''0'') = 0" using read_digits_zeros [of k "[]"] by (simp add: read_digits_def)
  have "n = read_digits ?ds * 10 ^ k" using read(1) k read_digits_append [of ?ds "replicate k CHR ''0''"] zeros by simp
  moreover have lens: "length ?ds + k = 9" using len k by (metis length_append length_replicate)
  ultimately have n: "n = read_digits ?ds * 10 ^ (9 - length ?ds)" by (metis add_diff_cancel_left')
  have mod: "n mod 10 ^ 9 = n" using assms by simp
  show ?thesis
  proof (cases "?ds = []")
    case True
    then have "frac_string n 9 = []" unfolding frac_string_def mod Let_def by simp
    moreover have "n = 0" using n True by (simp add: read_digits_def)
    ultimately show ?thesis by (simp add: fraction_def)
  next
    case False
    then obtain c r where cr: "?ds = c # r" by (cases ?ds) auto
    have "frac_string n 9 = ''.'' @ ?ds" using False unfolding frac_string_def mod Let_def by simp
    moreover have "takeWhile is_digit (?ds @ ''Z'') = ?ds" "dropWhile is_digit (?ds @ ''Z'') = ''Z''"
      using digits by (simp_all add: list_all_iff is_digit_def digit_value_def)
    moreover have "take 9 ?ds = ?ds" using lens by simp
    moreover have "is_digit c" using digits cr by simp
    ultimately show ?thesis using n cr by (simp add: fraction_def)
  qed
qed


lemma literal_Cons [simp]: "literal c (c # s) = Some s"
  by (simp add: literal_def)

lemma fixed_digits_two_Cons: "0 \<le> n \<Longrightarrow> n < 100 \<Longrightarrow> fixed_digits 2 (two n @ c # r) = Some (n, c # r)"
  by (rule fixed_digits_two)

lemma hour_digits_two: "0 \<le> n \<Longrightarrow> n < 100 \<Longrightarrow> hour_digits (two n @ r) = Some (n, r)"
  by (simp add: hour_digits_def fixed_digits_two)

lemma days_in_month_le: "1 \<le> m \<Longrightarrow> m \<le> 12 \<Longrightarrow> days_in_month y m \<le> 31"
proof -
  assume "1 \<le> m" "m \<le> 12"
  then have "days_in_month y m \<in> set (month_lengths y)" unfolding days_in_month_def by (intro nth_mem) (simp add: month_lengths_def)
  then show ?thesis by (auto simp: month_lengths_def split: if_splits)
qed

text \<open>The number of seconds and nanoseconds of a day, split and put together again.\<close>

lemma div_below:
  fixes a b k :: int
  assumes "0 < k" and "a < b * k"
  shows "a div k < b"
proof (rule ccontr)
  assume "\<not> a div k < b"
  then have "b * k \<le> a div k * k" using assms(1) by (intro mult_right_mono) simp_all
  moreover have "a div k * k \<le> a" using div_mult_mod_eq [of a k] pos_mod_sign [OF assms(1), of a] by linarith
  ultimately show False using assms(2) by linarith
qed

lemma clock_split:
  fixes s :: int
  assumes "0 \<le> s" and "s < 86400"
  shows "s div 3600 * 3600 + s div 60 mod 60 * 60 + s mod 60 = s" "0 \<le> s div 3600" "s div 3600 < 24"
    "0 \<le> s div 60 mod 60" "s div 60 mod 60 < 60" "0 \<le> s mod 60" "s mod 60 < 60"
proof -
  have "s div 3600 = s div 60 div 60" by (simp add: zdiv_zmult2_eq [of 60 s 60, simplified])
  then show "s div 3600 * 3600 + s div 60 mod 60 * 60 + s mod 60 = s"
    using div_mult_mod_eq [of "s div 60" 60] div_mult_mod_eq [of s 60] by linarith
  show "0 \<le> s div 3600" using assms by (simp add: pos_imp_zdiv_nonneg_iff)
  show "s div 3600 < 24" using assms by (intro div_below) simp_all
qed simp_all

lemma time_split:
  fixes t :: int
  shows "t div Day * Day + t mod Day div Second * Second + t mod Second = t"
    and "0 \<le> t mod Day div Second" and "t mod Day div Second < 86400"
proof -
  have "t mod Second = t mod Day mod Second" by (simp add: mod_mod_cancel)
  then show "t div Day * Day + t mod Day div Second * Second + t mod Second = t"
    using div_mult_mod_eq [of t Day] div_mult_mod_eq [of "t mod Day" Second] by linarith
  have b: "0 \<le> t mod Day" "t mod Day < Day" by simp_all
  then show "0 \<le> t mod Day div Second" by (simp add: pos_imp_zdiv_nonneg_iff)
  show "t mod Day div Second < 86400" using b(2) by (intro div_below) simp_all
qed

lemma parse_fields:
  assumes "0 \<le> y" and "y \<le> 9999" and "1 \<le> m" and "m \<le> 12" and "1 \<le> d" and "d \<le> days_in_month y m"
    and "0 \<le> hh" and "hh < 24" and "0 \<le> mm" and "mm < 60" and "0 \<le> ss" and "ss < 60"
    and frac: "fraction (f @ ''Z'') = (nsec, ''Z'')"
  shows "parse_time (pad_left 4 (nat_string y) @ ''-'' @ two m @ ''-'' @ two d @ ''T'' @ two hh @ '':'' @ two mm @ '':'' @ two ss @ f @ ''Z'') =
    Some (days_of_date y m d * Day + (hh * 3600 + mm * 60 + ss - 0) * Second + nsec)"
proof -
  have d: "d < 100" using assms days_in_month_le [of m y] by linarith
  have year: "fixed_digits 4 (pad_left 4 (nat_string y) @ r) = Some (y, r)" for r
    using assms by (intro fixed_digits_pad) simp_all
  have zone: "zone ''Z'' = Some (0, [])" by (simp add: zone_def)
  show ?thesis
    using assms d by (simp add: parse_time_def year fixed_digits_two hour_digits_two zone)
qed

lemma time_round_trip:
  assumes "0 \<le> t" and "t < days_before_year 10000 * Day"
  shows "parse_time (format_time t) = Some t"
proof -
  obtain y m d where date: "date_of_days (t div Day) = (y, m, d)" by (metis prod_cases3)
  have "0 \<le> t div Day" "t div Day < days_before_year 10000"
    using assms by (simp add: pos_imp_zdiv_nonneg_iff, intro div_below) simp_all
  note ymd = date_of_days_spec [OF this date]
  let ?s = "t mod Day div Second"
  note hms = clock_split [OF time_split(2,3), of t]
  have frac: "fraction (frac_string (t mod Second) 9 @ ''Z'') = (t mod Second, ''Z'')" by (rule fraction_round_trip) simp_all
  have y: "0 \<le> y" using ymd(1) by simp
  have "parse_time (format_time t) =
      Some (days_of_date y m d * Day + (?s div 3600 * 3600 + ?s div 60 mod 60 * 60 + ?s mod 60 - 0) * Second + t mod Second)"
    unfolding format_time_def date prod.case Let_def by (rule parse_fields [OF y ymd(2-6) hms(2-7) frac])
  also have "\<dots> = Some t" unfolding hms(1) ymd(7) using time_split(1) [of t] by simp
  finally show ?thesis .
qed

end
