(* ===== verification/Cursors.thy ===== *)
theory Cursors
  imports Encoding Identifiers Paging
begin

text \<open>
  Opaque page cursors and page requests (\<^verbatim>\<open>server/pagination.go\<close>). A cursor is the text of its fields
  joined by a control character and encoded in base64; \<open>cursor_round_trip\<close> shows that decoding gives
  the cursor back, so that the walk over pages of theory \<open>Paging\<close> is the walk a client makes.
  The server's cursor type has the fields of the domain's and is the same record here; the query
  parameters of a request are a function from names to values.
\<close>

definition cursorSeparator :: char where "cursorSeparator = CHR 0x1F"
definition defaultPageLimit :: int where "defaultPageLimit = 50"
definition maxPageLimit :: int where "maxPageLimit = 200"

definition EncodeCursor :: "Cursor \<Rightarrow> string" where
  "EncodeCursor c =
    (let raw = format_time (cur_CreatedAt c) @ [cursorSeparator] @ cur_ID c;
         raw = (if cur_Sort c = ''risk'' then ''risk'' @ [cursorSeparator] @ int_string (cur_Rank c) @ [cursorSeparator] @ raw else raw);
         raw = (if cur_Filter c \<noteq> [] then ''filter'' @ [cursorSeparator] @ cur_Filter c @ [cursorSeparator] @ raw else raw)
     in b64_encode raw)"

definition cursor_of_parts :: "string \<Rightarrow> string list \<Rightarrow> Cursor result" where
  "cursor_of_parts filter_text parts =
    (case (case parts of
             [timestamp, i] \<Rightarrow> Inr (timestamp, i, [], 0)
           | [kind, rank, timestamp, i] \<Rightarrow>
               if kind \<noteq> ''risk'' then Inl (ErrText ''invalid cursor format'')
               else (case Atoi rank of
                 None \<Rightarrow> Inl (ErrText ''invalid risk cursor rank'')
               | Some n \<Rightarrow> if n < 0 \<or> n > 4 then Inl (ErrText ''invalid risk cursor rank'') else Inr (timestamp, i, ''risk'', n))
           | _ \<Rightarrow> Inl (ErrText ''invalid cursor format'')) of
       Inl e \<Rightarrow> Inl e
     | Inr (timestamp, i, sorting, rank) \<Rightarrow>
         if i = [] then Inl (ErrText ''invalid cursor format'')
         else (case parse_time timestamp of
           None \<Rightarrow> Inl (ErrText ''invalid cursor timestamp'')
         | Some t \<Rightarrow> Inr \<lparr>cur_CreatedAt = t, cur_ID = i, cur_Sort = sorting, cur_Rank = rank, cur_Filter = filter_text\<rparr>))"

definition DecodeCursor :: "string \<Rightarrow> Cursor result" where
  "DecodeCursor s =
    (case b64_decode s of
       None \<Rightarrow> Inl (ErrText ''invalid cursor encoding'')
     | Some raw \<Rightarrow>
         let parts = split_on cursorSeparator raw in
         if length parts \<ge> 2 \<and> hd parts = ''filter'' then cursor_of_parts (parts ! 1) (drop 2 parts)
         else cursor_of_parts [] parts)"

record PageRequest =
  pr_Limit :: int
  pr_Cursor :: "Cursor option"

definition useCursorPagination :: "(string \<Rightarrow> string) \<Rightarrow> bool" where
  "useCursorPagination query \<longleftrightarrow> query ''cursor'' \<noteq> [] \<or> query ''offset'' = []"

definition ParsePageRequest :: "(string \<Rightarrow> string) \<Rightarrow> PageRequest result" where
  "ParsePageRequest query =
    (let limit = (case Atoi (query ''limit'') of Some n \<Rightarrow> if query ''limit'' \<noteq> [] \<and> n > 0 then n else defaultPageLimit
           | None \<Rightarrow> defaultPageLimit);
         limit = (if limit > maxPageLimit then maxPageLimit else limit)
     in if query ''cursor'' = [] then Inr \<lparr>pr_Limit = limit, pr_Cursor = None\<rparr>
        else case DecodeCursor (query ''cursor'') of
          Inl e \<Rightarrow> Inl e
        | Inr c \<Rightarrow> Inr \<lparr>pr_Limit = limit, pr_Cursor = Some c\<rparr>)"

subsection \<open>Round trip\<close>

lemma digits_no_separator: "list_all is_digit s \<Longrightarrow> cursorSeparator \<notin> set s"
  by (auto simp: list_all_iff is_digit_def digit_value_def cursorSeparator_def)

lemma strip_zeros_set: "set (strip_zeros s) \<subseteq> set s"
  by (auto simp: strip_zeros_def dest!: set_dropWhileD)

lemma digits_pad: "0 \<le> n \<Longrightarrow> cursorSeparator \<notin> set (pad_left k (nat_string n))"
  using read_pad_left [of n k] digits_no_separator by blast

lemma format_time_no_separator:
  assumes "0 \<le> t" and "t < days_before_year 10000 * Day"
  shows "cursorSeparator \<notin> set (format_time t)"
proof -
  obtain y m d where date: "date_of_days (t div Day) = (y, m, d)" by (metis prod_cases3)
  have "0 \<le> t div Day" "t div Day < days_before_year 10000"
    using assms by (simp add: pos_imp_zdiv_nonneg_iff, intro div_below) simp_all
  note ymd = date_of_days_spec [OF this date]
  note hms = clock_split [OF time_split(2,3), of t]
  have frac: "cursorSeparator \<notin> set (frac_string (t mod Second) 9)"
    using digits_pad [of "t mod Second mod 10 ^ 9" 9] strip_zeros_set
    by (auto simp: frac_string_def Let_def cursorSeparator_def split: if_splits)
  have two: "cursorSeparator \<notin> set (two n)" if "0 \<le> n" for n using digits_pad [OF that] by (simp add: two_def)
  have "cursorSeparator \<notin> set (two m)" "cursorSeparator \<notin> set (two d)" "cursorSeparator \<notin> set (pad_left 4 (nat_string y))"
    using ymd(1,3,5) by (intro two digits_pad; linarith)+
  moreover note two [OF hms(2)] two [OF hms(4)] two [OF hms(6)] frac
  ultimately show ?thesis
    unfolding format_time_def date prod.case Let_def set_append by (simp only: Un_iff) (simp add: cursorSeparator_def)
qed

text \<open>
  C19. Decoding an encoded cursor gives the cursor back, for a creation time in the years 1 to 9999,
  a non-empty identifier and a filter that do not contain the separator, and for the two kinds of
  cursor the server makes: plain ones, and ones in risk order with a rank from 0 to 4.\<close>

theorem cursor_round_trip:
  assumes "0 \<le> cur_CreatedAt c" and "cur_CreatedAt c < days_before_year 10000 * Day"
    and "cur_ID c \<noteq> []" and "cursorSeparator \<notin> set (cur_ID c)" and "cursorSeparator \<notin> set (cur_Filter c)"
    and "cur_Sort c = [] \<and> cur_Rank c = 0 \<or> cur_Sort c = ''risk'' \<and> 0 \<le> cur_Rank c \<and> cur_Rank c \<le> 4"
  shows "DecodeCursor (EncodeCursor c) = Inr c"
proof -
  let ?time = "format_time (cur_CreatedAt c)"
  have t: "cursorSeparator \<notin> set ?time" by (rule format_time_no_separator [OF assms(1,2)])
  have sep: "cursorSeparator \<notin> set ''risk''" "cursorSeparator \<notin> set ''filter''" by (simp_all add: cursorSeparator_def)
  have not_filter: "?time \<noteq> ''filter''"
  proof
    assume "?time = ''filter''"
    moreover have "parse_time ?time = Some (cur_CreatedAt c)" by (rule time_round_trip [OF assms(1,2)])
    moreover have "parse_time ''filter'' = None" by code_simp
    ultimately show False by simp
  qed
  have pt: "parse_time ?time = Some (cur_CreatedAt c)" by (rule time_round_trip [OF assms(1,2)])
  define tail where "tail = (if cur_Sort c = ''risk'' then [''risk'', int_string (cur_Rank c), ?time, cur_ID c] else [?time, cur_ID c])"
  define raw where "raw = (if cur_Sort c = ''risk'' then ''risk'' @ cursorSeparator # int_string (cur_Rank c) @ cursorSeparator # ?time @
      cursorSeparator # cur_ID c else ?time @ cursorSeparator # cur_ID c)"
  have rank: "cursorSeparator \<notin> set (int_string (cur_Rank c))" "Atoi (int_string (cur_Rank c)) = Some (cur_Rank c)"
  proof -
    have "0 \<le> cur_Rank c" using assms(6) by auto
    then show "cursorSeparator \<notin> set (int_string (cur_Rank c))"
      using digits_no_separator read_nat_string [of "cur_Rank c"] by (simp add: int_string_def)
    show "Atoi (int_string (cur_Rank c)) = Some (cur_Rank c)" using assms(6) by (intro Atoi_int_string) auto
  qed
  have split_raw: "split_on cursorSeparator raw = tail"
    by (cases "cur_Sort c = ''risk''")
      (simp_all only: raw_def tail_def simp_thms if_True if_False split_on_append [OF sep(1)] split_on_append [OF rank(1)]
        split_on_append [OF t] split_on_no_sep [OF assms(4)])
  have decoded: "cursor_of_parts f tail = Inr (c\<lparr>cur_Filter := f\<rparr>)" for f
    unfolding tail_def cursor_of_parts_def using assms(3,6) rank(2) pt by (auto simp: split: if_splits)
  show ?thesis
  proof (cases "cur_Filter c = []")
    case True
    then have "EncodeCursor c = b64_encode raw" by (simp add: EncodeCursor_def raw_def Let_def)
    moreover have "hd tail \<noteq> ''filter''" using not_filter by (simp add: tail_def)
    ultimately show ?thesis
      using decoded [of "[]"] True by (simp add: DecodeCursor_def b64_round_trip split_raw Let_def)
  next
    case False
    define w where "w = ''filter'' @ cursorSeparator # cur_Filter c @ cursorSeparator # raw"
    have "EncodeCursor c = b64_encode w" using False by (simp add: EncodeCursor_def raw_def w_def Let_def)
    moreover have "split_on cursorSeparator w = ''filter'' # cur_Filter c # tail"
      unfolding w_def by (simp only: split_on_append [OF sep(2)] split_on_append [OF assms(5)] split_raw)
    ultimately show ?thesis
      using decoded [of "cur_Filter c"] by (simp add: DecodeCursor_def b64_round_trip Let_def)
  qed
qed

theorem cursor_round_trip_witness:
  "DecodeCursor (EncodeCursor \<lparr>cur_CreatedAt = unix_epoch + 1500000001, cur_ID = ''a1'', cur_Sort = ''risk'', cur_Rank = 3, cur_Filter = ''f''\<rparr>) =
     Inr \<lparr>cur_CreatedAt = unix_epoch + 1500000001, cur_ID = ''a1'', cur_Sort = ''risk'', cur_Rank = 3, cur_Filter = ''f''\<rparr>"
  by (rule cursor_round_trip) (simp_all add: unix_epoch_def days_before_year_def cursorSeparator_def)

end
