(* ===== verification/Pending_Evaluation.thy ===== *)
theory Pending_Evaluation
  imports Identifiers Paging
begin

text \<open>
  The queue of transactions that could not be evaluated (\<^verbatim>\<open>domain/pending_evaluation.go\<close>,
  \<^verbatim>\<open>store/memory_pending_evaluation.go\<close>): every operation of the memory repository, with the clock and
  the identifiers of history entries as parameters. The invariant is an audit trail: the history
  of a record leads step by step from the status it was created with to its present status, and
  every update raises the version. Creating a record overwrites one of the same identifier in the
  code; the histories considered here create records under fresh identifiers, as the callers do.
\<close>

datatype PendingEvaluationStatus =
  PendingEvaluationStatusPendingReview | PendingEvaluationStatusProcessing | PendingEvaluationStatusResolved
| PendingEvaluationStatusFailed | PendingEvaluationStatusOther string

record PendingEvaluation =
  pe_ID :: string
  pe_CustomerID :: string
  pe_TransactionIDs :: "string list"
  pe_Status :: PendingEvaluationStatus
  pe_Reason :: string
  pe_BatchRunID :: "string option"
  pe_AlertIDs :: "string list"
  pe_RetryCount :: int
  pe_ManualRetryCount :: int
  pe_ResolvedAt :: "time option"
  pe_LastAttemptAt :: "time option"
  pe_NextRetryAt :: "time option"
  pe_EscalatedAt :: "time option"
  pe_Version :: int
  pe_CreatedAt :: time
  pe_UpdatedAt :: time

record PendingEvaluationHistoryEntry =
  ph_ID :: string
  ph_PendingEvaluationID :: string
  ph_FromStatus :: PendingEvaluationStatus
  ph_ToStatus :: PendingEvaluationStatus
  ph_Action :: string
  ph_Reason :: string
  ph_Actor :: string
  ph_RetryCount :: int
  ph_CreatedAt :: time

record PendingEvaluationFilter =
  pf_Status :: "PendingEvaluationStatus list"
  pf_CustomerID :: string
  pf_BatchRunID :: string
  pf_CreatedFrom :: "time option"
  pf_CreatedTo :: "time option"
  pf_Cursor :: "Cursor option"

record MemoryPendingEvaluationRepo =
  pr_data :: "PendingEvaluation tbl"
  pr_history :: "PendingEvaluationHistoryEntry list tbl"

definition NewMemoryPendingEvaluationRepo :: MemoryPendingEvaluationRepo where
  "NewMemoryPendingEvaluationRepo = \<lparr>pr_data = [], pr_history = []\<rparr>"

definition pr_entries :: "MemoryPendingEvaluationRepo \<Rightarrow> string \<Rightarrow> PendingEvaluationHistoryEntry list" where
  "pr_entries r i = (case tbl_get (pr_history r) i of None \<Rightarrow> [] | Some es \<Rightarrow> es)"

definition no_record :: "string \<Rightarrow> go_error" where
  "no_record i = ErrNotFound ''pending_evaluation'' i"

definition pe_conflict :: "string \<Rightarrow> string \<Rightarrow> go_error" where
  "pe_conflict i reason = ErrConflict ''pending_evaluation'' i reason"

subsection \<open>Writing\<close>

definition PE_Create :: "time \<Rightarrow> MemoryPendingEvaluationRepo \<Rightarrow> PendingEvaluation \<Rightarrow> MemoryPendingEvaluationRepo" where
  "PE_Create now r pe =
    (let pe = pe\<lparr>pe_CreatedAt := (if IsZero (pe_CreatedAt pe) then now else pe_CreatedAt pe), pe_UpdatedAt := now,
           pe_Version := (if pe_Version pe = 0 then 1 else pe_Version pe)\<rparr>
     in r\<lparr>pr_data := tbl_put (pe_ID pe) pe (pr_data r)\<rparr>)"

text \<open>Every update stores the record with the next version and appends one entry to its history.\<close>

definition commit_pending ::
  "string \<Rightarrow> time \<Rightarrow> MemoryPendingEvaluationRepo \<Rightarrow> string \<Rightarrow> PendingEvaluationStatus \<Rightarrow> PendingEvaluation \<Rightarrow> string \<Rightarrow> string \<Rightarrow> string \<Rightarrow>
     MemoryPendingEvaluationRepo" where
  "commit_pending newid now r i from pe action reason actor =
    (let pe = pe\<lparr>pe_UpdatedAt := now, pe_Version := pe_Version pe + 1\<rparr>;
         entry = \<lparr>ph_ID = newid, ph_PendingEvaluationID = i, ph_FromStatus = from, ph_ToStatus = pe_Status pe,
           ph_Action = action, ph_Reason = reason, ph_Actor = actor, ph_RetryCount = pe_RetryCount pe, ph_CreatedAt = now\<rparr>
     in \<lparr>pr_data = tbl_put i pe (pr_data r), pr_history = tbl_put i (pr_entries r i @ [entry]) (pr_history r)\<rparr>)"

definition retry_delay :: "int \<Rightarrow> duration" where
  "retry_delay retryCount = 2 ^ nat (min retryCount 8) * Second"

text \<open>
  The change an action makes to the record; shifting by a negative count, which a record created
  with a negative retry count would lead to, panics.
\<close>

definition apply_action :: "time \<Rightarrow> string \<Rightarrow> string \<Rightarrow> PendingEvaluation \<Rightarrow> PendingEvaluation result" where
  "apply_action now i action pe =
    (let resolved = (pe_Status pe = PendingEvaluationStatusResolved) in
     if action = ''retry'' then
       (if resolved then Inl (pe_conflict i ''already resolved'')
        else if pe_Status pe = PendingEvaluationStatusFailed
          then Inl (pe_conflict i ''record has failed; use manual_retry to revive it'')
        else if pe_RetryCount pe + 1 < 0 then Inl (ErrText ''runtime error: negative shift amount'')
        else Inr (pe\<lparr>pe_Status := PendingEvaluationStatusPendingReview, pe_RetryCount := pe_RetryCount pe + 1,
          pe_LastAttemptAt := Some now, pe_NextRetryAt := Some (now + retry_delay (pe_RetryCount pe + 1))\<rparr>))
     else if action = ''manual_retry'' then
       (if resolved then Inl (pe_conflict i ''already resolved'')
        else Inr (pe\<lparr>pe_Status := PendingEvaluationStatusPendingReview, pe_ManualRetryCount := pe_ManualRetryCount pe + 1,
          pe_LastAttemptAt := Some now, pe_EscalatedAt := None, pe_NextRetryAt := Some now\<rparr>))
     else if action = ''process'' then
       (if pe_Status pe \<noteq> PendingEvaluationStatusPendingReview then Inl (pe_conflict i ''record is not pending review'')
        else Inr (pe\<lparr>pe_Status := PendingEvaluationStatusProcessing, pe_LastAttemptAt := Some now, pe_NextRetryAt := None\<rparr>))
     else if action = ''resolve'' then
       Inr (pe\<lparr>pe_Status := PendingEvaluationStatusResolved, pe_ResolvedAt := Some now, pe_NextRetryAt := None\<rparr>)
     else if action = ''escalate'' then
       (if resolved then Inl (pe_conflict i ''already resolved'')
        else Inr (pe\<lparr>pe_Status := PendingEvaluationStatusFailed, pe_EscalatedAt := Some now, pe_NextRetryAt := None\<rparr>))
     else Inl (pe_conflict i ''unknown action''))"

definition TransitionPendingEvaluation ::
  "string \<Rightarrow> time \<Rightarrow> MemoryPendingEvaluationRepo \<Rightarrow> string \<Rightarrow> string \<Rightarrow> string \<Rightarrow> string \<Rightarrow> int \<Rightarrow>
     PendingEvaluation result \<times> MemoryPendingEvaluationRepo" where
  "TransitionPendingEvaluation newid now r i action actor reason expectedVersion =
    (case tbl_get (pr_data r) i of
       None \<Rightarrow> (Inl (no_record i), r)
     | Some pe \<Rightarrow>
         if expectedVersion \<le> 0 then (Inl (pe_conflict i ''expected version is required''), r)
         else if pe_Version pe \<noteq> expectedVersion then (Inl (pe_conflict i ''version mismatch''), r)
         else if action = ''resolve'' \<and> pe_Status pe = PendingEvaluationStatusResolved then (Inr pe, r)
         else (case apply_action now i action pe of
           Inl e \<Rightarrow> (Inl e, r)
         | Inr pe' \<Rightarrow>
             let r' = commit_pending newid now r i (pe_Status pe) pe' action reason actor
             in (Inr (pe'\<lparr>pe_UpdatedAt := now, pe_Version := pe_Version pe' + 1\<rparr>), r')))"

definition SetPendingEvaluationAlertIDs ::
  "string \<Rightarrow> time \<Rightarrow> MemoryPendingEvaluationRepo \<Rightarrow> string \<Rightarrow> string list \<Rightarrow> int \<Rightarrow> unit result \<times> MemoryPendingEvaluationRepo" where
  "SetPendingEvaluationAlertIDs newid now r i alertIDs expectedVersion =
    (case tbl_get (pr_data r) i of
       None \<Rightarrow> (Inl (no_record i), r)
     | Some pe \<Rightarrow>
         if expectedVersion \<le> 0 \<or> pe_Version pe \<noteq> expectedVersion then (Inl (pe_conflict i ''version mismatch''), r)
         else (Inr (), commit_pending newid now r i (pe_Status pe) (pe\<lparr>pe_AlertIDs := alertIDs\<rparr>) ''link_alerts''
           ''recovery alert links persisted'' ''system:pending-recovery''))"

definition PE_UpdateStatus ::
  "string \<Rightarrow> time \<Rightarrow> MemoryPendingEvaluationRepo \<Rightarrow> string \<Rightarrow> PendingEvaluationStatus \<Rightarrow> unit result \<times> MemoryPendingEvaluationRepo" where
  "PE_UpdateStatus newid now r i status =
    (case tbl_get (pr_data r) i of
       None \<Rightarrow> (Inl (no_record i), r)
     | Some pe \<Rightarrow>
         let pe' = pe\<lparr>pe_Status := status, pe_ResolvedAt := (if status = PendingEvaluationStatusResolved then Some now else pe_ResolvedAt pe)\<rparr>
         in (Inr (), commit_pending newid now r i (pe_Status pe) pe' ''status'' [] []))"

definition IncrementRetry ::
  "string \<Rightarrow> time \<Rightarrow> MemoryPendingEvaluationRepo \<Rightarrow> string \<Rightarrow> unit result \<times> MemoryPendingEvaluationRepo" where
  "IncrementRetry newid now r i =
    (case tbl_get (pr_data r) i of
       None \<Rightarrow> (Inl (no_record i), r)
     | Some pe \<Rightarrow>
         (Inr (), commit_pending newid now r i (pe_Status pe)
           (pe\<lparr>pe_RetryCount := pe_RetryCount pe + 1, pe_LastAttemptAt := Some now\<rparr>) ''retry'' [] []))"

subsection \<open>Reading\<close>

definition PE_Get :: "MemoryPendingEvaluationRepo \<Rightarrow> string \<Rightarrow> PendingEvaluation result" where
  "PE_Get r i = (case tbl_get (pr_data r) i of None \<Rightarrow> Inl (no_record i) | Some pe \<Rightarrow> Inr pe)"

definition pendingStatusMatch :: "PendingEvaluationStatus list \<Rightarrow> PendingEvaluationStatus \<Rightarrow> bool" where
  "pendingStatusMatch statuses status \<longleftrightarrow> statuses = [] \<or> status \<in> set statuses"

definition matches_filter :: "PendingEvaluationFilter \<Rightarrow> PendingEvaluation \<Rightarrow> bool" where
  "matches_filter f pe \<longleftrightarrow>
     pendingStatusMatch (pf_Status f) (pe_Status pe) \<and>
     (pf_CustomerID f \<noteq> [] \<longrightarrow> SameIdentifier (pf_CustomerID f) (pe_CustomerID pe)) \<and>
     (pf_BatchRunID f \<noteq> [] \<longrightarrow> (case pe_BatchRunID pe of None \<Rightarrow> False | Some b \<Rightarrow> SameIdentifier (pf_BatchRunID f) b)) \<and>
     (case pf_CreatedFrom f of None \<Rightarrow> True | Some t \<Rightarrow> \<not> pe_CreatedAt pe < t) \<and>
     (case pf_CreatedTo f of None \<Rightarrow> True | Some t \<Rightarrow> \<not> pe_CreatedAt pe > t) \<and>
     (case pf_Cursor f of None \<Rightarrow> True
      | Some c \<Rightarrow> pe_CreatedAt pe < cur_CreatedAt c \<or> pe_CreatedAt pe = cur_CreatedAt c \<and> pe_ID pe < cur_ID c)"

definition ListPendingEvaluations :: "MemoryPendingEvaluationRepo \<Rightarrow> PendingEvaluationFilter \<Rightarrow> int \<Rightarrow> PendingEvaluation list" where
  "ListPendingEvaluations r f limit =
    (let items = go_sort (desc_less pe_CreatedAt pe_ID) (filter (matches_filter f) (tbl_vals (pr_data r)))
     in if limit > 0 \<and> int (length items) > limit then take (nat limit) items else items)"

definition ListPendingHistory :: "MemoryPendingEvaluationRepo \<Rightarrow> string \<Rightarrow> int \<Rightarrow> PendingEvaluationHistoryEntry list" where
  "ListPendingHistory r i limit =
    (let items = pr_entries r i
     in if limit > 0 \<and> int (length items) > limit then drop (length items - nat limit) items else items)"

definition PE_ListByStatus :: "MemoryPendingEvaluationRepo \<Rightarrow> PendingEvaluationStatus \<Rightarrow> int \<Rightarrow> int \<Rightarrow> PendingEvaluation list option" where
  "PE_ListByStatus r status limit offset =
    pageByOffset (go_sort (asc_less pe_CreatedAt pe_ID) (filter (\<lambda>pe. pe_Status pe = status) (tbl_vals (pr_data r)))) limit offset"

definition ListPendingByCustomer :: "MemoryPendingEvaluationRepo \<Rightarrow> string \<Rightarrow> PendingEvaluationStatus \<Rightarrow> PendingEvaluation list" where
  "ListPendingByCustomer r cid status =
     filter (\<lambda>pe. SameIdentifier (pe_CustomerID pe) cid \<and> pe_Status pe = status) (tbl_vals (pr_data r))"

definition ListPendingByCustomers :: "MemoryPendingEvaluationRepo \<Rightarrow> string list \<Rightarrow> PendingEvaluationStatus \<Rightarrow> PendingEvaluation list" where
  "ListPendingByCustomers r cids status =
     filter (\<lambda>pe. CanonicalUUID (pe_CustomerID pe) \<in> set (map CanonicalUUID cids) \<and> pe_Status pe = status) (tbl_vals (pr_data r))"

definition later_pending :: "string \<Rightarrow> PendingEvaluation option \<Rightarrow> PendingEvaluation \<Rightarrow> PendingEvaluation option" where
  "later_pending tid latest pe =
    (if \<not> list_ex (\<lambda>i. SameIdentifier i tid) (pe_TransactionIDs pe) then latest
     else case latest of
       None \<Rightarrow> Some pe
     | Some l \<Rightarrow> if pe_CreatedAt pe > pe_CreatedAt l \<or> pe_CreatedAt pe = pe_CreatedAt l \<and> pe_ID pe > pe_ID l then Some pe else latest)"

definition GetLatestByTransaction :: "MemoryPendingEvaluationRepo \<Rightarrow> string \<Rightarrow> PendingEvaluation result" where
  "GetLatestByTransaction r tid =
    (case foldl (later_pending tid) None (tbl_vals (pr_data r)) of None \<Rightarrow> Inl (no_record tid) | Some pe \<Rightarrow> Inr pe)"

subsection \<open>Histories\<close>

inductive pending_step :: "MemoryPendingEvaluationRepo \<Rightarrow> MemoryPendingEvaluationRepo \<Rightarrow> bool" where
  create: "tbl_get (pr_data r) (pe_ID pe) = None \<Longrightarrow> pending_step r (PE_Create now r pe)"
| transition: "pending_step r (snd (TransitionPendingEvaluation newid now r i action actor reason v))"
| link_alerts: "pending_step r (snd (SetPendingEvaluationAlertIDs newid now r i ids v))"
| status: "pending_step r (snd (PE_UpdateStatus newid now r i st))"
| increment: "pending_step r (snd (IncrementRetry newid now r i))"

text \<open>A trail leads from one status to another when each entry starts where the one before it ended.\<close>

fun trail :: "PendingEvaluationStatus \<Rightarrow> PendingEvaluationHistoryEntry list \<Rightarrow> PendingEvaluationStatus \<Rightarrow> bool" where
  "trail s [] t \<longleftrightarrow> s = t"
| "trail s (e # es) t \<longleftrightarrow> ph_FromStatus e = s \<and> trail (ph_ToStatus e) es t"

lemma trail_snoc: "trail s (es @ [e]) t \<longleftrightarrow> trail s es (ph_FromStatus e) \<and> ph_ToStatus e = t"
  by (induction es arbitrary: s) auto

definition record_trail :: "MemoryPendingEvaluationRepo \<Rightarrow> string \<Rightarrow> bool" where
  "record_trail r i \<longleftrightarrow> (case tbl_get (pr_data r) i of
      None \<Rightarrow> pr_entries r i = []
    | Some pe \<Rightarrow> pe_ID pe = i \<and> (\<exists>s. trail s (pr_entries r i) (pe_Status pe)) \<and>
        (\<forall>e \<in> set (pr_entries r i). ph_PendingEvaluationID e = i))"

definition pending_ok :: "MemoryPendingEvaluationRepo \<Rightarrow> bool" where
  "pending_ok r \<longleftrightarrow> (\<forall>i. record_trail r i)"

text \<open>What a step does to one record: nothing, or one commit that moves it to the next version.\<close>

definition committed :: "MemoryPendingEvaluationRepo \<Rightarrow> MemoryPendingEvaluationRepo \<Rightarrow> string \<Rightarrow> bool" where
  "committed r r' i \<longleftrightarrow> (\<exists>pe pe' e. tbl_get (pr_data r) i = Some pe \<and> tbl_get (pr_data r') i = Some pe' \<and>
     pe_ID pe' = pe_ID pe \<and> pe_Version pe' = pe_Version pe + 1 \<and> pr_entries r' i = pr_entries r i @ [e] \<and>
     ph_FromStatus e = pe_Status pe \<and> ph_ToStatus e = pe_Status pe' \<and> ph_PendingEvaluationID e = i)"

definition untouched :: "MemoryPendingEvaluationRepo \<Rightarrow> MemoryPendingEvaluationRepo \<Rightarrow> string \<Rightarrow> bool" where
  "untouched r r' i \<longleftrightarrow> tbl_get (pr_data r') i = tbl_get (pr_data r) i \<and> pr_entries r' i = pr_entries r i"

lemma commit_committed:
  assumes "tbl_get (pr_data r) i = Some pe" and "pe_ID pe' = pe_ID pe" and "pe_Version pe' = pe_Version pe"
    and "r' = commit_pending newid now r i (pe_Status pe) pe' action reason actor"
  shows "committed r r' i" and "j \<noteq> i \<Longrightarrow> untouched r r' j"
  using assms by (auto simp: committed_def untouched_def commit_pending_def pr_entries_def Let_def tbl_simps)

lemma apply_action_keeps: "apply_action now i action pe = Inr pe' \<Longrightarrow> pe_ID pe' = pe_ID pe \<and> pe_Version pe' = pe_Version pe"
  by (auto simp: apply_action_def Let_def split: if_splits)

lemma transition_cases:
  fixes r
  assumes "TransitionPendingEvaluation newid now r i action actor reason v = (res, r')"
  shows "r' = r \<or> committed r r' i \<and> (\<forall>j. j \<noteq> i \<longrightarrow> untouched r r' j) \<and> is_ok res \<and>
    (\<exists>pe. tbl_get (pr_data r) i = Some pe \<and> pe_Version pe = v)"
proof (cases "tbl_get (pr_data r) i")
  case (Some pe)
  show ?thesis
  proof (cases "apply_action now i action pe")
    case (Inr pe')
    note keeps = apply_action_keeps [OF Inr]
    show ?thesis
      using assms Some Inr commit_committed [OF Some conjunct1 [OF keeps] conjunct2 [OF keeps] refl]
      by (auto simp: TransitionPendingEvaluation_def Let_def split: if_splits)
  qed (use assms Some in \<open>auto simp: TransitionPendingEvaluation_def split: if_splits\<close>)
qed (use assms in \<open>auto simp: TransitionPendingEvaluation_def\<close>)

text \<open>A step is described by the record it may change.\<close>

definition steps_at :: "MemoryPendingEvaluationRepo \<Rightarrow> MemoryPendingEvaluationRepo \<Rightarrow> string \<Rightarrow> bool" where
  "steps_at r r' i \<longleftrightarrow>
    (committed r r' i \<or> untouched r r' i \<or>
     tbl_get (pr_data r) i = None \<and> pr_entries r' i = pr_entries r i \<and>
       (\<exists>pe. tbl_get (pr_data r') i = Some pe \<and> pe_ID pe = i)) \<and>
    (\<forall>j. j \<noteq> i \<longrightarrow> untouched r r' j)"

lemma steps_at_refl [simp]: "steps_at r r i"
  by (simp add: steps_at_def untouched_def)

lemma commit_steps_at:
  assumes "tbl_get (pr_data r) i = Some pe" and "pe_ID pe' = pe_ID pe" and "pe_Version pe' = pe_Version pe"
  shows "steps_at r (commit_pending newid now r i (pe_Status pe) pe' action reason actor) i"
  using commit_committed [OF assms refl] by (auto simp: steps_at_def)

lemma pending_step_cases:
  assumes "pending_step r r'"
  shows "\<exists>i. steps_at r r' i"
  using assms
proof (cases rule: pending_step.cases)
  case (create pe now)
  then have "steps_at r r' (pe_ID pe)"
    by (auto simp: steps_at_def PE_Create_def untouched_def pr_entries_def Let_def tbl_simps)
  then show ?thesis ..
next
  case (transition newid now i action actor reason v)
  then have "steps_at r r' i"
    using transition_cases [of newid now r i action actor reason v]
    by (cases "TransitionPendingEvaluation newid now r i action actor reason v") (auto simp: steps_at_def untouched_def)
  then show ?thesis ..
next
  case (link_alerts newid now i ids v)
  then have "steps_at r r' i"
    by (auto simp: SetPendingEvaluationAlertIDs_def intro!: commit_steps_at split: option.splits)
  then show ?thesis ..
next
  case (status newid now i st)
  then have "steps_at r r' i"
    by (auto simp: PE_UpdateStatus_def Let_def intro!: commit_steps_at split: option.splits)
  then show ?thesis ..
next
  case (increment newid now i)
  then have "steps_at r r' i"
    by (auto simp: IncrementRetry_def intro!: commit_steps_at split: option.splits)
  then show ?thesis ..
qed

lemma pending_ok_step:
  assumes "pending_step r r'" and "pending_ok r"
  shows "pending_ok r'"
  unfolding pending_ok_def
proof
  fix i
  have before: "record_trail r i"
    using assms(2) by (simp add: pending_ok_def)
  obtain k where k: "steps_at r r' k"
    using pending_step_cases [OF assms(1)] ..
  consider "untouched r r' i" | "committed r r' i"
    | pe where "tbl_get (pr_data r) i = None" "pr_entries r' i = pr_entries r i" "tbl_get (pr_data r') i = Some pe" "pe_ID pe = i"
    using k by (cases "i = k") (auto simp: steps_at_def)
  then show "record_trail r' i"
    by cases (use before in \<open>auto simp: record_trail_def untouched_def committed_def trail_snoc split: option.splits\<close>)
qed

lemma version_step:
  assumes "pending_step r r'" and "tbl_get (pr_data r) i = Some pe"
  shows "\<exists>pe'. tbl_get (pr_data r') i = Some pe' \<and> pe_Version pe \<le> pe_Version pe'"
proof -
  obtain k where "steps_at r r' k"
    using pending_step_cases [OF assms(1)] ..
  then show ?thesis
    using assms(2) by (cases "i = k") (auto simp: steps_at_def committed_def untouched_def)
qed

lemma version_grows:
  assumes "pending_step\<^sup>*\<^sup>* r r'" and "tbl_get (pr_data r) i = Some pe"
  shows "\<exists>pe'. tbl_get (pr_data r') i = Some pe' \<and> pe_Version pe \<le> pe_Version pe'"
  using assms
proof (induction rule: rtranclp_induct)
  case (step q q')
  then show ?case
    using version_step [OF step(2)] by (meson order_trans)
qed auto

subsection \<open>Properties\<close>

definition sample_pending :: PendingEvaluation where
  "sample_pending = \<lparr>pe_ID = ''p1'', pe_CustomerID = ''c1'', pe_TransactionIDs = [''t1''],
     pe_Status = PendingEvaluationStatusPendingReview, pe_Reason = ''timeout'', pe_BatchRunID = None, pe_AlertIDs = [],
     pe_RetryCount = 0, pe_ManualRetryCount = 0, pe_ResolvedAt = None, pe_LastAttemptAt = None, pe_NextRetryAt = None,
     pe_EscalatedAt = None, pe_Version = 0, pe_CreatedAt = 100, pe_UpdatedAt = 100\<rparr>"

definition sample_queue :: MemoryPendingEvaluationRepo where
  "sample_queue = PE_Create 200 NewMemoryPendingEvaluationRepo sample_pending"

definition sample_claimed :: "PendingEvaluation result \<times> MemoryPendingEvaluationRepo" where
  "sample_claimed = TransitionPendingEvaluation ''h1'' 300 sample_queue ''p1'' ''process'' ''worker'' [] 1"

text \<open>
  Between two states of the queue the history of a record grows by a trail from its earlier to its later status, with
  one entry for every version.
\<close>

lemma history_between:
  assumes "pending_step\<^sup>*\<^sup>* r r'" and "tbl_get (pr_data r) i = Some pe"
  shows "\<exists>pe' new. tbl_get (pr_data r') i = Some pe' \<and> pr_entries r' i = pr_entries r i @ new \<and> trail (pe_Status pe) new (pe_Status pe') \<and>
    pe_Version pe' = pe_Version pe + int (length new) \<and> (\<forall>e \<in> set new. ph_PendingEvaluationID e = i)"
  using assms
proof (induction rule: rtranclp_induct)
  case base
  then show ?case by (intro exI [of _ pe] exI [of _ "[]"]) simp
next
  case (step q q')
  then obtain pq new where q: "tbl_get (pr_data q) i = Some pq" "pr_entries q i = pr_entries r i @ new" "trail (pe_Status pe) new (pe_Status pq)"
      "pe_Version pq = pe_Version pe + int (length new)" "\<forall>e \<in> set new. ph_PendingEvaluationID e = i" by blast
  obtain k where "steps_at q q' k" using pending_step_cases [OF step.hyps(2)] ..
  then have "untouched q q' i \<or> committed q q' i" using q(1) by (cases "i = k") (auto simp: steps_at_def)
  then show ?case
  proof
    assume "untouched q q' i"
    with q show ?thesis by (intro exI [of _ pq] exI [of _ new]) (simp add: untouched_def)
  next
    assume "committed q q' i"
    then obtain pq' e where "tbl_get (pr_data q') i = Some pq'" "pe_Version pq' = pe_Version pq + 1" "pr_entries q' i = pr_entries q i @ [e]"
        "ph_FromStatus e = pe_Status pq" "ph_ToStatus e = pe_Status pq'" "ph_PendingEvaluationID e = i"
      using q(1) by (auto simp: committed_def)
    with q show ?thesis by (intro exI [of _ pq'] exI [of _ "new @ [e]"]) (simp add: trail_snoc)
  qed
qed

lemma pending_reachable_ok: "pending_step\<^sup>*\<^sup>* NewMemoryPendingEvaluationRepo r \<Longrightarrow> pending_ok r"
proof (induction rule: rtranclp_induct)
  case base
  show ?case
    by (simp add: pending_ok_def record_trail_def NewMemoryPendingEvaluationRepo_def pr_entries_def tbl_simps)
qed (rule pending_ok_step)

text \<open>
  C18. The queue keeps an unbroken and complete audit trail. Whatever sequence of creations,
  transitions, alert links, status updates (no atomic section being rolled back) and retry counts runs
  after a record was created (under an identifier that is not in use), the record is there, its history
  is a trail that starts at the status the record was created with and ends at the status it has now,
  holds only that record's entries, and has exactly one entry for every version since the creation, so
  that no change is unrecorded; later operations only append to it.\<close>

theorem pending_audit_trail:
  assumes "pending_step\<^sup>*\<^sup>* NewMemoryPendingEvaluationRepo r0" and "tbl_get (pr_data r0) (pe_ID pe) = None"
    and "pending_step\<^sup>*\<^sup>* (PE_Create now r0 pe) r1" and "pending_step\<^sup>*\<^sup>* r1 r2"
  shows "\<exists>pe1 pe2 new. tbl_get (pr_data r1) (pe_ID pe) = Some pe1 \<and> tbl_get (pr_data r2) (pe_ID pe) = Some pe2 \<and>
    trail (pe_Status pe) (pr_entries r1 (pe_ID pe)) (pe_Status pe1) \<and>
    pe_Version pe1 = (if pe_Version pe = 0 then 1 else pe_Version pe) + int (length (pr_entries r1 (pe_ID pe))) \<and>
    (\<forall>e \<in> set (pr_entries r1 (pe_ID pe)). ph_PendingEvaluationID e = pe_ID pe) \<and>
    pr_entries r2 (pe_ID pe) = pr_entries r1 (pe_ID pe) @ new \<and> trail (pe_Status pe1) new (pe_Status pe2) \<and>
    pe_Version pe2 = pe_Version pe1 + int (length new)"
proof -
  have "pr_entries r0 (pe_ID pe) = []"
    using spec [OF pending_reachable_ok [OF assms(1), unfolded pending_ok_def], of "pe_ID pe"] by (simp add: record_trail_def assms(2))
  then have "pr_entries (PE_Create now r0 pe) (pe_ID pe) = []" by (simp add: PE_Create_def pr_entries_def Let_def)
  moreover obtain pe0 where "tbl_get (pr_data (PE_Create now r0 pe)) (pe_ID pe) = Some pe0" "pe_Status pe0 = pe_Status pe"
      "pe_Version pe0 = (if pe_Version pe = 0 then 1 else pe_Version pe)"
    by (simp add: PE_Create_def Let_def tbl_simps)
  ultimately obtain pe1 where pe1: "tbl_get (pr_data r1) (pe_ID pe) = Some pe1" "trail (pe_Status pe) (pr_entries r1 (pe_ID pe)) (pe_Status pe1)"
      "pe_Version pe1 = (if pe_Version pe = 0 then 1 else pe_Version pe) + int (length (pr_entries r1 (pe_ID pe)))"
      "\<forall>e \<in> set (pr_entries r1 (pe_ID pe)). ph_PendingEvaluationID e = pe_ID pe"
    using history_between [OF assms(3), of "pe_ID pe"] by force
  with history_between [OF assms(4) pe1(1)] show ?thesis by blast
qed

theorem pending_audit_trail_witness:
  "\<exists>pe1. tbl_get (pr_data (snd sample_claimed)) ''p1'' = Some pe1 \<and> length (pr_entries (snd sample_claimed) ''p1'') = 1 \<and>
     trail PendingEvaluationStatusPendingReview (pr_entries (snd sample_claimed) ''p1'') (pe_Status pe1) \<and> pe_Version pe1 = 2"
proof -
  have "pending_step sample_queue (snd sample_claimed)"
    unfolding sample_claimed_def by (rule transition)
  then have run: "pending_step\<^sup>*\<^sup>* (PE_Create 200 NewMemoryPendingEvaluationRepo sample_pending) (snd sample_claimed)"
    unfolding sample_queue_def by (rule r_into_rtranclp)
  have "length (pr_entries (snd sample_claimed) ''p1'') = 1" by code_simp
  moreover have "tbl_get (pr_data NewMemoryPendingEvaluationRepo) (pe_ID sample_pending) = None"
    by (simp add: NewMemoryPendingEvaluationRepo_def tbl_simps)
  moreover have "pe_ID sample_pending = ''p1''" "pe_Version sample_pending = 0" "pe_Status sample_pending = PendingEvaluationStatusPendingReview"
    by (simp_all add: sample_pending_def)
  ultimately show ?thesis
    using pending_audit_trail [OF rtranclp.rtrancl_refl _ run rtranclp.rtrancl_refl] by auto
qed

text \<open>
  C17. Optimistic locking admits one winner: once a transition that named a version has changed a
  record, no later transition that names the same version takes effect, whatever other operations
  ran in between; it is refused with a version conflict.\<close>

theorem pending_single_winner:
  assumes "TransitionPendingEvaluation newid now r i action actor reason v = (Inr pe, r1)" and "r1 \<noteq> r"
    and "pending_step\<^sup>*\<^sup>* r1 r2"
  shows "TransitionPendingEvaluation newid2 now2 r2 i action2 actor2 reason2 v = (Inl (pe_conflict i ''version mismatch''), r2)"
proof -
  obtain pe0 pe1 where "tbl_get (pr_data r) i = Some pe0" "pe_Version pe0 = v" "0 < v"
    "tbl_get (pr_data r1) i = Some pe1" "pe_Version pe1 = v + 1"
    using transition_cases [OF assms(1)] assms(1,2)
    by (auto simp: committed_def TransitionPendingEvaluation_def split: if_splits)
  moreover from this obtain pe2 where "tbl_get (pr_data r2) i = Some pe2" "pe_Version pe1 \<le> pe_Version pe2"
    using version_grows [OF assms(3)] by blast
  ultimately show ?thesis
    by (simp add: TransitionPendingEvaluation_def)
qed

theorem pending_single_winner_witness:
  "TransitionPendingEvaluation ''h2'' 400 (snd sample_claimed) ''p1'' ''escalate'' ''other'' [] 1 =
     (Inl (pe_conflict ''p1'' ''version mismatch''), snd sample_claimed)"
proof (rule pending_single_winner)
  have "map_sum (\<lambda>_. ()) pe_Version (fst sample_claimed) = Inr 2" and changed: "pr_history (snd sample_claimed) \<noteq> pr_history sample_queue"
    by code_simp+
  then obtain pe where "fst sample_claimed = Inr pe"
    by (cases "fst sample_claimed") auto
  then show "TransitionPendingEvaluation ''h1'' 300 sample_queue ''p1'' ''process'' ''worker'' [] 1 = (Inr (projr (fst sample_claimed)), snd sample_claimed)"
    by (simp add: sample_claimed_def [symmetric] prod_eq_iff)
  show "snd sample_claimed \<noteq> sample_queue"
    using changed by metis
qed simp

end
