(* ===== verification/Event_Outbox.thy ===== *)
theory Event_Outbox
  imports Identifiers Prelude "HOL-Library.Sublist"
begin

text \<open>
  The transactional event outbox (\<^verbatim>\<open>domain/outbox.go\<close>, \<^verbatim>\<open>store/event_outbox_memory.go\<close>) and the worker
  that publishes its rows on the bus (\<^verbatim>\<open>server/event_outbox_worker.go\<close>). The worker is written over the
  repository interface; here it takes the operations it calls as arguments, the locale
  \<open>event_outbox\<close> states what it relies on, and the memory repository is an interpretation. The bus
  is a function from events to an optional error text, the clock is read from a parameter. Sequence
  numbers are unbounded here; the code's 64-bit counter would need 2^63 events to wrap.
\<close>

subsection \<open>Data\<close>

record DurableEvent =
  de_ID :: string
  de_Topic :: string
  de_Payload :: string
  de_SequenceNum :: int
  de_ChainID :: string
  de_ChainHopCount :: int
  de_Attempts :: int
  de_LastError :: string
  de_CreatedAt :: time
  de_NextAttemptAt :: "time option"
  de_PublishedAt :: "time option"

record Event =
  be_ID :: string
  be_Topic :: string
  be_Payload :: string
  be_SequenceNum :: int
  be_ChainID :: string
  be_ChainHopCount :: int
  be_CreatedAt :: time

record MemoryEventOutboxRepo =
  eo_events :: "DurableEvent list"
  eo_nextSequence :: int
  eo_enqueueFailure :: "go_error option"

definition NewMemoryEventOutboxRepo :: MemoryEventOutboxRepo where
  "NewMemoryEventOutboxRepo = \<lparr>eo_events = [], eo_nextSequence = 1, eo_enqueueFailure = None\<rparr>"

subsection \<open>The memory repository\<close>

definition SetEnqueueFailure :: "MemoryEventOutboxRepo \<Rightarrow> go_error option \<Rightarrow> MemoryEventOutboxRepo" where
  "SetEnqueueFailure r err = r\<lparr>eo_enqueueFailure := err\<rparr>"

text \<open>The caller's event is overwritten by the stored one, which is the result of a success.\<close>

definition Enqueue :: "time \<Rightarrow> MemoryEventOutboxRepo \<Rightarrow> DurableEvent option \<Rightarrow> DurableEvent result \<times> MemoryEventOutboxRepo" where
  "Enqueue now r event =
    (case event of
       None \<Rightarrow> (Inl (ErrText ''durable event id and topic are required''), r)
     | Some e \<Rightarrow>
         if TrimSpace (de_ID e) = [] \<or> TrimSpace (de_Topic e) = [] then (Inl (ErrText ''durable event id and topic are required''), r)
         else if de_Payload e = [] then (Inl (ErrText ''durable event payload is required''), r)
         else (case eo_enqueueFailure r of
           Some err \<Rightarrow> (Inl err, r)
         | None \<Rightarrow>
             if list_ex (\<lambda>x. de_ID x = de_ID e) (eo_events r)
             then (Inl (ErrConflict ''domain_event_outbox'' (de_ID e) ''event already exists''), r)
             else let e' = e\<lparr>de_SequenceNum := eo_nextSequence r,
                             de_CreatedAt := (if IsZero (de_CreatedAt e) then now else de_CreatedAt e)\<rparr>
                  in (Inr e', r\<lparr>eo_events := eo_events r @ [e'], eo_nextSequence := eo_nextSequence r + 1\<rparr>)))"

definition due :: "time \<Rightarrow> DurableEvent \<Rightarrow> bool" where
  "due now e \<longleftrightarrow> \<not> (de_PublishedAt e \<noteq> None \<or> (case de_NextAttemptAt e of None \<Rightarrow> False | Some t \<Rightarrow> t > now))"

definition ListPending :: "time \<Rightarrow> MemoryEventOutboxRepo \<Rightarrow> int \<Rightarrow> DurableEvent list" where
  "ListPending now r limit =
    (let out = filter (due now) (eo_events r) in if limit > 0 then take (nat limit) out else out)"

definition ListAfter :: "MemoryEventOutboxRepo \<Rightarrow> string \<Rightarrow> int \<Rightarrow> int \<Rightarrow> DurableEvent list" where
  "ListAfter r topic afterSequence limit =
    (let out = go_sort (\<lambda>x y. de_SequenceNum x < de_SequenceNum y)
           (filter (\<lambda>e. \<not> (de_Topic e \<noteq> topic \<or> de_SequenceNum e \<le> afterSequence)) (eo_events r))
     in if limit > 0 \<and> int (length out) > limit then take (nat limit) out else out)"

text \<open>The loops that change the first matching row and return, or run off the end.\<close>

fun update_first :: "('a \<Rightarrow> bool) \<Rightarrow> ('a \<Rightarrow> 'a) \<Rightarrow> 'a list \<Rightarrow> 'a list option" where
  "update_first P f [] = None"
| "update_first P f (x # xs) = (if P x then Some (f x # xs) else map_option ((#) x) (update_first P f xs))"

definition update_event ::
  "MemoryEventOutboxRepo \<Rightarrow> string \<Rightarrow> (DurableEvent \<Rightarrow> bool) \<Rightarrow> (DurableEvent \<Rightarrow> DurableEvent) \<Rightarrow> unit result \<times> MemoryEventOutboxRepo" where
  "update_event r i P f =
    (case update_first P f (eo_events r) of
       None \<Rightarrow> (Inl (ErrNotFound ''domain_event_outbox'' i), r)
     | Some es \<Rightarrow> (Inr (), r\<lparr>eo_events := es\<rparr>))"

definition MarkPublished :: "MemoryEventOutboxRepo \<Rightarrow> string \<Rightarrow> time \<Rightarrow> unit result \<times> MemoryEventOutboxRepo" where
  "MarkPublished r i at' = update_event r i (\<lambda>e. de_ID e = i)
     (\<lambda>e. e\<lparr>de_PublishedAt := Some at', de_NextAttemptAt := None, de_LastError := []\<rparr>)"

definition RecordFailure :: "MemoryEventOutboxRepo \<Rightarrow> string \<Rightarrow> string option \<Rightarrow> time \<Rightarrow> unit result \<times> MemoryEventOutboxRepo" where
  "RecordFailure r i eventErr nextAttemptAt = update_event r i (\<lambda>e. \<not> (de_ID e \<noteq> i \<or> de_PublishedAt e \<noteq> None))
     (\<lambda>e. e\<lparr>de_Attempts := de_Attempts e + 1,
            de_LastError := (case eventErr of None \<Rightarrow> ''event publication failed'' | Some m \<Rightarrow> m),
            de_NextAttemptAt := Some nextAttemptAt\<rparr>)"

text \<open>What a failed atomic section puts back of its copy (\<^verbatim>\<open>store/atomic_memory.go\<close>, \<^verbatim>\<open>restore\<close>).\<close>

definition restore_outbox :: "MemoryEventOutboxRepo \<Rightarrow> MemoryEventOutboxRepo \<Rightarrow> MemoryEventOutboxRepo" where
  "restore_outbox snapshot r = r\<lparr>eo_events := eo_events snapshot, eo_nextSequence := eo_nextSequence snapshot\<rparr>"

subsection \<open>The worker\<close>

definition eventOutboxBatchSize :: int where
  "eventOutboxBatchSize = 100"

definition outboxBackoff :: "int \<Rightarrow> duration" where
  "outboxBackoff attempt =
    (let attempt = (if attempt < 1 then 1 else attempt);
         attempt = (if attempt > 8 then 8 else attempt)
     in 2 ^ nat (attempt - 1) * Second)"

definition event_of :: "DurableEvent \<Rightarrow> Event" where
  "event_of d = \<lparr>be_ID = de_ID d, be_Topic = de_Topic d, be_Payload = de_Payload d, be_SequenceNum = de_SequenceNum d,
     be_ChainID = de_ChainID d, be_ChainHopCount = de_ChainHopCount d, be_CreatedAt = de_CreatedAt d\<rparr>"

text \<open>
  One pass of the worker: \<open>mark\<close> and \<open>record_failure\<close> are the repository's operations (their errors
  are only logged), \<open>publish\<close> the bus and \<open>clock\<close> the time at which a row is handled. The result lists the
  events the bus accepted.
\<close>

fun publish_rows ::
  "('r \<Rightarrow> string \<Rightarrow> time \<Rightarrow> unit result \<times> 'r) \<Rightarrow> ('r \<Rightarrow> string \<Rightarrow> string option \<Rightarrow> time \<Rightarrow> unit result \<times> 'r) \<Rightarrow>
     (Event \<Rightarrow> string option) \<Rightarrow> (string \<Rightarrow> time) \<Rightarrow> DurableEvent list \<Rightarrow> 'r \<Rightarrow> Event list \<times> 'r" where
  "publish_rows mark record_failure publish clock [] r = ([], r)"
| "publish_rows mark record_failure publish clock (d # ds) r =
    (case publish (event_of d) of
       Some err \<Rightarrow>
         publish_rows mark record_failure publish clock ds
           (snd (record_failure r (de_ID d) (Some err) (clock (de_ID d) + outboxBackoff (de_Attempts d + 1))))
     | None \<Rightarrow>
         let (out, r') = publish_rows mark record_failure publish clock ds (snd (mark r (de_ID d) (clock (de_ID d))))
         in (event_of d # out, r'))"

definition outbox_run ::
  "(time \<Rightarrow> 'r \<Rightarrow> int \<Rightarrow> DurableEvent list) \<Rightarrow> ('r \<Rightarrow> string \<Rightarrow> time \<Rightarrow> unit result \<times> 'r) \<Rightarrow>
     ('r \<Rightarrow> string \<Rightarrow> string option \<Rightarrow> time \<Rightarrow> unit result \<times> 'r) \<Rightarrow>
     (Event \<Rightarrow> string option) \<Rightarrow> (string \<Rightarrow> time) \<Rightarrow> time \<Rightarrow> 'r \<Rightarrow> Event list \<times> 'r" where
  "outbox_run list_pending mark record_failure publish clock now r =
     publish_rows mark record_failure publish clock (list_pending now r eventOutboxBatchSize) r"

text \<open>The ticker: one pass for every time in the list.\<close>

fun RunEventOutboxWorker ::
  "(time \<Rightarrow> 'r \<Rightarrow> int \<Rightarrow> DurableEvent list) \<Rightarrow> ('r \<Rightarrow> string \<Rightarrow> time \<Rightarrow> unit result \<times> 'r) \<Rightarrow>
     ('r \<Rightarrow> string \<Rightarrow> string option \<Rightarrow> time \<Rightarrow> unit result \<times> 'r) \<Rightarrow>
     (Event \<Rightarrow> string option) \<Rightarrow> (string \<Rightarrow> time) \<Rightarrow> time list \<Rightarrow> 'r \<Rightarrow> Event list \<times> 'r" where
  "RunEventOutboxWorker list_pending mark record_failure publish clock [] r = ([], r)"
| "RunEventOutboxWorker list_pending mark record_failure publish clock (now # ticks) r =
    (let (out, r') = outbox_run list_pending mark record_failure publish clock now r;
         (out', r'') = RunEventOutboxWorker list_pending mark record_failure publish clock ticks r'
     in (out @ out', r''))"

subsection \<open>The system and its specification\<close>

text \<open>
  The worker beside the requests that enqueue events: a state is the repository, the rows the worker
  has read and not handled yet, and the events the bus has accepted. A request enqueues events that
  are not published yet. In this system no request is rolled back.
\<close>

inductive outbox_step ::
  "(time \<Rightarrow> 'r \<Rightarrow> DurableEvent option \<Rightarrow> DurableEvent result \<times> 'r) \<Rightarrow> (time \<Rightarrow> 'r \<Rightarrow> int \<Rightarrow> DurableEvent list) \<Rightarrow>
     ('r \<Rightarrow> string \<Rightarrow> time \<Rightarrow> unit result \<times> 'r) \<Rightarrow> ('r \<Rightarrow> string \<Rightarrow> string option \<Rightarrow> time \<Rightarrow> unit result \<times> 'r) \<Rightarrow>
     'r \<times> DurableEvent list \<times> Event list \<Rightarrow> 'r \<times> DurableEvent list \<times> Event list \<Rightarrow> bool"
  for enqueue list_pending mark record_failure where
  request: "(\<And>d. e = Some d \<Longrightarrow> de_PublishedAt d = None) \<Longrightarrow>
    outbox_step enqueue list_pending mark record_failure (r, todo, sent) (snd (enqueue now r e), todo, sent)"
| poll: "outbox_step enqueue list_pending mark record_failure (r, [], sent) (r, list_pending now r eventOutboxBatchSize, sent)"
| accepted: "outbox_step enqueue list_pending mark record_failure (r, d # todo, sent) (snd (mark r (de_ID d) now), todo, sent @ [event_of d])"
| refused: "outbox_step enqueue list_pending mark record_failure (r, d # todo, sent)
    (snd (record_failure r (de_ID d) err (now + outboxBackoff (de_Attempts d + 1))), todo, sent)"

text \<open>
  Requests enqueue inside an atomic section, which takes a copy of the outbox first and puts it back
  when the request fails; sections exclude one another, and the worker runs beside them without taking
  part. The fourth component is the copy of the section that is open; the flag says whether sections may
  be rolled back.
\<close>

type_synonym 'r outbox_state = "'r \<times> DurableEvent list \<times> Event list \<times> 'r option"

inductive atomic_outbox_step ::
  "bool \<Rightarrow> (time \<Rightarrow> 'r \<Rightarrow> DurableEvent option \<Rightarrow> DurableEvent result \<times> 'r) \<Rightarrow> (time \<Rightarrow> 'r \<Rightarrow> int \<Rightarrow> DurableEvent list) \<Rightarrow>
     ('r \<Rightarrow> string \<Rightarrow> time \<Rightarrow> unit result \<times> 'r) \<Rightarrow> ('r \<Rightarrow> string \<Rightarrow> string option \<Rightarrow> time \<Rightarrow> unit result \<times> 'r) \<Rightarrow>
     ('r \<Rightarrow> 'r \<Rightarrow> 'r) \<Rightarrow> 'r outbox_state \<Rightarrow> 'r outbox_state \<Rightarrow> bool"
  for rollbacks enqueue list_pending mark record_failure restore where
  begin_section: "atomic_outbox_step rollbacks enqueue list_pending mark record_failure restore (r, todo, sent, None) (r, todo, sent, Some r)"
| enqueue: "(\<And>d. e = Some d \<Longrightarrow> de_PublishedAt d = None) \<Longrightarrow>
    atomic_outbox_step rollbacks enqueue list_pending mark record_failure restore
      (r, todo, sent, Some snapshot) (snd (enqueue now r e), todo, sent, Some snapshot)"
| commit: "atomic_outbox_step rollbacks enqueue list_pending mark record_failure restore (r, todo, sent, Some snapshot) (r, todo, sent, None)"
| rollback: "rollbacks \<Longrightarrow>
    atomic_outbox_step rollbacks enqueue list_pending mark record_failure restore
      (r, todo, sent, Some snapshot) (restore snapshot r, todo, sent, None)"
| worker_poll: "atomic_outbox_step rollbacks enqueue list_pending mark record_failure restore
    (r, [], sent, snap) (r, list_pending now r eventOutboxBatchSize, sent, snap)"
| worker_accepted: "atomic_outbox_step rollbacks enqueue list_pending mark record_failure restore
    (r, d # todo, sent, snap) (snd (mark r (de_ID d) now), todo, sent @ [event_of d], snap)"
| worker_refused: "atomic_outbox_step rollbacks enqueue list_pending mark record_failure restore
    (r, d # todo, sent, snap) (snd (record_failure r (de_ID d) err (now + outboxBackoff (de_Attempts d + 1))), todo, sent, snap)"

text \<open>
  The specification: an append-only log whose entries are numbered consecutively and have distinct
  identifiers, and a delivery that takes entries of the log, each at most once.
\<close>

record delivery =
  dl_log :: "Event list"
  dl_sent :: "Event list"

inductive log_step :: "delivery \<Rightarrow> delivery \<Rightarrow> bool" where
  append: "be_ID e \<notin> be_ID ` set (dl_log l) \<Longrightarrow> be_SequenceNum e = int (length (dl_log l)) + 1 \<Longrightarrow>
    log_step l (l\<lparr>dl_log := dl_log l @ [e]\<rparr>)"
| deliver: "e \<in> set (dl_log l) \<Longrightarrow> e \<notin> set (dl_sent l) \<Longrightarrow> log_step l (l\<lparr>dl_sent := dl_sent l @ [e]\<rparr>)"

lemma event_of_ID [simp]: "be_ID (event_of d) = de_ID d"
  by (simp add: event_of_def)

text \<open>What the worker relies on: the log a repository stands for and the identifiers acknowledged so far.\<close>

locale event_outbox =
  fixes enqueue :: "time \<Rightarrow> 'r \<Rightarrow> DurableEvent option \<Rightarrow> DurableEvent result \<times> 'r"
    and list_pending :: "time \<Rightarrow> 'r \<Rightarrow> int \<Rightarrow> DurableEvent list"
    and mark :: "'r \<Rightarrow> string \<Rightarrow> time \<Rightarrow> unit result \<times> 'r"
    and record_failure :: "'r \<Rightarrow> string \<Rightarrow> string option \<Rightarrow> time \<Rightarrow> unit result \<times> 'r"
    and ok :: "'r \<Rightarrow> bool"
    and log_of :: "'r \<Rightarrow> Event list"
    and acked :: "'r \<Rightarrow> string set"
  assumes log_distinct: "ok r \<Longrightarrow> distinct (map be_ID (log_of r))"
    and enqueue_error: "enqueue now r event = (Inl err, r') \<Longrightarrow> r' = r"
    and enqueue_ok: "ok r \<Longrightarrow> enqueue now r (Some e) = (Inr d, r') \<Longrightarrow> de_PublishedAt e = None \<Longrightarrow>
      ok r' \<and> log_of r' = log_of r @ [event_of d] \<and> acked r' = acked r \<and>
      de_SequenceNum d = int (length (log_of r)) + 1 \<and> de_ID d \<notin> be_ID ` set (log_of r) \<and> de_ID d \<notin> acked r"
    and enqueue_nil: "\<exists>err. enqueue now r None = (Inl err, r)"
    and list_pending: "ok r \<Longrightarrow>
      subseq (map event_of (list_pending now r limit)) (filter (\<lambda>e. be_ID e \<notin> acked r) (log_of r))"
    and mark: "ok r \<Longrightarrow> i \<in> be_ID ` set (log_of r) \<Longrightarrow>
      ok (snd (mark r i now)) \<and> log_of (snd (mark r i now)) = log_of r \<and> acked (snd (mark r i now)) = insert i (acked r)"
    and record_failure: "ok r \<Longrightarrow> ok (snd (record_failure r i why at')) \<and>
      log_of (snd (record_failure r i why at')) = log_of r \<and> acked (snd (record_failure r i why at')) = acked r"
begin

definition worker_ok :: "'r \<times> DurableEvent list \<times> Event list \<Rightarrow> bool" where
  "worker_ok s \<longleftrightarrow> (case s of (r, todo, sent) \<Rightarrow>
     ok r \<and> distinct (map de_ID todo) \<and> event_of ` set todo \<subseteq> {e \<in> set (log_of r). be_ID e \<notin> acked r} \<and>
     set sent = {e \<in> set (log_of r). be_ID e \<in> acked r})"

definition delivery_of :: "'r \<times> DurableEvent list \<times> Event list \<Rightarrow> delivery" where
  "delivery_of s = (case s of (r, todo, sent) \<Rightarrow> \<lparr>dl_log = log_of r, dl_sent = sent\<rparr>)"

lemma same_event: "ok r \<Longrightarrow> e \<in> set (log_of r) \<Longrightarrow> e' \<in> set (log_of r) \<Longrightarrow> be_ID e = be_ID e' \<Longrightarrow> e = e'"
  using log_distinct by (meson distinct_map inj_onD)

lemma polled_distinct:
  assumes "ok r"
  shows "distinct (map de_ID (list_pending now r limit))"
proof -
  have "distinct (map be_ID (filter (\<lambda>e. be_ID e \<notin> acked r) (log_of r)))"
    using log_distinct [OF assms] by (simp add: distinct_map_filter)
  moreover have "subseq (map be_ID (map event_of (list_pending now r limit))) (map be_ID (filter (\<lambda>e. be_ID e \<notin> acked r) (log_of r)))"
    using list_pending [OF assms] by (rule subseq_map)
  ultimately have "distinct (map be_ID (map event_of (list_pending now r limit)))"
    unfolding subseq_conv_nths by (metis distinct_nthsI)
  then show ?thesis
    by (simp add: comp_def event_of_def)
qed

lemma step_refines:
  assumes "outbox_step enqueue list_pending mark record_failure s s'" and "worker_ok s"
  shows "worker_ok s' \<and> log_step\<^sup>=\<^sup>= (delivery_of s) (delivery_of s')"
  using assms
proof (cases rule: outbox_step.cases)
  case (request e r todo sent now)
  show ?thesis
  proof (cases "\<exists>d d'. e = Some d \<and> fst (enqueue now r e) = Inr d'")
    case True
    then obtain d d' r' where d: "e = Some d" "enqueue now r (Some d) = (Inr d', r')"
      by (metis prod.collapse)
    have r': "ok r'" "log_of r' = log_of r @ [event_of d']" "acked r' = acked r"
      "de_SequenceNum d' = int (length (log_of r)) + 1" "de_ID d' \<notin> be_ID ` set (log_of r)" "de_ID d' \<notin> acked r"
      using enqueue_ok [OF _ d(2)] request d assms(2) by (auto simp: worker_ok_def)
    have "log_step \<lparr>dl_log = log_of r, dl_sent = sent\<rparr> \<lparr>dl_log = log_of r @ [event_of d'], dl_sent = sent\<rparr>"
      using append [of "event_of d'" "\<lparr>dl_log = log_of r, dl_sent = sent\<rparr>"] r' by (simp add: event_of_def)
    then show ?thesis
      using assms(2) request d r' by (auto simp: worker_ok_def delivery_of_def event_of_def)
  next
    case False
    then have "snd (enqueue now r e) = r"
      using enqueue_error enqueue_nil by (metis old.sum.exhaust option.exhaust prod.collapse snd_conv)
    then show ?thesis
      using assms(2) request by simp
  qed
next
  case (poll r sent now)
  have "event_of ` set (list_pending now r eventOutboxBatchSize) \<subseteq> {e \<in> set (log_of r). be_ID e \<notin> acked r}" if "ok r"
  proof -
    have "set (map event_of (list_pending now r eventOutboxBatchSize)) \<subseteq> set (filter (\<lambda>e. be_ID e \<notin> acked r) (log_of r))"
      using list_pending [OF that] unfolding subseq_conv_nths by (metis set_nths_subset)
    then show ?thesis by simp
  qed
  then show ?thesis
    using assms(2) poll polled_distinct by (simp add: worker_ok_def delivery_of_def)
next
  case (accepted r d todo sent now)
  have ok: "ok r" and d: "event_of d \<in> set (log_of r)" "be_ID (event_of d) \<notin> acked r" and others: "de_ID d \<notin> de_ID ` set todo"
    and todo: "event_of ` set todo \<subseteq> {e \<in> set (log_of r). be_ID e \<notin> acked r}" "distinct (map de_ID todo)"
    and sent: "set sent = {e \<in> set (log_of r). be_ID e \<in> acked r}"
    using assms(2) accepted by (auto simp: worker_ok_def)
  have "de_ID d \<in> be_ID ` set (log_of r)"
    using d(1) by (metis event_of_ID imageI)
  then have r': "ok (snd (mark r (de_ID d) now))" "log_of (snd (mark r (de_ID d) now)) = log_of r"
    "acked (snd (mark r (de_ID d) now)) = insert (de_ID d) (acked r)"
    using mark [OF ok] by simp_all
  have "log_step \<lparr>dl_log = log_of r, dl_sent = sent\<rparr> \<lparr>dl_log = log_of r, dl_sent = sent @ [event_of d]\<rparr>"
    using deliver [of "event_of d" "\<lparr>dl_log = log_of r, dl_sent = sent\<rparr>"] d sent by simp
  moreover have "set (sent @ [event_of d]) = {e \<in> set (log_of r). be_ID e \<in> insert (de_ID d) (acked r)}"
  proof -
    have same: "be_ID e = de_ID d \<longleftrightarrow> e = event_of d" if "e \<in> set (log_of r)" for e
      using same_event [OF ok that d(1)] by auto
    then show ?thesis
      unfolding set_append sent using d(1) by (auto simp: same)
  qed
  moreover have "event_of ` set todo \<subseteq> {e \<in> set (log_of r). be_ID e \<notin> insert (de_ID d) (acked r)}"
  proof -
    have "de_ID x \<noteq> de_ID d" if "x \<in> set todo" for x
      using others that by (metis imageI)
    then show ?thesis
      using todo(1) by auto
  qed
  ultimately show ?thesis
    using accepted r' todo by (simp add: worker_ok_def delivery_of_def)
next
  case (refused r d todo sent err now)
  then show ?thesis
    using assms(2) record_failure [of r] by (simp add: worker_ok_def delivery_of_def)
qed

lemma run_refines:
  assumes "(outbox_step enqueue list_pending mark record_failure)\<^sup>*\<^sup>* s s'" and "worker_ok s"
  shows "worker_ok s' \<and> log_step\<^sup>*\<^sup>* (delivery_of s) (delivery_of s')"
  using assms
proof (induction rule: rtranclp_induct)
  case (step t t')
  then show ?case
    using step_refines [OF step(2)] by (auto intro: rtranclp.rtrancl_into_rtrancl)
qed simp

end

text \<open>An outbox that atomic sections roll back.\<close>

locale atomic_event_outbox = event_outbox +
  fixes restore :: "'a \<Rightarrow> 'a \<Rightarrow> 'a"
  assumes restore: "ok snapshot \<Longrightarrow> ok (restore snapshot r) \<and> log_of (restore snapshot r) = log_of snapshot \<and>
      acked (restore snapshot r) = acked snapshot"
    and mark_absent: "i \<notin> be_ID ` set (log_of r) \<Longrightarrow> snd (mark r i now) = r"
begin

text \<open>The log of the requests that are through: inside a section, that of the copy.\<close>

definition committed :: "'a outbox_state \<Rightarrow> Event list" where
  "committed s = (case s of (r, todo, sent, snap) \<Rightarrow> log_of (case snap of None \<Rightarrow> r | Some snapshot \<Rightarrow> snapshot))"

definition atomic_ok :: "'a outbox_state \<Rightarrow> bool" where
  "atomic_ok s \<longleftrightarrow> (case s of (r, todo, sent, snap) \<Rightarrow> ok r \<and> acked r \<subseteq> be_ID ` set sent \<and>
     (\<forall>snapshot. snap = Some snapshot \<longrightarrow> ok snapshot \<and> acked snapshot \<subseteq> be_ID ` set sent \<and> prefix (log_of snapshot) (log_of r)))"

lemma enqueue_extends:
  assumes "ok r" and "\<And>d. e = Some d \<Longrightarrow> de_PublishedAt d = None"
  shows "ok (snd (enqueue now r e)) \<and> prefix (log_of r) (log_of (snd (enqueue now r e))) \<and> acked (snd (enqueue now r e)) = acked r"
proof (cases "\<exists>d d'. e = Some d \<and> fst (enqueue now r e) = Inr d'")
  case True
  then obtain d d' r' where d: "e = Some d" "enqueue now r (Some d) = (Inr d', r')" by (metis prod.collapse)
  then show ?thesis using enqueue_ok [OF assms(1) d(2)] assms(2) by simp
next
  case False
  then have "snd (enqueue now r e) = r"
    using enqueue_error enqueue_nil by (metis old.sum.exhaust option.exhaust prod.collapse snd_conv)
  then show ?thesis using assms(1) by simp
qed

lemma mark_any:
  assumes "ok r"
  shows "ok (snd (mark r i now)) \<and> log_of (snd (mark r i now)) = log_of r \<and> acked (snd (mark r i now)) \<subseteq> insert i (acked r)"
  using mark [OF assms, of i now] mark_absent [of i r now] assms by (cases "i \<in> be_ID ` set (log_of r)") auto

lemma atomic_step_ok:
  assumes "atomic_outbox_step rollbacks enqueue list_pending mark record_failure restore s s'" and "atomic_ok s"
  shows "atomic_ok s' \<and> prefix (committed s) (committed s')"
  using assms
proof (induction rule: atomic_outbox_step.induct)
  case (enqueue e r todo sent snapshot now)
  then show ?case using enqueue_extends [of r e now] by (auto simp: atomic_ok_def committed_def)
next
  case (rollback r todo sent snapshot)
  then show ?case using restore [of snapshot r] by (auto simp: atomic_ok_def committed_def)
next
  case (worker_accepted r d todo sent snap now)
  then show ?case using mark_any [of r "de_ID d" now] by (auto simp: atomic_ok_def committed_def split: option.split)
next
  case (worker_refused r d todo sent snap err now)
  then show ?case using record_failure [of r] by (auto simp: atomic_ok_def committed_def split: option.split)
qed (auto simp: atomic_ok_def committed_def split: option.split)

lemma atomic_run_ok:
  assumes "(atomic_outbox_step rollbacks enqueue list_pending mark record_failure restore)\<^sup>*\<^sup>* s s'" and "atomic_ok s"
  shows "atomic_ok s' \<and> prefix (committed s) (committed s')"
  using assms
proof (induction rule: rtranclp_induct)
  case (step t t')
  then show ?case using atomic_step_ok [OF step(2)] by (auto intro: prefix_order.order_trans)
qed simp

text \<open>Without rollbacks the sections are invisible.\<close>

lemma unrolled_step:
  assumes "atomic_outbox_step False enqueue list_pending mark record_failure restore s s'"
  shows "(outbox_step enqueue list_pending mark record_failure)\<^sup>=\<^sup>= (fst s, fst (snd s), fst (snd (snd s))) (fst s', fst (snd s'), fst (snd (snd s')))"
  using assms
proof (induction rule: atomic_outbox_step.induct)
  case (enqueue e r todo sent snapshot now)
  then show ?case by (auto intro: outbox_step.request)
qed (auto intro: outbox_step.intros)

lemma unrolled_run:
  assumes "(atomic_outbox_step False enqueue list_pending mark record_failure restore)\<^sup>*\<^sup>* s (r, todo, sent, snap)"
  shows "(outbox_step enqueue list_pending mark record_failure)\<^sup>*\<^sup>* (fst s, fst (snd s), fst (snd (snd s))) (r, todo, sent)"
proof -
  have "(outbox_step enqueue list_pending mark record_failure)\<^sup>*\<^sup>* (fst s, fst (snd s), fst (snd (snd s))) (fst s', fst (snd s'), fst (snd (snd s')))"
    if "(atomic_outbox_step False enqueue list_pending mark record_failure restore)\<^sup>*\<^sup>* s s'" for s'
    using that
  proof (induction rule: rtranclp_induct)
    case (step t t')
    from unrolled_step [OF step(2)] step(3) show ?case by (auto intro: rtranclp.rtrancl_into_rtrancl)
  qed simp
  from this [OF assms] show ?thesis by simp
qed

end

subsection \<open>The memory repository implements the outbox\<close>

definition log_of :: "MemoryEventOutboxRepo \<Rightarrow> Event list" where
  "log_of r = map event_of (eo_events r)"

definition acked :: "MemoryEventOutboxRepo \<Rightarrow> string set" where
  "acked r = {de_ID d | d. d \<in> set (eo_events r) \<and> de_PublishedAt d \<noteq> None}"

definition outbox_ok :: "MemoryEventOutboxRepo \<Rightarrow> bool" where
  "outbox_ok r \<longleftrightarrow> distinct (map de_ID (eo_events r)) \<and>
     map de_SequenceNum (eo_events r) = map int [1..<length (eo_events r) + 1] \<and>
     eo_nextSequence r = int (length (eo_events r)) + 1"

lemma update_first_map:
  "update_first P f xs = Some ys \<Longrightarrow> (\<And>x. g (f x) = g x) \<Longrightarrow> map g ys = map g xs"
  by (induction xs arbitrary: ys) (auto split: if_splits)

lemma update_first_unique:
  assumes "distinct (map k xs)" and "\<And>x. P x \<Longrightarrow> k x = i" and "update_first P f xs = Some ys"
  shows "ys = map (\<lambda>x. if P x then f x else x) xs"
  using assms
proof (induction xs arbitrary: ys)
  case (Cons x xs)
  show ?case
  proof (cases "P x")
    case True
    then have "\<not> P y" if "y \<in> set xs" for y
      using Cons.prems that by force
    then have "map (\<lambda>x. if P x then f x else x) xs = xs"
      by (simp add: map_idI)
    then show ?thesis
      using Cons.prems(3) True by simp
  qed (use Cons in auto)
qed simp

lemma update_first_None: "update_first P f xs = None \<longleftrightarrow> (\<forall>x \<in> set xs. \<not> P x)"
  by (induction xs) auto

lemma update_event_keeps:
  assumes "outbox_ok r" and "\<And>d. event_of (f d) = event_of d"
  shows "outbox_ok (snd (update_event r i P f)) \<and> log_of (snd (update_event r i P f)) = log_of r"
proof (cases "update_first P f (eo_events r)")
  case (Some es)
  have "map event_of es = map event_of (eo_events r)"
    using Some assms(2) by (rule update_first_map)
  moreover from this have "map (be_ID \<circ> event_of) es = map (be_ID \<circ> event_of) (eo_events r)"
    and "map (be_SequenceNum \<circ> event_of) es = map (be_SequenceNum \<circ> event_of) (eo_events r)"
    by (metis map_map)+
  moreover have "length es = length (eo_events r)"
    using \<open>map event_of es = _\<close> by (rule map_eq_imp_length_eq)
  ultimately show ?thesis
    using assms(1) Some by (simp add: outbox_ok_def log_of_def update_event_def comp_def event_of_def)
qed (use assms in \<open>simp add: update_event_def\<close>)

lemma acked_bex: "j \<in> acked r \<longleftrightarrow> (\<exists>d \<in> set (eo_events r). de_ID d = j \<and> de_PublishedAt d \<noteq> None)"
  by (auto simp: acked_def)

lemma acked_pairs:
  "j \<in> acked r \<longleftrightarrow> (\<exists>p \<in> (\<lambda>d. (de_ID d, de_PublishedAt d)) ` set (eo_events r). fst p = j \<and> snd p \<noteq> None)"
  by (auto simp: acked_bex)

lemma MarkPublished_acked:
  assumes "outbox_ok r" and "i \<in> de_ID ` set (eo_events r)"
  shows "acked (snd (MarkPublished r i now)) = insert i (acked r)"
proof -
  obtain es where es: "update_first (\<lambda>e. de_ID e = i) (\<lambda>e. e\<lparr>de_PublishedAt := Some now, de_NextAttemptAt := None, de_LastError := []\<rparr>) (eo_events r) = Some es"
    using assms(2) update_first_None [of _ _ "eo_events r"] by fastforce
  have "es = map (\<lambda>e. if de_ID e = i then e\<lparr>de_PublishedAt := Some now, de_NextAttemptAt := None, de_LastError := []\<rparr> else e) (eo_events r)"
    by (rule update_first_unique [OF _ _ es, of de_ID i]) (use assms in \<open>auto simp: outbox_ok_def\<close>)
  then have es': "eo_events (snd (MarkPublished r i now)) = map (\<lambda>e. if de_ID e = i then
      e\<lparr>de_PublishedAt := Some now, de_NextAttemptAt := None, de_LastError := []\<rparr> else e) (eo_events r)"
    using es by (simp add: MarkPublished_def update_event_def)
  have "j \<in> acked (snd (MarkPublished r i now)) \<longleftrightarrow> j = i \<or> j \<in> acked r" for j
    using assms(2) unfolding acked_bex es' by (cases "j = i") (auto simp del: if_image_distrib split: if_splits)
  then show ?thesis
    by blast
qed

lemma RecordFailure_acked:
  assumes "outbox_ok r"
  shows "acked (snd (RecordFailure r i why at')) = acked r"
proof (cases "\<exists>es. eo_events (snd (RecordFailure r i why at')) = es \<and> snd (RecordFailure r i why at') \<noteq> r")
  case True
  define f where "f = (\<lambda>e :: DurableEvent. e\<lparr>de_Attempts := de_Attempts e + 1,
    de_LastError := (case why of None \<Rightarrow> ''event publication failed'' | Some m \<Rightarrow> m), de_NextAttemptAt := Some at'\<rparr>)"
  obtain es where es: "update_first (\<lambda>e. \<not> (de_ID e \<noteq> i \<or> de_PublishedAt e \<noteq> None)) f (eo_events r) = Some es"
    using True by (auto simp: RecordFailure_def update_event_def f_def split: option.splits)
  have "map (\<lambda>d. (de_ID d, de_PublishedAt d)) es = map (\<lambda>d. (de_ID d, de_PublishedAt d)) (eo_events r)"
    by (rule update_first_map [OF es]) (simp add: f_def)
  then have "(\<lambda>d. (de_ID d, de_PublishedAt d)) ` set es = (\<lambda>d. (de_ID d, de_PublishedAt d)) ` set (eo_events r)"
    by (metis set_map)
  then have "j \<in> acked (r\<lparr>eo_events := es\<rparr>) \<longleftrightarrow> j \<in> acked r" for j
    by (simp add: acked_pairs)
  then show ?thesis
    using es by (auto simp: RecordFailure_def update_event_def f_def)
qed auto

lemma acked_iff: "outbox_ok r \<Longrightarrow> d \<in> set (eo_events r) \<Longrightarrow> de_ID d \<in> acked r \<longleftrightarrow> de_PublishedAt d \<noteq> None"
  by (auto simp: acked_def outbox_ok_def distinct_map dest: inj_onD)

lemma unpublished_log:
  "outbox_ok r \<Longrightarrow> filter (\<lambda>e. be_ID e \<notin> acked r) (log_of r) = map event_of (filter (\<lambda>d. de_PublishedAt d = None) (eo_events r))"
  by (auto simp: log_of_def filter_map comp_def acked_iff intro!: arg_cong [of _ _ "map event_of"] filter_cong)

lemma ListPending_subseq:
  assumes "outbox_ok r"
  shows "subseq (map event_of (ListPending now r limit)) (filter (\<lambda>e. be_ID e \<notin> acked r) (log_of r))"
proof -
  have "filter (due now) (eo_events r) = filter (due now) (filter (\<lambda>d. de_PublishedAt d = None) (eo_events r))"
    by (auto simp: due_def intro: filter_cong)
  then have "subseq (filter (due now) (eo_events r)) (filter (\<lambda>d. de_PublishedAt d = None) (eo_events r))"
    by (metis subseq_filter_left)
  moreover have "subseq (ListPending now r limit) (filter (due now) (eo_events r))"
    by (auto simp: ListPending_def Let_def intro: prefix_imp_subseq take_is_prefix)
  ultimately show ?thesis
    unfolding unpublished_log [OF assms] by (metis subseq_map subseq_order.order_trans)
qed

lemma Enqueue_stores:
  assumes "Enqueue now r (Some e) = (Inr d, r')"
  shows "r' = r\<lparr>eo_events := eo_events r @ [d], eo_nextSequence := eo_nextSequence r + 1\<rparr> \<and>
    de_SequenceNum d = eo_nextSequence r \<and> de_ID d = de_ID e \<and> de_PublishedAt d = de_PublishedAt e \<and> de_ID d \<notin> de_ID ` set (eo_events r)"
  using assms by (fastforce simp: Enqueue_def Let_def list_ex_iff split: if_splits option.splits)

lemma Enqueue_appends:
  assumes "outbox_ok r" and "Enqueue now r (Some e) = (Inr d, r')" and "de_PublishedAt e = None"
  shows "outbox_ok r' \<and> log_of r' = log_of r @ [event_of d] \<and> acked r' = acked r \<and>
    de_SequenceNum d = int (length (log_of r)) + 1 \<and> de_ID d \<notin> be_ID ` set (log_of r) \<and> de_ID d \<notin> acked r"
proof -
  note st = Enqueue_stores [OF assms(2)]
  have r': "eo_events r' = eo_events r @ [d]" "eo_nextSequence r' = eo_nextSequence r + 1"
    using st by simp_all
  have "outbox_ok r'"
    using assms(1) st unfolding outbox_ok_def r' by auto
  moreover have "acked r' = acked r"
    using st assms(3) by (auto simp: acked_bex r')
  moreover have "de_ID d \<notin> acked r"
    using st unfolding acked_bex by (metis imageI)
  ultimately show ?thesis
    using assms(1) st by (auto simp: log_of_def r' outbox_ok_def image_image)
qed

interpretation memory_outbox: event_outbox Enqueue ListPending MarkPublished RecordFailure outbox_ok log_of acked
proof unfold_locales
  fix r i now
  assume "outbox_ok r" and "i \<in> be_ID ` set (log_of r)"
  then show "outbox_ok (snd (MarkPublished r i now)) \<and> log_of (snd (MarkPublished r i now)) = log_of r \<and>
      acked (snd (MarkPublished r i now)) = insert i (acked r)"
    using MarkPublished_acked [of r i now] update_event_keeps [of r]
    by (auto simp: MarkPublished_def log_of_def image_image event_of_def)
next
  fix r i why at'
  assume "outbox_ok r"
  then show "outbox_ok (snd (RecordFailure r i why at')) \<and> log_of (snd (RecordFailure r i why at')) = log_of r \<and>
      acked (snd (RecordFailure r i why at')) = acked r"
    using RecordFailure_acked [of r i why at'] update_event_keeps [of r]
    by (simp add: RecordFailure_def event_of_def)
next
  fix r now event err r'
  show "Enqueue now r event = (Inl err, r') \<Longrightarrow> r' = r"
    by (auto simp: Enqueue_def Let_def split: option.splits if_splits)
next
  fix r
  show "outbox_ok r \<Longrightarrow> distinct (map be_ID (log_of r))"
    by (simp add: outbox_ok_def log_of_def comp_def)
next
  fix now r
  show "\<exists>err. Enqueue now r None = (Inl err, r)"
    by (simp add: Enqueue_def)
qed (rule Enqueue_appends ListPending_subseq; assumption)+

interpretation memory_outbox: atomic_event_outbox Enqueue ListPending MarkPublished RecordFailure outbox_ok log_of acked restore_outbox
proof unfold_locales
  fix snapshot r
  assume "outbox_ok snapshot"
  then show "outbox_ok (restore_outbox snapshot r) \<and> log_of (restore_outbox snapshot r) = log_of snapshot \<and>
      acked (restore_outbox snapshot r) = acked snapshot"
    by (simp add: restore_outbox_def outbox_ok_def log_of_def acked_def)
next
  fix i r now
  assume "i \<notin> be_ID ` set (log_of r)"
  then have "update_first (\<lambda>e. de_ID e = i) f (eo_events r) = None" for f
    unfolding update_first_None by (auto simp: log_of_def image_image)
  then show "snd (MarkPublished r i now) = r" by (simp add: MarkPublished_def update_event_def)
qed

subsection \<open>A healthy bus\<close>

text \<open>Marking the rows of a pass leaves exactly the other unpublished rows.\<close>

definition unpublished :: "MemoryEventOutboxRepo \<Rightarrow> DurableEvent list" where
  "unpublished r = filter (\<lambda>d. de_PublishedAt d = None) (eo_events r)"

lemma MarkPublished_unpublished:
  assumes "outbox_ok r" and "unpublished r = d # ds"
  shows "outbox_ok (snd (MarkPublished r (de_ID d) now)) \<and> unpublished (snd (MarkPublished r (de_ID d) now)) = ds"
proof -
  have d: "d \<in> set (eo_events r)" "de_PublishedAt d = None"
    using assms(2) filter_eq_ConsD [of "\<lambda>d. de_PublishedAt d = None" "eo_events r" d ds] by (auto simp: unpublished_def)
  obtain pre post where split: "eo_events r = pre @ d # post" "filter (\<lambda>d. de_PublishedAt d = None) pre = []"
    "ds = filter (\<lambda>d. de_PublishedAt d = None) post"
    using assms(2) unfolding unpublished_def by (metis filter_eq_ConsD filter_empty_conv)
  have apart: "de_ID d \<notin> de_ID ` set pre" "de_ID d \<notin> de_ID ` set post"
    using assms(1) by (auto simp: outbox_ok_def split(1))
  have "update_first (\<lambda>e. de_ID e = de_ID d) f (pre @ d # post) = Some (pre @ f d # post)" for f
    using apart(1) by (induction pre) auto
  then have "unpublished (snd (MarkPublished r (de_ID d) now)) = ds"
    using split by (simp add: unpublished_def MarkPublished_def update_event_def)
  moreover have "outbox_ok (snd (MarkPublished r (de_ID d) now))"
    unfolding MarkPublished_def by (rule conjunct1 [OF update_event_keeps [OF assms(1)]]) (simp add: event_of_def)
  ultimately show ?thesis
    by simp
qed

lemma publish_all:
  assumes "outbox_ok r" and "unpublished r = ds @ rest"
  shows "\<exists>r'. publish_rows MarkPublished RecordFailure (\<lambda>_. None) clock ds r = (map event_of ds, r') \<and> outbox_ok r' \<and> unpublished r' = rest"
  using assms
proof (induction ds arbitrary: r)
  case (Cons d ds)
  note after = MarkPublished_unpublished [of r d "ds @ rest" "clock (de_ID d)"]
  obtain r' where "publish_rows MarkPublished RecordFailure (\<lambda>_. None) clock ds (snd (MarkPublished r (de_ID d) (clock (de_ID d)))) = (map event_of ds, r')"
    "outbox_ok r'" "unpublished r' = rest"
    using Cons.IH Cons.prems after by force
  then show ?case
    by simp
qed simp

lemma run_batch:
  assumes "outbox_ok r" and "\<forall>d \<in> set (unpublished r). due now d"
  shows "\<exists>r'. outbox_run ListPending MarkPublished RecordFailure (\<lambda>_. None) clock now r = (map event_of (take 100 (unpublished r)), r') \<and>
    outbox_ok r' \<and> unpublished r' = drop 100 (unpublished r)"
proof -
  have "due now d \<longleftrightarrow> de_PublishedAt d = None" if "d \<in> set (eo_events r)" for d
    using assms(2) that by (auto simp: unpublished_def due_def)
  then have "filter (due now) (eo_events r) = unpublished r"
    unfolding unpublished_def by (rule filter_cong [OF refl])
  then have "ListPending now r eventOutboxBatchSize = take 100 (unpublished r)"
    by (simp add: ListPending_def eventOutboxBatchSize_def)
  then show ?thesis
    using publish_all [OF assms(1), of "take 100 (unpublished r)" "drop 100 (unpublished r)" clock]
    by (simp add: outbox_run_def)
qed

lemma worker_drains:
  assumes "outbox_ok r" and "\<forall>now \<in> set ticks. \<forall>d \<in> set (unpublished r). due now d"
    and "length (unpublished r) \<le> 100 * length ticks"
  shows "\<exists>r'. RunEventOutboxWorker ListPending MarkPublished RecordFailure (\<lambda>_. None) clock ticks r = (map event_of (unpublished r), r') \<and>
    outbox_ok r' \<and> unpublished r' = []"
  using assms
proof (induction ticks arbitrary: r)
  case (Cons now ticks)
  obtain r' where r': "outbox_run ListPending MarkPublished RecordFailure (\<lambda>_. None) clock now r = (map event_of (take 100 (unpublished r)), r')"
    "outbox_ok r'" "unpublished r' = drop 100 (unpublished r)"
    using run_batch [OF Cons.prems(1), of now clock] Cons.prems(2) by auto
  have "\<forall>now \<in> set ticks. \<forall>d \<in> set (unpublished r'). due now d"
    using Cons.prems(2) r'(3) in_set_dropD by fastforce
  moreover have "length (unpublished r') \<le> 100 * length ticks"
    using Cons.prems(3) r'(3) by simp
  ultimately obtain r'' where "RunEventOutboxWorker ListPending MarkPublished RecordFailure (\<lambda>_. None) clock ticks r' = (map event_of (unpublished r'), r'')"
    "outbox_ok r''" "unpublished r'' = []"
    using Cons.IH [OF r'(2)] by blast
  then show ?case
    using r' by (simp flip: map_append)
qed simp

subsection \<open>Properties\<close>

lemma reachable_ok:
  assumes "(outbox_step Enqueue ListPending MarkPublished RecordFailure)\<^sup>*\<^sup>* (NewMemoryEventOutboxRepo, [], []) s"
  shows "memory_outbox.worker_ok s \<and> log_step\<^sup>*\<^sup>* \<lparr>dl_log = [], dl_sent = []\<rparr> (memory_outbox.delivery_of s)"
proof -
  have "memory_outbox.worker_ok (NewMemoryEventOutboxRepo, [], [])"
    by (simp add: memory_outbox.worker_ok_def NewMemoryEventOutboxRepo_def outbox_ok_def log_of_def)
  moreover have "memory_outbox.delivery_of (NewMemoryEventOutboxRepo, [], []) = \<lparr>dl_log = [], dl_sent = []\<rparr>"
    by (simp add: memory_outbox.delivery_of_def NewMemoryEventOutboxRepo_def log_of_def)
  ultimately show ?thesis
    using memory_outbox.run_refines [OF assms] by simp
qed

lemma reachable_unpublished:
  assumes "(outbox_step Enqueue ListPending MarkPublished RecordFailure)\<^sup>*\<^sup>* (NewMemoryEventOutboxRepo, [], []) (r, todo, sent)"
  shows "outbox_ok r \<and> map event_of (unpublished r) = filter (\<lambda>e. e \<notin> set sent) (log_of r)"
proof -
  have ok: "outbox_ok r" and sent: "set sent = {e \<in> set (log_of r). be_ID e \<in> acked r}"
    using reachable_ok [OF assms] by (auto simp: memory_outbox.worker_ok_def)
  have "filter (\<lambda>e. e \<notin> set sent) (log_of r) = filter (\<lambda>e. be_ID e \<notin> acked r) (log_of r)"
    unfolding sent by (rule filter_cong) auto
  then show ?thesis
    using ok unpublished_log [OF ok] by (simp add: unpublished_def)
qed

lemma atomic_reachable_ok:
  assumes "(atomic_outbox_step rollbacks Enqueue ListPending MarkPublished RecordFailure restore_outbox)\<^sup>*\<^sup>*
    (NewMemoryEventOutboxRepo, [], [], None) s"
  shows "memory_outbox.atomic_ok s"
proof -
  have "memory_outbox.atomic_ok (NewMemoryEventOutboxRepo, [], [], None)"
    by (simp add: memory_outbox.atomic_ok_def NewMemoryEventOutboxRepo_def outbox_ok_def acked_def)
  then show ?thesis using memory_outbox.atomic_run_ok [OF assms] by blast
qed

text \<open>The log that committed requests have written.\<close>

definition committed_log :: "MemoryEventOutboxRepo outbox_state \<Rightarrow> Event list" where
  "committed_log s = (case s of (r, _, _, snap) \<Rightarrow> log_of (case snap of None \<Rightarrow> r | Some snapshot \<Rightarrow> snapshot))"

lemma committed_log_eq: "committed_log = memory_outbox.committed"
  by (rule ext) (simp add: committed_log_def memory_outbox.committed_def)

lemma outbox_ok_log:
  "outbox_ok r \<Longrightarrow> distinct (map be_ID (log_of r)) \<and> map be_SequenceNum (log_of r) = map int [1..<length (log_of r) + 1]"
  by (simp add: outbox_ok_def log_of_def comp_def event_of_def)

text \<open>
  C10. The outbox with its worker implements an append-only log, over any history of requests that
  enqueue inside atomic sections, commit or are rolled back, while the worker polls and the bus accepts
  and refuses. The log of the committed requests only grows, its entries are numbered consecutively from
  one and their identifiers differ. No committed entry is lost: unless the bus has accepted an event of
  its identifier, it is still a row waiting to be published. Where no request is rolled back, the system
  refines a log with at-most-once delivery, and the waiting rows are exactly the entries the bus
  has not accepted, in the order of the log. A rollback can make the bus see an event twice
  (\<open>rollback_redelivers\<close>).\<close>

theorem outbox_refines_log:
  assumes "(atomic_outbox_step rollbacks Enqueue ListPending MarkPublished RecordFailure restore_outbox)\<^sup>*\<^sup>*
    (NewMemoryEventOutboxRepo, [], [], None) (r, todo, sent, snap)"
  shows "distinct (map be_ID (committed_log (r, todo, sent, snap))) \<and>
    map be_SequenceNum (committed_log (r, todo, sent, snap)) = map int [1..<length (committed_log (r, todo, sent, snap)) + 1] \<and>
    (\<forall>s'. (atomic_outbox_step rollbacks Enqueue ListPending MarkPublished RecordFailure restore_outbox)\<^sup>*\<^sup>* (r, todo, sent, snap) s' \<longrightarrow>
      prefix (committed_log (r, todo, sent, snap)) (committed_log s')) \<and>
    (\<forall>e \<in> set (committed_log (r, todo, sent, snap)). be_ID e \<in> be_ID ` set sent \<or> e \<in> event_of ` set (unpublished r)) \<and>
    (\<not> rollbacks \<longrightarrow> log_step\<^sup>*\<^sup>* \<lparr>dl_log = [], dl_sent = []\<rparr> \<lparr>dl_log = log_of r, dl_sent = sent\<rparr> \<and>
      map event_of (unpublished r) = filter (\<lambda>e. e \<notin> set sent) (log_of r))"
proof -
  let ?s = "(r, todo, sent, snap)"
  have ok: "memory_outbox.atomic_ok ?s" by (rule atomic_reachable_ok [OF assms])
  then have r: "outbox_ok r" "acked r \<subseteq> be_ID ` set sent" by (auto simp: memory_outbox.atomic_ok_def)
  have numbered: "distinct (map be_ID (committed_log ?s)) \<and> map be_SequenceNum (committed_log ?s) = map int [1..<length (committed_log ?s) + 1]"
    using ok outbox_ok_log by (auto simp: committed_log_def memory_outbox.atomic_ok_def split: option.split)
  have grows: "prefix (committed_log ?s) (committed_log s')"
    if "(atomic_outbox_step rollbacks Enqueue ListPending MarkPublished RecordFailure restore_outbox)\<^sup>*\<^sup>* ?s s'" for s'
    using memory_outbox.atomic_run_ok [OF that ok] by (simp add: committed_log_eq)
  have "prefix (committed_log ?s) (log_of r)"
    using ok by (auto simp: committed_log_def memory_outbox.atomic_ok_def split: option.split)
  then have inside: "set (committed_log ?s) \<subseteq> set (log_of r)" by (rule set_mono_prefix)
  have kept: "be_ID e \<in> be_ID ` set sent \<or> e \<in> event_of ` set (unpublished r)" if "e \<in> set (committed_log ?s)" for e
  proof (cases "be_ID e \<in> acked r")
    case False
    then have "e \<in> set (filter (\<lambda>e. be_ID e \<notin> acked r) (log_of r))" using inside that by auto
    then show ?thesis unfolding unpublished_log [OF r(1)] by (simp add: unpublished_def)
  qed (use r(2) in blast)
  have unrolled: "log_step\<^sup>*\<^sup>* \<lparr>dl_log = [], dl_sent = []\<rparr> \<lparr>dl_log = log_of r, dl_sent = sent\<rparr> \<and>
      map event_of (unpublished r) = filter (\<lambda>e. e \<notin> set sent) (log_of r)" if "\<not> rollbacks"
  proof -
    have "(outbox_step Enqueue ListPending MarkPublished RecordFailure)\<^sup>*\<^sup>* (NewMemoryEventOutboxRepo, [], []) (r, todo, sent)"
      using memory_outbox.unrolled_run [of "(NewMemoryEventOutboxRepo, [], [], None)" r todo sent snap] assms that by simp
    then show ?thesis using reachable_ok reachable_unpublished by (force simp: memory_outbox.delivery_of_def)
  qed
  show ?thesis using numbered grows kept unrolled by blast
qed

definition sample_event :: "string \<Rightarrow> DurableEvent" where
  "sample_event i = \<lparr>de_ID = i, de_Topic = ''alert.created'', de_Payload = ''{}'', de_SequenceNum = 0, de_ChainID = [],
     de_ChainHopCount = 0, de_Attempts = 0, de_LastError = [], de_CreatedAt = 100, de_NextAttemptAt = None, de_PublishedAt = None\<rparr>"

definition sample_outbox :: MemoryEventOutboxRepo where
  "sample_outbox = snd (Enqueue 1 (snd (Enqueue 1 NewMemoryEventOutboxRepo (Some (sample_event ''e1'')))) (Some (sample_event ''e2'')))"

lemma sample_outbox_reached:
  "(outbox_step Enqueue ListPending MarkPublished RecordFailure)\<^sup>*\<^sup>* (NewMemoryEventOutboxRepo, [], []) (sample_outbox, [], [])"
proof -
  have "outbox_step Enqueue ListPending MarkPublished RecordFailure (r, [], []) (snd (Enqueue 1 r (Some (sample_event i))), [], [])" for r i
    by (rule request) (auto simp: sample_event_def)
  then show ?thesis
    unfolding sample_outbox_def by (meson rtranclp.rtrancl_into_rtrancl rtranclp.rtrancl_refl)
qed

text \<open>
  A request enqueues, the worker delivers at once, and the request fails: the row and its mark are
  gone. When the request is repeated under the same event identifier (as the customer reviews
  do), the bus sees the event a second time.\<close>

lemma rollback_redelivers:
  "\<exists>r e. (atomic_outbox_step True Enqueue ListPending MarkPublished RecordFailure restore_outbox)\<^sup>*\<^sup>*
     (NewMemoryEventOutboxRepo, [], [], None) (r, [], [e, e], None) \<and> be_ID e = ''e1'' \<and> log_of r = [e]"
proof -
  let ?step = "atomic_outbox_step True Enqueue ListPending MarkPublished RecordFailure restore_outbox"
  let ?new = NewMemoryEventOutboxRepo and ?row = "sample_event ''e1''\<lparr>de_SequenceNum := 1\<rparr>"
  let ?r1 = "snd (Enqueue 1 ?new (Some (sample_event ''e1'')))"
  let ?r2 = "snd (MarkPublished ?r1 ''e1'' 2)"
  have pending: "ListPending 2 ?r1 eventOutboxBatchSize = [?row]" by code_simp
  have rewound: "restore_outbox ?new ?r2 = ?new" by code_simp
  have id: "de_ID ?row = ''e1''" by code_simp
  have opened: "?step\<^sup>*\<^sup>* (?new, [], sent, None) (?r1, [], sent, Some ?new)" for sent
  proof -
    have "?step (?new, [], sent, Some ?new) (?r1, [], sent, Some ?new)"
      by (rule atomic_outbox_step.enqueue) (auto simp: sample_event_def)
    then show ?thesis using atomic_outbox_step.begin_section by (meson rtranclp.rtrancl_into_rtrancl rtranclp.rtrancl_refl)
  qed
  have deliver: "?step\<^sup>*\<^sup>* (?r1, [], sent, snap) (?r2, [], sent @ [event_of ?row], snap)" for sent snap
    using atomic_outbox_step.worker_poll [of True Enqueue ListPending MarkPublished RecordFailure restore_outbox ?r1 sent snap 2]
      atomic_outbox_step.worker_accepted [of True Enqueue ListPending MarkPublished RecordFailure restore_outbox ?r1 ?row "[]" sent snap 2]
    unfolding pending id by (meson rtranclp.rtrancl_into_rtrancl rtranclp.rtrancl_refl)
  have "?step (?r2, [], sent, Some ?new) (?new, [], sent, None)" for sent
    using atomic_outbox_step.rollback [of True Enqueue ListPending MarkPublished RecordFailure restore_outbox ?r2 "[]" sent ?new] rewound by simp
  moreover have "?step (?r2, [], sent, Some ?new) (?r2, [], sent, None)" for sent by (rule atomic_outbox_step.commit)
  ultimately have "?step\<^sup>*\<^sup>* (?new, [], [], None) (?r2, [], [event_of ?row, event_of ?row], None)"
    using opened [of "[]"] deliver [of "[]" "Some ?new"] opened [of "[event_of ?row]"] deliver [of "[event_of ?row]" "Some ?new"]
    by (simp del: snd_conv) (meson rtranclp_trans r_into_rtranclp)
  moreover have "log_of ?r2 = [event_of ?row]" by code_simp
  ultimately show ?thesis using id by (intro exI [of _ ?r2] exI [of _ "event_of ?row"]) simp
qed

lemma sample_outbox_committed:
  "(atomic_outbox_step rollbacks Enqueue ListPending MarkPublished RecordFailure restore_outbox)\<^sup>*\<^sup>*
     (NewMemoryEventOutboxRepo, [], [], None) (sample_outbox, [], [], None)"
proof -
  have "atomic_outbox_step rollbacks Enqueue ListPending MarkPublished RecordFailure restore_outbox
      (r, [], [], Some snapshot) (snd (Enqueue 1 r (Some (sample_event i))), [], [], Some snapshot)" for r i snapshot
    by (rule atomic_outbox_step.enqueue) (auto simp: sample_event_def)
  then show ?thesis
    unfolding sample_outbox_def
    by (meson atomic_outbox_step.begin_section atomic_outbox_step.commit rtranclp.rtrancl_into_rtrancl rtranclp.rtrancl_refl)
qed

theorem outbox_refines_log_witness:
  "log_step\<^sup>*\<^sup>* \<lparr>dl_log = [], dl_sent = []\<rparr> \<lparr>dl_log = log_of sample_outbox, dl_sent = []\<rparr> \<and>
   map be_SequenceNum (committed_log (sample_outbox, [], [], None)) = [1, 2] \<and>
   event_of ` set (unpublished sample_outbox) = set (committed_log (sample_outbox, [], [], None))"
proof (intro conjI)
  show "log_step\<^sup>*\<^sup>* \<lparr>dl_log = [], dl_sent = []\<rparr> \<lparr>dl_log = log_of sample_outbox, dl_sent = []\<rparr>"
    using outbox_refines_log [OF sample_outbox_committed [of False]] by blast
  have "length (committed_log (sample_outbox, [], [], None)) = 2" by code_simp
  then have "map int [1..<length (committed_log (sample_outbox, [], [], None)) + 1] = [1, 2]" by (simp add: upt_rec)
  then show "map be_SequenceNum (committed_log (sample_outbox, [], [], None)) = [1, 2]"
    using outbox_refines_log [OF sample_outbox_committed [of True]] by metis
  show "event_of ` set (unpublished sample_outbox) = set (committed_log (sample_outbox, [], [], None))"
    by code_simp
qed

text \<open>
  C11. The outbox drains: whatever happened before (no request rolled back), once the bus accepts events
  and the waiting times of the unpublished rows are over, one pass of the worker for every hundred rows
  publishes all of them, in the order they were enqueued and each exactly once.\<close>

theorem outbox_drains:
  assumes "(outbox_step Enqueue ListPending MarkPublished RecordFailure)\<^sup>*\<^sup>* (NewMemoryEventOutboxRepo, [], []) (r, [], sent)"
    and "\<forall>now \<in> set ticks. \<forall>d \<in> set (unpublished r). due now d"
    and "length (unpublished r) \<le> 100 * length ticks"
  shows "\<exists>r'. RunEventOutboxWorker ListPending MarkPublished RecordFailure (\<lambda>_. None) clock ticks r =
      (filter (\<lambda>e. e \<notin> set sent) (log_of r), r') \<and> unpublished r' = []"
  using worker_drains [of r ticks clock] reachable_unpublished [OF assms(1)] assms(2,3) by auto

theorem outbox_drains_witness:
  "\<exists>r'. RunEventOutboxWorker ListPending MarkPublished RecordFailure (\<lambda>_. None) (\<lambda>_. 200) [150] sample_outbox =
      (filter (\<lambda>e. e \<notin> set []) (log_of sample_outbox), r') \<and> unpublished r' = []"
proof (rule outbox_drains [OF sample_outbox_reached])
  show "\<forall>now \<in> set [150]. \<forall>d \<in> set (unpublished sample_outbox). due now d"
    by code_simp
  show "length (unpublished sample_outbox) \<le> 100 * length [150 :: time]"
    by code_simp
qed

end
