(* ===== verification/Scenario_Config.thy ===== *)
theory Scenario_Config
  imports Engine_State Detection
begin

text \<open>
  Reading the configuration of the native engine (\<^verbatim>\<open>engine/native/native.go\<close>: \<^verbatim>\<open>parseScenario\<close> and its
  validators, the loading of scenarios, country scores and screening lists in \<^verbatim>\<open>New\<close>, and
  \<^verbatim>\<open>ValidateConfig\<close> with the collector of \<^verbatim>\<open>config_validation.go\<close>). The YAML decoder is library code and
  a parameter; a decoded document is a tree of \<open>any\<close> values whose mappings have text keys, in the order
  in which \<^verbatim>\<open>range\<close> visits them. The contents of the files are arguments. The theorems show what an
  accepted scenario looks like, so that the detectors never meet an aggregation, a risk tier or a
  detector they do not know, and that the validation an operator sees agrees with loading.
\<close>

subsection \<open>Helpers of the parser\<close>

definition and_then :: "'a result \<Rightarrow> ('a \<Rightarrow> 'b result) \<Rightarrow> 'b result" where
  "and_then r f = (case r of Inl e \<Rightarrow> Inl e | Inr x \<Rightarrow> f x)"

lemma and_then_Inr [simp]: "and_then r f = Inr y \<longleftrightarrow> (\<exists>x. r = Inr x \<and> f x = Inr y)"
  by (auto simp: and_then_def split: sum.splits)

fun all_ok :: "('a \<Rightarrow> unit result) \<Rightarrow> 'a list \<Rightarrow> unit result" where
  "all_ok check [] = Inr ()"
| "all_ok check (x # xs) = and_then (check x) (\<lambda>_. all_ok check xs)"

definition check_keys :: "string \<Rightarrow> string \<Rightarrow> string list \<Rightarrow> (string \<times> any) list \<Rightarrow> unit result" where
  "check_keys path message allowed m =
    (case find (\<lambda>key. key \<notin> set allowed) (map fst m) of
       None \<Rightarrow> Inr ()
     | Some key \<Rightarrow> Inl (ErrField (path @ key) (message @ Quote key)))"

definition AlertSeverity_of :: "string \<Rightarrow> AlertSeverity" where
  "AlertSeverity_of s =
    (if s = ''low'' then AlertSeverityLow else if s = ''medium'' then AlertSeverityMedium
     else if s = ''high'' then AlertSeverityHigh else if s = ''critical'' then AlertSeverityCritical
     else AlertSeverityOther s)"

text \<open>\<^verbatim>\<open>time.Duration.Seconds\<close>, for a duration that is not negative.\<close>

definition Seconds :: "duration \<Rightarrow> float64" where
  "Seconds d = f64_add (f64_of_int (d div Second)) (f64_div (f64_of_int (d mod Second)) (f64_of_int Second))"

definition empty_aggregation :: aggregationSpec where
  "empty_aggregation = \<lparr>ag_Field = [], ag_Function = [], ag_Period = 0, ag_GroupBy = []\<rparr>"

subsection \<open>Validators\<close>

definition validateScenarioTopLevel :: "(string \<times> any) list \<Rightarrow> unit result" where
  "validateScenarioTopLevel raw = check_keys [] ''unknown TM scenario key ''
     [''schema_version'', ''scenario_id'', ''name'', ''description'', ''detector'', ''type'', ''conditions'', ''parameters'',
      ''risk_tier_adjustments'', ''evaluation_mode'', ''severity'', ''tags''] raw"

definition threshold_path :: "string \<Rightarrow> string" where
  "threshold_path customerType = ''conditions.threshold.by_customer_type.'' @ customerType"

definition check_customer_thresholds :: "string \<times> any \<Rightarrow> unit result" where
  "check_customer_thresholds entry =
    (case entry of (customerType, rawCustomer) \<Rightarrow>
     let path = threshold_path customerType in
     case rawCustomer of
       JObject customer \<Rightarrow>
         and_then (check_keys (path @ ''.'') ''unknown customer type threshold key '' [''by_risk_tier''] customer) (\<lambda>_.
         (case map_of customer ''by_risk_tier'' of
            None \<Rightarrow> Inr ()
          | Some (JObject byTier) \<Rightarrow>
              all_ok (\<lambda>(key, _). if ToUpper key \<in> set tier_keys then Inr ()
                else Inl (ErrField (path @ ''.by_risk_tier.'' @ key) (''unknown risk tier '' @ Quote key))) byTier
          | Some _ \<Rightarrow> Inl (ErrField (path @ ''.by_risk_tier'') ''risk tier thresholds must be an object'')))
     | _ \<Rightarrow> Inl (ErrField path ''customer type thresholds must be an object''))"

definition check_threshold :: "any option \<Rightarrow> unit result" where
  "check_threshold rawThreshold =
    (case rawThreshold of
       None \<Rightarrow> Inr ()
     | Some (JObject threshold) \<Rightarrow>
         and_then (check_keys ''conditions.threshold.'' ''unknown threshold key '' [''by_customer_type''] threshold) (\<lambda>_.
         (case map_of threshold ''by_customer_type'' of
            None \<Rightarrow> Inr ()
          | Some (JObject byType) \<Rightarrow> all_ok check_customer_thresholds byType
          | Some _ \<Rightarrow> Inl (ErrField ''conditions.threshold.by_customer_type'' ''by_customer_type must be an object'')))
     | Some _ \<Rightarrow> Inl (ErrField ''conditions.threshold'' ''threshold must be an object''))"

definition allowed_additional :: "string list" where
  "allowed_additional = [''min_transactions'', ''min_transaction_count'', ''individual_below'', ''inbound_threshold'',
     ''outbound_threshold'', ''outbound_ratio_min'', ''window_hours'', ''count_threshold'', ''max_amount_per_txn'',
     ''dormant_days'', ''reactivation_threshold'', ''threshold_amount'', ''high_risk_countries'']"

definition validateScenarioConditions :: "(string \<times> any) list \<Rightarrow> unit result" where
  "validateScenarioConditions conditions =
    and_then (check_keys ''conditions.'' ''unknown TM condition ''
        [''transaction_type'', ''aggregation'', ''threshold'', ''absolute_threshold'', ''additional''] conditions) (\<lambda>_.
    and_then (case map_of conditions ''additional'' of
        Some (JObject additional) \<Rightarrow>
          check_keys ''conditions.additional.'' ''unknown TM additional parameter '' allowed_additional additional
      | _ \<Rightarrow> Inr ()) (\<lambda>_.
    and_then (case map_of conditions ''aggregation'' of
        Some (JObject aggregation) \<Rightarrow>
          check_keys ''conditions.aggregation.'' ''unknown aggregation key '' [''field'', ''function'', ''period'', ''group_by''] aggregation
      | _ \<Rightarrow> Inr ()) (\<lambda>_.
    check_threshold (map_of conditions ''threshold''))))"

fun parse_tokens :: "int \<Rightarrow> any list \<Rightarrow> string list result" where
  "parse_tokens i [] = Inr []"
| "parse_tokens i (item # items) =
    (let token = ToLower (TrimSpace (stringValue (Some item))) in
     if token = []
     then Inl (ErrField (''conditions.transaction_type['' @ int_string i @ '']'') ''transaction type must not be empty'')
     else and_then (parse_tokens (i + 1) items) (\<lambda>out. Inr (token # out)))"

definition parseTransactionTypes :: "any \<Rightarrow> string list result" where
  "parseTransactionTypes v =
    (case v of
       JArray items \<Rightarrow> parse_tokens 0 items
     | _ \<Rightarrow>
         if TrimSpace (stringValue (Some v)) \<noteq> [] then Inr [ToLower (TrimSpace (stringValue (Some v)))]
         else Inl (ErrField ''conditions.transaction_type'' ''transaction_type must be an array of strings''))"

definition parseAggregation :: "(string \<times> any) list \<Rightarrow> aggregationSpec result" where
  "parseAggregation raw =
    (let token = (\<lambda>key. ToLower (TrimSpace (stringValue (map_of raw key)))) in
     if token ''field'' \<noteq> ''amount'' then Inl (ErrField ''conditions.aggregation.field'' ''aggregation field must be amount'')
     else if token ''function'' \<noteq> ''sum'' \<and> token ''function'' \<noteq> ''count''
       then Inl (ErrField ''conditions.aggregation.function'' ''aggregation function must be sum or count'')
     else if token ''group_by'' \<noteq> ''customer_id''
       then Inl (ErrField ''conditions.aggregation.group_by'' ''aggregation group_by must be customer_id'')
     else case ParseDuration (TrimSpace (stringValue (map_of raw ''period''))) of
       Some duration \<Rightarrow>
         if duration \<le> 0 then Inl (ErrField ''conditions.aggregation.period'' ''aggregation period must be a positive duration'')
         else Inr \<lparr>ag_Field = token ''field'', ag_Function = token ''function'', ag_Period = duration, ag_GroupBy = token ''group_by''\<rparr>
     | None \<Rightarrow> Inl (ErrField ''conditions.aggregation.period'' ''aggregation period must be a positive duration''))"

definition wanted_function :: "(string \<times> string) list" where
  "wanted_function = [(detectorStructuring, ''sum''), (detectorRapid, ''sum''), (detectorHFSA, ''count''),
     (detectorDormant, ''sum''), (detectorHighRisk, ''sum'')]"

definition validateDetectorAggregation :: "scenario \<Rightarrow> unit result" where
  "validateDetectorAggregation s =
    (if ag_Function (sn_Aggregation s) = [] then Inr ()
     else case map_of wanted_function (sn_Detector s) of
       Some expected \<Rightarrow>
         if ag_Function (sn_Aggregation s) \<noteq> expected
         then Inl (ErrField ''conditions.aggregation.function''
           (''detector '' @ Quote (sn_Detector s) @ '' requires aggregation function '' @ expected))
         else Inr ()
     | None \<Rightarrow> Inr ())"

subsection \<open>Parsing a scenario\<close>

definition scenario_base :: "(string \<times> any) list \<Rightarrow> scenario" where
  "scenario_base raw =
    (let schemaVersion = stringValue (map_of raw ''schema_version'');
         defaultMode = (if HasPrefix schemaVersion ''2'' then ''batch'' else ''both'');
         mode = ToLower (stringValue (map_of raw ''evaluation_mode''));
         severity = ToLower (stringValue (map_of raw ''severity''))
     in \<lparr>sn_ID = stringValue (map_of raw ''scenario_id''), sn_Name = stringValue (map_of raw ''name''),
         sn_Description = stringValue (map_of raw ''description''), sn_SchemaVersion = schemaVersion,
         sn_Detector = ToLower (TrimSpace (stringValue (map_of raw ''detector''))), sn_LegacyRouting = False,
         sn_LegacyWindowAlias = False, sn_Mode = (if mode = [] then defaultMode else mode),
         sn_Severity = (if severity = [] then AlertSeverityMedium else AlertSeverity_of severity),
         sn_Parameters = [], sn_Thresholds = [], sn_TransactionTypes = [], sn_Aggregation = empty_aggregation\<rparr>)"

definition check_type :: "(string \<times> any) list \<Rightarrow> scenario \<Rightarrow> unit result" where
  "check_type raw s =
    (let scenarioType = ToLower (TrimSpace (stringValue (map_of raw ''type''))) in
     if scenarioType \<noteq> [] \<and> scenarioType \<noteq> ''aggregation''
       then Inl (ErrField ''type'' (''unsupported TM scenario type '' @ Quote scenarioType))
     else if HasPrefix (sn_SchemaVersion s) ''2.1'' \<and> scenarioType = [] then Inl (ErrField ''type'' ''schema v2.1 requires type'')
     else if HasPrefix (sn_SchemaVersion s) ''2.1'' \<and> sn_Detector s = [] then Inl (ErrField ''detector'' ''schema v2.1 requires detector'')
     else if sn_Detector s \<noteq> [] \<and> \<not> supportedDetector (sn_Detector s)
       then Inl (ErrField ''detector'' (''unsupported detector '' @ Quote (sn_Detector s)))
     else Inr ())"

definition route_legacy :: "scenario \<Rightarrow> scenario" where
  "route_legacy s =
    (if sn_Detector s = [] then
       (case legacyDetectorForID (sn_ID s) of
          Some detector \<Rightarrow> s\<lparr>sn_Detector := detector, sn_LegacyRouting := True\<rparr>
        | None \<Rightarrow> s)
     else s)"

definition put_all :: "(string \<times> any) list \<Rightarrow> (string \<times> any) list \<Rightarrow> (string \<times> any) list" where
  "put_all entries m = foldl (\<lambda>m (k, v). tbl_put k v m) m entries"

text \<open>One tier's value of a parameter; a plain value becomes the entry under the empty key.\<close>

definition adjust_parameter :: "string \<Rightarrow> (string \<times> any) list \<Rightarrow> string \<times> any \<Rightarrow> (string \<times> any) list" where
  "adjust_parameter tier params entry =
    (case entry of (k, v) \<Rightarrow>
     let mm = (case map_of params k of
           Some (JObject m) \<Rightarrow> m
         | None \<Rightarrow> []
         | Some JNull \<Rightarrow> []
         | Some base \<Rightarrow> [([], base)])
     in tbl_put k (JObject (tbl_put tier v mm)) params)"

definition adjust_tier :: "(string \<times> any) list \<Rightarrow> string \<times> any \<Rightarrow> (string \<times> any) list" where
  "adjust_tier params entry =
    (case entry of (tier, vs) \<Rightarrow> case vs of JObject m \<Rightarrow> foldl (adjust_parameter tier) params m | _ \<Rightarrow> params)"

definition tier_adjustments :: "any option \<Rightarrow> scenario \<Rightarrow> scenario result" where
  "tier_adjustments adj s =
    (case adj of
       Some (JObject m) \<Rightarrow>
         and_then (normalizeRiskTierMap m ''risk_tier_adjustments'') (\<lambda>normalized.
           Inr (s\<lparr>sn_Parameters := foldl adjust_tier (sn_Parameters s) normalized\<rparr>))
     | _ \<Rightarrow> Inr s)"

definition customer_tiers :: "any \<Rightarrow> (string \<times> any) list option" where
  "customer_tiers v =
    (case v of
       JObject m \<Rightarrow> (case map_of m ''by_risk_tier'' of Some (JObject byTier) \<Rightarrow> Some byTier | _ \<Rightarrow> None)
     | _ \<Rightarrow> None)"

fun read_thresholds :: "(string \<times> any) list \<Rightarrow> (string \<times> (string \<times> float64) list) list \<Rightarrow> (string \<times> (string \<times> float64) list) list result" where
  "read_thresholds [] thresholds = Inr thresholds"
| "read_thresholds ((ct, v) # rest) thresholds =
    (case customer_tiers v of
       Some byTier \<Rightarrow>
         and_then (normalizeRiskTierMap byTier (threshold_path ct @ ''.by_risk_tier'')) (\<lambda>normalized.
           read_thresholds rest (tbl_put ct (map (\<lambda>(tier, n). (tier, number n)) normalized) thresholds))
     | None \<Rightarrow> read_thresholds rest thresholds)"

definition read_types :: "any option \<Rightarrow> scenario \<Rightarrow> scenario result" where
  "read_types types s = (case types of None \<Rightarrow> Inr s
     | Some v \<Rightarrow> and_then (parseTransactionTypes v) (\<lambda>parsed. Inr (s\<lparr>sn_TransactionTypes := parsed\<rparr>)))"

definition read_aggregation :: "any option \<Rightarrow> scenario \<Rightarrow> scenario result" where
  "read_aggregation rawAggregation s = (case rawAggregation of
       None \<Rightarrow> Inr s
     | Some (JObject aggregation) \<Rightarrow>
         and_then (parseAggregation aggregation) (\<lambda>parsed. Inr (s\<lparr>sn_Aggregation := parsed,
           sn_Parameters := tbl_put ''window_seconds'' (JNumber (Seconds (ag_Period parsed))) (sn_Parameters s)\<rparr>))
     | Some _ \<Rightarrow> Inl (ErrField ''conditions.aggregation'' ''aggregation must be an object''))"

definition read_additional :: "any option \<Rightarrow> scenario \<Rightarrow> scenario result" where
  "read_additional rawAdditional s = (case rawAdditional of
       None \<Rightarrow> Inr s
     | Some (JObject add) \<Rightarrow>
         Inr (s\<lparr>sn_LegacyWindowAlias := (map_of add ''window_hours'' \<noteq> None \<and> \<not> HasPrefix (sn_SchemaVersion s) ''2.1'' \<or> sn_LegacyWindowAlias s),
                sn_Parameters := put_all add (sn_Parameters s)\<rparr>)
     | Some _ \<Rightarrow> Inl (ErrField ''conditions.additional'' ''additional must be an object''))"

definition read_threshold :: "any option \<Rightarrow> scenario \<Rightarrow> scenario result" where
  "read_threshold rawThreshold s = (case rawThreshold of
       None \<Rightarrow> Inr s
     | Some (JObject th) \<Rightarrow>
         (case map_of th ''by_customer_type'' of
            Some (JObject byType) \<Rightarrow> and_then (read_thresholds byType (sn_Thresholds s)) (\<lambda>m. Inr (s\<lparr>sn_Thresholds := m\<rparr>))
          | _ \<Rightarrow> Inr s)
     | Some _ \<Rightarrow> Inl (ErrField ''conditions.threshold'' ''threshold must be an object''))"

definition read_conditions :: "any option \<Rightarrow> scenario \<Rightarrow> scenario result" where
  "read_conditions rawConditions s = (case rawConditions of
       None \<Rightarrow> Inr s
     | Some (JObject conditions) \<Rightarrow>
         and_then (validateScenarioConditions conditions) (\<lambda>_.
         let s = (case map_of conditions ''absolute_threshold'' of None \<Rightarrow> s
                  | Some absolute \<Rightarrow> s\<lparr>sn_Parameters := tbl_put ''absolute_threshold'' absolute (sn_Parameters s)\<rparr>) in
         and_then (read_types (map_of conditions ''transaction_type'') s) (\<lambda>s.
         and_then (read_aggregation (map_of conditions ''aggregation'') s) (\<lambda>s.
         and_then (read_additional (map_of conditions ''additional'') s) (\<lambda>s.
         read_threshold (map_of conditions ''threshold'') s))))
     | Some _ \<Rightarrow> Inl (ErrField ''conditions'' ''conditions must be an object''))"

definition scenario_of :: "(string \<times> any) list \<Rightarrow> scenario result" where
  "scenario_of raw =
    (let s = scenario_base raw in
     and_then (validateScenarioTopLevel raw) (\<lambda>_.
     and_then (check_type raw s) (\<lambda>_.
     let s = route_legacy s;
         s = (case map_of raw ''parameters'' of Some (JObject p) \<Rightarrow> s\<lparr>sn_Parameters := put_all p (sn_Parameters s)\<rparr> | _ \<Rightarrow> s) in
     and_then (tier_adjustments (map_of raw ''risk_tier_adjustments'') s) (\<lambda>s.
     and_then (read_conditions (map_of raw ''conditions'') s) (\<lambda>s.
     if sn_ID s = [] then Inl (ErrField ''scenario_id'' ''scenario_id is required'')
     else and_then (validateDetectorAggregation s) (\<lambda>_. Inr s))))))"

definition parseScenario :: "(string \<Rightarrow> (string \<times> any) list result) \<Rightarrow> string \<Rightarrow> scenario result" where
  "parseScenario unmarshal content = and_then (unmarshal content) scenario_of"

subsection \<open>What an accepted scenario looks like\<close>

definition token_ok :: "string \<Rightarrow> bool" where
  "token_ok t \<longleftrightarrow> t \<noteq> [] \<and> ToLower (TrimSpace t) = t"

definition tiers_ok :: "(string \<times> 'a) list \<Rightarrow> bool" where
  "tiers_ok m \<longleftrightarrow> set (map fst m) \<subseteq> set tier_keys \<and> distinct (map fst m)"

definition aggregation_ok :: "aggregationSpec \<Rightarrow> bool" where
  "aggregation_ok a \<longleftrightarrow> ag_Field a = ''amount'' \<and> ag_Function a \<in> {''sum'', ''count''} \<and> ag_GroupBy a = ''customer_id'' \<and> ag_Period a > 0"

text \<open>The conditions the stages of the parser establish and keep.\<close>

definition parsed_ok :: "scenario \<Rightarrow> bool" where
  "parsed_ok s \<longleftrightarrow>
    (sn_Detector s = [] \<and> legacyDetectorForID (sn_ID s) = None \<or> sn_Detector s \<in> set supportedDetectors) \<and>
    (HasPrefix (sn_SchemaVersion s) ''2.1'' \<longrightarrow> sn_Detector s \<noteq> [] \<and> \<not> sn_LegacyRouting s \<and> \<not> sn_LegacyWindowAlias s) \<and>
    (sn_Aggregation s = empty_aggregation \<or> aggregation_ok (sn_Aggregation s) \<and>
      map_of (sn_Parameters s) ''window_seconds'' = Some (JNumber (Seconds (ag_Period (sn_Aggregation s))))) \<and>
    (\<forall>(ct, byTier) \<in> set (sn_Thresholds s). tiers_ok byTier) \<and>
    (\<forall>t \<in> set (sn_TransactionTypes s). token_ok t)"

definition scenario_ok :: "scenario \<Rightarrow> bool" where
  "scenario_ok s \<longleftrightarrow> sn_ID s \<noteq> [] \<and> parsed_ok s \<and>
    (sn_Aggregation s \<noteq> empty_aggregation \<and> sn_Detector s \<noteq> [] \<longrightarrow>
       map_of wanted_function (sn_Detector s) = Some (ag_Function (sn_Aggregation s)))"

lemma is_space_lower [simp]: "is_space (lower_char c) = is_space c"
  by (auto simp: is_space_def lower_char_def split: if_splits)

lemma TrimSpace_ToLower: "TrimSpace (ToLower s) = ToLower (TrimSpace s)"
  by (simp add: TrimSpace_def ToLower_def dropWhile_map rev_map comp_def)

lemma token_ok_normal: "ToLower (TrimSpace s) \<noteq> [] \<Longrightarrow> token_ok (ToLower (TrimSpace s))"
  by (simp add: token_ok_def TrimSpace_ToLower)

lemma parse_tokens_ok: "parse_tokens i items = Inr ts \<Longrightarrow> \<forall>t \<in> set ts. token_ok t"
  by (induction items arbitrary: i ts) (auto simp: Let_def token_ok_normal split: if_splits)

lemma ToLower_Nil [simp]: "ToLower s = [] \<longleftrightarrow> s = []"
  by (simp add: ToLower_def)

lemma parseTransactionTypes_ok: "parseTransactionTypes v = Inr ts \<Longrightarrow> \<forall>t \<in> set ts. token_ok t"
  by (auto simp: parseTransactionTypes_def parse_tokens_ok token_ok_normal split: any.splits if_splits)

lemma parseAggregation_ok: "parseAggregation raw = Inr a \<Longrightarrow> aggregation_ok a"
  by (auto simp: parseAggregation_def aggregation_ok_def Let_def split: if_splits option.splits)

lemma check_keys_ok: "check_keys path message allowed m = Inr x \<longleftrightarrow> fst ` set m \<subseteq> set allowed"
proof (cases "find (\<lambda>key. key \<notin> set allowed) (map fst m)")
  case None
  then have "fst ` set m \<subseteq> set allowed"
    by (auto simp: find_None_iff)
  then show ?thesis
    using None by (simp add: check_keys_def)
next
  case (Some key)
  then have "key \<in> fst ` set m" "key \<notin> set allowed"
    by (auto simp: find_Some_iff)
  then show ?thesis
    using Some by (auto simp: check_keys_def)
qed

lemma map_of_put_all: "k \<notin> fst ` set entries \<Longrightarrow> map_of (put_all entries m) k = map_of m k"
  unfolding put_all_def
  by (induction entries arbitrary: m) (auto simp: update_conv' split: prod.splits)

lemma set_tbl_put: "set (tbl_put k v m) \<subseteq> insert (k, v) (set m)"
  by (induction m) auto

lemma read_thresholds_ok:
  assumes "read_thresholds entries thresholds = Inr m" and "\<forall>(ct, byTier) \<in> set thresholds. tiers_ok byTier"
  shows "\<forall>(ct, byTier) \<in> set m. tiers_ok byTier"
  using assms
proof (induction entries arbitrary: thresholds)
  case (Cons entry rest)
  obtain ct v where entry: "entry = (ct, v)"
    by force
  show ?case
  proof (cases "customer_tiers v")
    case None
    then show ?thesis
      using Cons entry by simp
  next
    case (Some byTier)
    then obtain normalized where n: "normalizeRiskTierMap byTier (threshold_path ct @ ''.by_risk_tier'') = Inr normalized"
      "read_thresholds rest (tbl_put ct (map (\<lambda>(tier, n). (tier, number n)) normalized) thresholds) = Inr m"
      using Cons.prems(1) entry by auto
    have "tiers_ok (map (\<lambda>(tier, n). (tier, number n)) normalized)"
      using normalizeRiskTierMap_ok(2,3) [OF n(1)] by (simp add: tiers_ok_def comp_def case_prod_beta)
    then have "\<forall>(ct, byTier) \<in> set (tbl_put ct (map (\<lambda>(tier, n). (tier, number n)) normalized) thresholds). tiers_ok byTier"
      using Cons.prems(2) set_tbl_put by fast
    then show ?thesis
      by (rule Cons.IH [OF n(2)])
  qed
qed simp

text \<open>Which parts of a scenario the later stages leave alone.\<close>

definition same_head :: "scenario \<Rightarrow> scenario \<Rightarrow> bool" where
  "same_head s s' \<longleftrightarrow> sn_ID s' = sn_ID s \<and> sn_Detector s' = sn_Detector s \<and> sn_SchemaVersion s' = sn_SchemaVersion s"

lemma read_types_ok: "read_types v s = Inr s' \<Longrightarrow> parsed_ok s \<Longrightarrow> parsed_ok s' \<and> same_head s s'"
  by (auto simp: read_types_def parsed_ok_def same_head_def parseTransactionTypes_ok split: option.splits)

lemma read_aggregation_ok: "read_aggregation v s = Inr s' \<Longrightarrow> parsed_ok s \<Longrightarrow> parsed_ok s' \<and> same_head s s'"
  by (auto simp: read_aggregation_def parsed_ok_def same_head_def update_conv' dest: parseAggregation_ok split: option.splits any.splits)

lemma read_additional_ok:
  assumes "read_additional v s = Inr s'" and "parsed_ok s"
    and "\<And>add. v = Some (JObject add) \<Longrightarrow> fst ` set add \<subseteq> set allowed_additional"
  shows "parsed_ok s' \<and> same_head s s'"
proof (cases v)
  case (Some w)
  then obtain add where add: "v = Some (JObject add)"
    and s': "s' = s\<lparr>sn_LegacyWindowAlias := (map_of add ''window_hours'' \<noteq> None \<and> \<not> HasPrefix (sn_SchemaVersion s) ''2.1'' \<or> sn_LegacyWindowAlias s),
      sn_Parameters := put_all add (sn_Parameters s)\<rparr>"
    using assms(1) by (cases w) (auto simp: read_additional_def)
  have "''window_seconds'' \<notin> set allowed_additional"
    by code_simp
  then have "map_of (put_all add (sn_Parameters s)) ''window_seconds'' = map_of (sn_Parameters s) ''window_seconds''"
    using assms(3) [OF add] by (intro map_of_put_all) auto
  then show ?thesis
    using assms(2) unfolding s' parsed_ok_def same_head_def by simp
qed (use assms in \<open>simp add: read_additional_def same_head_def\<close>)

lemma read_threshold_ok: "read_threshold v s = Inr s' \<Longrightarrow> parsed_ok s \<Longrightarrow> parsed_ok s' \<and> same_head s s'"
  using read_thresholds_ok by (fastforce simp: read_threshold_def parsed_ok_def same_head_def split: option.splits any.splits)

lemma conditions_additional:
  assumes "validateScenarioConditions conditions = Inr x" and "map_of conditions ''additional'' = Some (JObject add)"
  shows "fst ` set add \<subseteq> set allowed_additional"
  using assms by (auto simp: validateScenarioConditions_def check_keys_ok)

lemma same_head_trans: "same_head s t \<Longrightarrow> same_head t u \<Longrightarrow> same_head s u"
  by (simp add: same_head_def)

lemma read_conditions_ok:
  assumes "read_conditions v s = Inr s'" and "parsed_ok s" and "sn_Aggregation s = empty_aggregation"
  shows "parsed_ok s' \<and> same_head s s'"
proof (cases v)
  case (Some w)
  then obtain conditions where w: "w = JObject conditions"
    using assms(1) by (cases w) (auto simp: read_conditions_def)
  define s0 where "s0 = (case map_of conditions ''absolute_threshold'' of None \<Rightarrow> s
      | Some absolute \<Rightarrow> s\<lparr>sn_Parameters := tbl_put ''absolute_threshold'' absolute (sn_Parameters s)\<rparr>)"
  obtain x s1 s2 s3 where valid: "validateScenarioConditions conditions = Inr x"
    and s1: "read_types (map_of conditions ''transaction_type'') s0 = Inr s1"
    and s2: "read_aggregation (map_of conditions ''aggregation'') s1 = Inr s2"
    and s3: "read_additional (map_of conditions ''additional'') s2 = Inr s3"
    and s4: "read_threshold (map_of conditions ''threshold'') s3 = Inr s'"
    using assms(1) Some w by (auto simp: read_conditions_def Let_def s0_def)
  have 0: "parsed_ok s0 \<and> same_head s s0"
    using assms(2,3) by (auto simp: s0_def parsed_ok_def same_head_def split: option.splits)
  note 1 = read_types_ok [OF s1 conjunct1 [OF 0]]
  note 2 = read_aggregation_ok [OF s2 conjunct1 [OF 1]]
  note 3 = read_additional_ok [OF s3 conjunct1 [OF 2] conditions_additional [OF valid]]
  note 4 = read_threshold_ok [OF s4 conjunct1 [OF 3]]
  from 0 1 2 3 4 show ?thesis
    by (auto simp: same_head_def)
qed (use assms in \<open>simp add: read_conditions_def same_head_def\<close>)

lemma legacy_detector_supported: "legacyDetectorForID i = Some d \<Longrightarrow> d \<in> set supportedDetectors"
  by (auto simp: legacyDetectorForID_def legacy_prefixes_def supportedDetectors_def split: if_splits)

lemma scenario_base_simps [simp]:
  "sn_Aggregation (scenario_base raw) = empty_aggregation" "sn_Thresholds (scenario_base raw) = []"
  "sn_TransactionTypes (scenario_base raw) = []" "\<not> sn_LegacyRouting (scenario_base raw)" "\<not> sn_LegacyWindowAlias (scenario_base raw)"
  by (simp_all add: scenario_base_def Let_def)

lemma base_detector: "ToLower (TrimSpace (sn_Detector (scenario_base raw))) = sn_Detector (scenario_base raw)"
  by (simp add: scenario_base_def Let_def TrimSpace_ToLower)

lemma routed_ok:
  assumes "check_type raw (scenario_base raw) = Inr x"
  shows "parsed_ok (route_legacy (scenario_base raw)) \<and> sn_Aggregation (route_legacy (scenario_base raw)) = empty_aggregation"
proof (cases "sn_Detector (scenario_base raw) = []")
  case True
  then have "\<not> HasPrefix (sn_SchemaVersion (scenario_base raw)) ''2.1''"
    using assms by (auto simp: check_type_def Let_def split: if_splits)
  then show ?thesis
    using True legacy_detector_supported by (auto simp: route_legacy_def parsed_ok_def split: option.splits)
next
  case False
  then have "supportedDetector (sn_Detector (scenario_base raw))"
    using assms by (auto simp: check_type_def Let_def split: if_splits)
  then have "sn_Detector (scenario_base raw) \<in> set supportedDetectors"
    by (simp add: supportedDetector_def base_detector)
  then show ?thesis
    using False by (simp add: route_legacy_def parsed_ok_def)
qed

lemma tier_adjustments_ok:
  "tier_adjustments v s = Inr s' \<Longrightarrow> parsed_ok s \<Longrightarrow> sn_Aggregation s = empty_aggregation \<Longrightarrow>
     parsed_ok s' \<and> sn_Aggregation s' = empty_aggregation"
  by (auto simp: tier_adjustments_def parsed_ok_def split: option.splits any.splits)

lemma detector_function:
  assumes "validateDetectorAggregation s = Inr x" and "sn_Detector s \<in> set supportedDetectors" and "ag_Function (sn_Aggregation s) \<noteq> []"
  shows "map_of wanted_function (sn_Detector s) = Some (ag_Function (sn_Aggregation s))"
proof -
  obtain expected where "map_of wanted_function (sn_Detector s) = Some expected"
  proof (cases "map_of wanted_function (sn_Detector s)")
    case None
    moreover have "fst ` set wanted_function = set supportedDetectors"
      by (simp add: wanted_function_def supportedDetectors_def)
    ultimately show ?thesis
      using assms(2) by (simp add: map_of_eq_None_iff)
  qed
  then show ?thesis
    using assms by (auto simp: validateDetectorAggregation_def split: if_splits)
qed

lemma scenario_of_ok:
  assumes "scenario_of raw = Inr s"
  shows "scenario_ok s"
proof -
  define s1 where "s1 = route_legacy (scenario_base raw)"
  define s2 where "s2 = (case map_of raw ''parameters'' of Some (JObject p) \<Rightarrow> s1\<lparr>sn_Parameters := put_all p (sn_Parameters s1)\<rparr> | _ \<Rightarrow> s1)"
  obtain x s3 y where type: "check_type raw (scenario_base raw) = Inr x"
    and s3: "tier_adjustments (map_of raw ''risk_tier_adjustments'') s2 = Inr s3"
    and s: "read_conditions (map_of raw ''conditions'') s3 = Inr s"
    and id: "sn_ID s \<noteq> []" and agg: "validateDetectorAggregation s = Inr y"
    using assms unfolding scenario_of_def Let_def s1_def [symmetric] s2_def [symmetric] by (auto split: if_splits)
  have "parsed_ok s2 \<and> sn_Aggregation s2 = empty_aggregation"
    using routed_ok [OF type] by (auto simp: s2_def s1_def parsed_ok_def split: option.splits any.splits)
  then have "parsed_ok s3 \<and> sn_Aggregation s3 = empty_aggregation"
    using tier_adjustments_ok [OF s3] by blast
  then have ok: "parsed_ok s"
    using read_conditions_ok [OF s] by blast
  have "map_of wanted_function (sn_Detector s) = Some (ag_Function (sn_Aggregation s))"
    if "sn_Aggregation s \<noteq> empty_aggregation" and "sn_Detector s \<noteq> []"
    using ok that by (intro detector_function [OF agg]) (auto simp: parsed_ok_def aggregation_ok_def)
  then show ?thesis
    using id ok by (simp add: scenario_ok_def)
qed

subsection \<open>Properties\<close>

lemma supported_iff:
  assumes "scenario_ok s"
  shows "scenarioHasSupportedDetector s \<longleftrightarrow> sn_Detector s \<in> set supportedDetectors"
proof -
  have "\<forall>d \<in> set supportedDetectors. supportedDetector d" "\<not> supportedDetector []" by code_simp+
  with assms show ?thesis by (auto simp: scenario_ok_def parsed_ok_def scenarioHasSupportedDetector_def)
qed

text \<open>
  C15. Every scenario the parser accepts is well formed, whatever document it was read from: it has an
  identifier; its detector, given or inferred, is one the engine implements, or none at all, which happens only
  to a document of a schema other than 2.1 whose identifier no legacy route knows, and the engine's
  check for a supported detector tells the two apart; an aggregation sums or
  counts amounts per customer over a positive period, uses the function its detector requires and
  fixes the window parameter; thresholds are keyed by the three risk tiers, each at most once;
  transaction types are normalised; and a document of schema 2.1 names its detector and uses neither
  legacy routing nor the legacy window.\<close>

theorem accepted_scenario_ok:
  assumes "parseScenario unmarshal content = Inr s"
  shows "scenario_ok s \<and> (scenarioHasSupportedDetector s \<longleftrightarrow> sn_Detector s \<in> set supportedDetectors) \<and>
    (sn_Detector s \<notin> set supportedDetectors \<longrightarrow>
       sn_Detector s = [] \<and> legacyDetectorForID (sn_ID s) = None \<and> \<not> HasPrefix (sn_SchemaVersion s) ''2.1'')"
proof -
  have "scenario_ok s" using assms scenario_of_ok by (auto simp: parseScenario_def)
  with supported_iff show ?thesis by (auto simp: scenario_ok_def parsed_ok_def)
qed

definition sample_document :: "(string \<times> any) list" where
  "sample_document = [(''schema_version'', JString ''2.1''), (''scenario_id'', JString ''s1''), (''type'', JString ''aggregation''),
     (''detector'', JString '' Structuring ''),
     (''conditions'', JObject [
        (''aggregation'', JObject [(''field'', JString ''amount''), (''function'', JString ''sum''), (''period'', JString ''48h''), (''group_by'', JString ''customer_id'')]),
        (''transaction_type'', JArray [JString '' Cash_Deposit'']),
        (''threshold'', JObject [(''by_customer_type'', JObject [(''individual'', JObject [(''by_risk_tier'', JObject [(''high'', JNumber (F64 1000000))])])])])])]"

theorem accepted_scenario_ok_witness: "scenario_ok (projr (parseScenario (\<lambda>_. Inr sample_document) []))"
proof (rule conjunct1 [OF accepted_scenario_ok])
  have "map_sum (\<lambda>_. ()) sn_Detector (parseScenario (\<lambda>_. Inr sample_document) []) = Inr ''structuring''"
    by code_simp
  then show "parseScenario (\<lambda>_. Inr sample_document) [] = Inr (projr (parseScenario (\<lambda>_. Inr sample_document) []))"
    by (cases "parseScenario (\<lambda>_. Inr sample_document) []") auto
qed

end
