(* ===== verification/Engine_Config.thy ===== *)
theory Engine_Config
  imports Scenario_Config Scoring Screening Encoding
begin

text \<open>
  Loading and validating the configuration documents of the engine (\<^verbatim>\<open>engine/native/native.go\<close>: the
  parsing and checking \<^verbatim>\<open>New\<close> does with the contents of each file and \<^verbatim>\<open>ValidateConfig\<close>; \<^verbatim>\<open>engine/native/config_validation.go\<close> in full). The YAML decoders are
  parameters, one per type the code decodes into, and so is the node tree the locator walks; reading
  files and directories is left out.
\<close>

subsection \<open>Error paths\<close>

text \<open>\<^verbatim>\<open>errors.As\<close> follows wrapped errors.\<close>

fun fieldPath :: "go_error \<Rightarrow> string" where
  "fieldPath (ErrField path message) = path"
| "fieldPath (ErrWrap context err) = fieldPath err"
| "fieldPath _ = []"

subsection \<open>Positions in the document\<close>

datatype yaml_kind = DocumentNode | MappingNode | SequenceNode | ScalarNode | AliasNode

datatype yaml_node = Node (kind_of: yaml_kind) (line_of: int) (column_of: int) (value_of: string) (content_of: "yaml_node list")

text \<open>The first run of digits that follows the word \<^verbatim>\<open>line\<close> and a blank.\<close>

fun after_line :: "string \<Rightarrow> string option" where
  "after_line [] = None"
| "after_line (c # cs) =
    (if HasPrefix (c # cs) ''line '' \<and> takeWhile is_digit (drop 5 (c # cs)) \<noteq> []
     then Some (takeWhile is_digit (drop 5 (c # cs))) else after_line cs)"

definition syntaxPosition :: "string \<Rightarrow> int" where
  "syntaxPosition message =
    (case after_line message of
       None \<Rightarrow> 0
     | Some digits \<Rightarrow> (case Atoi digits of None \<Rightarrow> 0 | Some line \<Rightarrow> line))"

text \<open>A segment is a key without brackets followed by bracketed indices.\<close>

function index_parts :: "string \<Rightarrow> string list option" where
  "index_parts s =
    (case s of
       [] \<Rightarrow> Some []
     | c # cs \<Rightarrow>
         let digits = takeWhile is_digit cs; rest = dropWhile is_digit cs in
         if c = CHR ''['' \<and> digits \<noteq> [] \<and> rest \<noteq> [] \<and> hd rest = CHR '']''
         then map_option ((#) digits) (index_parts (tl rest)) else None)"
  by pat_completeness auto
termination
proof (relation "measure length")
  fix s c cs digits rest
  assume "s = c # cs" and "rest = dropWhile is_digit cs"
  then show "(tl rest, s) \<in> measure length"
    using length_dropWhile_le [of is_digit cs] by simp
qed simp

definition path_segment :: "string \<Rightarrow> (string \<times> string list) option" where
  "path_segment segment =
    (let bracket = (\<lambda>c. c = CHR ''['' \<or> c = CHR '']'') in
     map_option (Pair (takeWhile (\<lambda>c. \<not> bracket c) segment)) (index_parts (dropWhile (\<lambda>c. \<not> bracket c) segment)))"

definition parseIndices :: "string list \<Rightarrow> int list" where
  "parseIndices parts = List.map_filter Atoi parts"

fun mapping_entry :: "yaml_node list \<Rightarrow> string \<Rightarrow> (yaml_node \<times> yaml_node) option" where
  "mapping_entry (k # v # rest) key = (if value_of k = key then Some (k, v) else mapping_entry rest key)"
| "mapping_entry _ key = None"

definition mappingEntry :: "yaml_node \<Rightarrow> string \<Rightarrow> (yaml_node \<times> yaml_node) option" where
  "mappingEntry node key = (if kind_of node \<noteq> MappingNode then None else mapping_entry (content_of node) key)"

fun locate_indices :: "int list \<Rightarrow> yaml_node \<times> yaml_node \<Rightarrow> (yaml_node \<times> yaml_node) option" where
  "locate_indices [] (node, positioned) = Some (node, positioned)"
| "locate_indices (index # rest) (node, positioned) =
    (if kind_of node \<noteq> SequenceNode \<or> index \<ge> int (length (content_of node)) then None
     else let node = content_of node ! nat index in locate_indices rest (node, node))"

fun locate_segments :: "string list \<Rightarrow> yaml_node \<times> yaml_node \<Rightarrow> (int \<times> int) option" where
  "locate_segments [] (node, positioned) = Some (line_of positioned, column_of positioned)"
| "locate_segments (segment # rest) (node, positioned) =
    (case path_segment segment of
       None \<Rightarrow> None
     | Some (key, parts) \<Rightarrow>
         (case (if key \<noteq> [] then map_option (\<lambda>(k, v). (v, k)) (mappingEntry node key) else Some (node, positioned)) of
            None \<Rightarrow> None
          | Some here \<Rightarrow>
              (case locate_indices (parseIndices parts) here of
                 None \<Rightarrow> None
               | Some next \<Rightarrow> locate_segments rest next)))"

definition split_dots :: "string \<Rightarrow> string list" where
  "split_dots path = foldr (\<lambda>c parts. if c = CHR ''.'' then [] # parts else (c # hd parts) # tl parts) path [[]]"

definition locate :: "yaml_node option \<Rightarrow> string \<Rightarrow> (int \<times> int) option" where
  "locate tree path =
    (case tree of
       None \<Rightarrow> None
     | Some node \<Rightarrow>
         if path = [] then None
         else if kind_of node = DocumentNode then
           (case content_of node of [] \<Rightarrow> None | node # _ \<Rightarrow> locate_segments (split_dots path) (node, node))
         else locate_segments (split_dots path) (node, node))"

subsection \<open>Collecting findings\<close>

datatype ConfigValidationErrorClass = ConfigErrorSyntax | ConfigErrorSchema | ConfigErrorCrossReference | ConfigErrorActivation

datatype ConfigValidationSeverity = ConfigSeverityError | ConfigSeverityWarning

record ConfigValidationError =
  ce_Field :: string
  ce_Message :: string
  ce_Class :: ConfigValidationErrorClass
  ce_Severity :: ConfigValidationSeverity
  ce_Line :: int
  ce_Column :: int
  ce_Path :: string

record ConfigValidationResult =
  cv_Valid :: bool
  cv_Errors :: "ConfigValidationError list"
  cv_Warnings :: "ConfigValidationError list"

definition no_findings :: ConfigValidationResult where
  "no_findings = \<lparr>cv_Valid = True, cv_Errors = [], cv_Warnings = []\<rparr>"

definition addSyntax :: "go_error \<Rightarrow> ConfigValidationResult \<Rightarrow> ConfigValidationResult" where
  "addSyntax err c = c\<lparr>cv_Valid := False, cv_Errors := cv_Errors c @
     [\<lparr>ce_Field = ''yaml'', ce_Message = ''parse error: '' @ Error err, ce_Class = ConfigErrorSyntax, ce_Severity = ConfigSeverityError,
       ce_Line = syntaxPosition (Error err), ce_Column = 0, ce_Path = []\<rparr>]\<rparr>"

definition add_finding ::
  "yaml_node option \<Rightarrow> string \<Rightarrow> ConfigValidationErrorClass \<Rightarrow> go_error \<Rightarrow> ConfigValidationResult \<Rightarrow> ConfigValidationResult" where
  "add_finding tree field class' err c =
    (let path = fieldPath err;
         (line, column) = (if path \<noteq> [] then (case locate tree path of Some p \<Rightarrow> p | None \<Rightarrow> (0, 0)) else (0, 0))
     in c\<lparr>cv_Valid := False, cv_Errors := cv_Errors c @
       [\<lparr>ce_Field = field, ce_Message = Error err, ce_Class = class', ce_Severity = ConfigSeverityError,
         ce_Line = line, ce_Column = column, ce_Path = path\<rparr>]\<rparr>)"

definition addPathError ::
  "yaml_node option \<Rightarrow> string \<Rightarrow> string \<Rightarrow> ConfigValidationErrorClass \<Rightarrow> string \<Rightarrow> ConfigValidationResult \<Rightarrow> ConfigValidationResult" where
  "addPathError tree field path class' message c = add_finding tree field class' (ErrField path message) c"

definition warn :: "yaml_node option \<Rightarrow> string \<Rightarrow> string \<Rightarrow> string \<Rightarrow> ConfigValidationResult \<Rightarrow> ConfigValidationResult" where
  "warn tree field path message c =
    (let (line, column) = (case locate tree path of Some p \<Rightarrow> p | None \<Rightarrow> (0, 0))
     in c\<lparr>cv_Warnings := cv_Warnings c @
       [\<lparr>ce_Field = field, ce_Message = message, ce_Class = ConfigErrorSchema, ce_Severity = ConfigSeverityWarning,
         ce_Line = line, ce_Column = column, ce_Path = path\<rparr>]\<rparr>)"

subsection \<open>Loading\<close>

definition load_cdd :: "(string \<Rightarrow> cddConfig result) \<Rightarrow> string \<Rightarrow> cddConfig result" where
  "load_cdd unmarshal cddYAML =
    (case unmarshal cddYAML of
       Inl err \<Rightarrow> Inl (ErrWrap ''parse CDD config'' err)
     | Inr cdd \<Rightarrow> and_then (normalizeCDD cdd) (\<lambda>cdd. case validateCDD cdd of Some err \<Rightarrow> Inl err | None \<Rightarrow> Inr cdd))"

definition scenario_warnings :: "scenario \<Rightarrow> string list" where
  "scenario_warnings s =
    (if sn_LegacyRouting s then [''scenario '' @ Quote (sn_ID s) @ '' uses deprecated ID-based detector routing; declare detector before 2027-08-15''] else []) @
    (if sn_LegacyWindowAlias s then [''scenario '' @ Quote (sn_ID s) @
       '' uses deprecated conditions.additional.window_hours; use conditions.aggregation.period before 2027-08-15''] else [])"

definition load_scenario :: "(string \<Rightarrow> (string \<times> any) list result) \<Rightarrow> string \<times> string \<Rightarrow> scenario result" where
  "load_scenario unmarshal file =
    (case file of (path, content) \<Rightarrow>
     case parseScenario unmarshal content of
       Inl err \<Rightarrow> Inl (ErrWrap (''parse TM config '' @ path) err)
     | Inr s \<Rightarrow> if \<not> scenarioHasSupportedDetector s then Inl (ErrText (''unknown scenario type: '' @ sn_ID s)) else Inr s)"

fun load_scenarios :: "(string \<Rightarrow> (string \<times> any) list result) \<Rightarrow> (string \<times> string) list \<Rightarrow> (scenario list \<times> string list) result" where
  "load_scenarios unmarshal [] = Inr ([], [])"
| "load_scenarios unmarshal (file # files) =
    and_then (load_scenario unmarshal file) (\<lambda>s.
    and_then (load_scenarios unmarshal files) (\<lambda>(ss, ws). Inr (s # ss, scenario_warnings s @ ws)))"

definition load_tm :: "(string \<Rightarrow> (string \<times> any) list result) \<Rightarrow> (string \<times> string) list \<Rightarrow> (scenario list \<times> string list) result" where
  "load_tm unmarshal files =
    and_then (load_scenarios unmarshal files) (\<lambda>(ss, ws).
      if ss = [] then Inl (ErrText ''at least one TM scenario must be configured'') else Inr (ss, ws))"

definition load_country :: "(string \<Rightarrow> countryRisk result) \<Rightarrow> string \<Rightarrow> countryRisk result" where
  "load_country unmarshal content =
    (case unmarshal content of
       Inl err \<Rightarrow> Inl (ErrWrap ''parse country risk config'' err)
     | Inr table \<Rightarrow> (case validateCountryRisk table of Some err \<Rightarrow> Inl err | None \<Rightarrow> Inr table))"

definition default_entity_type :: "screeningEntry \<Rightarrow> screeningEntry" where
  "default_entity_type e = (if se_EntityType e = [] then e\<lparr>se_EntityType := se_Type e\<rparr> else e)"

definition load_list :: "(string \<Rightarrow> screeningList result) \<Rightarrow> string \<times> string \<Rightarrow> screeningList result" where
  "load_list unmarshal file =
    (case file of (path, content) \<Rightarrow>
     case unmarshal content of
       Inl err \<Rightarrow> Inl (ErrWrap (''parse screening list '' @ path) err)
     | Inr l \<Rightarrow>
         if sl_ID l = [] then Inl (ErrText (''screening list '' @ path @ '' list_id must not be empty''))
         else if sl_Entries l = [] then Inl (ErrText (''screening list '' @ path @ '' entries must not be empty''))
         else case find (\<lambda>e. se_Names e = []) (sl_Entries l) of
           Some e \<Rightarrow> Inl (ErrText (''screening list '' @ path @ '' entry '' @ se_ID e @ '' names must not be empty''))
         | None \<Rightarrow> Inr (l\<lparr>sl_Entries := map default_entity_type (sl_Entries l)\<rparr>))"

fun load_lists :: "(string \<Rightarrow> screeningList result) \<Rightarrow> (string \<times> string) list \<Rightarrow> screeningList list result" where
  "load_lists unmarshal [] = Inr []"
| "load_lists unmarshal (file # files) =
    and_then (load_list unmarshal file) (\<lambda>l. and_then (load_lists unmarshal files) (\<lambda>ls. Inr (l # ls)))"

subsection \<open>Validation\<close>

record decoders =
  dc_cdd :: "string \<Rightarrow> cddConfig result"
  dc_document :: "string \<Rightarrow> (string \<times> any) list result"
  dc_list :: "string \<Rightarrow> screeningList result"
  dc_country :: "string \<Rightarrow> countryRisk result"
  dc_node :: "string \<Rightarrow> yaml_node option"

definition validate_cdd :: "decoders \<Rightarrow> string \<Rightarrow> ConfigValidationResult" where
  "validate_cdd dc content =
    (case dc_cdd dc content of
       Inl err \<Rightarrow> addSyntax err no_findings
     | Inr cdd \<Rightarrow>
         (case normalizeCDD cdd of
            Inl err \<Rightarrow> add_finding (dc_node dc content) ''config'' ConfigErrorSchema err no_findings
          | Inr cdd \<Rightarrow>
              (case validateCDD cdd of
                 Some err \<Rightarrow> add_finding (dc_node dc content) ''config'' ConfigErrorSchema err no_findings
               | None \<Rightarrow> no_findings)))"

definition validate_tm :: "decoders \<Rightarrow> string \<Rightarrow> ConfigValidationResult" where
  "validate_tm dc content =
    (case dc_document dc content of
       Inl err \<Rightarrow> addSyntax err no_findings
     | Inr raw \<Rightarrow>
         (case parseScenario (dc_document dc) content of
            Inl err \<Rightarrow> add_finding (dc_node dc content) ''config'' ConfigErrorSchema err no_findings
          | Inr s \<Rightarrow>
              if \<not> scenarioHasSupportedDetector s
              then addPathError (dc_node dc content) ''config'' ''scenario_id'' ConfigErrorCrossReference (''unknown scenario type: '' @ sn_ID s) no_findings
              else let isV2 = (HasPrefix (stringValue (map_of raw ''schema_version'')) ''2'' \<or>
                       map_of raw ''conditions'' \<notin> {None, Some JNull}) in
                if \<not> isV2 \<and> sn_Parameters s = []
                then addPathError (dc_node dc content) ''config'' ''parameters'' ConfigErrorSchema ''parameters must not be empty'' no_findings
                else no_findings))"

definition validate_list :: "decoders \<Rightarrow> string \<Rightarrow> ConfigValidationResult" where
  "validate_list dc content =
    (case dc_list dc content of
       Inl err \<Rightarrow> addSyntax err no_findings
     | Inr l \<Rightarrow> (case validateScreeningList l of
         Some err \<Rightarrow> add_finding (dc_node dc content) ''config'' ConfigErrorSchema err no_findings
       | None \<Rightarrow> no_findings))"

definition validate_country :: "decoders \<Rightarrow> string \<Rightarrow> ConfigValidationResult" where
  "validate_country dc content =
    (case dc_country dc content of
       Inl err \<Rightarrow> addSyntax err no_findings
     | Inr table \<Rightarrow> (case validateCountryRisk table of
         Some err \<Rightarrow> add_finding (dc_node dc content) ''config'' ConfigErrorSchema err no_findings
       | None \<Rightarrow> no_findings))"

definition ValidateConfig :: "decoders \<Rightarrow> go_error option \<Rightarrow> string \<Rightarrow> string \<Rightarrow> ConfigValidationResult result" where
  "ValidateConfig dc ctx typ content =
    (case ctx of
       Some err \<Rightarrow> Inl err
     | None \<Rightarrow> Inr (
         if int (length content) > 512 * 1024
         then add_finding (dc_node dc content) ''yaml'' ConfigErrorSchema (ErrText ''yaml_content too large (max 512KB)'') no_findings
         else if typ = ''cdd_weights'' then validate_cdd dc content
         else if typ = ''tm_scenarios'' then validate_tm dc content
         else if typ = ''screening_lists'' then validate_list dc content
         else if typ = ''country_risk'' then validate_country dc content
         else add_finding (dc_node dc content) ''config_type'' ConfigErrorSchema (ErrText (''unknown config type: '' @ typ)) no_findings))"

subsection \<open>Validation agrees with loading\<close>

lemma findings_block [simp]:
  "\<not> cv_Valid (addSyntax err c)" "\<not> cv_Valid (add_finding tree field class' err c)"
  "\<not> cv_Valid (addPathError tree field path class' message c)" "cv_Valid no_findings"
  by (simp_all add: addSyntax_def add_finding_def addPathError_def no_findings_def case_prod_beta Let_def)

lemma find_enumerate: "find (\<lambda>(_, e). P e) (enumerate n es) = None \<longleftrightarrow> find P es = None"
  by (induction es arbitrary: n) auto

lemma validate_cdd_loads: "cv_Valid (validate_cdd dc content) \<longleftrightarrow> is_ok (load_cdd (dc_cdd dc) content)"
  by (auto simp: validate_cdd_def load_cdd_def and_then_def split: sum.splits option.splits)

lemma validate_country_loads: "cv_Valid (validate_country dc content) \<longleftrightarrow> is_ok (load_country (dc_country dc) content)"
  by (auto simp: validate_country_def load_country_def split: sum.splits option.splits)

lemma validate_list_loads: "cv_Valid (validate_list dc content) \<longleftrightarrow> is_ok (load_list (dc_list dc) (path, content))"
proof (cases "dc_list dc content")
  case (Inr l)
  then show ?thesis
    using find_enumerate [of "\<lambda>e. se_Names e = []" 0 "sl_Entries l"]
    by (cases "find (\<lambda>e. se_Names e = []) (sl_Entries l)") (auto simp: validate_list_def load_list_def validateScreeningList_def)
qed (simp add: validate_list_def load_list_def)

lemma validate_tm_loads:
  assumes "cv_Valid (validate_tm dc content)"
  shows "\<exists>s. load_scenario (dc_document dc) (path, content) = Inr s \<and> scenario_ok s \<and> sn_Detector s \<in> set supportedDetectors"
proof -
  obtain s where s: "parseScenario (dc_document dc) content = Inr s" "scenarioHasSupportedDetector s"
    using assms by (auto simp: validate_tm_def Let_def split: sum.splits if_splits)
  have ok: "scenario_ok s"
    using s(1) scenario_of_ok by (auto simp: parseScenario_def)
  have "sn_Detector s \<in> set supportedDetectors"
  proof (rule ccontr)
    assume "sn_Detector s \<notin> set supportedDetectors"
    then have "sn_Detector s = []" "legacyDetectorForID (sn_ID s) = None"
      using ok by (auto simp: scenario_ok_def parsed_ok_def)
    moreover have "\<not> supportedDetector []"
      by code_simp
    ultimately show False
      using s(2) by (simp add: scenarioHasSupportedDetector_def)
  qed
  then show ?thesis
    using s ok by (simp add: load_scenario_def)
qed

lemma load_scenarios_ok:
  "load_scenarios unmarshal files = Inr (ss, ws) \<Longrightarrow>
     length ss = length files \<and> (\<forall>s \<in> set ss. scenario_ok s \<and> scenarioHasSupportedDetector s)"
proof (induction files arbitrary: ss ws)
  case (Cons f fs)
  then obtain s ss' ws' where "load_scenario unmarshal f = Inr s" "load_scenarios unmarshal fs = Inr (ss', ws')" "ss = s # ss'"
    by auto
  then show ?case
    using Cons.IH scenario_of_ok by (auto simp: load_scenario_def parseScenario_def split: prod.splits sum.splits if_splits)
qed simp

text \<open>
  C16. What the operator is told about a document is what happens when it is loaded. For a document of
  at most 512 KB of weights, country scores or screening entries the validation reports it as valid
  exactly when loading accepts it (for weights, when both range over the factors in the same order,
  because the floating-point sum depends on the order), and such a scenario document reported as valid
  loads to a well-formed scenario whose detector the engine implements. A longer document is always
  reported as invalid, although loading has no such limit.\<close>

theorem validation_agrees_with_loading:
  assumes "ValidateConfig dc None typ content = Inr c"
  shows "(if int (length content) > 512 * 1024 then \<not> cv_Valid c
    else (typ = ''cdd_weights'' \<longrightarrow> (cv_Valid c \<longleftrightarrow> is_ok (load_cdd (dc_cdd dc) content))) \<and>
    (typ = ''country_risk'' \<longrightarrow> (cv_Valid c \<longleftrightarrow> is_ok (load_country (dc_country dc) content))) \<and>
    (typ = ''screening_lists'' \<longrightarrow> (cv_Valid c \<longleftrightarrow> is_ok (load_list (dc_list dc) (path, content)))) \<and>
    (typ = ''tm_scenarios'' \<and> cv_Valid c \<longrightarrow> (\<exists>s. load_scenario (dc_document dc) (path, content) = Inr s \<and>
       scenario_ok s \<and> sn_Detector s \<in> set supportedDetectors)))"
proof (cases "int (length content) > 512 * 1024")
  case True
  with assms show ?thesis by (auto simp: ValidateConfig_def)
next
  case False
  with assms have c: "c = (if typ = ''cdd_weights'' then validate_cdd dc content
         else if typ = ''tm_scenarios'' then validate_tm dc content
         else if typ = ''screening_lists'' then validate_list dc content
         else if typ = ''country_risk'' then validate_country dc content
         else add_finding (dc_node dc content) ''config_type'' ConfigErrorSchema (ErrText (''unknown config type: '' @ typ)) no_findings)"
    by (simp add: ValidateConfig_def)
  have "typ = ''cdd_weights'' \<Longrightarrow> c = validate_cdd dc content" "typ = ''country_risk'' \<Longrightarrow> c = validate_country dc content"
    "typ = ''screening_lists'' \<Longrightarrow> c = validate_list dc content" "typ = ''tm_scenarios'' \<Longrightarrow> c = validate_tm dc content"
    unfolding c by simp_all
  then have "(typ = ''cdd_weights'' \<longrightarrow> (cv_Valid c \<longleftrightarrow> is_ok (load_cdd (dc_cdd dc) content))) \<and>
    (typ = ''country_risk'' \<longrightarrow> (cv_Valid c \<longleftrightarrow> is_ok (load_country (dc_country dc) content))) \<and>
    (typ = ''screening_lists'' \<longrightarrow> (cv_Valid c \<longleftrightarrow> is_ok (load_list (dc_list dc) (path, content)))) \<and>
    (typ = ''tm_scenarios'' \<and> cv_Valid c \<longrightarrow> (\<exists>s. load_scenario (dc_document dc) (path, content) = Inr s \<and>
       scenario_ok s \<and> sn_Detector s \<in> set supportedDetectors))"
    using validate_cdd_loads validate_country_loads validate_list_loads validate_tm_loads by metis
  with False show ?thesis by simp
qed

definition sample_decoders :: decoders where
  "sample_decoders = \<lparr>dc_cdd = (\<lambda>_. Inr sample_weights), dc_document = (\<lambda>_. Inr sample_document),
     dc_list = (\<lambda>_. Inl (ErrText ''yaml: line 4: did not find expected key'')), dc_country = (\<lambda>_. Inr \<lparr>cr_DefaultScore = F64 3, cr_Countries = []\<rparr>),
     dc_node = (\<lambda>_. None)\<rparr>"

theorem validation_agrees_with_loading_witness:
  "\<exists>s. load_scenario (dc_document sample_decoders) (''s.yaml'', ''x'') = Inr s \<and> scenario_ok s \<and> sn_Detector s \<in> set supportedDetectors"
proof -
  have "ValidateConfig sample_decoders None ''tm_scenarios'' ''x'' = Inr (validate_tm sample_decoders ''x'')"
    by (simp add: ValidateConfig_def)
  moreover have "cv_Valid (validate_tm sample_decoders ''x'')"
    by code_simp
  ultimately show ?thesis
    using validation_agrees_with_loading [of sample_decoders "''tm_scenarios''" "''x''" "validate_tm sample_decoders ''x''" "''s.yaml''"]
    by simp
qed

end
