(* ===== verification/Rules.thy ===== *)
theory Rules
  imports Engine_Config Paging
begin

text \<open>
  Versioned rule definitions: the memory repository (\<^verbatim>\<open>store/memory.go\<close>, \<^verbatim>\<open>domain/rule.go\<close>) and the
  handlers that create, revise, import, activate and deactivate rules (\<^verbatim>\<open>server/rules.go\<close>), on a server
  with rule management configured and after the request body has been decoded. The validator of
  definitions is the engine's \<^verbatim>\<open>ValidateConfig\<close>, an argument here as it is an interface in the code. The
  theorems are the two promises of the module: versions are never rewritten, and what is active has
  been validated and approved by somebody other than its author.
\<close>

subsection \<open>Data\<close>

datatype RuleType = RuleTypeTMScenario | RuleTypeCDDWeight | RuleTypeScreeningConfig | RuleTypeCountryRisk | RuleTypeOther string

record RuleDefinition =
  rd_ID :: string
  rd_Type :: RuleType
  rd_Name :: string
  rd_Description :: string
  rd_Definition :: string
  rd_Version :: int
  rd_IsActive :: bool
  rd_CreatedBy :: string
  rd_CreatedAt :: time
  rd_UpdatedAt :: time

record RuleStateChange =
  sc_Current :: RuleDefinition
  sc_TargetVersion :: int
  sc_TargetCreatedBy :: string
  sc_Changed :: bool

record MemoryRuleRepo =
  mr_versions :: "RuleDefinition list tbl"

definition NewMemoryRuleRepo :: MemoryRuleRepo where
  "NewMemoryRuleRepo = \<lparr>mr_versions = []\<rparr>"

definition rule_versions :: "MemoryRuleRepo \<Rightarrow> string \<Rightarrow> RuleDefinition list" where
  "rule_versions r i = (case tbl_get (mr_versions r) i of None \<Rightarrow> [] | Some vs \<Rightarrow> vs)"

definition put_versions :: "string \<Rightarrow> RuleDefinition list \<Rightarrow> MemoryRuleRepo \<Rightarrow> MemoryRuleRepo" where
  "put_versions i vs r = r\<lparr>mr_versions := tbl_put i vs (mr_versions r)\<rparr>"

subsection \<open>The repository\<close>

definition Rule_Get :: "MemoryRuleRepo \<Rightarrow> string \<Rightarrow> RuleDefinition result" where
  "Rule_Get r i = (case rule_versions r i of [] \<Rightarrow> Inl (ErrNotFound ''rule_definition'' i) | vs \<Rightarrow> Inr (last vs))"

definition last_active :: "RuleDefinition list \<Rightarrow> RuleDefinition option" where
  "last_active vs = find rd_IsActive (rev vs)"

definition Rule_GetActive :: "MemoryRuleRepo \<Rightarrow> string \<Rightarrow> RuleDefinition result" where
  "Rule_GetActive r i =
    (case last_active (rule_versions r i) of None \<Rightarrow> Inl (ErrNotFound ''active_rule_definition'' i) | Some v \<Rightarrow> Inr v)"

definition Rule_GetVersion :: "MemoryRuleRepo \<Rightarrow> string \<Rightarrow> int \<Rightarrow> RuleDefinition result" where
  "Rule_GetVersion r i version =
    (case find (\<lambda>v. rd_Version v = version) (rule_versions r i) of
       None \<Rightarrow> Inl (ErrNotFound ''rule_definition'' i) | Some v \<Rightarrow> Inr v)"

definition Rule_List :: "MemoryRuleRepo \<Rightarrow> RuleType \<Rightarrow> bool \<Rightarrow> int \<Rightarrow> Cursor option \<Rightarrow> RuleDefinition list" where
  "Rule_List r ruleType activeOnly limit after =
    sortAndPageByCursor (filter (\<lambda>rd. \<not> (ruleType \<noteq> RuleTypeOther [] \<and> rd_Type rd \<noteq> ruleType) \<and> \<not> (activeOnly \<and> \<not> rd_IsActive rd))
      (concat (tbl_vals (mr_versions r)))) limit after rd_CreatedAt rd_ID"

definition Rule_Create :: "MemoryRuleRepo \<Rightarrow> RuleDefinition \<Rightarrow> RuleDefinition result \<times> MemoryRuleRepo" where
  "Rule_Create r rd =
    (if rule_versions r (rd_Name rd) \<noteq> [] then (Inl (ErrText (''rule '' @ Quote (rd_Name rd) @ '' already exists'')), r)
     else let rd = rd\<lparr>rd_Version := 1\<rparr> in (Inr rd, put_versions (rd_Name rd) [rd] r))"

definition deactivateAll :: "RuleDefinition list \<Rightarrow> RuleDefinition list" where
  "deactivateAll vs = map (\<lambda>v. v\<lparr>rd_IsActive := False\<rparr>) vs"

definition CreateNewVersion :: "MemoryRuleRepo \<Rightarrow> RuleDefinition \<Rightarrow> RuleDefinition result \<times> MemoryRuleRepo" where
  "CreateNewVersion r rd =
    (let existing = rule_versions r (rd_Name rd) in
     if existing = [] then (Inl (ErrNotFound ''rule_definition'' (rd_Name rd)), r)
     else let rd = rd\<lparr>rd_Version := rd_Version (last existing) + 1\<rparr>;
              existing = (if rd_IsActive rd then deactivateAll existing else existing)
          in (Inr rd, put_versions (rd_Name rd) (existing @ [rd]) r))"

definition separationOfDutiesError :: "RuleDefinition \<Rightarrow> string \<Rightarrow> go_error" where
  "separationOfDutiesError target reason = ErrSeparationOfDuties (rd_Name target) (rd_Version target) (rd_CreatedBy target) reason"

definition change_state :: "MemoryRuleRepo \<Rightarrow> string \<Rightarrow> bool \<Rightarrow> string \<Rightarrow> RuleDefinition \<Rightarrow> RuleStateChange result \<times> MemoryRuleRepo" where
  "change_state r i active actor target =
    (if actor = [] then (Inl (separationOfDutiesError target ''approver identity is missing''), r)
     else if rd_CreatedBy target = [] then (Inl (separationOfDutiesError target ''rule creator identity is missing''), r)
     else if rd_CreatedBy target = actor
       then (Inl (separationOfDutiesError target ''the rule author cannot change its active state''), r)
     else let vs = deactivateAll (rule_versions r i);
              vs = (if active then butlast vs @ [(last vs)\<lparr>rd_IsActive := True\<rparr>] else vs)
          in (Inr \<lparr>sc_Current = last vs, sc_TargetVersion = rd_Version target, sc_TargetCreatedBy = rd_CreatedBy target,
                sc_Changed = (rd_IsActive target \<noteq> active)\<rparr>, put_versions i vs r))"

definition SetActive :: "MemoryRuleRepo \<Rightarrow> string \<Rightarrow> bool \<Rightarrow> string \<Rightarrow> RuleStateChange result \<times> MemoryRuleRepo" where
  "SetActive r i active actor =
    (let vs = rule_versions r i in
     if vs = [] then (Inl (ErrNotFound ''rule_definition'' i), r)
     else if active then change_state r i active actor (last vs)
     else (case last_active vs of
       None \<Rightarrow> (Inr \<lparr>sc_Current = last vs, sc_TargetVersion = rd_Version (last vs), sc_TargetCreatedBy = rd_CreatedBy (last vs),
                 sc_Changed = False\<rparr>, r)
     | Some target \<Rightarrow> change_state r i active actor target))"

subsection \<open>The handlers\<close>

text \<open>
  A reply is an error with its HTTP status and code, the findings of the validator with the status
  they are sent under, or a success.
\<close>

datatype 'a reply = Failed int string string | Findings int ConfigValidationResult | Reply int 'a

fun ruleConfigType :: "RuleType \<Rightarrow> string" where
  "ruleConfigType RuleTypeTMScenario = ''tm_scenarios''"
| "ruleConfigType RuleTypeCDDWeight = ''cdd_weights''"
| "ruleConfigType RuleTypeScreeningConfig = ''screening_lists''"
| "ruleConfigType RuleTypeCountryRisk = ''country_risk''"
| "ruleConfigType (RuleTypeOther _) = []"

type_synonym config_engine = "string \<Rightarrow> string \<Rightarrow> ConfigValidationResult result"

text \<open>No findings when the definition is valid or no engine is configured.\<close>

definition validateRuleDefinition :: "config_engine option \<Rightarrow> RuleType \<Rightarrow> string \<Rightarrow> ConfigValidationResult option result" where
  "validateRuleDefinition engine ruleType def =
    (case engine of
       None \<Rightarrow> Inr None
     | Some validate \<Rightarrow>
         and_then (validate (ruleConfigType ruleType) def) (\<lambda>c. Inr (if cv_Valid c then None else Some c)))"

definition with_valid ::
  "config_engine option \<Rightarrow> RuleType \<Rightarrow> string \<Rightarrow> int \<Rightarrow> 's \<Rightarrow> (unit \<Rightarrow> 'a reply \<times> 's) \<Rightarrow> 'a reply \<times> 's" where
  "with_valid engine ruleType def status r continue =
    (case validateRuleDefinition engine ruleType def of
       Inl err \<Rightarrow> (Failed 500 ''internal_error'' (Error err), r)
     | Inr (Some c) \<Rightarrow> (Findings status c, r)
     | Inr None \<Rightarrow> continue ())"

record createRuleRequest =
  cq_Type :: RuleType
  cq_Name :: string
  cq_Description :: string
  cq_Definition :: string
  cq_IsActive :: bool

definition new_rule :: "string \<Rightarrow> time \<Rightarrow> string \<Rightarrow> RuleType \<Rightarrow> string \<Rightarrow> string \<Rightarrow> string \<Rightarrow> RuleDefinition" where
  "new_rule newid now user ruleType name description def =
    \<lparr>rd_ID = newid, rd_Type = ruleType, rd_Name = name, rd_Description = description, rd_Definition = def, rd_Version = 0,
     rd_IsActive = False, rd_CreatedBy = user, rd_CreatedAt = now, rd_UpdatedAt = now\<rparr>"

definition handleCreateRule ::
  "config_engine option \<Rightarrow> string \<Rightarrow> time \<Rightarrow> string \<Rightarrow> MemoryRuleRepo \<Rightarrow> createRuleRequest \<Rightarrow> RuleDefinition reply \<times> MemoryRuleRepo" where
  "handleCreateRule engine newid now user r req =
    (if cq_Type req = RuleTypeOther [] \<or> cq_Name req = [] then (Failed 400 ''validation_failed'' ''type and name are required'', r)
     else if cq_IsActive req then (Failed 400 ''validation_failed'' ''new rules require independent activation'', r)
     else if cq_Definition req = [] then (Failed 400 ''validation_failed'' ''definition is required'', r)
     else with_valid engine (cq_Type req) (cq_Definition req) 400 r (\<lambda>_.
       case Rule_Create r (new_rule newid now user (cq_Type req) (cq_Name req) (cq_Description req) (cq_Definition req)) of
         (Inl err, r') \<Rightarrow> (Failed 500 ''internal_error'' (Error err), r')
       | (Inr rd, r') \<Rightarrow> (Reply 201 rd, r')))"

record updateRuleRequest =
  uq_Description :: string
  uq_Definition :: string
  uq_IsActive :: bool

definition repo_failure :: "go_error \<Rightarrow> 'a reply" where
  "repo_failure err = (case err of
     ErrNotFound _ _ \<Rightarrow> Failed 404 ''not_found'' (Error err) | _ \<Rightarrow> Failed 500 ''internal_error'' (Error err))"

text \<open>The rule is read before the body and written after the validation; \<open>r'\<close> is the store the write meets.\<close>

definition handleUpdateRule ::
  "config_engine option \<Rightarrow> string \<Rightarrow> time \<Rightarrow> string \<Rightarrow> MemoryRuleRepo \<Rightarrow> MemoryRuleRepo \<Rightarrow> string \<Rightarrow> updateRuleRequest \<Rightarrow>
     RuleDefinition reply \<times> MemoryRuleRepo" where
  "handleUpdateRule engine newid now user r r' i req =
    (case Rule_Get r i of
       Inl err \<Rightarrow> (repo_failure err, r')
     | Inr existing \<Rightarrow>
         if uq_Definition req = [] then (Failed 400 ''validation_failed'' ''definition is required'', r')
         else if uq_IsActive req then (Failed 400 ''validation_failed'' ''new rule versions require independent activation'', r')
         else with_valid engine (rd_Type existing) (uq_Definition req) 400 r' (\<lambda>_.
           let description = (if uq_Description req = [] then rd_Description existing else uq_Description req) in
           case CreateNewVersion r' (new_rule newid now user (rd_Type existing) (rd_Name existing) description (uq_Definition req)) of
             (Inl err, r'') \<Rightarrow> (Failed 500 ''internal_error'' (Error err), r'')
           | (Inr rd, r'') \<Rightarrow> (Reply 200 rd, r'')))"

definition setRuleActive :: "MemoryRuleRepo \<Rightarrow> string \<Rightarrow> bool \<Rightarrow> string \<Rightarrow> RuleDefinition reply \<times> MemoryRuleRepo" where
  "setRuleActive r i active actor =
    (case SetActive r i active actor of
       (Inl err, r') \<Rightarrow>
         (case err of
            ErrSeparationOfDuties _ _ _ _ \<Rightarrow> (Failed 403 ''forbidden'' (Error err), r')
          | _ \<Rightarrow> (repo_failure err, r'))
     | (Inr change, r') \<Rightarrow> (Reply 200 (sc_Current change), r'))"

record importRuleItem =
  iq_Type :: RuleType
  iq_Name :: string
  iq_Description :: string
  iq_Definition :: any

text \<open>Preparing an import: every item is checked before any is created.\<close>

fun prepare_items ::
  "config_engine option \<Rightarrow> (any \<Rightarrow> string result) \<Rightarrow> (int \<Rightarrow> string) \<Rightarrow> time \<Rightarrow> string \<Rightarrow> MemoryRuleRepo \<Rightarrow> int \<Rightarrow> string list \<Rightarrow>
     importRuleItem list \<Rightarrow> RuleDefinition list reply + RuleDefinition list" where
  "prepare_items engine marshal newid now user r i seen [] = Inr []"
| "prepare_items engine marshal newid now user r i seen (item # items) =
    (if iq_Type item = RuleTypeOther [] \<or> iq_Name item = []
     then Inl (Failed 409 ''validation_failed'' (''item '' @ int_string i @ '': type and name are required''))
     else if iq_Name item \<in> set seen
     then Inl (Failed 409 ''conflict'' (''item '' @ int_string i @ '': duplicate rule name '' @ Quote (iq_Name item) @ '' in import batch''))
     else case Rule_Get r (iq_Name item) of
       Inr _ \<Rightarrow> Inl (Failed 409 ''conflict'' (''item '' @ int_string i @ '': rule '' @ Quote (iq_Name item) @ '' already exists''))
     | Inl _ \<Rightarrow>
         (case marshal (iq_Definition item) of
            Inl err \<Rightarrow> Inl (Failed 409 ''validation_failed'' (''item '' @ int_string i @ '': invalid definition: '' @ Error err))
          | Inr def \<Rightarrow>
              (case validateRuleDefinition engine (iq_Type item) def of
                 Inl err \<Rightarrow> Inl (Failed 500 ''internal_error'' (Error err))
               | Inr (Some c) \<Rightarrow> Inl (Findings 409 c)
               | Inr None \<Rightarrow>
                   map_sum id (\<lambda>rest. new_rule (newid i) now user (iq_Type item) (iq_Name item) (iq_Description item) def # rest)
                     (prepare_items engine marshal newid now user r (i + 1) (iq_Name item # seen) items))))"

fun create_all :: "MemoryRuleRepo \<Rightarrow> RuleDefinition list \<Rightarrow> RuleDefinition list result \<times> MemoryRuleRepo" where
  "create_all r [] = (Inr [], r)"
| "create_all r (rd # rest) =
    (case Rule_Create r rd of
       (Inl err, r') \<Rightarrow> (Inl err, r')
     | (Inr rd', r') \<Rightarrow> (case create_all r' rest of (res, r'') \<Rightarrow> (map_sum id ((#) rd') res, r'')))"

text \<open>\<open>r\<close> is the store the checks read, \<open>r'\<close> the store the creations meet.\<close>

definition handleImportRules ::
  "config_engine option \<Rightarrow> (any \<Rightarrow> string result) \<Rightarrow> (int \<Rightarrow> string) \<Rightarrow> time \<Rightarrow> string \<Rightarrow> MemoryRuleRepo \<Rightarrow> MemoryRuleRepo \<Rightarrow>
     importRuleItem list \<Rightarrow> RuleDefinition list reply \<times> MemoryRuleRepo" where
  "handleImportRules engine marshal newid now user r r' items =
    (if items = [] then (Failed 400 ''validation_failed'' ''at least one rule is required'', r')
     else case prepare_items engine marshal newid now user r 0 [] items of
       Inl reply \<Rightarrow> (reply, r')
     | Inr prepared \<Rightarrow>
         (case create_all r' prepared of
            (Inl err, r'') \<Rightarrow> (Failed 500 ''internal_error'' (Error err), r'')
          | (Inr created, r'') \<Rightarrow> (Reply 201 created, r'')))"

subsection \<open>Histories\<close>

text \<open>
  The state of a history is the repository with the approvals given so far: rule, version and
  approver of every successful activation. An update or an import may have read any earlier state.
\<close>

type_synonym approval = "string \<times> int \<times> string"

inductive rule_step ::
  "config_engine option \<Rightarrow> (any \<Rightarrow> string result) \<Rightarrow> MemoryRuleRepo \<times> approval list \<Rightarrow> MemoryRuleRepo \<times> approval list \<Rightarrow> bool"
  for engine marshal where
  create: "rule_step engine marshal (r, ap) (snd (handleCreateRule engine newid now user r req), ap)"
| update: "rule_step engine marshal (r, ap) (snd (handleUpdateRule engine newid now user r0 r i req), ap)"
| import: "rule_step engine marshal (r, ap) (snd (handleImportRules engine marshal newids now user r0 r items), ap)"
| approve: "SetActive r i True actor = (Inr change, r') \<Longrightarrow>
    rule_step engine marshal (r, ap) (snd (setRuleActive r i True actor), (i, sc_TargetVersion change, actor) # ap)"
| deny: "SetActive r i True actor = (Inl err, r') \<Longrightarrow> rule_step engine marshal (r, ap) (snd (setRuleActive r i True actor), ap)"
| deactivate: "rule_step engine marshal (r, ap) (snd (setRuleActive r i False actor), ap)"

definition validated :: "config_engine option \<Rightarrow> RuleDefinition \<Rightarrow> bool" where
  "validated engine v \<longleftrightarrow> (\<forall>validate. engine = Some validate \<longrightarrow>
     (\<exists>c. validate (ruleConfigType (rd_Type v)) (rd_Definition v) = Inr c \<and> cv_Valid c))"

definition approved :: "approval list \<Rightarrow> RuleDefinition \<Rightarrow> bool" where
  "approved ap v \<longleftrightarrow> rd_CreatedBy v \<noteq> [] \<and> (\<exists>actor. (rd_Name v, rd_Version v, actor) \<in> set ap \<and> actor \<noteq> [] \<and> actor \<noteq> rd_CreatedBy v)"

text \<open>What a step does to the versions of one rule.\<close>

inductive versions_step :: "config_engine option \<Rightarrow> approval list \<Rightarrow> string \<Rightarrow> RuleDefinition list \<Rightarrow> RuleDefinition list \<Rightarrow> bool"
  for engine ap i where
  first: "rd_Version v = 1 \<Longrightarrow> rd_Name v = i \<Longrightarrow> \<not> rd_IsActive v \<Longrightarrow> validated engine v \<Longrightarrow> versions_step engine ap i [] [v]"
| revise: "vs \<noteq> [] \<Longrightarrow> rd_Version v = rd_Version (last vs) + 1 \<Longrightarrow> rd_Name v = i \<Longrightarrow> \<not> rd_IsActive v \<Longrightarrow> validated engine v \<Longrightarrow>
    versions_step engine ap i vs (vs @ [v])"
| stop: "versions_step engine ap i vs (deactivateAll vs)"
| start: "(rd_Name v = i \<Longrightarrow> approved ap v) \<Longrightarrow> versions_step engine ap i (vs @ [v]) (deactivateAll vs @ [v\<lparr>rd_IsActive := True\<rparr>])"

lemma rule_versions_put [simp]: "rule_versions (put_versions i vs r) j = (if j = i then vs else rule_versions r j)"
  by (simp add: rule_versions_def put_versions_def tbl_simps)

lemma Rule_Create_step:
  assumes "Rule_Create r rd = (res, r')" and "\<not> rd_IsActive rd" and "validated engine rd"
  shows "(versions_step engine ap j)\<^sup>*\<^sup>* (rule_versions r j) (rule_versions r' j)"
proof (cases "rule_versions r (rd_Name rd) = [] \<and> j = rd_Name rd")
  case True
  then have "versions_step engine ap j (rule_versions r j) (rule_versions r' j)"
    using assms by (auto simp: Rule_Create_def Let_def validated_def intro!: first)
  then show ?thesis ..
qed (use assms in \<open>auto simp: Rule_Create_def Let_def split: if_splits\<close>)

lemma CreateNewVersion_step:
  assumes "CreateNewVersion r rd = (res, r')" and "\<not> rd_IsActive rd" and "validated engine rd"
  shows "(versions_step engine ap j)\<^sup>*\<^sup>* (rule_versions r j) (rule_versions r' j)"
proof (cases "rule_versions r (rd_Name rd) \<noteq> [] \<and> j = rd_Name rd")
  case True
  then have "versions_step engine ap j (rule_versions r j) (rule_versions r' j)"
    using assms by (auto simp: CreateNewVersion_def Let_def validated_def intro!: revise)
  then show ?thesis ..
qed (use assms in \<open>auto simp: CreateNewVersion_def Let_def split: if_splits\<close>)

lemma create_all_step:
  assumes "create_all r rds = (res, r')" and "\<forall>rd \<in> set rds. \<not> rd_IsActive rd \<and> validated engine rd"
  shows "(versions_step engine ap j)\<^sup>*\<^sup>* (rule_versions r j) (rule_versions r' j)"
  using assms
proof (induction rds arbitrary: r res r')
  case (Cons rd rds)
  obtain res1 r1 where r1: "Rule_Create r rd = (res1, r1)"
    by fastforce
  have one: "(versions_step engine ap j)\<^sup>*\<^sup>* (rule_versions r j) (rule_versions r1 j)"
    using Rule_Create_step [OF r1] Cons.prems(2) by simp
  show ?case
  proof (cases res1)
    case (Inl err)
    then show ?thesis using Cons.prems(1) r1 one by simp
  next
    case (Inr rd')
    then obtain res2 where "create_all r1 rds = (res2, r')"
      using Cons.prems(1) r1 by (auto split: prod.splits)
    then have "(versions_step engine ap j)\<^sup>*\<^sup>* (rule_versions r1 j) (rule_versions r' j)"
      using Cons.IH Cons.prems(2) by simp
    then show ?thesis using one by simp
  qed
qed simp

lemma validated_new_rule:
  "validateRuleDefinition engine ruleType def = Inr None \<Longrightarrow> validated engine (new_rule newid now user ruleType name description def)"
  by (auto simp: validateRuleDefinition_def validated_def new_rule_def split: option.splits if_splits)

lemma prepare_items_ok:
  "prepare_items engine marshal newid now user r i seen items = Inr rds \<Longrightarrow>
     \<forall>rd \<in> set rds. \<not> rd_IsActive rd \<and> validated engine rd"
proof (induction items arbitrary: i seen rds)
  case (Cons item items)
  then obtain def rest where "validateRuleDefinition engine (iq_Type item) def = Inr None"
    "prepare_items engine marshal newid now user r (i + 1) (iq_Name item # seen) items = Inr rest"
    "rds = new_rule (newid i) now user (iq_Type item) (iq_Name item) (iq_Description item) def # rest"
    by (cases "prepare_items engine marshal newid now user r (i + 1) (iq_Name item # seen) items")
      (auto split: if_splits sum.splits option.splits)
  then show ?case
    using Cons.IH validated_new_rule by (auto simp: new_rule_def)
qed simp

lemma with_valid_step:
  assumes "with_valid engine ruleType def status r continue = (res, r')"
    and "\<And>res r'. validateRuleDefinition engine ruleType def = Inr None \<Longrightarrow> continue () = (res, r') \<Longrightarrow>
      (versions_step engine ap j)\<^sup>*\<^sup>* (rule_versions r j) (rule_versions r' j)"
  shows "(versions_step engine ap j)\<^sup>*\<^sup>* (rule_versions r j) (rule_versions r' j)"
  using assms by (auto simp: with_valid_def split: sum.splits option.splits)

lemma handleCreateRule_step:
  "(versions_step engine ap j)\<^sup>*\<^sup>* (rule_versions r j) (rule_versions (snd (handleCreateRule engine newid now user r req)) j)"
proof -
  define rd where "rd = new_rule newid now user (cq_Type req) (cq_Name req) (cq_Description req) (cq_Definition req)"
  obtain res1 r1 where r1: "Rule_Create r rd = (res1, r1)"
    by fastforce
  have "(versions_step engine ap j)\<^sup>*\<^sup>* (rule_versions r j) (rule_versions r1 j)"
    if "validateRuleDefinition engine (cq_Type req) (cq_Definition req) = Inr None"
    using Rule_Create_step [OF r1] validated_new_rule [OF that] by (simp add: rd_def new_rule_def)
  then show ?thesis
    using r1 by (auto simp: handleCreateRule_def rd_def [symmetric] with_valid_def split: sum.splits option.splits prod.splits)
qed

lemma handleUpdateRule_step:
  "(versions_step engine ap j)\<^sup>*\<^sup>* (rule_versions r j) (rule_versions (snd (handleUpdateRule engine newid now user r0 r i req)) j)"
proof (cases "Rule_Get r0 i")
  case (Inr existing)
  define description where "description = (if uq_Description req = [] then rd_Description existing else uq_Description req)"
  define rd where "rd = new_rule newid now user (rd_Type existing) (rd_Name existing) description (uq_Definition req)"
  obtain res1 r1 where r1: "CreateNewVersion r rd = (res1, r1)"
    by fastforce
  have "(versions_step engine ap j)\<^sup>*\<^sup>* (rule_versions r j) (rule_versions r1 j)"
    if "validateRuleDefinition engine (rd_Type existing) (uq_Definition req) = Inr None"
    using CreateNewVersion_step [OF r1] validated_new_rule [OF that] by (simp add: rd_def new_rule_def)
  then show ?thesis
    using r1 Inr
    by (auto simp: handleUpdateRule_def Let_def description_def [symmetric] rd_def [symmetric] with_valid_def
        split: sum.splits option.splits prod.splits)
qed (simp add: handleUpdateRule_def)

lemma handleImportRules_step:
  "(versions_step engine ap j)\<^sup>*\<^sup>* (rule_versions r j) (rule_versions (snd (handleImportRules engine marshal newids now user r0 r items)) j)"
proof (cases "prepare_items engine marshal newids now user r0 0 [] items")
  case (Inr rds)
  obtain res1 r1 where r1: "create_all r rds = (res1, r1)"
    by fastforce
  show ?thesis
    using create_all_step [OF r1 prepare_items_ok [OF Inr]] Inr r1
    by (auto simp: handleImportRules_def split: sum.splits)
qed (simp add: handleImportRules_def)

lemma setRuleActive_repo: "snd (setRuleActive r i active actor) = snd (SetActive r i active actor)"
  by (auto simp: setRuleActive_def split: prod.splits sum.splits go_error.splits)

lemma approve_step:
  assumes "SetActive r i True actor = (Inr change, r')"
  shows "(versions_step engine ((i, sc_TargetVersion change, actor) # ap) j)\<^sup>*\<^sup>* (rule_versions r j) (rule_versions r' j)"
proof (cases "j = i")
  case True
  have "rule_versions r i \<noteq> []"
    using assms by (auto simp: SetActive_def split: if_splits)
  then obtain vs v where vs: "rule_versions r i = vs @ [v]"
    by (metis rev_exhaust)
  have "actor \<noteq> []" "rd_CreatedBy v \<notin> {[], actor}" and change: "sc_TargetVersion change = rd_Version v"
    and r': "rule_versions r' i = deactivateAll vs @ [v\<lparr>rd_IsActive := True\<rparr>]"
    using assms by (auto simp: SetActive_def change_state_def deactivateAll_def vs Let_def split: if_splits)
  then have "versions_step engine ((i, sc_TargetVersion change, actor) # ap) j (rule_versions r j) (rule_versions r' j)"
    unfolding True r' vs by (intro start) (auto simp: approved_def)
  then show ?thesis ..
qed (use assms in \<open>auto simp: SetActive_def change_state_def Let_def split: if_splits\<close>)

lemma deactivate_step:
  assumes "SetActive r i False actor = (res, r')"
  shows "(versions_step engine ap j)\<^sup>*\<^sup>* (rule_versions r j) (rule_versions r' j)"
proof (cases "rule_versions r' j = rule_versions r j")
  case False
  then have "rule_versions r' j = deactivateAll (rule_versions r j)"
    using assms by (auto simp: SetActive_def change_state_def Let_def split: if_splits option.splits)
  then show ?thesis
    using stop by (metis r_into_rtranclp)
qed simp

lemma denied_same: "SetActive r i True actor = (Inl err, r') \<Longrightarrow> r' = r"
  by (auto simp: SetActive_def change_state_def Let_def split: if_splits)

lemma rule_step_versions:
  assumes "rule_step engine marshal (r, ap) (r', ap')"
  shows "set ap \<subseteq> set ap' \<and> (\<forall>j. (versions_step engine ap' j)\<^sup>*\<^sup>* (rule_versions r j) (rule_versions r' j))"
  using assms
proof (cases rule: rule_step.cases)
  case (approve i actor change r'')
  then show ?thesis
    using approve_step by (auto simp: setRuleActive_repo)
next
  case (deny i actor err r'')
  then show ?thesis
    using denied_same [OF deny(3)] by (simp add: setRuleActive_repo)
next
  case (deactivate i actor)
  then show ?thesis
    using deactivate_step [of r i actor] by (metis prod.collapse setRuleActive_repo subsetI)
qed (use handleCreateRule_step handleUpdateRule_step handleImportRules_step in auto)

subsection \<open>Invariants\<close>

definition versions_ok :: "config_engine option \<Rightarrow> approval list \<Rightarrow> string \<Rightarrow> RuleDefinition list \<Rightarrow> bool" where
  "versions_ok engine ap i vs \<longleftrightarrow>
    map rd_Version vs = map int [1..<length vs + 1] \<and> length (filter rd_IsActive vs) \<le> 1 \<and>
    (\<forall>v \<in> set vs. rd_Name v = i \<and> validated engine v \<and> (rd_IsActive v \<longrightarrow> approved ap v))"

lemma approved_mono: "approved ap v \<Longrightarrow> set ap \<subseteq> set ap' \<Longrightarrow> approved ap' v"
  by (auto simp: approved_def)

lemma versions_ok_mono: "versions_ok engine ap i vs \<Longrightarrow> set ap \<subseteq> set ap' \<Longrightarrow> versions_ok engine ap' i vs"
  by (auto simp: versions_ok_def intro: approved_mono)

lemma last_version: "map rd_Version vs = map int [1..<length vs + 1] \<Longrightarrow> vs \<noteq> [] \<Longrightarrow> rd_Version (last vs) = int (length vs)"
  by (induction vs rule: rev_induct) auto

lemma erased_active [simp]: "filter rd_IsActive (deactivateAll vs) = []" "map rd_Version (deactivateAll vs) = map rd_Version vs"
  "length (deactivateAll vs) = length vs"
  by (simp_all add: deactivateAll_def comp_def filter_empty_conv)

lemma versions_step_ok:
  assumes "versions_step engine ap i vs vs'" and "versions_ok engine ap i vs"
  shows "versions_ok engine ap i vs'"
  using assms
proof (cases rule: versions_step.cases)
  case (revise v)
  then show ?thesis
    using assms(2) last_version [of vs] by (auto simp: versions_ok_def)
next
  case stop
  then show ?thesis
    using assms(2) by (auto simp: versions_ok_def) (auto simp: deactivateAll_def validated_def)
next
  case (start v ws)
  then show ?thesis
    using assms(2) by (auto simp: versions_ok_def approved_def) (auto simp: deactivateAll_def validated_def)
qed (simp add: versions_ok_def)

lemma versions_steps_ok:
  "(versions_step engine ap i)\<^sup>*\<^sup>* vs vs' \<Longrightarrow> versions_ok engine ap i vs \<Longrightarrow> versions_ok engine ap i vs'"
  by (induction rule: rtranclp_induct) (auto intro: versions_step_ok)

lemma rules_reachable_ok:
  assumes "(rule_step engine marshal)\<^sup>*\<^sup>* (NewMemoryRuleRepo, []) (r, ap)"
  shows "versions_ok engine ap i (rule_versions r i)"
  using assms
proof (induction "(r, ap)" arbitrary: r ap rule: rtranclp_induct)
  case base
  show ?case
    by (simp add: versions_ok_def rule_versions_def NewMemoryRuleRepo_def tbl_simps)
next
  case (step s)
  obtain r0 ap0 where s: "s = (r0, ap0)"
    by force
  then have "set ap0 \<subseteq> set ap" "(versions_step engine ap i)\<^sup>*\<^sup>* (rule_versions r0 i) (rule_versions r i)"
    using rule_step_versions step(2) by blast+
  then show ?case
    using versions_steps_ok [OF _ versions_ok_mono [OF step(3) [OF s]]] by blast
qed

text \<open>A version without its active flag, which is all that ever changes in it.\<close>

abbreviation content :: "RuleDefinition \<Rightarrow> RuleDefinition" where
  "content v \<equiv> v\<lparr>rd_IsActive := False\<rparr>"

lemma versions_step_extends:
  "(versions_step engine ap i)\<^sup>*\<^sup>* vs vs' \<Longrightarrow> \<exists>new. map content vs' = map content vs @ new"
proof (induction rule: rtranclp_induct)
  case (step us us')
  then obtain new where new: "map content us = map content vs @ new"
    by blast
  have "\<exists>more. map content us' = map content us @ more"
    using step(2) by cases (auto simp: deactivateAll_def comp_def)
  then show ?case
    using new by auto
qed simp

lemma rules_extend:
  assumes "(rule_step engine marshal)\<^sup>*\<^sup>* s s'"
  shows "\<exists>new. map content (rule_versions (fst s') i) = map content (rule_versions (fst s) i) @ new"
  using assms
proof (induction rule: rtranclp_induct)
  case (step t t')
  obtain r1 ap1 r2 ap2 where t: "t = (r1, ap1)" "t' = (r2, ap2)"
    by (cases t, cases t')
  have "(versions_step engine ap2 i)\<^sup>*\<^sup>* (rule_versions r1 i) (rule_versions r2 i)"
    using rule_step_versions step(2) unfolding t by blast
  then obtain more where "map content (rule_versions (fst t') i) = map content (rule_versions (fst t) i) @ more"
    unfolding t fst_conv using versions_step_extends by blast
  then show ?case
    using step(3) by auto
qed simp

lemma last_active_SomeD: "last_active vs = Some v \<Longrightarrow> v \<in> set vs \<and> rd_IsActive v"
  unfolding last_active_def by (metis find_Some_iff nth_mem set_rev)

lemma prepare_items_names:
  "prepare_items engine marshal newid now user r i seen items = Inr rds \<Longrightarrow>
     map rd_Name rds = map iq_Name items \<and> distinct (map iq_Name items) \<and> set (map iq_Name items) \<inter> set seen = {} \<and>
     (\<forall>rd \<in> set rds. rule_versions r (rd_Name rd) = [])"
proof (induction items arbitrary: i seen rds)
  case (Cons item items)
  then obtain def rest where "iq_Name item \<notin> set seen" "rule_versions r (iq_Name item) = []"
    and rest: "prepare_items engine marshal newid now user r (i + 1) (iq_Name item # seen) items = Inr rest"
    and "rds = new_rule (newid i) now user (iq_Type item) (iq_Name item) (iq_Description item) def # rest"
    by (cases "prepare_items engine marshal newid now user r (i + 1) (iq_Name item # seen) items")
      (auto simp: Rule_Get_def split: if_splits sum.splits option.splits list.splits)
  then show ?case
    using Cons.IH [OF rest] by (auto simp: new_rule_def)
qed simp

lemma prepare_items_error:
  "prepare_items engine marshal newid now user r i seen items = Inl reply \<Longrightarrow> reply \<noteq> Reply st created"
proof (induction items arbitrary: i seen)
  case (Cons item items)
  then show ?case
    by (cases "prepare_items engine marshal newid now user r (i + 1) (iq_Name item # seen) items")
      (auto split: if_splits sum.splits option.splits)
qed simp

abbreviation first_version :: "RuleDefinition \<Rightarrow> RuleDefinition" where
  "first_version rd \<equiv> rd\<lparr>rd_Version := 1\<rparr>"

lemma create_all_fresh:
  assumes "distinct (map rd_Name rds)" and "\<forall>rd \<in> set rds. rule_versions r (rd_Name rd) = []"
  shows "\<exists>r'. create_all r rds = (Inr (map first_version rds), r') \<and>
    (\<forall>i. rule_versions r' i = (case map_of (map (\<lambda>rd. (rd_Name rd, [first_version rd])) rds) i of None \<Rightarrow> rule_versions r i | Some vs \<Rightarrow> vs))"
  using assms
proof (induction rds arbitrary: r)
  case (Cons rd rds)
  define r1 where "r1 = put_versions (rd_Name rd) [first_version rd] r"
  have "\<forall>rd' \<in> set rds. rule_versions r1 (rd_Name rd') = []"
    using Cons.prems by (simp add: r1_def) (metis imageI)
  then obtain r' where "create_all r1 rds = (Inr (map first_version rds), r')"
    "\<forall>i. rule_versions r' i = (case map_of (map (\<lambda>rd. (rd_Name rd, [first_version rd])) rds) i of None \<Rightarrow> rule_versions r1 i | Some vs \<Rightarrow> vs)"
    using Cons.IH [of r1] Cons.prems(1) by fastforce
  moreover have "map_of (map (\<lambda>rd. (rd_Name rd, [first_version rd])) rds) (rd_Name rd) = None"
    using Cons.prems(1) by (auto simp: map_of_eq_None_iff)
  moreover have "Rule_Create r rd = (Inr (first_version rd), r1)"
    using Cons.prems(2) by (simp add: Rule_Create_def Let_def r1_def)
  ultimately show ?case
    by (auto simp: r1_def split: option.splits)
qed simp

subsection \<open>Properties\<close>

definition sample_engine_config :: "config_engine option" where
  "sample_engine_config = Some (ValidateConfig sample_decoders None)"

definition sample_request :: createRuleRequest where
  "sample_request = \<lparr>cq_Type = RuleTypeTMScenario, cq_Name = ''s1'', cq_Description = [], cq_Definition = ''x'', cq_IsActive = False\<rparr>"

definition sample_rules :: MemoryRuleRepo where
  "sample_rules = snd (handleCreateRule sample_engine_config ''r1'' 1 ''alice'' NewMemoryRuleRepo sample_request)"

definition sample_activation :: "RuleStateChange result \<times> MemoryRuleRepo" where
  "sample_activation = SetActive sample_rules ''s1'' True ''bob''"

lemma sample_activated: "sample_activation = (Inr (projr (fst sample_activation)), snd sample_activation)"
proof -
  have "map_sum (\<lambda>_. ()) sc_TargetVersion (fst sample_activation) = Inr 1"
    by code_simp
  then show ?thesis
    by (cases "fst sample_activation") (auto simp: prod_eq_iff)
qed

lemma sample_rules_reached:
  "(rule_step (Some (ValidateConfig sample_decoders None)) marshal)\<^sup>*\<^sup>* (NewMemoryRuleRepo, [])
     (snd sample_activation, [(''s1'', sc_TargetVersion (projr (fst sample_activation)), ''bob'')])"
proof -
  have "rule_step sample_engine_config marshal (NewMemoryRuleRepo, []) (sample_rules, [])"
    unfolding sample_rules_def by (rule create)
  moreover have "rule_step sample_engine_config marshal (sample_rules, [])
      (snd sample_activation, [(''s1'', sc_TargetVersion (projr (fst sample_activation)), ''bob'')])"
    using approve [OF sample_activated [unfolded sample_activation_def], of sample_engine_config marshal "[]"]
    by (simp add: sample_activation_def setRuleActive_repo)
  ultimately show ?thesis
    unfolding sample_engine_config_def by (meson rtranclp.rtrancl_into_rtrancl rtranclp.rtrancl_refl)
qed

text \<open>
  C12. Maker and checker: whatever was created, revised, imported, activated and deactivated, a rule
  version that is active has been approved, in exactly that version, by a named person other than its
  named author, and its definition passes the engine's validation; an active monitoring scenario
  loads, as a well-formed scenario with a detector the engine implements.\<close>

theorem active_rule_approved:
  assumes "(rule_step (Some (ValidateConfig dc None)) marshal)\<^sup>*\<^sup>* (NewMemoryRuleRepo, []) (r, ap)" and "Rule_GetActive r i = Inr rd"
  shows "rd_Name rd = i \<and> rd_CreatedBy rd \<noteq> [] \<and>
    (\<exists>actor. (i, rd_Version rd, actor) \<in> set ap \<and> actor \<noteq> [] \<and> actor \<noteq> rd_CreatedBy rd) \<and>
    (\<exists>c. ValidateConfig dc None (ruleConfigType (rd_Type rd)) (rd_Definition rd) = Inr c \<and> cv_Valid c) \<and>
    (rd_Type rd = RuleTypeTMScenario \<longrightarrow>
      (\<exists>s. load_scenario (dc_document dc) (path, rd_Definition rd) = Inr s \<and> scenario_ok s \<and> sn_Detector s \<in> set supportedDetectors))"
proof -
  have "rd \<in> set (rule_versions r i)" "rd_IsActive rd"
    using assms(2) last_active_SomeD by (auto simp: Rule_GetActive_def split: option.splits)
  then have rd: "rd_Name rd = i" "validated (Some (ValidateConfig dc None)) rd" "approved ap rd"
    using rules_reachable_ok [OF assms(1)] by (auto simp: versions_ok_def)
  obtain c where c: "ValidateConfig dc None (ruleConfigType (rd_Type rd)) (rd_Definition rd) = Inr c" "cv_Valid c"
    using rd(2) by (auto simp: validated_def)
  have "cv_Valid (validate_tm dc (rd_Definition rd))" if "rd_Type rd = RuleTypeTMScenario"
    using c that by (auto simp: ValidateConfig_def split: if_splits)
  then show ?thesis
    using rd c validate_tm_loads by (auto simp: approved_def)
qed

theorem active_rule_approved_witness:
  "\<exists>rd. Rule_GetActive (snd sample_activation) ''s1'' = Inr rd \<and> rd_CreatedBy rd = ''alice'' \<and>
     (\<exists>s. load_scenario (dc_document sample_decoders) (''p'', rd_Definition rd) = Inr s \<and> scenario_ok s \<and> sn_Detector s \<in> set supportedDetectors)"
proof -
  have "map_sum (\<lambda>_. ()) (\<lambda>rd. (rd_CreatedBy rd, rd_Type rd)) (Rule_GetActive (snd sample_activation) ''s1'') = Inr (''alice'', RuleTypeTMScenario)"
    by code_simp
  then obtain rd where "Rule_GetActive (snd sample_activation) ''s1'' = Inr rd" "rd_CreatedBy rd = ''alice''" "rd_Type rd = RuleTypeTMScenario"
    by (cases "Rule_GetActive (snd sample_activation) ''s1''") auto
  then show ?thesis
    using active_rule_approved [OF sample_rules_reached, of "''s1''" rd "''p''"] by blast
qed

text \<open>
  C14. Versions are append-only: at any later moment the earlier versions of a rule are still there, in
  order and unchanged but for the active flag; they are numbered from one without gaps, and at most
  one of them is active.\<close>

theorem rule_versions_append_only:
  assumes "(rule_step engine marshal)\<^sup>*\<^sup>* (NewMemoryRuleRepo, []) (r, ap)" and "(rule_step engine marshal)\<^sup>*\<^sup>* (r, ap) (r', ap')"
  shows "(\<exists>new. map content (rule_versions r' i) = map content (rule_versions r i) @ new) \<and>
    map rd_Version (rule_versions r' i) = map int [1..<length (rule_versions r' i) + 1] \<and>
    length (filter rd_IsActive (rule_versions r' i)) \<le> 1"
  using rules_extend [OF assms(2), of i] rules_reachable_ok [OF rtranclp_trans [OF assms], of i]
  by (simp only: versions_ok_def fst_conv simp_thms)

theorem rule_versions_append_only_witness:
  "\<exists>new. map content (rule_versions (snd sample_activation) ''s1'') = map content (rule_versions NewMemoryRuleRepo ''s1'') @ new"
  using rule_versions_append_only [OF rtranclp.rtrancl_refl sample_rules_reached] by blast

text \<open>
  C13. An import that meets no concurrent writer is all or nothing: any error leaves the store as it
  was; a success has created every item, in order, as the inactive and validated first version of a rule
  that did not exist, and has touched no other rule.\<close>

theorem import_all_or_nothing:
  "case handleImportRules engine marshal newids now user r r items of
     (Reply st created, r') \<Rightarrow>
       map rd_Name created = map iq_Name items \<and>
       (\<forall>rd \<in> set created. rule_versions r (rd_Name rd) = [] \<and> rule_versions r' (rd_Name rd) = [rd] \<and>
          rd_Version rd = 1 \<and> \<not> rd_IsActive rd \<and> validated engine rd) \<and>
       (\<forall>i. i \<notin> set (map iq_Name items) \<longrightarrow> rule_versions r' i = rule_versions r i)
   | (_, r') \<Rightarrow> r' = r"
proof (cases "prepare_items engine marshal newids now user r 0 [] items")
  case (Inr rds)
  note names = prepare_items_names [OF Inr]
  then have d: "distinct (map rd_Name rds)" and fresh: "\<forall>rd \<in> set rds. rule_versions r (rd_Name rd) = []"
    by simp_all
  obtain r' where r': "create_all r rds = (Inr (map first_version rds), r')"
    "\<forall>i. rule_versions r' i = (case map_of (map (\<lambda>rd. (rd_Name rd, [first_version rd])) rds) i of None \<Rightarrow> rule_versions r i | Some vs \<Rightarrow> vs)"
    using create_all_fresh [OF d fresh] by blast
  have "rule_versions r' (rd_Name rd) = [first_version rd]" if "rd \<in> set rds" for rd
  proof -
    have "map_of (map (\<lambda>rd. (rd_Name rd, [first_version rd])) rds) (rd_Name rd) = Some [first_version rd]"
      using d that by (intro map_of_is_SomeI) (auto simp: comp_def)
    then show ?thesis using r'(2) by simp
  qed
  moreover have "rule_versions r' i = rule_versions r i" if "i \<notin> set (map iq_Name items)" for i
  proof -
    have "i \<notin> set (map rd_Name rds)"
      using names that by simp
    then have "map_of (map (\<lambda>rd. (rd_Name rd, [first_version rd])) rds) i = None"
      by (auto simp: map_of_eq_None_iff)
    then show ?thesis using r'(2) by simp
  qed
  ultimately show ?thesis
    using names prepare_items_ok [OF Inr] r'(1) Inr by (auto simp: handleImportRules_def comp_def validated_def)
next
  case (Inl reply)
  then show ?thesis
    using prepare_items_error [OF Inl] by (cases reply) (auto simp: handleImportRules_def)
qed

definition sample_item :: importRuleItem where
  "sample_item = \<lparr>iq_Type = RuleTypeTMScenario, iq_Name = ''s2'', iq_Description = [], iq_Definition = JObject []\<rparr>"

definition sample_import :: "RuleDefinition list reply \<times> MemoryRuleRepo" where
  "sample_import = handleImportRules sample_engine_config (\<lambda>_. Inr ''x'') (\<lambda>_. ''r2'') 5 ''carol'' sample_rules sample_rules [sample_item]"

theorem import_all_or_nothing_witness:
  "\<exists>st created. fst sample_import = Reply st created \<and> map rd_Name created = [''s2''] \<and>
     rule_versions (snd sample_import) ''s1'' = rule_versions sample_rules ''s1''"
proof -
  have "(case fst sample_import of Reply st created \<Rightarrow> st | _ \<Rightarrow> 0) = 201"
    by code_simp
  then obtain created where "fst sample_import = Reply 201 created"
    by (cases "fst sample_import") auto
  then obtain r' where imported: "sample_import = (Reply 201 created, r')"
    by (metis prod.collapse)
  have "iq_Name sample_item = ''s2''"
    by (simp add: sample_item_def)
  then show ?thesis
    using import_all_or_nothing [where engine = sample_engine_config and marshal = "\<lambda>_. Inr ''x''" and newids = "\<lambda>_. ''r2''"
      and now = 5 and user = "''carol''" and r = sample_rules and items = "[sample_item]"]
    unfolding sample_import_def [symmetric] imported by simp
qed

end
