(* ===== verification/Requests.thy ===== *)
theory Requests
  imports Formatting
begin

text \<open>
  What the request handlers share: the caller of a request as the audit log names it
  (\<^verbatim>\<open>server/audit.go\<close>), the correlation identifier (\<^verbatim>\<open>server/atomic.go\<close>), and responses with the translation
  of repository errors (\<^verbatim>\<open>server/wave3_common.go\<close>). The context values of the middleware and the headers are
  the fields of a record.
\<close>

text \<open>
  \<open>rq_generated\<close> is the identifier \<^verbatim>\<open>correlationID\<close> generates when the request has none; it is stored in the
  header, so that every later call returns it too.
\<close>

record request =
  rq_Principal :: "(string \<times> string) option" \<comment> \<open>\<^verbatim>\<open>UserID\<close>, \<^verbatim>\<open>APIKeyID\<close>\<close>
  rq_APIKey :: "string option"
  rq_contextID :: string
  rq_headerID :: string
  rq_generated :: string
  rq_IP :: string
  rq_UserAgent :: string

definition resolveAuditUserID :: "request \<Rightarrow> string" where
  "resolveAuditUserID q =
    (let by_key = (case rq_APIKey q of Some i \<Rightarrow> ''apikey:'' @ i | None \<Rightarrow> ''anonymous'') in
     case rq_Principal q of
       None \<Rightarrow> by_key
     | Some (user, apikey) \<Rightarrow> if user \<noteq> [] then user else if apikey \<noteq> [] then ''apikey:'' @ apikey else by_key)"

definition correlationID :: "request \<Rightarrow> string" where
  "correlationID q =
    (if TrimSpace (rq_contextID q) \<noteq> [] then TrimSpace (rq_contextID q)
     else if TrimSpace (rq_headerID q) \<noteq> [] then TrimSpace (rq_headerID q)
     else rq_generated q)"

text \<open>A response: a status with a body, or a status with an error code and a message.\<close>

datatype 'a response = Reply int 'a | Refuse int string string

text \<open>The error that \<^verbatim>\<open>errors.As\<close> assigns, of which some handlers print only the own text.\<close>

fun innermost :: "go_error \<Rightarrow> go_error" where
  "innermost (ErrWrap _ err) = innermost err"
| "innermost err = err"

definition writeWave3Error :: "go_error \<Rightarrow> 'a response" where
  "writeWave3Error err =
    (if as_not_found err then Refuse 404 ''not_found'' (Error err)
     else if as_conflict err then Refuse 409 ''conflict'' (Error err)
     else Refuse 500 ''internal_error'' (Error err))"

end
