(* ===== verification/Atomic_Store.thy ===== *)
theory Atomic_Store
  imports Case_Lifecycle Customers Transactions Sessions Pending_Evaluation Event_Outbox Policies Requests
begin

text \<open>
  Mutations that must be recorded with their audit entry (\<^verbatim>\<open>store/atomic_memory.go\<close>,
  \<^verbatim>\<open>server/atomic.go\<close>) and three of the request handlers written over them: the commit of a new transaction
  (\<^verbatim>\<open>server/transaction.go\<close>), the decision on a score override (\<^verbatim>\<open>server/cdd_override.go\<close>) and the closing
  and reopening of an EDD window (\<^verbatim>\<open>server/customer_edd.go\<close>). A mutation is a function on the store that may
  fail; \<open>RunAtomic\<close> takes a snapshot, runs it, and restores the snapshot when it fails. The store holds
  the repositories that this library models; the others are restored by the same pattern. The clock
  is a sequence of readings, the body of a request is its decoded record, and rendering is left out.
\<close>

subsection \<open>The store and its snapshots\<close>

text \<open>Repositories that may be nil in the Go struct are options; customers and audit log are required.\<close>

record MemoryAtomicMutationRepo =
  at_customers :: MemoryCustomerRepo
  at_transactions :: "MemoryTransactionRepo option"
  at_cases :: "MemoryCaseRepo option"
  at_alerts :: "MemoryAlertRepo option"
  at_audit :: MemoryAuditRepo
  at_outbox :: "MemoryEventOutboxRepo option"
  at_pending :: "MemoryPendingEvaluationRepo option"

record memoryAtomicSnapshot =
  sn_customers :: "Customer tbl"
  sn_customerExternal :: "string tbl"
  sn_customerScores :: "ScoreRecord list tbl"
  sn_transactions :: "Transaction tbl"
  sn_transactionByCust :: "string list tbl"
  sn_transactionIdem :: "string tbl"
  sn_cases :: MemoryCaseRepo
  sn_alerts :: "Alert tbl"
  sn_alertByCustomer :: "string list tbl"
  sn_auditEntries :: "AuditEntry list"
  sn_auditNextID :: int
  sn_outboxEvents :: "DurableEvent list"
  sn_outboxNextSequence :: int
  sn_pendingData :: "PendingEvaluation tbl"
  sn_pendingHistory :: "PendingEvaluationHistoryEntry list tbl"

text \<open>A field of a repository that is nil stays at its zero value.\<close>

definition field_or :: "'b \<Rightarrow> ('a \<Rightarrow> 'b) \<Rightarrow> 'a option \<Rightarrow> 'b" where
  "field_or zero f repo = (case repo of None \<Rightarrow> zero | Some x \<Rightarrow> f x)"

definition snapshot :: "MemoryAtomicMutationRepo \<Rightarrow> memoryAtomicSnapshot" where
  "snapshot r =
    \<lparr>sn_customers = cs_data (at_customers r), sn_customerExternal = cs_external (at_customers r),
     sn_customerScores = cs_scores (at_customers r),
     sn_transactions = field_or [] mt_data (at_transactions r),
     sn_transactionByCust = field_or [] mt_byCustomer (at_transactions r),
     sn_transactionIdem = field_or [] mt_idempotencyKey (at_transactions r),
     sn_cases = field_or [] (\<lambda>c. c) (at_cases r),
     sn_alerts = field_or [] ar_data (at_alerts r), sn_alertByCustomer = field_or [] ar_byCustomer (at_alerts r),
     sn_auditEntries = au_entries (at_audit r), sn_auditNextID = au_nextID (at_audit r),
     sn_outboxEvents = field_or [] eo_events (at_outbox r),
     sn_outboxNextSequence = field_or 0 eo_nextSequence (at_outbox r),
     sn_pendingData = field_or [] pr_data (at_pending r), sn_pendingHistory = field_or [] pr_history (at_pending r)\<rparr>"

definition restore :: "memoryAtomicSnapshot \<Rightarrow> MemoryAtomicMutationRepo \<Rightarrow> MemoryAtomicMutationRepo" where
  "restore s r =
    r\<lparr>at_customers := (at_customers r)\<lparr>cs_data := sn_customers s, cs_external := sn_customerExternal s,
        cs_scores := sn_customerScores s\<rparr>,
      at_transactions := map_option (\<lambda>t. t\<lparr>mt_data := sn_transactions s, mt_byCustomer := sn_transactionByCust s,
        mt_idempotencyKey := sn_transactionIdem s\<rparr>) (at_transactions r),
      at_cases := map_option (\<lambda>_. sn_cases s) (at_cases r),
      at_alerts := map_option (\<lambda>a. a\<lparr>ar_data := sn_alerts s, ar_byCustomer := sn_alertByCustomer s\<rparr>) (at_alerts r),
      at_audit := (at_audit r)\<lparr>au_entries := sn_auditEntries s, au_nextID := sn_auditNextID s\<rparr>,
      at_outbox := map_option (\<lambda>o'. o'\<lparr>eo_events := sn_outboxEvents s, eo_nextSequence := sn_outboxNextSequence s\<rparr>)
        (at_outbox r),
      at_pending := map_option (\<lambda>p. p\<lparr>pr_data := sn_pendingData s, pr_history := sn_pendingHistory s\<rparr>) (at_pending r)\<rparr>"

type_synonym 'a mutation = "MemoryAtomicMutationRepo \<Rightarrow> 'a result \<times> MemoryAtomicMutationRepo"

definition RunAtomic :: "'a mutation \<Rightarrow> 'a mutation" where
  "RunAtomic fn r =
    (case fn r of
       (Inl err, r') \<Rightarrow> (Inl err, restore (snapshot r) r')
     | (Inr v, r') \<Rightarrow> (Inr v, r'))"

subsection \<open>Mutations\<close>

text \<open>The pattern \<^verbatim>\<open>if err := f(); err != nil { return err }\<close>.\<close>

definition andThen :: "'a mutation \<Rightarrow> ('a \<Rightarrow> 'b mutation) \<Rightarrow> 'b mutation" where
  "andThen m k r = (case m r of (Inl err, r') \<Rightarrow> (Inl err, r') | (Inr v, r') \<Rightarrow> k v r')"

definition return :: "'a \<Rightarrow> 'a mutation" where "return v r = (Inr v, r)"

definition fail :: "go_error \<Rightarrow> 'a mutation" where "fail err r = (Inl err, r)"

definition wrap_error :: "string \<Rightarrow> 'a mutation \<Rightarrow> 'a mutation" where
  "wrap_error context m r = (case m r of (Inl err, r') \<Rightarrow> (Inl (ErrWrap context err), r') | (Inr v, r') \<Rightarrow> (Inr v, r'))"

definition errAtomicMutationUnavailable :: go_error where
  "errAtomicMutationUnavailable = ErrText ''atomic mutation storage is not configured''"

definition on_customers :: "(MemoryCustomerRepo \<Rightarrow> 'a result \<times> MemoryCustomerRepo) \<Rightarrow> 'a mutation" where
  "on_customers f r = (case f (at_customers r) of (res, c) \<Rightarrow> (res, r\<lparr>at_customers := c\<rparr>))"

definition on_audit :: "(MemoryAuditRepo \<Rightarrow> 'a result \<times> MemoryAuditRepo) \<Rightarrow> 'a mutation" where
  "on_audit f r = (case f (at_audit r) of (res, a) \<Rightarrow> (res, r\<lparr>at_audit := a\<rparr>))"

definition on_transactions :: "(MemoryTransactionRepo \<Rightarrow> 'a result \<times> MemoryTransactionRepo) \<Rightarrow> 'a mutation" where
  "on_transactions f r =
    (case at_transactions r of
       None \<Rightarrow> (Inl errAtomicMutationUnavailable, r)
     | Some t \<Rightarrow> (case f t of (res, t) \<Rightarrow> (res, r\<lparr>at_transactions := Some t\<rparr>)))"

definition on_outbox :: "(MemoryEventOutboxRepo \<Rightarrow> 'a result \<times> MemoryEventOutboxRepo) \<Rightarrow> 'a mutation" where
  "on_outbox f r =
    (case at_outbox r of
       None \<Rightarrow> (Inl errAtomicMutationUnavailable, r)
     | Some o' \<Rightarrow> (case f o' of (res, o') \<Rightarrow> (res, r\<lparr>at_outbox := Some o'\<rparr>)))"

definition on_pending :: "(MemoryPendingEvaluationRepo \<Rightarrow> 'a result \<times> MemoryPendingEvaluationRepo) \<Rightarrow> 'a mutation" where
  "on_pending f r =
    (case at_pending r of
       None \<Rightarrow> (Inl errAtomicMutationUnavailable, r)
     | Some p \<Rightarrow> (case f p of (res, p) \<Rightarrow> (res, r\<lparr>at_pending := Some p\<rparr>)))"

subsection \<open>Audit entries and errors\<close>

definition writeAtomicMutationError :: "go_error \<Rightarrow> 'a response" where
  "writeAtomicMutationError err =
    (if err = errAtomicMutationUnavailable then Refuse 503 ''service_unavailable'' (Error err)
     else if as_conflict err then Refuse 409 ''conflict'' (Error err)
     else if as_not_found err then Refuse 404 ''not_found'' (Error err)
     else Refuse 500 ''internal_error'' (Error err))"

definition appendRequiredMutationAudit ::
  "(nat \<Rightarrow> time) \<Rightarrow> request \<Rightarrow> string \<Rightarrow> string \<Rightarrow> string \<Rightarrow> (string \<times> string) list \<Rightarrow> time \<Rightarrow> unit mutation" where
  "appendRequiredMutationAudit clock q action resourceType resourceID details createdAt =
    wrap_error (''append '' @ action @ '' audit'')
      (on_audit (\<lambda>a. Audit_Create (clock 1) a
        \<lparr>ae_ID = 0, ae_UserID = resolveAuditUserID q, ae_Action = action, ae_ResourceType = resourceType,
         ae_ResourceID = resourceID, ae_Details = details @ [(''correlation_id'', correlationID q)],
         ae_IPAddress = rq_IP q, ae_UserAgent = rq_UserAgent q,
         ae_CreatedAt = (if IsZero createdAt then Truncate (clock 0) Microsecond else createdAt)\<rparr>))"

subsection \<open>Recording a transaction\<close>

text \<open>
  The mutation of \<^verbatim>\<open>handleCreateTransaction\<close>: the transaction, its audit entry, the pending evaluation
  when monitoring is not available, and the event. \<open>marshal\<close> is the JSON encoder, \<open>eventID\<close> the generated
  identifier of the event, and \<open>eventOutbox\<close> tells whether the server has an outbox. \<^verbatim>\<open>Create\<close> writes the canonical
  identifiers into the caller's transaction.
\<close>

definition queue_pending :: "(nat \<Rightarrow> time) \<Rightarrow> request \<Rightarrow> Transaction \<Rightarrow> PendingEvaluation option \<Rightarrow> unit mutation" where
  "queue_pending clock q t pendingMonitoring =
    (case pendingMonitoring of
       None \<Rightarrow> return ()
     | Some pe \<Rightarrow>
         andThen (on_pending (\<lambda>p. (Inr (), PE_Create (clock 2) p pe))) (\<lambda>_.
           appendRequiredMutationAudit clock q ''pending_evaluation_queued'' ''pending_evaluations'' (pe_ID pe)
             [(''customer_id'', tx_CustomerID t), (''transaction_id'', tx_ID t), (''reason'', pe_Reason pe)] (tx_CreatedAt t)))"

definition enqueue_created ::
  "(nat \<Rightarrow> time) \<Rightarrow> request \<Rightarrow> (Transaction \<Rightarrow> string result) \<Rightarrow> string \<Rightarrow> bool \<Rightarrow> Transaction \<Rightarrow> unit mutation" where
  "enqueue_created clock q marshal eventID eventOutbox t r =
    (if \<not> eventOutbox then return () r
     else if at_outbox r = None then fail errAtomicMutationUnavailable r
     else (case marshal t of
         Inl err \<Rightarrow> fail err r
       | Inr payload \<Rightarrow>
           andThen (on_outbox (\<lambda>o'. Enqueue (clock 3) o' (Some
             \<lparr>de_ID = eventID, de_Topic = ''transaction.created'', de_Payload = payload, de_SequenceNum = 0,
              de_ChainID = correlationID q, de_ChainHopCount = 0, de_Attempts = 0, de_LastError = [],
              de_CreatedAt = tx_CreatedAt t, de_NextAttemptAt = None, de_PublishedAt = None\<rparr>))) (\<lambda>_. return ()) r))"

definition create_transaction_mutation ::
  "(nat \<Rightarrow> time) \<Rightarrow> request \<Rightarrow> (Transaction \<Rightarrow> string result) \<Rightarrow> string \<Rightarrow> bool \<Rightarrow> Transaction \<Rightarrow> PendingEvaluation option \<Rightarrow>
   unit mutation" where
  "create_transaction_mutation clock q marshal eventID eventOutbox t0 pendingMonitoring =
    andThen (on_transactions (\<lambda>r. Txn_Create r t0)) (\<lambda>_.
    let t = canonical_txn t0 in
    andThen (appendRequiredMutationAudit clock q ''create_transaction'' ''transactions'' (tx_ID t)
      [(''customer_id'', tx_CustomerID t), (''external_id'', tx_ExternalID t), (''amount'', FormatFloat_f (tx_Amount t)),
       (''currency'', tx_Currency t), (''transaction_type'', tx_TransactionType t)] (tx_CreatedAt t)) (\<lambda>_.
    andThen (queue_pending clock q t pendingMonitoring) (\<lambda>_.
    enqueue_created clock q marshal eventID eventOutbox t)))"

text \<open>What the handler answers when the mutation fails; otherwise it goes on to monitor the transaction.\<close>

definition create_transaction_error :: "go_error \<Rightarrow> 'a response" where
  "create_transaction_error err =
    (if as_conflict err then Refuse 409 ''conflict'' (Error (innermost err)) else writeAtomicMutationError err)"

subsection \<open>Deciding a score override\<close>

record approveOverrideRequest =
  ao_Rationale :: string
  ao_Reject :: bool
  ao_ExpectedVersion :: int

definition move_tier :: "(nat \<Rightarrow> time) \<Rightarrow> CDDOverrideStatus \<Rightarrow> CDDScoreOverride \<Rightarrow> unit mutation" where
  "move_tier clock status decided =
    (if status = CDDOverrideApproved
     then on_customers (\<lambda>c. case Customer_Get c (ov_CustomerID decided) of
        Inl err \<Rightarrow> (Inl err, c)
      | Inr customer \<Rightarrow>
          (case Customer_Update (clock 1) c (customer\<lparr>cu_RiskTier := Some (ov_ProposedTier decided)\<rparr>) of
             (Inl err, c') \<Rightarrow> (Inl err, c') | (Inr _, c') \<Rightarrow> (Inr (), c')))
     else return ())"

definition override_entry :: "(nat \<Rightarrow> time) \<Rightarrow> request \<Rightarrow> string \<Rightarrow> CDDOverrideStatus \<Rightarrow> string \<Rightarrow> CDDScoreOverride \<Rightarrow> AuditEntry" where
  "override_entry clock q overrideID status rationale decided =
    \<lparr>ae_ID = 0, ae_UserID = resolveAuditUserID q, ae_Action = ''cdd_score_override_'' @ CDDOverrideStatus_string status,
     ae_ResourceType = ''cdd_score_overrides'', ae_ResourceID = overrideID,
     ae_Details = [(''customer_id'', ov_CustomerID decided), (''requested_by'', ov_RequestedBy decided),
       (''computed_tier'', RiskTier_string (ov_ComputedTier decided)),
       (''proposed_tier'', RiskTier_string (ov_ProposedTier decided)),
       (''rationale'', rationale), (''correlation_id'', correlationID q)],
     ae_IPAddress = [], ae_UserAgent = [], ae_CreatedAt = clock 2\<rparr>"

definition approve_override_mutation ::
  "(nat \<Rightarrow> time) \<Rightarrow> request \<Rightarrow> string \<Rightarrow> CDDOverrideStatus \<Rightarrow> string \<Rightarrow> int \<Rightarrow> CDDScoreOverride mutation" where
  "approve_override_mutation clock q overrideID status rationale expectedVersion =
    andThen (on_customers (\<lambda>c.
      DecideCDDScoreOverride (clock 0) c overrideID status (resolveAuditUserID q) rationale expectedVersion)) (\<lambda>decided.
    andThen (move_tier clock status decided) (\<lambda>_.
    andThen (wrap_error ''append score override audit'' (on_audit (\<lambda>a.
      Audit_Create (clock 3) a (override_entry clock q overrideID status rationale decided)))) (\<lambda>_.
    return decided)))"

text \<open>\<open>i\<close> and \<open>overrideID\<close> are the path parameters; \<open>None\<close> is a body that cannot be decoded.\<close>

definition handleApproveCDDScoreOverride ::
  "(nat \<Rightarrow> time) \<Rightarrow> request \<Rightarrow> string \<Rightarrow> string \<Rightarrow> approveOverrideRequest option \<Rightarrow> MemoryAtomicMutationRepo \<Rightarrow>
   CDDScoreOverride response \<times> MemoryAtomicMutationRepo" where
  "handleApproveCDDScoreOverride clock q i overrideID body r =
    (case body of
       None \<Rightarrow> (Refuse 400 ''validation_failed'' ''invalid JSON'', r)
     | Some req \<Rightarrow>
         if ao_ExpectedVersion req \<le> 0
         then (Refuse 400 ''validation_failed'' ''expected_version is required'', r)
         else let rationale = TrimSpace (ao_Rationale req) in
         if rationale = []
         then (Refuse 400 ''validation_failed'' ''rationale is required to decide a score override'', r)
         else (case GetCDDScoreOverride (at_customers r) overrideID of
           Inl err \<Rightarrow> (writeWave3Error err, r)
         | Inr override \<Rightarrow>
             if \<not> SameIdentifier (ov_CustomerID override) i
             then (Refuse 404 ''not_found'' ''override does not belong to this customer'', r)
             else if resolveAuditUserID q = ov_RequestedBy override
             then (Refuse 403 ''forbidden'' ''requester cannot approve their own score override'', r)
             else let status = (if ao_Reject req then CDDOverrideRejected else CDDOverrideApproved) in
             (case RunAtomic (approve_override_mutation clock q overrideID status rationale (ao_ExpectedVersion req)) r of
                (Inl err, r') \<Rightarrow> (writeAtomicMutationError err, r')
              | (Inr decided, r') \<Rightarrow> (Reply 200 decided, r'))))"

subsection \<open>Closing and reopening an EDD window\<close>

record eddActionRequest =
  ea_Rationale :: string
  ea_CaseID :: string
  ea_ExpectedUpdatedAt :: "time option"

definition EDD_Version :: "EDDPolicy option \<Rightarrow> string" where
  "EDD_Version p =
    (case p of None \<Rightarrow> ''unknown'' | Some p \<Rightarrow>
     if TrimSpace (ep_PolicyVersion p) = [] then ''unknown'' else ep_PolicyVersion p)"

definition edd_action_customer :: "time \<Rightarrow> string \<Rightarrow> eddActionRequest \<Rightarrow> Customer \<Rightarrow> Customer" where
  "edd_action_customer now action req customer =
    (if action = ''complete''
     then customer\<lparr>cu_EddCompletedAt := Some now, cu_EddClosedAt := Some now, cu_EddCloseReason := ''completed'',
            cu_EddCaseID := (if TrimSpace (ea_CaseID req) \<noteq> [] then TrimSpace (ea_CaseID req) else cu_EddCaseID customer)\<rparr>
     else customer\<lparr>cu_EddCompletedAt := None, cu_EddClosedAt := None, cu_EddCloseReason := []\<rparr>)"

definition edd_action_mutation ::
  "(nat \<Rightarrow> time) \<Rightarrow> request \<Rightarrow> string \<Rightarrow> EDDPolicy option \<Rightarrow> string \<Rightarrow> string \<Rightarrow> time option \<Rightarrow> Customer \<Rightarrow> Customer mutation" where
  "edd_action_mutation clock q eventID edd action rationale expectedUpdatedAt customer =
    andThen (on_customers (\<lambda>c. case expectedUpdatedAt of
        Some expected \<Rightarrow> Customer_UpdateIfUnmodified (clock 1) c customer expected
      | None \<Rightarrow> Customer_Update (clock 1) c customer)) (\<lambda>customer.
    andThen (wrap_error ''append EDD event'' (on_customers (\<lambda>c. AppendCustomerEDDEvent (clock 2) eventID c (Some
        \<lparr>ev_ID = eventID, ev_CustomerID = cu_ID customer,
         ev_EventType = (if action = ''complete'' then EDDEventCompleted else EDDEventReopened), ev_Stage = [],
         ev_Rationale = rationale, ev_CaseID = cu_EddCaseID customer, ev_Actor = resolveAuditUserID q,
         ev_PolicyVersion = EDD_Version edd, ev_CreatedAt = clock 0\<rparr>)))) (\<lambda>_.
    andThen (appendRequiredMutationAudit clock q (''edd_'' @ action) ''customers'' (cu_ID customer)
        [(''rationale'', rationale), (''case_id'', cu_EddCaseID customer), (''policy_version'', EDD_Version edd)] (clock 0)) (\<lambda>_.
    return customer)))"

text \<open>The panel of the reply is rendered from the updated customer, which stands for it here.\<close>

definition handleCustomerEDDAction ::
  "(nat \<Rightarrow> time) \<Rightarrow> request \<Rightarrow> string \<Rightarrow> EDDPolicy option \<Rightarrow> string \<Rightarrow> string \<Rightarrow> eddActionRequest option \<Rightarrow>
   MemoryAtomicMutationRepo \<Rightarrow> Customer response \<times> MemoryAtomicMutationRepo" where
  "handleCustomerEDDAction clock q eventID edd i action body r =
    (if action \<noteq> ''complete'' \<and> action \<noteq> ''reopen''
     then (Refuse 400 ''validation_failed'' ''action must be complete or reopen'', r)
     else (case Customer_Get (at_customers r) i of
       Inl err \<Rightarrow> (writeWave3Error err, r)
     | Inr customer \<Rightarrow> (case body of
         None \<Rightarrow> (Refuse 400 ''validation_failed'' ''invalid JSON'', r)
       | Some req \<Rightarrow>
           let rationale = TrimSpace (ea_Rationale req) in
           if rationale = [] \<and> (action = ''reopen'' \<or> ep_RequiresRationale (edd_resolved edd))
           then (Refuse 400 ''validation_failed'' (''rationale is required to '' @ action @ '' an EDD window''), r)
           else if action = ''complete'' \<and> ep_RequiresCaseLink (edd_resolved edd) \<and> TrimSpace (ea_CaseID req) = []
           then (Refuse 400 ''validation_failed'' ''case_id is required to complete an EDD window'', r)
           else if cu_EddRequestedAt customer = None
           then (Refuse 409 ''conflict'' ''this customer has no EDD window'', r)
           else if action = ''complete'' \<and> cu_EddCompletedAt customer \<noteq> None
           then (Refuse 409 ''conflict'' ''this EDD window is already complete'', r)
           else if action = ''reopen'' \<and> cu_EddCompletedAt customer = None
           then (Refuse 409 ''conflict'' ''this EDD window is not complete'', r)
           else (case RunAtomic (edd_action_mutation clock q eventID edd action rationale (ea_ExpectedUpdatedAt req)
                   (edd_action_customer (clock 0) action req customer)) r of
              (Inl err, r') \<Rightarrow> (writeAtomicMutationError err, r')
            | (Inr customer', r') \<Rightarrow> (Reply 200 customer', r')))))"

subsection \<open>What a rollback restores\<close>

text \<open>A mutation neither adds nor removes repositories and does not touch their injected failures.\<close>

definition same_wiring :: "MemoryAtomicMutationRepo \<Rightarrow> MemoryAtomicMutationRepo \<Rightarrow> bool" where
  "same_wiring r r' \<longleftrightarrow>
     (at_transactions r' = None \<longleftrightarrow> at_transactions r = None) \<and> (at_cases r' = None \<longleftrightarrow> at_cases r = None) \<and>
     (at_alerts r' = None \<longleftrightarrow> at_alerts r = None) \<and> (at_pending r' = None \<longleftrightarrow> at_pending r = None) \<and>
     au_createFailure (at_audit r') = au_createFailure (at_audit r) \<and>
     map_option eo_enqueueFailure (at_outbox r') = map_option eo_enqueueFailure (at_outbox r)"

text \<open>
  The store after a failed mutation that had led from \<open>r\<close> to \<open>r'\<close>: three tables are those of \<open>r'\<close>, because
  neither the snapshot nor \<^verbatim>\<open>restore\<close> mentions them.
\<close>

definition leftover :: "MemoryAtomicMutationRepo \<Rightarrow> MemoryAtomicMutationRepo \<Rightarrow> MemoryAtomicMutationRepo" where
  "leftover r r' =
    r\<lparr>at_customers := (at_customers r)\<lparr>cs_eddEvents := cs_eddEvents (at_customers r'),
        cs_overrides := cs_overrides (at_customers r')\<rparr>,
      at_transactions := map_option (\<lambda>t. t\<lparr>mt_external := field_or [] mt_external (at_transactions r')\<rparr>) (at_transactions r)\<rparr>"

lemma same_wiring_refl [simp]: "same_wiring r r"
  by (simp add: same_wiring_def)

lemma same_wiring_trans: "same_wiring r s \<Longrightarrow> same_wiring s u \<Longrightarrow> same_wiring r u"
  by (simp add: same_wiring_def)

lemma map_option_same:
  "(y = None \<longleftrightarrow> x = None) \<Longrightarrow> (\<And>a b. x = Some a \<Longrightarrow> y = Some b \<Longrightarrow> f b = g a) \<Longrightarrow> map_option f y = map_option g x"
  by (cases x; cases y) simp_all

lemma map_option_self:
  "(y = None \<longleftrightarrow> x = None) \<Longrightarrow> (\<And>a b. x = Some a \<Longrightarrow> y = Some b \<Longrightarrow> f b = a) \<Longrightarrow> map_option f y = x"
  by (cases x; cases y) simp_all

lemma restore_snapshot:
  assumes w: "same_wiring r r'"
  shows "restore (snapshot r) r' = leftover r r'"
proof (rule MemoryAtomicMutationRepo.equality)
  note defs = restore_def leftover_def snapshot_def field_or_def
  show "at_customers (restore (snapshot r) r') = at_customers (leftover r r')"
    by (simp add: defs)
  show "at_transactions (restore (snapshot r) r') = at_transactions (leftover r r')"
    using w by (auto simp: defs same_wiring_def intro!: map_option_same)
  show "at_cases (restore (snapshot r) r') = at_cases (leftover r r')"
    "at_alerts (restore (snapshot r) r') = at_alerts (leftover r r')"
    "at_pending (restore (snapshot r) r') = at_pending (leftover r r')"
    using w by (auto simp: defs same_wiring_def intro!: map_option_self)
  show "at_audit (restore (snapshot r) r') = at_audit (leftover r r')"
    using w by (simp add: defs same_wiring_def)
  have "(at_outbox r' = None \<longleftrightarrow> at_outbox r = None) \<and>
      (\<forall>a b. at_outbox r = Some a \<longrightarrow> at_outbox r' = Some b \<longrightarrow> eo_enqueueFailure b = eo_enqueueFailure a)"
    using w by (cases "at_outbox r"; cases "at_outbox r'") (auto simp: same_wiring_def)
  then show "at_outbox (restore (snapshot r) r') = at_outbox (leftover r r')"
    by (auto simp: defs intro!: map_option_self)
qed (simp add: restore_def leftover_def)

lemma Audit_Create_keeps_failure [simp]: "au_createFailure (snd (Audit_Create now a e)) = au_createFailure a"
  by (simp add: Audit_Create_def split: option.split)

text \<open>Frame conditions of mutations: a preorder on stores that every step respects.\<close>

locale frame =
  fixes P :: "MemoryAtomicMutationRepo \<Rightarrow> MemoryAtomicMutationRepo \<Rightarrow> bool"
  assumes refl: "P r r"
    and trans: "P r s \<Longrightarrow> P s u \<Longrightarrow> P r u"
begin

lemma andThen: "P r (snd (m r)) \<Longrightarrow> (\<And>v s. P s (snd (k v s))) \<Longrightarrow> P r (snd (andThen m k r))"
  by (auto simp: andThen_def split: prod.split sum.split intro: trans [where s = "snd (m r)"])

lemma return: "P r (snd (return v r))"
  by (simp add: return_def refl)

lemma wrap: "P r (snd (m r)) \<Longrightarrow> P r (snd (wrap_error c m r))"
  by (auto simp: wrap_error_def split: prod.split sum.split)

lemma append:
  "(\<And>e. P r (snd (on_audit (\<lambda>a. Audit_Create (clock 1) a e) r))) \<Longrightarrow>
   P r (snd (appendRequiredMutationAudit clock q action resourceType resourceID details createdAt r))"
  unfolding appendRequiredMutationAudit_def by (rule wrap)

end

lemma on_simps [simp]:
  "at_customers (snd (on_audit f r)) = at_customers r"
  "at_customers (snd (on_transactions g r)) = at_customers r"
  "at_customers (snd (on_pending h r)) = at_customers r"
  "at_customers (snd (on_outbox k r)) = at_customers r"
  "at_transactions (snd (on_audit f r)) = at_transactions r"
  "at_transactions (snd (on_customers c r)) = at_transactions r"
  by (simp_all add: on_audit_def on_transactions_def on_pending_def on_outbox_def on_customers_def
      split: prod.split option.split)

lemma wiring_on:
  "same_wiring r (snd (on_customers c r))"
  "same_wiring r (snd (on_transactions g r))"
  "same_wiring r (snd (on_pending h r))"
  "(\<And>a. au_createFailure (snd (f a)) = au_createFailure a) \<Longrightarrow> same_wiring r (snd (on_audit f r))"
  "(\<And>o'. eo_enqueueFailure (snd (k o')) = eo_enqueueFailure o') \<Longrightarrow> same_wiring r (snd (on_outbox k r))"
proof -
  show "same_wiring r (snd (on_customers c r))" "same_wiring r (snd (on_transactions g r))" "same_wiring r (snd (on_pending h r))"
    by (auto simp: same_wiring_def on_transactions_def on_pending_def on_customers_def split: prod.split option.split)
  show "same_wiring r (snd (on_audit f r))" if "\<And>a. au_createFailure (snd (f a)) = au_createFailure a"
    using that [of "at_audit r"] by (auto simp: same_wiring_def on_audit_def split: prod.split)
  show "same_wiring r (snd (on_outbox k r))" if "\<And>o'. eo_enqueueFailure (snd (k o')) = eo_enqueueFailure o'"
    using that [of "the (at_outbox r)"] by (auto simp: same_wiring_def on_outbox_def split: prod.split option.split)
qed

interpretation wiring: frame same_wiring
  by unfold_locales (simp, rule same_wiring_trans)

interpretation customers_frame: frame "\<lambda>r r'. at_customers r' = at_customers r"
  by unfold_locales simp_all

interpretation transactions_frame: frame "\<lambda>r r'. at_transactions r' = at_transactions r"
  by unfold_locales simp_all

text \<open>What holds of every mutation that keeps the wiring.\<close>

locale atomic_mutation =
  fixes fn :: "'a mutation"
  assumes wiring: "same_wiring r (snd (fn r))"
begin

lemma failed: "fn r = (Inl err, r') \<Longrightarrow> RunAtomic fn r = (Inl err, leftover r r')"
  using wiring [of r] by (simp add: RunAtomic_def restore_snapshot)

lemma succeeded: "fn r = (Inr v, r') \<Longrightarrow> RunAtomic fn r = (Inr v, r')"
  by (simp add: RunAtomic_def)

lemma RunAtomic_cases:
  obtains (ok) v r' where "fn r = (Inr v, r')" "RunAtomic fn r = (Inr v, r')"
  | (rolled_back) err r' where "fn r = (Inl err, r')" "RunAtomic fn r = (Inl err, leftover r r')"
proof (cases "fst (fn r)")
  case (Inl err)
  then have "fn r = (Inl err, snd (fn r))" by (simp add: prod_eq_iff)
  from that(2) [OF this failed [OF this]] show ?thesis .
next
  case (Inr v)
  then have "fn r = (Inr v, snd (fn r))" by (simp add: prod_eq_iff)
  from that(1) [OF this succeeded [OF this]] show ?thesis .
qed

end

lemma Enqueue_keeps_failure [simp]: "eo_enqueueFailure (snd (Enqueue now o' e)) = eo_enqueueFailure o'"
  by (simp add: Enqueue_def Let_def split: option.split)

lemma creation_steps:
  "same_wiring r (snd (queue_pending clock q t pe r))"
  "same_wiring r (snd (enqueue_created clock q marshal eventID eventOutbox t r))"
  by (auto simp: queue_pending_def enqueue_created_def fail_def
      intro!: wiring.andThen wiring.append wiring_on wiring.return split: option.split sum.split)

interpretation creation: atomic_mutation "create_transaction_mutation clock q marshal eventID eventOutbox t pe"
  for clock q marshal eventID eventOutbox t pe
proof
  fix r
  show "same_wiring r (snd (create_transaction_mutation clock q marshal eventID eventOutbox t pe r))"
    unfolding create_transaction_mutation_def Let_def
    by (auto intro!: wiring.andThen wiring.append wiring_on creation_steps)
qed

interpretation approval: atomic_mutation "approve_override_mutation clock q overrideID status rationale expectedVersion"
  for clock q overrideID status rationale expectedVersion
proof
  fix r
  show "same_wiring r (snd (approve_override_mutation clock q overrideID status rationale expectedVersion r))"
    unfolding approve_override_mutation_def move_tier_def
    by (auto intro!: wiring.andThen wiring.wrap wiring.append wiring_on wiring.return)
qed

interpretation edd: atomic_mutation "edd_action_mutation clock q eventID policy action rationale expected c"
  for clock q eventID policy action rationale expected c
proof
  fix r
  show "same_wiring r (snd (edd_action_mutation clock q eventID policy action rationale expected c r))"
    unfolding edd_action_mutation_def
    by (auto intro!: wiring.andThen wiring.wrap wiring.append wiring_on wiring.return)
qed

subsection \<open>Recording a transaction is atomic\<close>

lemma andThen_Inr: "andThen m k r = (Inr v, r') \<longleftrightarrow> (\<exists>u s. m r = (Inr u, s) \<and> k u s = (Inr v, r'))"
  by (auto simp: andThen_def split: prod.splits sum.splits)

lemma wrap_error_Inr: "wrap_error c m r = (Inr v, r') \<longleftrightarrow> m r = (Inr v, r')"
  by (auto simp: wrap_error_def split: prod.splits sum.splits)

lemma return_Inr: "return u r = (Inr v, r') \<longleftrightarrow> u = v \<and> r = r'"
  by (simp add: return_def)

text \<open>The entries that a mutation has appended to the audit log: who did what to which resource.\<close>

definition audited :: "MemoryAtomicMutationRepo \<Rightarrow> MemoryAtomicMutationRepo \<Rightarrow> (string \<times> string \<times> string) list \<Rightarrow> bool" where
  "audited r r' keys \<longleftrightarrow>
     (\<exists>es. au_entries (at_audit r') = au_entries (at_audit r) @ es \<and>
        map (\<lambda>e. (ae_UserID e, ae_Action e, ae_ResourceID e)) es = keys)"

lemma audited_Nil: "at_audit r' = at_audit r \<Longrightarrow> audited r r' []"
  by (simp add: audited_def)

lemma audited_trans: "audited r s ks \<Longrightarrow> audited s u ls \<Longrightarrow> audited r u (ks @ ls)"
  by (auto simp: audited_def)

lemma Audit_Create_Inr:
  "on_audit (\<lambda>a. Audit_Create now a e) r = (Inr v, r') \<Longrightarrow>
     audited r r' [(ae_UserID e, ae_Action e, ae_ResourceID e)] \<and> (\<exists>a. r' = r\<lparr>at_audit := a\<rparr>)"
  by (auto simp: on_audit_def Audit_Create_def audited_def Let_def split: option.splits)

lemma append_Inr:
  "appendRequiredMutationAudit clock q action resourceType resourceID details createdAt r = (Inr v, r') \<Longrightarrow>
     audited r r' [(resolveAuditUserID q, action, resourceID)] \<and> (\<exists>a. r' = r\<lparr>at_audit := a\<rparr>)"
  unfolding appendRequiredMutationAudit_def wrap_error_Inr by (drule Audit_Create_Inr) simp

lemma on_transactions_Inr:
  "on_transactions f r = (Inr v, r') \<longleftrightarrow>
     (\<exists>t t'. at_transactions r = Some t \<and> f t = (Inr v, t') \<and> r' = r\<lparr>at_transactions := Some t'\<rparr>)"
  by (auto simp: on_transactions_def split: option.splits prod.splits)

lemma on_pending_Inr:
  "on_pending f r = (Inr v, r') \<longleftrightarrow>
     (\<exists>p p'. at_pending r = Some p \<and> f p = (Inr v, p') \<and> r' = r\<lparr>at_pending := Some p'\<rparr>)"
  by (auto simp: on_pending_def split: option.splits prod.splits)

lemma on_outbox_Inr:
  "on_outbox f r = (Inr v, r') \<longleftrightarrow>
     (\<exists>e e'. at_outbox r = Some e \<and> f e = (Inr v, e') \<and> r' = r\<lparr>at_outbox := Some e'\<rparr>)"
  by (auto simp: on_outbox_def split: option.splits prod.splits)

lemma Txn_Create_Inr: "Txn_Create r t = (Inr v, r') \<longleftrightarrow> txn_unused r t \<and> r' = insert_txn (canonical_txn t) r"
proof (cases "txn_unused r t")
  case True
  then show ?thesis by (auto simp: Txn_Create_unused)
next
  case False
  then show ?thesis using Txn_Create_used [OF False] by auto
qed

lemma Enqueue_Inr:
  "Enqueue now o' (Some e) = (Inr v, o'') \<Longrightarrow> eo_events o'' = eo_events o' @ [v] \<and> de_ID v = de_ID e \<and> de_Topic v = de_Topic e"
  by (auto simp: Enqueue_def Let_def split: if_splits option.splits)

text \<open>What a recorded transaction has changed.\<close>

definition transaction_recorded ::
  "request \<Rightarrow> string \<Rightarrow> bool \<Rightarrow> Transaction \<Rightarrow> PendingEvaluation option \<Rightarrow> MemoryAtomicMutationRepo \<Rightarrow> MemoryAtomicMutationRepo \<Rightarrow> bool" where
  "transaction_recorded q eventID eventOutbox t pe r r' \<longleftrightarrow>
     (\<exists>txns. at_transactions r = Some txns \<and> txn_unused txns t \<and>
        at_transactions r' = Some (insert_txn (canonical_txn t) txns)) \<and>
     audited r r' ((resolveAuditUserID q, ''create_transaction'', CanonicalUUID (tx_ID t)) #
        (case pe of None \<Rightarrow> [] | Some p \<Rightarrow> [(resolveAuditUserID q, ''pending_evaluation_queued'', pe_ID p)])) \<and>
     (case pe of None \<Rightarrow> at_pending r' = at_pending r
      | Some p \<Rightarrow> (\<exists>ps ps' now. at_pending r = Some ps \<and> at_pending r' = Some ps' \<and> ps' = PE_Create now ps p)) \<and>
     (if eventOutbox
      then \<exists>out out' e. at_outbox r = Some out \<and> at_outbox r' = Some out' \<and> eo_events out' = eo_events out @ [e] \<and>
             de_ID e = eventID \<and> de_Topic e = ''transaction.created''
      else at_outbox r' = at_outbox r) \<and>
     at_customers r' = at_customers r \<and> at_cases r' = at_cases r \<and> at_alerts r' = at_alerts r"

lemma queue_pending_Inr:
  assumes "queue_pending clock q t pe r = (Inr v, r')"
  shows "audited r r' (case pe of None \<Rightarrow> [] | Some p \<Rightarrow> [(resolveAuditUserID q, ''pending_evaluation_queued'', pe_ID p)])"
    and "case pe of None \<Rightarrow> at_pending r' = at_pending r
      | Some p \<Rightarrow> (\<exists>ps. at_pending r = Some ps \<and> at_pending r' = Some (PE_Create (clock 2) ps p))"
    and "\<exists>a p. r' = r\<lparr>at_pending := p, at_audit := a\<rparr>"
proof -
  have "audited r r' (case pe of None \<Rightarrow> [] | Some p \<Rightarrow> [(resolveAuditUserID q, ''pending_evaluation_queued'', pe_ID p)]) \<and>
    (case pe of None \<Rightarrow> at_pending r' = at_pending r
      | Some p \<Rightarrow> (\<exists>ps. at_pending r = Some ps \<and> at_pending r' = Some (PE_Create (clock 2) ps p))) \<and>
    (\<exists>a p. r' = r\<lparr>at_pending := p, at_audit := a\<rparr>)"
  proof (cases pe)
    case None
    with assms have "r' = r" by (simp add: queue_pending_def return_def)
    moreover have "r = r\<lparr>at_pending := at_pending r, at_audit := at_audit r\<rparr>" by simp
    then have "\<exists>a p. r = r\<lparr>at_pending := p, at_audit := a\<rparr>" by blast
    ultimately show ?thesis using None by (simp add: audited_Nil)
  next
    case (Some p)
    with assms obtain ps where ps: "at_pending r = Some ps" and
      a: "appendRequiredMutationAudit clock q ''pending_evaluation_queued'' ''pending_evaluations'' (pe_ID p)
        [(''customer_id'', tx_CustomerID t), (''transaction_id'', tx_ID t), (''reason'', pe_Reason p)] (tx_CreatedAt t)
        (r\<lparr>at_pending := Some (PE_Create (clock 2) ps p)\<rparr>) = (Inr v, r')"
      by (auto simp: queue_pending_def andThen_Inr on_pending_Inr)
    from append_Inr [OF a] ps Some show ?thesis by (auto simp: audited_def)
  qed
  then show "audited r r' (case pe of None \<Rightarrow> [] | Some p \<Rightarrow> [(resolveAuditUserID q, ''pending_evaluation_queued'', pe_ID p)])"
    "case pe of None \<Rightarrow> at_pending r' = at_pending r
      | Some p \<Rightarrow> (\<exists>ps. at_pending r = Some ps \<and> at_pending r' = Some (PE_Create (clock 2) ps p))"
    "\<exists>a p. r' = r\<lparr>at_pending := p, at_audit := a\<rparr>" by blast+
qed

lemma enqueue_created_Inr:
  assumes "enqueue_created clock q marshal eventID eventOutbox t r = (Inr v, r')"
  shows "(if eventOutbox
      then \<exists>out out' e. at_outbox r = Some out \<and> r' = r\<lparr>at_outbox := Some out'\<rparr> \<and> eo_events out' = eo_events out @ [e] \<and>
             de_ID e = eventID \<and> de_Topic e = ''transaction.created''
      else r' = r)"
  using assms
  by (auto simp: enqueue_created_def andThen_Inr return_def fail_def on_outbox_Inr dest!: Enqueue_Inr split: if_splits sum.splits)

lemma create_transaction_Inr:
  assumes "create_transaction_mutation clock q marshal eventID eventOutbox t pe r = (Inr v, r')"
  shows "transaction_recorded q eventID eventOutbox t pe r r'"
proof -
  let ?t = "canonical_txn t"
  let ?audit = "appendRequiredMutationAudit clock q ''create_transaction'' ''transactions'' (tx_ID ?t)
      [(''customer_id'', tx_CustomerID ?t), (''external_id'', tx_ExternalID ?t), (''amount'', FormatFloat_f (tx_Amount ?t)),
       (''currency'', tx_Currency ?t), (''transaction_type'', tx_TransactionType ?t)] (tx_CreatedAt ?t)"
  from assms obtain w s1 u s2 u' s3 where
    1: "on_transactions (\<lambda>r. Txn_Create r t) r = (Inr w, s1)" and 2: "?audit s1 = (Inr u, s2)" and
    3: "queue_pending clock q ?t pe s2 = (Inr u', s3)" and 4: "enqueue_created clock q marshal eventID eventOutbox ?t s3 = (Inr v, r')"
    unfolding create_transaction_mutation_def Let_def andThen_Inr by blast
  from 1 obtain txns where txns: "at_transactions r = Some txns" "txn_unused txns t"
    and s1: "s1 = r\<lparr>at_transactions := Some (insert_txn ?t txns)\<rparr>"
    by (auto simp: on_transactions_Inr Txn_Create_Inr)
  from append_Inr [OF 2] obtain a where s2: "s2 = s1\<lparr>at_audit := a\<rparr>"
    and a2: "audited s1 s2 [(resolveAuditUserID q, ''create_transaction'', CanonicalUUID (tx_ID t))]"
    by (auto simp: canonical_txn_def)
  from queue_pending_Inr(3) [OF 3] obtain a' p where s3: "s3 = s2\<lparr>at_pending := p, at_audit := a'\<rparr>" by blast
  have a3: "audited s1 s3 ((resolveAuditUserID q, ''create_transaction'', CanonicalUUID (tx_ID t)) #
      (case pe of None \<Rightarrow> [] | Some p \<Rightarrow> [(resolveAuditUserID q, ''pending_evaluation_queued'', pe_ID p)]))"
    using audited_trans [OF a2 queue_pending_Inr(1) [OF 3]] by simp
  have r': "r' = s3\<lparr>at_outbox := at_outbox r'\<rparr>"
    using enqueue_created_Inr [OF 4] by (auto split: if_splits)
  have same: "at_audit r' = at_audit s3" "at_transactions r' = at_transactions s3" "at_pending r' = at_pending s3"
    "at_customers r' = at_customers r" "at_cases r' = at_cases r" "at_alerts r' = at_alerts r"
    by (subst r', simp add: s3 s2 s1)+
  have T: "\<exists>txns. at_transactions r = Some txns \<and> txn_unused txns t \<and> at_transactions r' = Some (insert_txn ?t txns)"
    using txns by (simp add: same(2) s3 s2 s1)
  have A: "audited r r' ((resolveAuditUserID q, ''create_transaction'', CanonicalUUID (tx_ID t)) #
      (case pe of None \<Rightarrow> [] | Some p \<Rightarrow> [(resolveAuditUserID q, ''pending_evaluation_queued'', pe_ID p)]))"
    using a3 by (simp add: audited_def same(1) s1)
  have P: "case pe of None \<Rightarrow> at_pending r' = at_pending r
      | Some p \<Rightarrow> (\<exists>ps ps' now. at_pending r = Some ps \<and> at_pending r' = Some ps' \<and> ps' = PE_Create now ps p)"
    using queue_pending_Inr(2) [OF 3] by (auto simp: same(3) s2 s1 split: option.splits)
  have O: "if eventOutbox
      then \<exists>out out' e. at_outbox r = Some out \<and> at_outbox r' = Some out' \<and> eo_events out' = eo_events out @ [e] \<and>
             de_ID e = eventID \<and> de_Topic e = ''transaction.created''
      else at_outbox r' = at_outbox r"
    using enqueue_created_Inr [OF 4] by (auto simp: s3 s2 s1 split: if_splits)
  show ?thesis
    unfolding transaction_recorded_def by (intro conjI) (rule T A P O same)+
qed

lemma create_keeps_customers:
  "at_customers (snd (create_transaction_mutation clock q marshal eventID eventOutbox t pe r)) = at_customers r"
proof -
  have "at_customers (snd (queue_pending clock q u pe s)) = at_customers s" for u s
    by (auto simp: queue_pending_def intro!: customers_frame.andThen customers_frame.append customers_frame.return
        split: option.split)
  moreover have "at_customers (snd (enqueue_created clock q marshal eventID eventOutbox u s)) = at_customers s" for u s
    by (auto simp: enqueue_created_def fail_def intro!: customers_frame.andThen customers_frame.return split: sum.split)
  ultimately show ?thesis
    unfolding create_transaction_mutation_def Let_def
    by (auto intro!: customers_frame.andThen customers_frame.append)
qed

text \<open>
  C21. Recording a transaction is one step: when the mutation succeeds, the transaction, its audit
  entry, the queued evaluation (when monitoring is down) and the outbox event have all been written and
  nothing else has changed; when it fails, the whole store is as before but for the index of external
  identifiers.
\<close>

theorem transaction_creation_atomic:
  "case RunAtomic (create_transaction_mutation clock q marshal eventID eventOutbox t pe) r of
     (Inr _, r') \<Rightarrow> transaction_recorded q eventID eventOutbox t pe r r'
   | (Inl _, r') \<Rightarrow> \<exists>ext. r' = r\<lparr>at_transactions := map_option (\<lambda>x. x\<lparr>mt_external := ext\<rparr>) (at_transactions r)\<rparr>"
proof (cases rule: creation.RunAtomic_cases [where r = r and clock = clock and q = q and marshal = marshal and
      eventID = eventID and eventOutbox = eventOutbox and t = t and pe = pe])
  case (ok v r')
  then show ?thesis by (simp add: create_transaction_Inr)
next
  case (rolled_back err r')
  then have "at_customers r' = at_customers r"
    using create_keeps_customers [of clock q marshal eventID eventOutbox t pe r] by simp
  then have "leftover r r' =
      r\<lparr>at_transactions := map_option (\<lambda>x. x\<lparr>mt_external := field_or [] mt_external (at_transactions r')\<rparr>) (at_transactions r)\<rparr>"
    by (simp add: leftover_def)
  with rolled_back show ?thesis by auto
qed

text \<open>
  The external identifier stays reserved. When the audit log refuses the entry, the failed creation
  leaves its external identifier in the index: no transaction has it, and a retry of the
  same request (under a new generated identifier) is refused as a duplicate.
\<close>

lemma failed_creation_reserves_external_id:
  assumes txns: "at_transactions r = Some txns" "txn_unused txns t" "tx_ExternalID t \<noteq> []"
    and audit: "au_createFailure (at_audit r) = Some err"
    and retry: "tx_ExternalID t' = tx_ExternalID t" "CanonicalUUID (tx_ID t') \<noteq> CanonicalUUID (tx_ID t)"
      "tbl_get (mt_data txns) (CanonicalUUID (tx_ID t')) = None" "tx_IdempotencyKey t' = tx_IdempotencyKey t"
  shows "\<exists>r1 txns1. RunAtomic (create_transaction_mutation clock q marshal eventID eventOutbox t pe) r =
      (Inl (ErrWrap ''append create_transaction audit'' err), r1) \<and>
    at_transactions r1 = Some txns1 \<and> mt_data txns1 = mt_data txns \<and>
    Txn_GetByExternalID txns1 (tx_ExternalID t) = Inl (ErrNotFound ''transaction'' (tx_ExternalID t)) \<and>
    Txn_Create txns1 t' =
      (Inl (ErrConflict ''transaction'' (CanonicalUUID (tx_ID t')) ''external_id already exists''), txns1)"
proof -
  let ?ext = "mt_external (insert_txn (canonical_txn t) txns)"
  let ?txns1 = "txns\<lparr>mt_external := ?ext\<rparr>"
  have "create_transaction_mutation clock q marshal eventID eventOutbox t pe r =
      (Inl (ErrWrap ''append create_transaction audit'' err), r\<lparr>at_transactions := Some (insert_txn (canonical_txn t) txns)\<rparr>)"
    using txns audit
    by (simp add: create_transaction_mutation_def andThen_def on_transactions_def Txn_Create_unused Let_def
        appendRequiredMutationAudit_def wrap_error_def on_audit_def Audit_Create_def)
  from creation.failed [OF this]
  have run: "RunAtomic (create_transaction_mutation clock q marshal eventID eventOutbox t pe) r =
      (Inl (ErrWrap ''append create_transaction audit'' err), r\<lparr>at_transactions := Some ?txns1\<rparr>)"
    by (simp add: leftover_def txns(1) field_or_def)
  have ext: "tbl_get ?ext (tx_ExternalID t) = Some (CanonicalUUID (tx_ID t))"
    using txns(3) by (simp add: insert_txn_def canonical_txn_def tbl_simps)
  have free: "tbl_get (mt_data txns) (CanonicalUUID (tx_ID t)) = None"
    "\<And>key. tx_IdempotencyKey t = Some key \<Longrightarrow> tbl_get (mt_idempotencyKey txns) key = None"
    using txns(2) by (auto simp: txn_unused_def)
  have "Txn_GetByExternalID ?txns1 (tx_ExternalID t) = Inl (ErrNotFound ''transaction'' (tx_ExternalID t))"
    using free(1) by (simp add: Txn_GetByExternalID_def lookup_by_def ext)
  moreover have "Txn_Create ?txns1 t' =
      (Inl (ErrConflict ''transaction'' (CanonicalUUID (tx_ID t')) ''external_id already exists''), ?txns1)"
    using retry txns(3) free(2) by (auto simp: Txn_Create_def Let_def ext split: option.split)
  ultimately show ?thesis using run by auto
qed

subsection \<open>Deciding an override needs two people\<close>

text \<open>Customers are stored under their canonical identifier.\<close>

definition customers_keyed :: "MemoryCustomerRepo \<Rightarrow> bool" where
  "customers_keyed c \<longleftrightarrow> (\<forall>k d. tbl_get (cs_data c) k = Some d \<longrightarrow> CanonicalUUID (cu_ID d) = k)"

lemma customer_step_keyed: "customer_step c c' \<Longrightarrow> customers_keyed c \<Longrightarrow> customers_keyed c'"
proof (induction rule: customer_step.induct)
  case (edd_event r now gen ev)
  then show ?case by (auto simp: AppendCustomerEDDEvent_def Let_def customers_keyed_def split: option.split)
next
  case (decide r now i st who why version)
  then show ?case by (auto simp: DecideCDDScoreOverride_def Let_def customers_keyed_def split: option.split)
next
  case (update_status r now i status)
  then show ?case by (auto simp: Customer_UpdateStatus_def Let_def customers_keyed_def tbl_simps split: option.split)
qed (auto simp: customers_keyed_def Customer_Create_def Customer_Update_def Customer_UpdateIfUnmodified_def
    SaveScoreRecord_def CreateCDDScoreOverride_def Let_def tbl_simps split: option.split)

lemma customers_reachable_keyed:
  assumes "customer_step\<^sup>*\<^sup>* NewMemoryCustomerRepo c"
  shows "customers_keyed c"
  using assms
proof (induction rule: rtranclp_induct)
  case base
  then show ?case by (simp add: customers_keyed_def NewMemoryCustomerRepo_def)
next
  case (step c c')
  then show ?case by (blast intro: customer_step_keyed)
qed

lemma on_customers_Inr:
  "on_customers f r = (Inr v, r') \<longleftrightarrow> (\<exists>c. f (at_customers r) = (Inr v, c) \<and> r' = r\<lparr>at_customers := c\<rparr>)"
  by (auto simp: on_customers_def split: prod.splits)

text \<open>A decided request: \<open>p\<close> with the decision filled in.\<close>

definition decided_as :: "CDDScoreOverride \<Rightarrow> CDDOverrideStatus \<Rightarrow> string \<Rightarrow> string \<Rightarrow> time \<Rightarrow> CDDScoreOverride" where
  "decided_as p status who why now =
    p\<lparr>ov_Status := status, ov_DecidedBy := who, ov_DecidedAt := Some now, ov_DecisionRationale := why, ov_Version := ov_Version p + 1\<rparr>"

lemma Decide_Inr:
  "DecideCDDScoreOverride now c i status who why version = (Inr d, c') \<longleftrightarrow>
     (\<exists>p. tbl_get (cs_overrides c) i = Some p \<and> version > 0 \<and> ov_Version p = version \<and>
        ov_Status p = CDDOverridePendingApproval \<and> d = decided_as p status who why now \<and>
        c' = c\<lparr>cs_overrides := tbl_put i d (cs_overrides c)\<rparr>)"
  by (auto simp: DecideCDDScoreOverride_def Let_def decided_as_def split: option.splits)

text \<open>The move of the customer's tier that an approval makes.\<close>

definition tier_moved :: "string \<Rightarrow> RiskTier \<Rightarrow> MemoryCustomerRepo \<Rightarrow> MemoryCustomerRepo \<Rightarrow> bool" where
  "tier_moved i tier c c' \<longleftrightarrow>
     (\<exists>d d'. tbl_get (cs_data c) (CanonicalUUID i) = Some d \<and> tbl_get (cs_data c') (CanonicalUUID i) = Some d' \<and>
        d' = d\<lparr>cu_ID := CanonicalUUID i, cu_RiskTier := Some tier, cu_UpdatedAt := cu_UpdatedAt d'\<rparr> \<and>
        cu_UpdatedAt d < cu_UpdatedAt d' \<and>
        (\<forall>k. k \<noteq> CanonicalUUID i \<longrightarrow> tbl_get (cs_data c') k = tbl_get (cs_data c) k))"

lemma update_tier:
  assumes keyed: "customers_keyed c" and get: "Customer_Get c i = Inr d"
    and upd: "Customer_Update now c (d\<lparr>cu_RiskTier := Some tier\<rparr>) = (Inr d', c')"
  shows "tier_moved i tier c c' \<and> cs_overrides c' = cs_overrides c"
proof -
  from get have d: "tbl_get (cs_data c) (CanonicalUUID i) = Some d"
    by (auto simp: Customer_Get_def Let_def split: option.splits)
  with keyed have i: "CanonicalUUID (cu_ID d) = CanonicalUUID i" by (auto simp: customers_keyed_def)
  from upd d i show ?thesis
    using nextCustomerMutationTime_later [of "cu_UpdatedAt d" now]
    by (auto simp: Customer_Update_def Let_def tier_moved_def tbl_simps)
qed

lemma approve_override_Inr:
  assumes run: "approve_override_mutation clock q overrideID status why version r = (Inr d, r')"
    and keyed: "customers_keyed (at_customers r)"
  shows "\<exists>p. tbl_get (cs_overrides (at_customers r)) overrideID = Some p \<and> ov_Version p = version \<and>
      ov_Status p = CDDOverridePendingApproval \<and> d = decided_as p status (resolveAuditUserID q) why (clock 0) \<and>
      tbl_get (cs_overrides (at_customers r')) overrideID = Some d \<and>
      audited r r' [(resolveAuditUserID q, ''cdd_score_override_'' @ CDDOverrideStatus_string status, overrideID)] \<and>
      (if status = CDDOverrideApproved
       then tier_moved (ov_CustomerID p) (ov_ProposedTier p) (at_customers r) (at_customers r')
       else cs_data (at_customers r') = cs_data (at_customers r))"
proof -
  from run obtain s1 u s2 u' where
    1: "on_customers (\<lambda>c. DecideCDDScoreOverride (clock 0) c overrideID status (resolveAuditUserID q) why version) r = (Inr d, s1)" and
    2: "move_tier clock status d s1 = (Inr u, s2)" and
    3: "on_audit (\<lambda>a. Audit_Create (clock 3) a (override_entry clock q overrideID status why d)) s2 = (Inr u', r')"
    unfolding approve_override_mutation_def andThen_Inr wrap_error_Inr return_Inr by blast
  from 1 obtain p where p: "tbl_get (cs_overrides (at_customers r)) overrideID = Some p" "ov_Version p = version"
      "ov_Status p = CDDOverridePendingApproval" and d: "d = decided_as p status (resolveAuditUserID q) why (clock 0)"
    and s1: "s1 = r\<lparr>at_customers := (at_customers r)\<lparr>cs_overrides := tbl_put overrideID d (cs_overrides (at_customers r))\<rparr>\<rparr>"
    by (auto simp: on_customers_Inr Decide_Inr)
  have ids: "ov_CustomerID d = ov_CustomerID p" "ov_ProposedTier d = ov_ProposedTier p"
    by (simp_all add: d decided_as_def)
  have keyed1: "customers_keyed (at_customers s1)" using keyed by (simp add: s1 customers_keyed_def)
  have move: "cs_overrides (at_customers s2) = cs_overrides (at_customers s1) \<and> at_audit s2 = at_audit s1 \<and>
    (if status = CDDOverrideApproved then tier_moved (ov_CustomerID p) (ov_ProposedTier p) (at_customers s1) (at_customers s2)
     else cs_data (at_customers s2) = cs_data (at_customers s1))"
  proof (cases "status = CDDOverrideApproved")
    case True
    with 2 obtain c' d' x where c': "Customer_Get (at_customers s1) (ov_CustomerID p) = Inr d'"
      "Customer_Update (clock 1) (at_customers s1) (d'\<lparr>cu_RiskTier := Some (ov_ProposedTier p)\<rparr>) = (Inr x, c')"
      "s2 = s1\<lparr>at_customers := c'\<rparr>"
      by (auto simp: move_tier_def on_customers_Inr ids split: sum.splits prod.splits)
    with True update_tier [OF keyed1 c'(1,2)] show ?thesis by simp
  qed (use 2 in \<open>auto simp: move_tier_def return_def\<close>)
  from Audit_Create_Inr [OF 3] obtain a where r': "r' = s2\<lparr>at_audit := a\<rparr>"
    and aud: "audited s2 r' [(resolveAuditUserID q, ''cdd_score_override_'' @ CDDOverrideStatus_string status, overrideID)]"
    by (auto simp: override_entry_def)
  have "at_customers r' = at_customers s2" by (simp add: r')
  moreover have "audited r r' keys" if "audited s2 r' keys" for keys
    using that move by (simp add: audited_def s1)
  moreover have "tier_moved i tier (at_customers s1) c = tier_moved i tier (at_customers r) c" for i tier c
    by (simp add: tier_moved_def s1)
  ultimately show ?thesis using p d move aud by (auto simp: s1 tbl_simps simp del: if_split split: if_splits)
qed

text \<open>
  C22. A score override takes two people. Whenever the handler answers with a decided request, the
  request was pending at the version the caller had read, the caller is not the one who raised it and
  gave a rationale; the stored request carries the decision, exactly one audit entry names the caller,
  and the customer's tier has moved to the proposed one if and only if the decision was an approval. No
  other customer changes.
\<close>

theorem override_needs_two_people:
  assumes reach: "customer_step\<^sup>*\<^sup>* NewMemoryCustomerRepo (at_customers r)"
    and reply: "handleApproveCDDScoreOverride clock q i overrideID body r = (Reply code d, r')"
  shows "\<exists>req p status. body = Some req \<and> tbl_get (cs_overrides (at_customers r)) overrideID = Some p \<and>
    ov_Status p = CDDOverridePendingApproval \<and> ov_Version p = ao_ExpectedVersion req \<and>
    resolveAuditUserID q \<noteq> ov_RequestedBy p \<and> TrimSpace (ao_Rationale req) \<noteq> [] \<and>
    status = (if ao_Reject req then CDDOverrideRejected else CDDOverrideApproved) \<and>
    d = decided_as p status (resolveAuditUserID q) (TrimSpace (ao_Rationale req)) (clock 0) \<and>
    tbl_get (cs_overrides (at_customers r')) overrideID = Some d \<and>
    audited r r' [(resolveAuditUserID q, ''cdd_score_override_'' @ CDDOverrideStatus_string status, overrideID)] \<and>
    (if ao_Reject req then cs_data (at_customers r') = cs_data (at_customers r)
     else tier_moved (ov_CustomerID p) (ov_ProposedTier p) (at_customers r) (at_customers r'))"
proof -
  from reply obtain req p where req: "body = Some req" "TrimSpace (ao_Rationale req) \<noteq> []"
    and p: "GetCDDScoreOverride (at_customers r) overrideID = Inr p" "resolveAuditUserID q \<noteq> ov_RequestedBy p"
    and run: "RunAtomic (approve_override_mutation clock q overrideID
        (if ao_Reject req then CDDOverrideRejected else CDDOverrideApproved) (TrimSpace (ao_Rationale req)) (ao_ExpectedVersion req)) r
        = (Inr d, r')"
    unfolding handleApproveCDDScoreOverride_def Let_def
    by (auto simp: writeWave3Error_def writeAtomicMutationError_def split: option.splits if_splits sum.splits prod.splits)
  from p(1) have "tbl_get (cs_overrides (at_customers r)) overrideID = Some p"
    by (simp add: GetCDDScoreOverride_def split: option.splits)
  moreover from run have "approve_override_mutation clock q overrideID
        (if ao_Reject req then CDDOverrideRejected else CDDOverrideApproved) (TrimSpace (ao_Rationale req)) (ao_ExpectedVersion req) r
        = (Inr d, r')"
    by (auto simp: RunAtomic_def split: prod.splits sum.splits)
  note approve_override_Inr [OF this customers_reachable_keyed [OF reach]]
  ultimately show ?thesis using req p(2) by (auto split: if_splits)
qed

definition sample_customers :: MemoryCustomerRepo where
  "sample_customers =
    snd (CreateCDDScoreOverride 8 (snd (Customer_Create NewMemoryCustomerRepo sample_customer)) (Some sample_override))"

definition sample_store :: MemoryAtomicMutationRepo where
  "sample_store = \<lparr>at_customers = sample_customers, at_transactions = Some NewMemoryTransactionRepo, at_cases = None,
     at_alerts = None, at_audit = NewMemoryAuditRepo, at_outbox = None, at_pending = None\<rparr>"

definition sample_request :: request where
  "sample_request = \<lparr>rq_Principal = Some (''checker'', []), rq_APIKey = None, rq_contextID = ''r1'', rq_headerID = [],
     rq_generated = [], rq_IP = [], rq_UserAgent = []\<rparr>"

theorem override_needs_two_people_witness:
  "\<exists>d r'. handleApproveCDDScoreOverride (\<lambda>n. 9000) sample_request ''c1'' ''o1''
      (Some \<lparr>ao_Rationale = ''documents checked'', ao_Reject = False, ao_ExpectedVersion = 1\<rparr>) sample_store = (Reply 200 d, r') \<and>
    tier_moved ''c1'' RiskTierLow sample_customers (at_customers r')"
proof -
  let ?run = "handleApproveCDDScoreOverride (\<lambda>n. 9000) sample_request ''c1'' ''o1''
      (Some \<lparr>ao_Rationale = ''documents checked'', ao_Reject = False, ao_ExpectedVersion = 1\<rparr>) sample_store"
  have "(case fst ?run of Reply code d \<Rightarrow> code = 200 | _ \<Rightarrow> False) = True" by code_simp
  then obtain d r' where run: "?run = (Reply 200 d, r')"
    by (cases ?run; cases "fst ?run") auto
  have "customer_step\<^sup>*\<^sup>* NewMemoryCustomerRepo (snd (Customer_Create NewMemoryCustomerRepo sample_customer))"
    by (rule r_into_rtranclp, rule customer_step.create) (simp add: NewMemoryCustomerRepo_def)
  moreover have "customer_step (snd (Customer_Create NewMemoryCustomerRepo sample_customer)) sample_customers"
    unfolding sample_customers_def
    by (rule customer_step.propose) (simp add: Customer_Create_def NewMemoryCustomerRepo_def Let_def)
  ultimately have "customer_step\<^sup>*\<^sup>* NewMemoryCustomerRepo (at_customers sample_store)"
    by (simp add: sample_store_def)
  moreover have "map_option (\<lambda>p. (ov_CustomerID p, ov_ProposedTier p)) (tbl_get (cs_overrides sample_customers) ''o1'') =
      Some (''c1'', RiskTierLow)" by code_simp
  ultimately show ?thesis
    using override_needs_two_people [OF _ run] run by (auto simp: sample_store_def)
qed

text \<open>
  The decision outlives a failed mutation. When the audit log refuses the entry, the handler reports an
  internal error and the customer keeps its tier, yet the request stays decided and can
  never be decided again.
\<close>

lemma failed_audit_keeps_decision:
  assumes p: "tbl_get (cs_overrides (at_customers r)) overrideID = Some p" "ov_Status p = CDDOverridePendingApproval"
      "0 < ov_Version p"
    and audit: "au_createFailure (at_audit r) = Some err"
  shows "\<exists>r'. RunAtomic (approve_override_mutation clock q overrideID CDDOverrideRejected why (ov_Version p)) r =
      (Inl (ErrWrap ''append score override audit'' err), r') \<and> at_audit r' = at_audit r \<and>
    cs_data (at_customers r') = cs_data (at_customers r) \<and>
    tbl_get (cs_overrides (at_customers r')) overrideID =
      Some (decided_as p CDDOverrideRejected (resolveAuditUserID q) why (clock 0)) \<and>
    (\<forall>now status who why' version. \<exists>reason. DecideCDDScoreOverride now (at_customers r') overrideID status who why' version =
      (Inl (ErrConflict ''cdd_score_override'' overrideID reason), at_customers r'))"
proof -
  let ?d = "decided_as p CDDOverrideRejected (resolveAuditUserID q) why (clock 0)"
  let ?c = "(at_customers r)\<lparr>cs_overrides := tbl_put overrideID ?d (cs_overrides (at_customers r))\<rparr>"
  have "approve_override_mutation clock q overrideID CDDOverrideRejected why (ov_Version p) r =
      (Inl (ErrWrap ''append score override audit'' err), r\<lparr>at_customers := ?c\<rparr>)"
    using p audit
    by (simp add: approve_override_mutation_def andThen_def on_customers_def DecideCDDScoreOverride_def decided_as_def Let_def
        move_tier_def return_def wrap_error_def on_audit_def Audit_Create_def)
  from approval.failed [OF this]
  have run: "RunAtomic (approve_override_mutation clock q overrideID CDDOverrideRejected why (ov_Version p)) r =
      (Inl (ErrWrap ''append score override audit'' err), leftover r (r\<lparr>at_customers := ?c\<rparr>))" .
  have left: "at_customers (leftover r (r\<lparr>at_customers := ?c\<rparr>)) = ?c" "at_audit (leftover r (r\<lparr>at_customers := ?c\<rparr>)) = at_audit r"
    by (simp_all add: leftover_def)
  have "ov_Status ?d = CDDOverrideRejected" by (simp add: decided_as_def)
  then have "\<exists>reason. DecideCDDScoreOverride now ?c overrideID status who why' version =
      (Inl (ErrConflict ''cdd_score_override'' overrideID reason), ?c)" for now status who why' version
    by (auto simp: DecideCDDScoreOverride_def tbl_simps)
  with run left show ?thesis by (auto simp: tbl_simps)
qed

subsection \<open>An EDD window is closed and reopened on the record\<close>

definition edd_event :: "(nat \<Rightarrow> time) \<Rightarrow> request \<Rightarrow> string \<Rightarrow> EDDPolicy option \<Rightarrow> string \<Rightarrow> string \<Rightarrow> Customer \<Rightarrow> CustomerEDDEvent" where
  "edd_event clock q eventID edd action rationale customer =
    \<lparr>ev_ID = eventID, ev_CustomerID = cu_ID customer,
     ev_EventType = (if action = ''complete'' then EDDEventCompleted else EDDEventReopened), ev_Stage = [],
     ev_Rationale = rationale, ev_CaseID = cu_EddCaseID customer, ev_Actor = resolveAuditUserID q,
     ev_PolicyVersion = EDD_Version edd, ev_CreatedAt = clock 0\<rparr>"

lemma edd_update_Inr:
  assumes "(case expected of Some t \<Rightarrow> Customer_UpdateIfUnmodified now c d t | None \<Rightarrow> Customer_Update now c d) = (Inr d', c')"
  shows "d' = d\<lparr>cu_ID := CanonicalUUID (cu_ID d), cu_UpdatedAt := cu_UpdatedAt d'\<rparr> \<and>
    c' = c\<lparr>cs_data := tbl_put (CanonicalUUID (cu_ID d)) d' (cs_data c)\<rparr>"
  using assms
  by (cases expected) (auto simp: Customer_Update_def Customer_UpdateIfUnmodified_def Let_def split: option.splits if_splits)

lemma append_event_Inr:
  assumes "AppendCustomerEDDEvent now gen c (Some e) = (Inr e', c')"
  shows "ev_Actor e' = ev_Actor e \<and> ev_Rationale e' = ev_Rationale e \<and> ev_EventType e' = ev_EventType e \<and>
    c' = c\<lparr>cs_eddEvents := tbl_put (CanonicalIdentifier (ev_CustomerID e))
      (multi_get (cs_eddEvents c) (CanonicalIdentifier (ev_CustomerID e)) @ [e']) (cs_eddEvents c)\<rparr>"
  using assms by (auto simp: AppendCustomerEDDEvent_def Let_def split: if_splits)

lemma edd_action_Inr:
  assumes "edd_action_mutation clock q eventID edd action why expected d r = (Inr c', r')"
  shows "c' = d\<lparr>cu_ID := CanonicalUUID (cu_ID d), cu_UpdatedAt := cu_UpdatedAt c'\<rparr> \<and>
    tbl_get (cs_data (at_customers r')) (CanonicalUUID (cu_ID d)) = Some c' \<and>
    audited r r' [(resolveAuditUserID q, ''edd_'' @ action, CanonicalUUID (cu_ID d))] \<and>
    (\<exists>e. multi_get (cs_eddEvents (at_customers r')) (CanonicalIdentifier (CanonicalUUID (cu_ID d))) =
        multi_get (cs_eddEvents (at_customers r)) (CanonicalIdentifier (CanonicalUUID (cu_ID d))) @ [e] \<and>
      ev_Actor e = resolveAuditUserID q \<and> ev_Rationale e = why \<and>
      ev_EventType e = (if action = ''complete'' then EDDEventCompleted else EDDEventReopened))"
proof -
  let ?k = "CanonicalUUID (cu_ID d)"
  from assms obtain s1 e s2 u where
    1: "on_customers (\<lambda>c. case expected of Some t \<Rightarrow> Customer_UpdateIfUnmodified (clock 1) c d t
      | None \<Rightarrow> Customer_Update (clock 1) c d) r = (Inr c', s1)" and
    2: "on_customers (\<lambda>c. AppendCustomerEDDEvent (clock 2) eventID c
      (Some (edd_event clock q eventID edd action why c'))) s1 = (Inr e, s2)" and
    3: "appendRequiredMutationAudit clock q (''edd_'' @ action) ''customers'' (cu_ID c')
        [(''rationale'', why), (''case_id'', cu_EddCaseID c'), (''policy_version'', EDD_Version edd)] (clock 0) s2 = (Inr u, r')"
    unfolding edd_action_mutation_def andThen_Inr wrap_error_Inr return_Inr edd_event_def by blast
  from 1 edd_update_Inr have c': "c' = d\<lparr>cu_ID := ?k, cu_UpdatedAt := cu_UpdatedAt c'\<rparr>"
    and s1: "s1 = r\<lparr>at_customers := (at_customers r)\<lparr>cs_data := tbl_put ?k c' (cs_data (at_customers r))\<rparr>\<rparr>"
    unfolding on_customers_Inr by blast+
  have id: "cu_ID c' = ?k" by (subst c') simp
  from 2 append_event_Inr have e: "ev_Actor e = resolveAuditUserID q" "ev_Rationale e = why"
      "ev_EventType e = (if action = ''complete'' then EDDEventCompleted else EDDEventReopened)"
    and s2: "s2 = s1\<lparr>at_customers := (at_customers s1)\<lparr>cs_eddEvents := tbl_put (CanonicalIdentifier ?k)
      (multi_get (cs_eddEvents (at_customers s1)) (CanonicalIdentifier ?k) @ [e]) (cs_eddEvents (at_customers s1))\<rparr>\<rparr>"
    unfolding on_customers_Inr by (fastforce simp: edd_event_def id)+
  from append_Inr [OF 3] obtain a where r': "r' = s2\<lparr>at_audit := a\<rparr>"
    and aud: "audited s2 r' [(resolveAuditUserID q, ''edd_'' @ action, ?k)]" by (auto simp: id)
  have "audited r r' [(resolveAuditUserID q, ''edd_'' @ action, ?k)]"
    using aud by (simp add: audited_def s2 s1)
  then show ?thesis using c' e by (auto simp: r' s2 s1 multi_get_def tbl_simps)
qed

text \<open>
  Closing or reopening an EDD window leaves a record. Whenever the handler accepts an action, the
  customer had a window that was open (to complete it) or completed (to reopen it), a reopening has a
  rationale, the stored customer has the window closed or open accordingly, and exactly one event and one
  audit entry that name the caller were appended.
\<close>

theorem edd_action_on_record:
  assumes reach: "customer_step\<^sup>*\<^sup>* NewMemoryCustomerRepo (at_customers r)"
    and reply: "handleCustomerEDDAction clock q eventID edd i action body r = (Reply code c', r')"
  shows "\<exists>req c. body = Some req \<and> tbl_get (cs_data (at_customers r)) (CanonicalUUID i) = Some c \<and>
    cu_EddRequestedAt c \<noteq> None \<and> (action = ''complete'' \<and> cu_EddCompletedAt c = None \<or>
      action = ''reopen'' \<and> cu_EddCompletedAt c \<noteq> None \<and> TrimSpace (ea_Rationale req) \<noteq> []) \<and>
    tbl_get (cs_data (at_customers r')) (CanonicalUUID i) = Some c' \<and>
    cu_EddCompletedAt c' = (if action = ''complete'' then Some (clock 0) else None) \<and>
    cu_EddRequestedAt c' = cu_EddRequestedAt c \<and>
    audited r r' [(resolveAuditUserID q, ''edd_'' @ action, CanonicalUUID i)] \<and>
    (\<exists>e. multi_get (cs_eddEvents (at_customers r')) (CanonicalIdentifier (CanonicalUUID i)) =
        multi_get (cs_eddEvents (at_customers r)) (CanonicalIdentifier (CanonicalUUID i)) @ [e] \<and>
      ev_Actor e = resolveAuditUserID q \<and> ev_Rationale e = TrimSpace (ea_Rationale req) \<and>
      ev_EventType e = (if action = ''complete'' then EDDEventCompleted else EDDEventReopened))"
proof -
  from reply have act: "action = ''complete'' \<or> action = ''reopen''"
    unfolding handleCustomerEDDAction_def by (auto split: if_split_asm)
  with reply obtain c where get: "Customer_Get (at_customers r) i = Inr c"
    by (cases "Customer_Get (at_customers r) i") (auto simp: handleCustomerEDDAction_def writeWave3Error_def split: if_split_asm)
  with reply act obtain req where req: "body = Some req"
    by (cases body) (auto simp: handleCustomerEDDAction_def)
  let ?why = "TrimSpace (ea_Rationale req)"
  let ?run = "RunAtomic (edd_action_mutation clock q eventID edd action ?why (ea_ExpectedUpdatedAt req)
        (edd_action_customer (clock 0) action req c)) r"
  have ite: "(if P then (Refuse a b m, r) else y) = (Reply code c', r') \<longleftrightarrow> \<not> P \<and> y = (Reply code c', r')" for P a b m y
    by simp
  have guard: "cu_EddRequestedAt c \<noteq> None" "\<not> (action = ''complete'' \<and> cu_EddCompletedAt c \<noteq> None)"
      "\<not> (action = ''reopen'' \<and> cu_EddCompletedAt c = None)" "\<not> (?why = [] \<and> action = ''reopen'')"
    and res: "(case ?run of (Inl err, r') \<Rightarrow> (writeAtomicMutationError err, r') | (Inr x, r') \<Rightarrow> (Reply 200 x, r')) = (Reply code c', r')"
    using reply unfolding handleCustomerEDDAction_def req get option.case sum.case Let_def ite by blast+
  from res have run: "?run = (Inr c', r')"
    by (auto simp: writeAtomicMutationError_def split: prod.splits sum.splits if_splits)
  let ?d = "edd_action_customer (clock 0) action req c"
  from get have c: "tbl_get (cs_data (at_customers r)) (CanonicalUUID i) = Some c"
    by (auto simp: Customer_Get_def Let_def split: option.splits)
  with customers_reachable_keyed [OF reach] have id: "CanonicalUUID (cu_ID ?d) = CanonicalUUID i"
    by (auto simp: customers_keyed_def edd_action_customer_def)
  from run have "edd_action_mutation clock q eventID edd action (TrimSpace (ea_Rationale req)) (ea_ExpectedUpdatedAt req) ?d r = (Inr c', r')"
    by (auto simp: RunAtomic_def split: prod.splits sum.splits)
  note recorded = edd_action_Inr [OF this, unfolded id]
  have "cu_EddCompletedAt c' = cu_EddCompletedAt ?d \<and> cu_EddRequestedAt c' = cu_EddRequestedAt ?d"
    by (subst (1 2) conjunct1 [OF recorded]) simp
  then have window: "cu_EddCompletedAt c' = (if action = ''complete'' then Some (clock 0) else None)"
    "cu_EddRequestedAt c' = cu_EddRequestedAt c"
    by (simp_all add: edd_action_customer_def)
  have state: "action = ''complete'' \<and> cu_EddCompletedAt c = None \<or>
      action = ''reopen'' \<and> cu_EddCompletedAt c \<noteq> None \<and> TrimSpace (ea_Rationale req) \<noteq> []"
    using guard(2-4) act by argo
  show ?thesis
    by (intro exI [of _ req] exI [of _ c] conjI)
      (rule req c guard(1) state window recorded [THEN conjunct2, THEN conjunct1]
        recorded [THEN conjunct2, THEN conjunct2, THEN conjunct1] recorded [THEN conjunct2, THEN conjunct2, THEN conjunct2])+
qed

theorem edd_action_on_record_witness:
  "\<exists>c' r'. handleCustomerEDDAction (\<lambda>n. 9000) sample_request ''e1'' None ''c1'' ''complete''
      (Some \<lparr>ea_Rationale = ''visit'', ea_CaseID = [], ea_ExpectedUpdatedAt = None\<rparr>)
      (sample_store\<lparr>at_customers := snd (Customer_Create NewMemoryCustomerRepo (sample_customer\<lparr>cu_EddRequestedAt := Some 1\<rparr>))\<rparr>)
      = (Reply 200 c', r') \<and> cu_EddCompletedAt c' = Some 9000"
proof -
  let ?s = "sample_store\<lparr>at_customers := snd (Customer_Create NewMemoryCustomerRepo (sample_customer\<lparr>cu_EddRequestedAt := Some 1\<rparr>))\<rparr>"
  let ?run = "handleCustomerEDDAction (\<lambda>n. 9000) sample_request ''e1'' None ''c1'' ''complete''
      (Some \<lparr>ea_Rationale = ''visit'', ea_CaseID = [], ea_ExpectedUpdatedAt = None\<rparr>) ?s"
  have "(case fst ?run of Reply code d \<Rightarrow> code = 200 | _ \<Rightarrow> False) = True" by code_simp
  then obtain c' r' where run: "?run = (Reply 200 c', r')"
    by (cases ?run; cases "fst ?run") auto
  have "customer_step\<^sup>*\<^sup>* NewMemoryCustomerRepo (at_customers ?s)"
    by (simp, rule r_into_rtranclp, rule customer_step.create) (simp add: NewMemoryCustomerRepo_def)
  from edd_action_on_record [OF this run] run show ?thesis by auto
qed

end
