(* ===== verification/Whitelist.thy ===== *)
theory Whitelist
  imports Alert_Store Customers Encoding Requests
begin

text \<open>
  The whitelist: entries that suppress the alerts of a customer, granted by a request, an approval and periodic
  reviews (\<^verbatim>\<open>domain/whitelist.go\<close>, \<^verbatim>\<open>store/whitelist.go\<close>, \<^verbatim>\<open>server/whitelist.go\<close>), the daily expiry job
  (\<^verbatim>\<open>batch/whitelist_expiry.go\<close>) and the suppression of alerts (\<^verbatim>\<open>server/alert_suppression.go\<close>). A handler reads an
  entry and writes it back under the version it read; what other requests do in between is a
  parameter of the handler, and in histories a handler may have read at any earlier moment.
\<close>

subsection \<open>Data\<close>

datatype WhitelistEntryStatus =
  WhitelistEntryStatusPendingApproval | WhitelistEntryStatusActive | WhitelistEntryStatusExpired
| WhitelistEntryStatusRevoked | WhitelistEntryStatusOther string

fun WhitelistEntryStatus_string :: "WhitelistEntryStatus \<Rightarrow> string" where
  "WhitelistEntryStatus_string WhitelistEntryStatusPendingApproval = ''pending_approval''"
| "WhitelistEntryStatus_string WhitelistEntryStatusActive = ''active''"
| "WhitelistEntryStatus_string WhitelistEntryStatusExpired = ''expired''"
| "WhitelistEntryStatus_string WhitelistEntryStatusRevoked = ''revoked''"
| "WhitelistEntryStatus_string (WhitelistEntryStatusOther s) = s"

datatype WhitelistReviewDecision =
  WhitelistReviewDecisionRenewed | WhitelistReviewDecisionRevoked | WhitelistReviewDecisionOther string

record WhitelistEntry =
  we_ID :: string
  we_CustomerID :: string
  we_Status :: WhitelistEntryStatus
  we_Reason :: string
  we_ExcludedRuleIDs :: "string list"
  we_ValidFrom :: time
  we_ValidUntil :: time
  we_RequestedBy :: string
  we_ApprovedBy :: "string option"
  we_ApprovedAt :: "time option"
  we_RevokedBy :: "string option"
  we_RevokedAt :: "time option"
  we_Version :: int
  we_CreatedAt :: time
  we_UpdatedAt :: time

record WhitelistReview =
  wr_ID :: string
  wr_WhitelistEntryID :: string
  wr_ReviewedBy :: string
  wr_Decision :: WhitelistReviewDecision
  wr_ReviewNotes :: string
  wr_NextReviewDate :: "time option"
  wr_CreatedAt :: time

record MemoryWhitelistRepo =
  wl_entries :: "WhitelistEntry tbl"
  wl_reviews :: "WhitelistReview list tbl"

definition NewMemoryWhitelistRepo :: MemoryWhitelistRepo where
  "NewMemoryWhitelistRepo = \<lparr>wl_entries = [], wl_reviews = []\<rparr>"

subsection \<open>The repository\<close>

definition Whitelist_Get :: "MemoryWhitelistRepo \<Rightarrow> string \<Rightarrow> WhitelistEntry result" where
  "Whitelist_Get r i =
    (case tbl_get (wl_entries r) i of None \<Rightarrow> Inl (ErrNotFound ''whitelist_entry'' i) | Some e \<Rightarrow> Inr e)"

definition active_for :: "string \<Rightarrow> WhitelistEntry \<Rightarrow> bool" where
  "active_for customerID e \<longleftrightarrow> SameIdentifier (we_CustomerID e) customerID \<and> we_Status e = WhitelistEntryStatusActive"

definition GetActiveByCustomer :: "MemoryWhitelistRepo \<Rightarrow> string \<Rightarrow> WhitelistEntry result" where
  "GetActiveByCustomer r customerID =
    (case find (active_for customerID) (tbl_vals (wl_entries r)) of
       None \<Rightarrow> Inl (ErrNotFound ''whitelist_entry'' customerID) | Some e \<Rightarrow> Inr e)"

definition Whitelist_List :: "MemoryWhitelistRepo \<Rightarrow> WhitelistEntryStatus option \<Rightarrow> int \<Rightarrow> int \<Rightarrow> WhitelistEntry list option" where
  "Whitelist_List r status limit offset =
    pageByOffset (sortByCreatedAtDesc
      (filter (\<lambda>e. case status of None \<Rightarrow> True | Some s \<Rightarrow> we_Status e = s) (tbl_vals (wl_entries r))) we_CreatedAt we_ID) limit offset"

definition ListExpiringSoon :: "time \<Rightarrow> MemoryWhitelistRepo \<Rightarrow> int \<Rightarrow> WhitelistEntry list" where
  "ListExpiringSoon now r withinDays =
    (let threshold = now + int64 (withinDays * 24 * Hour) in
     sortByCreatedAtDesc
       (filter (\<lambda>e. we_Status e = WhitelistEntryStatusActive \<and> we_ValidUntil e < threshold) (tbl_vals (wl_entries r)))
       we_CreatedAt we_ID)"

definition activeConflict :: "MemoryWhitelistRepo \<Rightarrow> string \<Rightarrow> string \<Rightarrow> bool" where
  "activeConflict r customerID excludeID \<longleftrightarrow>
     list_ex (\<lambda>e. we_ID e \<noteq> excludeID \<and> active_for customerID e) (tbl_vals (wl_entries r))"

definition active_exists :: "string \<Rightarrow> go_error" where
  "active_exists i = ErrConflict ''whitelist_entry'' i ''an active entry already exists for this customer''"

text \<open>The caller's entry is updated in place: the result of a success.\<close>

definition Whitelist_Create ::
  "MemoryWhitelistRepo \<Rightarrow> WhitelistEntry \<Rightarrow> WhitelistEntry result \<times> MemoryWhitelistRepo" where
  "Whitelist_Create r e =
    (if we_Status e = WhitelistEntryStatusActive \<and> activeConflict r (we_CustomerID e) (we_ID e)
     then (Inl (active_exists (we_ID e)), r)
     else let e = (if we_Version e = 0 then e\<lparr>we_Version := 1\<rparr> else e)
          in (Inr e, r\<lparr>wl_entries := tbl_put (we_ID e) e (wl_entries r)\<rparr>))"

definition UpdateWithVersion ::
  "time \<Rightarrow> MemoryWhitelistRepo \<Rightarrow> WhitelistEntry \<Rightarrow> int \<Rightarrow> WhitelistEntry result \<times> MemoryWhitelistRepo" where
  "UpdateWithVersion now r e expectedVersion =
    (case tbl_get (wl_entries r) (we_ID e) of
       None \<Rightarrow> (Inl (ErrNotFound ''whitelist_entry'' (we_ID e)), r)
     | Some existing \<Rightarrow>
         if we_Version existing \<noteq> expectedVersion
         then (Inl (ErrConflict ''whitelist_entry'' (we_ID e) ''version mismatch''), r)
         else if we_Status e = WhitelistEntryStatusActive \<and> activeConflict r (we_CustomerID e) (we_ID e)
         then (Inl (active_exists (we_ID e)), r)
         else let e = e\<lparr>we_Version := expectedVersion + 1, we_UpdatedAt := now\<rparr>
              in (Inr e, r\<lparr>wl_entries := tbl_put (we_ID e) e (wl_entries r)\<rparr>))"

definition add_review :: "WhitelistReview \<Rightarrow> MemoryWhitelistRepo \<Rightarrow> MemoryWhitelistRepo" where
  "add_review review r =
    r\<lparr>wl_reviews := tbl_put (wr_WhitelistEntryID review) (multi_get (wl_reviews r) (wr_WhitelistEntryID review) @ [review]) (wl_reviews r)\<rparr>"

definition CreateReview :: "MemoryWhitelistRepo \<Rightarrow> WhitelistReview \<Rightarrow> unit result \<times> MemoryWhitelistRepo" where
  "CreateReview r review = (Inr (), add_review review r)"

definition ListReviews :: "MemoryWhitelistRepo \<Rightarrow> string \<Rightarrow> WhitelistReview list" where
  "ListReviews r entryID = multi_get (wl_reviews r) entryID"

definition CreateReviewAndApply ::
  "time \<Rightarrow> MemoryWhitelistRepo \<Rightarrow> WhitelistReview \<Rightarrow> WhitelistEntry \<Rightarrow> int \<Rightarrow> unit result \<times> MemoryWhitelistRepo" where
  "CreateReviewAndApply now r review entry expectedVersion =
    (case tbl_get (wl_entries r) (we_ID entry) of
       None \<Rightarrow> (Inl (ErrNotFound ''whitelist_entry'' (we_ID entry)), r)
     | Some existing \<Rightarrow>
         if we_Version existing \<noteq> expectedVersion
         then (Inl (ErrConflict ''whitelist_entry'' (we_ID entry) ''version mismatch''), r)
         else let entry = entry\<lparr>we_Version := expectedVersion + 1, we_UpdatedAt := now\<rparr>
              in (Inr (), add_review review (r\<lparr>wl_entries := tbl_put (we_ID entry) entry (wl_entries r)\<rparr>)))"

subsection \<open>Handlers\<close>

definition defaultWhitelistMaxValidDays :: int where "defaultWhitelistMaxValidDays = 365"

definition whitelistMaxValidDays :: "int \<Rightarrow> int" where
  "whitelistMaxValidDays configured = (if configured > 0 then configured else defaultWhitelistMaxValidDays)"

record createWhitelistEntryRequest =
  cw_CustomerID :: string
  cw_Reason :: string
  cw_ValidUntil :: string
  cw_ExcludedRuleIDs :: "string list"

text \<open>
  \<open>genID\<close> is the generated identifier, \<open>configured\<close> the configured number of days; the body has been
  decoded. \<open>valid_period\<close> is the check both handlers make of a new expiry time.
\<close>

definition valid_period :: "string \<Rightarrow> int \<Rightarrow> time \<Rightarrow> time \<Rightarrow> (int \<times> string \<times> string) option" where
  "valid_period field maxValidDays now validUntil =
    (if \<not> validUntil > now then Some (400, ''validation_failed'', field @ '' must be in the future'')
     else if validUntil > now + int64 (maxValidDays * 24 * Hour)
     then Some (400, ''validation_failed'', field @ '' must be within '' @ int_string maxValidDays @ '' days'')
     else None)"

definition handleCreateWhitelistEntry ::
  "time \<Rightarrow> request \<Rightarrow> string \<Rightarrow> int \<Rightarrow> MemoryCustomerRepo \<Rightarrow> createWhitelistEntryRequest \<Rightarrow> MemoryWhitelistRepo \<Rightarrow>
   WhitelistEntry response \<times> MemoryWhitelistRepo" where
  "handleCreateWhitelistEntry now q genID configured customers req r =
    (if cw_CustomerID req = [] then (Refuse 400 ''validation_failed'' ''customer_id is required'', r)
     else if cw_Reason req = [] then (Refuse 400 ''validation_failed'' ''reason is required'', r)
     else if cw_ValidUntil req = [] then (Refuse 400 ''validation_failed'' ''valid_until is required'', r)
     else (case parse_time (cw_ValidUntil req) of
       None \<Rightarrow> (Refuse 400 ''validation_failed'' ''valid_until must be an RFC3339 timestamp'', r)
     | Some validUntil \<Rightarrow>
         (case valid_period ''valid_until'' (whitelistMaxValidDays configured) now validUntil of
            Some (status, code, message) \<Rightarrow> (Refuse status code message, r)
          | None \<Rightarrow>
              (case Customer_Get customers (cw_CustomerID req) of
                 Inl err \<Rightarrow>
                   (if as_not_found err then Refuse 404 ''not_found'' ''customer not found''
                    else Refuse 500 ''internal_error'' (Error err), r)
               | Inr _ \<Rightarrow>
                   (case Whitelist_Create r
                      \<lparr>we_ID = genID, we_CustomerID = cw_CustomerID req, we_Status = WhitelistEntryStatusPendingApproval,
                       we_Reason = cw_Reason req, we_ExcludedRuleIDs = cw_ExcludedRuleIDs req, we_ValidFrom = now,
                       we_ValidUntil = validUntil, we_RequestedBy = resolveAuditUserID q, we_ApprovedBy = None,
                       we_ApprovedAt = None, we_RevokedBy = None, we_RevokedAt = None, we_Version = 0,
                       we_CreatedAt = now, we_UpdatedAt = now\<rparr> of
                      (Inl err, r') \<Rightarrow> (Refuse 500 ''internal_error'' (Error err), r')
                    | (Inr e, r') \<Rightarrow> (Reply 201 e, r'))))))"

definition writeWhitelistUpdateError :: "go_error \<Rightarrow> 'a response" where
  "writeWhitelistUpdateError err =
    (if as_conflict err then Refuse 409 ''conflict'' (Error (innermost err))
     else if as_not_found err then Refuse 404 ''not_found'' (Error (innermost err))
     else Refuse 500 ''internal_error'' (Error err))"

definition whitelist_get_error :: "go_error \<Rightarrow> 'a response" where
  "whitelist_get_error err =
    (if as_not_found err then Refuse 404 ''not_found'' (Error (innermost err)) else Refuse 500 ''internal_error'' (Error err))"

text \<open>
  The second half of each handler works on the entry \<open>e\<close> that the first half has read; the clock is read
  again by the repository (\<open>now'\<close>).
\<close>

definition approve_entry ::
  "time \<Rightarrow> time \<Rightarrow> request \<Rightarrow> WhitelistEntry \<Rightarrow> MemoryWhitelistRepo \<Rightarrow> WhitelistEntry response \<times> MemoryWhitelistRepo" where
  "approve_entry now now' q e r =
    (if we_Status e \<noteq> WhitelistEntryStatusPendingApproval
     then (Refuse 409 ''conflict'' ''whitelist entry is not pending approval'', r)
     else if resolveAuditUserID q = we_RequestedBy e
     then (Refuse 403 ''forbidden'' ''requester cannot approve their own whitelist entry'', r)
     else (case UpdateWithVersion now' r (e\<lparr>we_Status := WhitelistEntryStatusActive,
               we_ApprovedBy := Some (resolveAuditUserID q), we_ApprovedAt := Some now\<rparr>) (we_Version e) of
         (Inl err, r') \<Rightarrow> (writeWhitelistUpdateError err, r')
       | (Inr e', r') \<Rightarrow> (Reply 200 e', r')))"

definition handleApproveWhitelistEntry ::
  "time \<Rightarrow> time \<Rightarrow> request \<Rightarrow> (MemoryWhitelistRepo \<Rightarrow> MemoryWhitelistRepo) \<Rightarrow> string \<Rightarrow> MemoryWhitelistRepo \<Rightarrow>
   WhitelistEntry response \<times> MemoryWhitelistRepo" where
  "handleApproveWhitelistEntry now now' q others i r =
    (case Whitelist_Get r i of
       Inl err \<Rightarrow> (whitelist_get_error err, r)
     | Inr e \<Rightarrow> approve_entry now now' q e (others r))"

definition revoke_entry ::
  "time \<Rightarrow> time \<Rightarrow> request \<Rightarrow> WhitelistEntry \<Rightarrow> MemoryWhitelistRepo \<Rightarrow> WhitelistEntry response \<times> MemoryWhitelistRepo" where
  "revoke_entry now now' q e r =
    (if we_Status e \<noteq> WhitelistEntryStatusPendingApproval \<and> we_Status e \<noteq> WhitelistEntryStatusActive
     then (Refuse 409 ''conflict'' (''whitelist entry cannot be revoked from status '' @ WhitelistEntryStatus_string (we_Status e)), r)
     else (case UpdateWithVersion now' r (e\<lparr>we_Status := WhitelistEntryStatusRevoked,
               we_RevokedBy := Some (resolveAuditUserID q), we_RevokedAt := Some now\<rparr>) (we_Version e) of
         (Inl err, r') \<Rightarrow> (writeWhitelistUpdateError err, r')
       | (Inr e', r') \<Rightarrow> (Reply 200 e', r')))"

definition handleRevokeWhitelistEntry ::
  "time \<Rightarrow> time \<Rightarrow> request \<Rightarrow> (MemoryWhitelistRepo \<Rightarrow> MemoryWhitelistRepo) \<Rightarrow> string \<Rightarrow> MemoryWhitelistRepo \<Rightarrow>
   WhitelistEntry response \<times> MemoryWhitelistRepo" where
  "handleRevokeWhitelistEntry now now' q others i r =
    (case Whitelist_Get r i of
       Inl err \<Rightarrow> (whitelist_get_error err, r)
     | Inr e \<Rightarrow> revoke_entry now now' q e (others r))"

record createWhitelistReviewRequest =
  cr_Decision :: WhitelistReviewDecision
  cr_ReviewNotes :: string
  cr_NextReviewDate :: string
  cr_NewValidUntil :: string

text \<open>\<^verbatim>\<open>time.Parse(time.DateOnly, s)\<close>.\<close>

definition parse_date :: "string \<Rightarrow> time option" where
  "parse_date s = do {
     (y, s) \<leftarrow> fixed_digits 4 s;
     s \<leftarrow> literal (CHR ''-'') s;
     (m, s) \<leftarrow> fixed_digits 2 s;
     s \<leftarrow> literal (CHR ''-'') s;
     (d, s) \<leftarrow> fixed_digits 2 s;
     if s \<noteq> [] \<or> m < 1 \<or> 12 < m \<or> d < 1 \<or> d > days_in_month y m then None else Some (days_of_date y m d * Day)
   }"

text \<open>The decision of a review: the entry and the date of the next review, or the refusal.\<close>

definition review_decision ::
  "time \<Rightarrow> int \<Rightarrow> createWhitelistReviewRequest \<Rightarrow> WhitelistEntry \<Rightarrow> (int \<times> string \<times> string) + (WhitelistEntry \<times> time option)" where
  "review_decision now configured req e =
    (case cr_Decision req of
       WhitelistReviewDecisionRenewed \<Rightarrow>
         if cr_NewValidUntil req = []
         then Inl (400, ''validation_failed'', ''new_valid_until is required when decision is renewed'')
         else (case parse_time (cr_NewValidUntil req) of
           None \<Rightarrow> Inl (400, ''validation_failed'', ''new_valid_until must be an RFC3339 timestamp'')
         | Some newValidUntil \<Rightarrow>
             (case valid_period ''new_valid_until'' (whitelistMaxValidDays configured) now newValidUntil of
                Some refusal \<Rightarrow> Inl refusal
              | None \<Rightarrow>
                  if cr_NextReviewDate req = [] then Inr (e\<lparr>we_ValidUntil := newValidUntil\<rparr>, None)
                  else (case parse_date (cr_NextReviewDate req) of
                    None \<Rightarrow> Inl (400, ''validation_failed'', ''next_review_date must be a YYYY-MM-DD date'')
                  | Some d \<Rightarrow> Inr (e\<lparr>we_ValidUntil := newValidUntil\<rparr>, Some d))))
     | WhitelistReviewDecisionRevoked \<Rightarrow> Inr (e\<lparr>we_Status := WhitelistEntryStatusExpired\<rparr>, None)
     | _ \<Rightarrow> Inl (400, ''validation_failed'', ''decision must be \"renewed\" or \"revoked\"''))"

definition review_entry ::
  "time \<Rightarrow> time \<Rightarrow> request \<Rightarrow> string \<Rightarrow> int \<Rightarrow> createWhitelistReviewRequest \<Rightarrow> WhitelistEntry \<Rightarrow> MemoryWhitelistRepo \<Rightarrow>
   WhitelistReview response \<times> MemoryWhitelistRepo" where
  "review_entry now now' q genID configured req e r =
    (if we_Status e \<noteq> WhitelistEntryStatusActive then (Refuse 409 ''conflict'' ''whitelist entry is not active'', r)
     else (case review_decision now configured req e of
       Inl (status, code, message) \<Rightarrow> (Refuse status code message, r)
     | Inr (e', nextReview) \<Rightarrow>
         let review = \<lparr>wr_ID = genID, wr_WhitelistEntryID = we_ID e, wr_ReviewedBy = resolveAuditUserID q,
               wr_Decision = cr_Decision req, wr_ReviewNotes = cr_ReviewNotes req, wr_NextReviewDate = nextReview,
               wr_CreatedAt = now\<rparr>
         in (case CreateReviewAndApply now' r review e' (we_Version e') of
               (Inl err, r') \<Rightarrow> (writeWhitelistUpdateError err, r')
             | (Inr _, r') \<Rightarrow> (Reply 201 review, r'))))"

definition handleCreateWhitelistReview ::
  "time \<Rightarrow> time \<Rightarrow> request \<Rightarrow> string \<Rightarrow> int \<Rightarrow> (MemoryWhitelistRepo \<Rightarrow> MemoryWhitelistRepo) \<Rightarrow> string \<Rightarrow>
   createWhitelistReviewRequest \<Rightarrow> MemoryWhitelistRepo \<Rightarrow> WhitelistReview response \<times> MemoryWhitelistRepo" where
  "handleCreateWhitelistReview now now' q genID configured others i req r =
    (case Whitelist_Get r i of
       Inl err \<Rightarrow> (whitelist_get_error err, r)
     | Inr e \<Rightarrow> review_entry now now' q genID configured req e (others r))"

subsection \<open>Expiry and suppression\<close>

definition expiringSoonWindowDays :: int where "expiringSoonWindowDays = 30"

record ExpiryJobResult =
  ej_Expired :: int
  ej_ExpiringSoon :: int

text \<open>The loop over the overdue entries; \<open>Some err\<close> is an error that is not a conflict, which ends the job.\<close>

fun expire_all ::
  "(nat \<Rightarrow> time) \<Rightarrow> WhitelistEntry list \<Rightarrow> int \<Rightarrow> MemoryWhitelistRepo \<Rightarrow> int \<times> go_error option \<times> MemoryWhitelistRepo" where
  "expire_all clock [] expired r = (expired, None, r)"
| "expire_all clock (e # es) expired r =
    (case UpdateWithVersion (clock 0) r (e\<lparr>we_Status := WhitelistEntryStatusExpired\<rparr>) (we_Version e) of
       (Inr _, r') \<Rightarrow> expire_all (\<lambda>n. clock (Suc n)) es (expired + 1) r'
     | (Inl err, r') \<Rightarrow>
         if as_conflict err then expire_all (\<lambda>n. clock (Suc n)) es expired r' else (expired, Some err, r'))"

text \<open>The queries run at \<open>now\<close> and \<open>later\<close>; the entries of the result are those the job notifies about.\<close>

definition RunWhitelistExpiryJob ::
  "time \<Rightarrow> (nat \<Rightarrow> time) \<Rightarrow> time \<Rightarrow> MemoryWhitelistRepo \<Rightarrow>
   (ExpiryJobResult \<times> go_error option \<times> WhitelistEntry list) \<times> MemoryWhitelistRepo" where
  "RunWhitelistExpiryJob now clock later r =
    (case expire_all clock (ListExpiringSoon now r 0) 0 r of
       (expired, Some err, r') \<Rightarrow> ((\<lparr>ej_Expired = expired, ej_ExpiringSoon = 0\<rparr>, Some err, []), r')
     | (expired, None, r') \<Rightarrow>
         let soon = ListExpiringSoon later r' expiringSoonWindowDays
         in ((\<lparr>ej_Expired = expired, ej_ExpiringSoon = int (length soon)\<rparr>, None, soon), r'))"

text \<open>\<open>None\<close> is a server without a whitelist.\<close>

definition applyWhitelistSuppression :: "time \<Rightarrow> MemoryWhitelistRepo option \<Rightarrow> Alert \<Rightarrow> Alert result" where
  "applyWhitelistSuppression now whitelist alert =
    (case whitelist of
       None \<Rightarrow> Inr alert
     | Some r \<Rightarrow>
         (case GetActiveByCustomer r (al_CustomerID alert) of
            Inl err \<Rightarrow> if as_not_found err then Inr alert else Inl err
          | Inr e \<Rightarrow>
              if we_ValidUntil e < now then Inr alert
              else if we_ExcludedRuleIDs e \<noteq> [] \<and> al_ScenarioID alert \<notin> set (we_ExcludedRuleIDs e) then Inr alert
              else Inr (alert\<lparr>al_Suppressed := True, al_SuppressionReason := ''whitelist:'' @ we_ID e,
                     al_Status := AlertStatusSuppressed\<rparr>)))"

subsection \<open>Histories\<close>

text \<open>
  A state is the repository together with every entry that was ever stored, which is what the handlers
  that are under way may have read. Each step is the write of one request or of the expiry
  job; identifiers of new entries are generated, hence new.
\<close>

type_synonym wl_state = "MemoryWhitelistRepo \<times> WhitelistEntry set"

definition seen_with :: "wl_state \<Rightarrow> MemoryWhitelistRepo \<Rightarrow> wl_state" where
  "seen_with s r = (r, snd s \<union> set (tbl_vals (wl_entries r)))"

inductive wl_step :: "wl_state \<Rightarrow> wl_state \<Rightarrow> bool" where
  request: "tbl_get (wl_entries (fst s)) genID = None \<Longrightarrow> genID \<notin> we_ID ` snd s \<Longrightarrow>
    wl_step s (seen_with s (snd (handleCreateWhitelistEntry now q genID configured customers req (fst s))))"
| approve: "e \<in> snd s \<Longrightarrow> wl_step s (seen_with s (snd (approve_entry now now' q e (fst s))))"
| revoke: "e \<in> snd s \<Longrightarrow> wl_step s (seen_with s (snd (revoke_entry now now' q e (fst s))))"
| review: "e \<in> snd s \<Longrightarrow> wl_step s (seen_with s (snd (review_entry now now' q genID configured req e (fst s))))"
| expire: "e \<in> snd s \<Longrightarrow> we_Status e = WhitelistEntryStatusActive \<Longrightarrow>
    wl_step s (seen_with s (snd (UpdateWithVersion now (fst s) (e\<lparr>we_Status := WhitelistEntryStatusExpired\<rparr>) (we_Version e))))"

text \<open>An entry that was approved by somebody other than the one who asked for it.\<close>

definition granted :: "WhitelistEntry \<Rightarrow> bool" where
  "granted e \<longleftrightarrow> we_Status e = WhitelistEntryStatusActive \<longrightarrow>
     (\<exists>who. we_ApprovedBy e = Some who \<and> who \<noteq> we_RequestedBy e)"

definition wl_ok :: "wl_state \<Rightarrow> bool" where
  "wl_ok s \<longleftrightarrow> tbl_wf (wl_entries (fst s)) \<and>
     (\<forall>k e. tbl_get (wl_entries (fst s)) k = Some e \<longrightarrow> we_ID e = k \<and> e \<in> snd s) \<and>
     (\<forall>h e. h \<in> snd s \<longrightarrow> tbl_get (wl_entries (fst s)) (we_ID h) = Some e \<longrightarrow>
        we_Version h \<le> we_Version e \<and> (we_Version h = we_Version e \<longrightarrow> h = e)) \<and>
     (\<forall>k e. tbl_get (wl_entries (fst s)) k = Some e \<longrightarrow> granted e) \<and>
     (\<forall>k k' e e'. tbl_get (wl_entries (fst s)) k = Some e \<longrightarrow> tbl_get (wl_entries (fst s)) k' = Some e' \<longrightarrow>
        active_for (we_CustomerID e) e \<longrightarrow> active_for (we_CustomerID e) e' \<longrightarrow> k = k')"

lemma wl_okD:
  assumes "wl_ok s"
  shows "tbl_wf (wl_entries (fst s))"
    and "tbl_get (wl_entries (fst s)) k = Some e \<Longrightarrow> we_ID e = k"
    and "tbl_get (wl_entries (fst s)) k = Some e \<Longrightarrow> e \<in> snd s"
    and "tbl_get (wl_entries (fst s)) k = Some e \<Longrightarrow> granted e"
    and "h \<in> snd s \<Longrightarrow> tbl_get (wl_entries (fst s)) (we_ID h) = Some e \<Longrightarrow> we_Version h \<le> we_Version e"
    and "h \<in> snd s \<Longrightarrow> tbl_get (wl_entries (fst s)) (we_ID h) = Some e \<Longrightarrow> we_Version e = we_Version h \<Longrightarrow> e = h"
    and "tbl_get (wl_entries (fst s)) k = Some e \<Longrightarrow> tbl_get (wl_entries (fst s)) k' = Some e' \<Longrightarrow>
        active_for (we_CustomerID e) e \<Longrightarrow> active_for (we_CustomerID e) e' \<Longrightarrow> k = k'"
proof -
  let ?t = "wl_entries (fst s)"
  note d = assms [unfolded wl_ok_def]
  note wf = d [THEN conjunct1] and keyed = d [THEN conjunct2, THEN conjunct1]
    and ver = d [THEN conjunct2, THEN conjunct2, THEN conjunct1]
    and gr = d [THEN conjunct2, THEN conjunct2, THEN conjunct2, THEN conjunct1]
    and one = d [THEN conjunct2, THEN conjunct2, THEN conjunct2, THEN conjunct2]
  show "tbl_wf ?t" by (rule wf)
  show "we_ID e = k" "e \<in> snd s" if "tbl_get ?t k = Some e" using keyed that by blast+
  show "granted e" if "tbl_get ?t k = Some e" using gr that by blast
  show "we_Version h \<le> we_Version e" if "h \<in> snd s" "tbl_get ?t (we_ID h) = Some e" using ver that by blast
  show "e = h" if "h \<in> snd s" "tbl_get ?t (we_ID h) = Some e" "we_Version e = we_Version h"
    using ver [rule_format, OF that(1,2)] that(3) by simp
  show "k = k'" if "tbl_get ?t k = Some e" "tbl_get ?t k' = Some e'"
      "active_for (we_CustomerID e) e" "active_for (we_CustomerID e) e'"
    by (rule one [rule_format, OF that])
qed

lemma wl_ok_same: "wl_ok s \<Longrightarrow> wl_entries r = wl_entries (fst s) \<Longrightarrow> wl_ok (seen_with s r)"
proof -
  assume ok: "wl_ok s" and same: "wl_entries r = wl_entries (fst s)"
  have "set (tbl_vals (wl_entries r)) \<subseteq> snd s"
    unfolding same subset_iff tbl_vals_iff [OF wl_okD(1) [OF ok]] using wl_okD(3) [OF ok] by blast
  then have eq: "seen_with s r = (r, snd s)" unfolding seen_with_def by blast
  show ?thesis using ok unfolding eq wl_ok_def fst_conv snd_conv same .
qed

lemma activeConflict_iff:
  assumes ok: "wl_ok s"
  shows "activeConflict (fst s) c i \<longleftrightarrow> (\<exists>k e. tbl_get (wl_entries (fst s)) k = Some e \<and> k \<noteq> i \<and> active_for c e)"
  unfolding activeConflict_def list_ex_iff Bex_def tbl_vals_iff [OF wl_okD(1) [OF ok]]
  using wl_okD(2) [OF ok] by blast

lemma active_for_sym: "SameIdentifier c c' \<Longrightarrow> active_for c e \<longleftrightarrow> active_for c' e"
  by (auto simp: active_for_def SameIdentifier_def)

text \<open>
  Every step either leaves the entries alone or puts one entry: a new one that is not active, or a
  new version of the stored entry that the request had read.
\<close>

lemma wl_ok_put:
  assumes ok: "wl_ok s" and put: "wl_entries r = tbl_put (we_ID e') e' (wl_entries (fst s))"
    and newer: "\<And>h. h \<in> snd s \<Longrightarrow> we_ID h = we_ID e' \<Longrightarrow> we_Version h < we_Version e'"
    and grant: "granted e'"
    and alone: "we_Status e' = WhitelistEntryStatusActive \<Longrightarrow>
      \<not> (\<exists>k e. tbl_get (wl_entries (fst s)) k = Some e \<and> k \<noteq> we_ID e' \<and> active_for (we_CustomerID e') e)"
  shows "wl_ok (seen_with s r)"
proof -
  let ?t = "wl_entries (fst s)"
  let ?H = "snd s \<union> set (tbl_vals (wl_entries r))"
  have wf: "tbl_wf (wl_entries r)" using wl_okD(1) [OF ok] by (simp add: put)
  have get: "tbl_get (wl_entries r) k = (if k = we_ID e' then Some e' else tbl_get ?t k)" for k
    by (simp add: put tbl_simps)
  have H: "h \<in> ?H \<longleftrightarrow> h \<in> snd s \<or> h = e'" for h
    unfolding Un_iff tbl_vals_iff [OF wf] get using wl_okD(3) [OF ok] by (metis option.inject)
  have keyed: "we_ID e = k \<and> e \<in> ?H" if "tbl_get (wl_entries r) k = Some e" for k e
    using that wl_okD(2,3) [OF ok] unfolding H by (auto simp: get split: if_splits)
  have versions: "we_Version h \<le> we_Version e \<and> (we_Version h = we_Version e \<longrightarrow> h = e)"
    if h: "h \<in> ?H" and e: "tbl_get (wl_entries r) (we_ID h) = Some e" for h e
  proof (cases "we_ID h = we_ID e'")
    case True
    with e have "e = e'" by (simp add: get)
    with h newer True show ?thesis unfolding H by fastforce
  next
    case False
    with h e have "h \<in> snd s" "tbl_get ?t (we_ID h) = Some e" unfolding H by (auto simp: get)
    with wl_okD(5,6) [OF ok] show ?thesis by metis
  qed
  have one: "k = k'" if "tbl_get (wl_entries r) k = Some e" "tbl_get (wl_entries r) k' = Some f"
      "active_for (we_CustomerID e) e" "active_for (we_CustomerID e) f" for k k' e f
  proof -
    have sym: "active_for (we_CustomerID f) e" "active_for (we_CustomerID f) f"
      using that(3,4) by (auto simp: active_for_def SameIdentifier_def)
    consider "k = we_ID e'" "k' = we_ID e'" | "k = we_ID e'" "k' \<noteq> we_ID e'" | "k \<noteq> we_ID e'" "k' = we_ID e'"
      | "k \<noteq> we_ID e'" "k' \<noteq> we_ID e'" by blast
    then show ?thesis
    proof cases
      case 2
      with that have "e = e'" "tbl_get ?t k' = Some f" by (auto simp: get)
      with that 2 alone show ?thesis by (auto simp: active_for_def)
    next
      case 3
      with that have "f = e'" "tbl_get ?t k = Some e" by (auto simp: get)
      with sym 3 alone show ?thesis by (auto simp: active_for_def)
    next
      case 4
      with that wl_okD(7) [OF ok] show ?thesis by (simp add: get)
    qed simp
  qed
  have granted: "granted e" if "tbl_get (wl_entries r) k = Some e" for k e
    using that grant wl_okD(4) [OF ok] by (auto simp: get split: if_splits)
  show ?thesis
    unfolding wl_ok_def seen_with_def fst_conv snd_conv using wf keyed versions one granted by blast
qed

text \<open>A version check that succeeds proves that the entry read is still the one stored.\<close>

lemma wl_ok_update:
  assumes ok: "wl_ok s" and e: "e \<in> snd s" and cur: "tbl_get (wl_entries (fst s)) (we_ID e) = Some existing"
    and ver: "we_Version existing = we_Version e"
    and r: "wl_entries r = tbl_put (we_ID e') e' (wl_entries (fst s))"
    and e': "we_ID e' = we_ID e" "we_CustomerID e' = we_CustomerID e" "we_Version e' = we_Version e + 1"
    and grant: "granted e \<Longrightarrow> granted e'"
    and active: "we_Status e' = WhitelistEntryStatusActive \<Longrightarrow>
      we_Status e = WhitelistEntryStatusActive \<or> \<not> activeConflict (fst s) (we_CustomerID e) (we_ID e)"
  shows "wl_ok (seen_with s r)"
proof (rule wl_ok_put [OF ok r])
  have same: "existing = e" by (rule wl_okD(6) [OF ok e cur ver])
  show "granted e'" using grant wl_okD(4) [OF ok cur] same by simp
  show "we_Version h < we_Version e'" if "h \<in> snd s" "we_ID h = we_ID e'" for h
    using wl_okD(5) [OF ok that(1)] that(2) cur e' ver by simp
  show "\<not> (\<exists>k f. tbl_get (wl_entries (fst s)) k = Some f \<and> k \<noteq> we_ID e' \<and> active_for (we_CustomerID e') f)"
    if "we_Status e' = WhitelistEntryStatusActive"
    using active [OF that]
  proof
    assume "we_Status e = WhitelistEntryStatusActive"
    then have "active_for (we_CustomerID e) e" by (simp add: active_for_def SameIdentifier_def)
    then show ?thesis using wl_okD(7) [OF ok cur] same e' by auto
  next
    assume "\<not> activeConflict (fst s) (we_CustomerID e) (we_ID e)"
    then show ?thesis unfolding activeConflict_iff [OF ok] e' by blast
  qed
qed

lemma UpdateWithVersion_ok:
  assumes ok: "wl_ok s" and e: "e \<in> snd s"
    and e': "we_ID e' = we_ID e" "we_CustomerID e' = we_CustomerID e"
    and grant: "granted e \<Longrightarrow> granted e'"
  shows "wl_ok (seen_with s (snd (UpdateWithVersion now (fst s) e' (we_Version e))))"
proof (cases "tbl_get (wl_entries (fst s)) (we_ID e)")
  case None
  then show ?thesis using ok by (simp add: UpdateWithVersion_def e' wl_ok_same)
next
  case (Some existing)
  show ?thesis
  proof (cases "we_Version existing = we_Version e \<and>
      \<not> (we_Status e' = WhitelistEntryStatusActive \<and> activeConflict (fst s) (we_CustomerID e) (we_ID e))")
    case True
    let ?e = "e'\<lparr>we_Version := we_Version e + 1, we_UpdatedAt := now\<rparr>"
    have put: "wl_entries (snd (UpdateWithVersion now (fst s) e' (we_Version e))) = tbl_put (we_ID ?e) ?e (wl_entries (fst s))"
      using True Some by (auto simp: UpdateWithVersion_def e' Let_def)
    show ?thesis
      by (rule wl_ok_update [OF ok e Some _ put]) (use True e' grant in \<open>auto simp: granted_def\<close>)
  next
    case False
    with Some have "wl_entries (snd (UpdateWithVersion now (fst s) e' (we_Version e))) = wl_entries (fst s)"
      by (auto simp: UpdateWithVersion_def e' Let_def)
    then show ?thesis by (rule wl_ok_same [OF ok])
  qed
qed

lemma review_decision_shape:
  "review_decision now configured req e = Inr (e', d) \<Longrightarrow> we_ID e' = we_ID e \<and> we_CustomerID e' = we_CustomerID e \<and>
     we_Version e' = we_Version e \<and> (granted e \<longrightarrow> granted e')"
  by (auto simp: review_decision_def granted_def split: WhitelistReviewDecision.splits option.splits if_splits)

lemma CreateReviewAndApply_ok:
  assumes ok: "wl_ok s" and e: "e \<in> snd s" "we_Status e = WhitelistEntryStatusActive"
    and e': "we_ID e' = we_ID e" "we_CustomerID e' = we_CustomerID e" "granted e \<longrightarrow> granted e'"
  shows "wl_ok (seen_with s (snd (CreateReviewAndApply now (fst s) review e' (we_Version e))))"
proof (cases "\<exists>existing. tbl_get (wl_entries (fst s)) (we_ID e) = Some existing \<and> we_Version existing = we_Version e")
  case True
  then obtain existing where cur: "tbl_get (wl_entries (fst s)) (we_ID e) = Some existing" "we_Version existing = we_Version e" by blast
  let ?e = "e'\<lparr>we_Version := we_Version e + 1, we_UpdatedAt := now\<rparr>"
  have put: "wl_entries (snd (CreateReviewAndApply now (fst s) review e' (we_Version e))) = tbl_put (we_ID ?e) ?e (wl_entries (fst s))"
    using cur by (simp add: CreateReviewAndApply_def e' Let_def add_review_def)
  show ?thesis
    by (rule wl_ok_update [OF ok e(1) cur put]) (use e' e(2) in \<open>auto simp: granted_def\<close>)
next
  case False
  then have "wl_entries (snd (CreateReviewAndApply now (fst s) review e' (we_Version e))) = wl_entries (fst s)"
    by (cases "tbl_get (wl_entries (fst s)) (we_ID e)") (auto simp: CreateReviewAndApply_def e' Let_def)
  then show ?thesis by (rule wl_ok_same [OF ok])
qed

lemma wl_step_ok: "wl_step s s' \<Longrightarrow> wl_ok s \<Longrightarrow> wl_ok s'"
proof (induction rule: wl_step.induct)
  case (approve e s now now' q)
  show ?case
  proof (cases "we_Status e = WhitelistEntryStatusPendingApproval \<and> resolveAuditUserID q \<noteq> we_RequestedBy e")
    case True
    then show ?thesis
      using UpdateWithVersion_ok [OF approve(2,1), of "e\<lparr>we_Status := WhitelistEntryStatusActive,
          we_ApprovedBy := Some (resolveAuditUserID q), we_ApprovedAt := Some now\<rparr>" now']
      by (auto simp: approve_entry_def granted_def split: prod.split sum.split)
  qed (auto simp: approve_entry_def intro: wl_ok_same [OF approve(2)])
next
  case (revoke e s now now' q)
  then show ?case
    using UpdateWithVersion_ok [OF revoke(2,1), of "e\<lparr>we_Status := WhitelistEntryStatusRevoked,
        we_RevokedBy := Some (resolveAuditUserID q), we_RevokedAt := Some now\<rparr>" now']
    by (auto simp: revoke_entry_def granted_def wl_ok_same split: prod.split sum.split)
next
  case (review e s now now' q genID configured req)
  show ?case
  proof (cases "we_Status e = WhitelistEntryStatusActive")
    case active: True
    show ?thesis
    proof (cases "review_decision now configured req e")
      case (Inl x)
      then show ?thesis using active by (cases x) (simp add: review_entry_def wl_ok_same [OF review(2)])
    next
      case (Inr x)
      obtain e' d where x: "x = (e', d)" by fastforce
      note sh = review_decision_shape [OF Inr [unfolded x]]
      let ?rev = "\<lparr>wr_ID = genID, wr_WhitelistEntryID = we_ID e, wr_ReviewedBy = resolveAuditUserID q,
               wr_Decision = cr_Decision req, wr_ReviewNotes = cr_ReviewNotes req, wr_NextReviewDate = d, wr_CreatedAt = now\<rparr>"
      have "wl_ok (seen_with s (snd (CreateReviewAndApply now' (fst s) ?rev e' (we_Version e))))"
        by (rule CreateReviewAndApply_ok [OF review(2,1) active]) (use sh in auto)
      moreover have "snd (review_entry now now' q genID configured req e (fst s)) =
          snd (CreateReviewAndApply now' (fst s) ?rev e' (we_Version e))"
        using active Inr x sh by (simp add: review_entry_def Let_def split: prod.split sum.split)
      ultimately show ?thesis by simp
    qed
  qed (simp add: review_entry_def wl_ok_same [OF review(2)])
next
  case (expire e s now)
  show ?case by (rule UpdateWithVersion_ok [OF expire(3,1)]) (auto simp: granted_def)
next
  case (request s genID now q configured customers req)
  let ?r = "snd (handleCreateWhitelistEntry now q genID configured customers req (fst s))"
  show ?case
  proof (cases "wl_entries ?r = wl_entries (fst s)")
    case True
    then show ?thesis by (rule wl_ok_same [OF request(3)])
  next
    case False
    then obtain e where e: "wl_entries ?r = tbl_put (we_ID e) e (wl_entries (fst s))" "we_ID e = genID"
        "we_Status e = WhitelistEntryStatusPendingApproval"
      unfolding handleCreateWhitelistEntry_def Whitelist_Create_def
      by (auto simp: Let_def split: if_splits option.splits prod.splits sum.splits)
    show ?thesis
      by (rule wl_ok_put [OF request(3) e(1)]) (use e(2,3) request(2) in \<open>auto simp: granted_def\<close>)
  qed
qed

lemma wl_reachable_ok: "wl_step\<^sup>*\<^sup>* (NewMemoryWhitelistRepo, {}) s \<Longrightarrow> wl_ok s"
proof (induction rule: rtranclp_induct)
  case base
  then show ?case by (simp add: wl_ok_def NewMemoryWhitelistRepo_def)
next
  case (step s s')
  then show ?case by (blast intro: wl_step_ok)
qed

lemma active_unique:
  assumes ok: "wl_ok s" and e: "e \<in> set (tbl_vals (wl_entries (fst s)))" "active_for customerID e"
    and e': "e' \<in> set (tbl_vals (wl_entries (fst s)))" "active_for customerID e'"
  shows "e' = e"
proof -
  note vals = tbl_vals_iff [OF wl_okD(1) [OF ok]]
  from e(1) e'(1) obtain k k' where k: "tbl_get (wl_entries (fst s)) k = Some e" "tbl_get (wl_entries (fst s)) k' = Some e'"
    unfolding vals by blast
  have "active_for (we_CustomerID e) e" "active_for (we_CustomerID e) e'"
    using e(2) e'(2) by (auto simp: active_for_def SameIdentifier_def)
  from wl_okD(7) [OF ok k this] k show ?thesis by simp
qed

lemma active_granted:
  assumes ok: "wl_ok s" and e: "e \<in> set (tbl_vals (wl_entries (fst s)))" "active_for customerID e"
  shows "\<exists>who. we_ApprovedBy e = Some who \<and> who \<noteq> we_RequestedBy e"
  using e wl_okD(4) [OF ok] unfolding tbl_vals_iff [OF wl_okD(1) [OF ok]] by (auto simp: granted_def active_for_def)

text \<open>
  C23. Whitelist grants. However the requests interleave (each may act on an entry it read at any
  earlier moment), a customer has at most one active entry, and every active entry was approved by
  somebody other than the one who requested it. The renewal of a review writes an active entry without
  looking for another one; the version check alone keeps it safe.
\<close>

theorem whitelist_grants:
  assumes "wl_step\<^sup>*\<^sup>* (NewMemoryWhitelistRepo, {}) (r, seen)"
    and e: "e \<in> set (tbl_vals (wl_entries r))" "active_for customerID e"
  shows "(\<exists>who. we_ApprovedBy e = Some who \<and> who \<noteq> we_RequestedBy e) \<and>
    (\<forall>e' \<in> set (tbl_vals (wl_entries r)). active_for customerID e' \<longrightarrow> e' = e)"
  using active_granted [OF wl_reachable_ok [OF assms(1)], unfolded fst_conv, OF e]
    active_unique [OF wl_reachable_ok [OF assms(1)], unfolded fst_conv, OF e] by blast

text \<open>Entry \<open>e\<close> suppresses \<open>alert\<close> at time \<open>now\<close>.\<close>

definition covers :: "time \<Rightarrow> Alert \<Rightarrow> WhitelistEntry \<Rightarrow> bool" where
  "covers now alert e \<longleftrightarrow> active_for (al_CustomerID alert) e \<and> now \<le> we_ValidUntil e \<and>
     (we_ExcludedRuleIDs e = [] \<or> al_ScenarioID alert \<in> set (we_ExcludedRuleIDs e))"

lemma find_unique:
  assumes "x \<in> set xs" "P x" "\<And>y. y \<in> set xs \<Longrightarrow> P y \<Longrightarrow> y = x"
  shows "find P xs = Some x"
proof (cases "find P xs")
  case None
  then show ?thesis using assms(1,2) by (simp add: find_None_iff)
next
  case (Some y)
  then have "y \<in> set xs" "P y" by (auto simp: find_Some_iff)
  from assms(3) [OF this] Some show ?thesis by simp
qed

text \<open>
  C24. Suppression is exact. An alert is suppressed if and only if its customer has an active entry that is
  not overdue and covers the scenario; then it names that entry, which a second person has approved,
  and otherwise it is left as it is. The order in which the map is visited does not matter.
\<close>

theorem suppression_exact:
  assumes "wl_step\<^sup>*\<^sup>* (NewMemoryWhitelistRepo, {}) (r, seen)"
  shows "(\<exists>e \<in> set (tbl_vals (wl_entries r)). covers now alert e \<and>
      (\<exists>who. we_ApprovedBy e = Some who \<and> who \<noteq> we_RequestedBy e) \<and>
      applyWhitelistSuppression now (Some r) alert = Inr (alert\<lparr>al_Suppressed := True,
        al_SuppressionReason := ''whitelist:'' @ we_ID e, al_Status := AlertStatusSuppressed\<rparr>)) \<or>
    \<not> (\<exists>e \<in> set (tbl_vals (wl_entries r)). covers now alert e) \<and>
      applyWhitelistSuppression now (Some r) alert = Inr alert"
proof (cases "\<exists>e \<in> set (tbl_vals (wl_entries r)). active_for (al_CustomerID alert) e")
  case True
  then obtain e where e: "e \<in> set (tbl_vals (wl_entries r))" "active_for (al_CustomerID alert) e" by blast
  have ok: "wl_ok (r, seen)" by (rule wl_reachable_ok [OF assms])
  note unique = active_unique [OF ok, unfolded fst_conv, OF e] and appr = active_granted [OF ok, unfolded fst_conv, OF e]
  have get: "GetActiveByCustomer r (al_CustomerID alert) = Inr e"
    using find_unique [where P = "active_for (al_CustomerID alert)", OF e unique] by (simp add: GetActiveByCustomer_def)
  show ?thesis
  proof (cases "covers now alert e")
    case True
    then have "applyWhitelistSuppression now (Some r) alert = Inr (alert\<lparr>al_Suppressed := True,
        al_SuppressionReason := ''whitelist:'' @ we_ID e, al_Status := AlertStatusSuppressed\<rparr>)"
      by (simp only: applyWhitelistSuppression_def option.case sum.case get covers_def not_less [symmetric] if_False simp_thms de_Morgan_disj)
         auto
    with True e(1) appr show ?thesis by blast
  next
    case False
    then have "applyWhitelistSuppression now (Some r) alert = Inr alert"
      using e(2) by (auto simp: applyWhitelistSuppression_def get covers_def)
    moreover have "\<not> (\<exists>f \<in> set (tbl_vals (wl_entries r)). covers now alert f)"
      using False unique by (auto simp: covers_def)
    ultimately show ?thesis by blast
  qed
next
  case False
  then have "find (active_for (al_CustomerID alert)) (tbl_vals (wl_entries r)) = None" unfolding find_None_iff by blast
  then have "applyWhitelistSuppression now (Some r) alert = Inr alert"
    by (simp add: applyWhitelistSuppression_def GetActiveByCustomer_def)
  with False show ?thesis by (auto simp: covers_def)
qed

subsection \<open>The expiry job\<close>

lemma expire_one:
  assumes "tbl_get (wl_entries r) (we_ID e) = Some e"
  shows "UpdateWithVersion now r (e\<lparr>we_Status := WhitelistEntryStatusExpired\<rparr>) (we_Version e) =
    (Inr (e\<lparr>we_Status := WhitelistEntryStatusExpired, we_Version := we_Version e + 1, we_UpdatedAt := now\<rparr>),
     r\<lparr>wl_entries := tbl_put (we_ID e) (e\<lparr>we_Status := WhitelistEntryStatusExpired, we_Version := we_Version e + 1, we_UpdatedAt := now\<rparr>)
       (wl_entries r)\<rparr>)"
  using assms by (simp add: UpdateWithVersion_def Let_def)

text \<open>What the job makes of an entry.\<close>

definition expired_form :: "WhitelistEntry \<Rightarrow> WhitelistEntry \<Rightarrow> bool" where
  "expired_form e e' \<longleftrightarrow>
     e' = e\<lparr>we_Status := WhitelistEntryStatusExpired, we_Version := we_Version e + 1, we_UpdatedAt := we_UpdatedAt e'\<rparr>"

lemma expire_all_stored:
  assumes "\<And>e. e \<in> set es \<Longrightarrow> tbl_get (wl_entries r) (we_ID e) = Some e" "distinct (map we_ID es)"
  shows "\<exists>r'. expire_all clock es n r = (n + int (length es), None, r') \<and> wl_reviews r' = wl_reviews r \<and>
    (tbl_wf (wl_entries r) \<longrightarrow> tbl_wf (wl_entries r')) \<and>
    (\<forall>k. if k \<in> we_ID ` set es
      then \<exists>e e'. tbl_get (wl_entries r) k = Some e \<and> tbl_get (wl_entries r') k = Some e' \<and> expired_form e e'
      else tbl_get (wl_entries r') k = tbl_get (wl_entries r) k)"
  using assms
proof (induction es arbitrary: clock n r)
  case Nil
  then show ?case by simp
next
  case (Cons e es)
  let ?e = "e\<lparr>we_Status := WhitelistEntryStatusExpired, we_Version := we_Version e + 1, we_UpdatedAt := clock 0\<rparr>"
  let ?r = "r\<lparr>wl_entries := tbl_put (we_ID e) ?e (wl_entries r)\<rparr>"
  have e: "tbl_get (wl_entries r) (we_ID e) = Some e" using Cons.prems(1) by simp
  have new: "we_ID e \<notin> we_ID ` set es" using Cons.prems(2) by simp
  have "tbl_get (wl_entries ?r) (we_ID f) = Some f" if "f \<in> set es" for f
  proof -
    from that new have "we_ID f \<noteq> we_ID e" by (metis imageI)
    with that Cons.prems(1) [of f] show ?thesis by (simp add: tbl_simps)
  qed
  from Cons.IH [OF this, of "\<lambda>n. clock (Suc n)" "n + 1"] Cons.prems(2) obtain r'
    where r': "expire_all (\<lambda>n. clock (Suc n)) es (n + 1) ?r = (n + 1 + int (length es), None, r')"
      "wl_reviews r' = wl_reviews r" "tbl_wf (wl_entries ?r) \<longrightarrow> tbl_wf (wl_entries r')"
    and k: "\<And>k. if k \<in> we_ID ` set es
      then \<exists>e e'. tbl_get (wl_entries ?r) k = Some e \<and> tbl_get (wl_entries r') k = Some e' \<and> expired_form e e'
      else tbl_get (wl_entries r') k = tbl_get (wl_entries ?r) k" by auto
  have "expire_all clock (e # es) n r = (n + int (length (e # es)), None, r')"
    using r'(1) by (simp add: expire_one [OF e])
  moreover have "if k \<in> we_ID ` set (e # es)
      then \<exists>e e'. tbl_get (wl_entries r) k = Some e \<and> tbl_get (wl_entries r') k = Some e' \<and> expired_form e e'
      else tbl_get (wl_entries r') k = tbl_get (wl_entries r) k" for k
    using k [of k] new e by (cases "k = we_ID e") (auto simp: tbl_simps expired_form_def)
  moreover have "tbl_wf (wl_entries r) \<longrightarrow> tbl_wf (wl_entries r')" using r'(3) by simp
  ultimately show ?case using r'(2) by blast
qed

lemma keyed_ids: "wl_ok s \<Longrightarrow> map we_ID (tbl_vals (wl_entries (fst s))) = map fst (wl_entries (fst s))"
  using wl_okD(1,2) [of s] by (force simp: tbl_wf_def intro!: map_idI)

definition overdue :: "time \<Rightarrow> WhitelistEntry \<Rightarrow> bool" where
  "overdue now e \<longleftrightarrow> we_Status e = WhitelistEntryStatusActive \<and> we_ValidUntil e < now"

lemma ListExpiringSoon_now:
  "set (ListExpiringSoon now r 0) = {e \<in> set (tbl_vals (wl_entries r)). overdue now e}"
  "length (ListExpiringSoon now r 0) = length (filter (overdue now) (tbl_vals (wl_entries r)))"
  "distinct (map we_ID (tbl_vals (wl_entries r))) \<Longrightarrow> distinct (map we_ID (ListExpiringSoon now r 0))"
proof -
  have eq: "ListExpiringSoon now r 0 = sortByCreatedAtDesc (filter (overdue now) (tbl_vals (wl_entries r))) we_CreatedAt we_ID"
    by (simp add: ListExpiringSoon_def int64_def overdue_def [abs_def])
  show "set (ListExpiringSoon now r 0) = {e \<in> set (tbl_vals (wl_entries r)). overdue now e}"
    "length (ListExpiringSoon now r 0) = length (filter (overdue now) (tbl_vals (wl_entries r)))"
    unfolding eq sortByCreatedAtDesc_def by simp_all
  assume "distinct (map we_ID (tbl_vals (wl_entries r)))"
  then have "distinct (map we_ID (filter (overdue now) (tbl_vals (wl_entries r))))" by (rule distinct_map_filter)
  then show "distinct (map we_ID (ListExpiringSoon now r 0))"
    unfolding eq sortByCreatedAtDesc_def by (simp add: distinct_map)
qed

lemma no_overdue_no_work:
  assumes "\<And>e. e \<in> set (tbl_vals (wl_entries r)) \<Longrightarrow> \<not> overdue now e"
  shows "\<exists>res soon. RunWhitelistExpiryJob now clock later r = ((res, None, soon), r) \<and> ej_Expired res = 0"
proof -
  have "set (ListExpiringSoon now r 0) = {}" unfolding ListExpiringSoon_now(1) using assms by blast
  then have "ListExpiringSoon now r 0 = []" by simp
  then show ?thesis by (simp add: RunWhitelistExpiryJob_def Let_def)
qed

text \<open>
  The expiry job, undisturbed, ends without an error, expires exactly the active entries that are
  overdue and leaves every other entry as it is, reports their number, and is idempotent: run again
  at the same time it expires nothing and changes nothing.
\<close>

theorem expiry_job_exact:
  assumes "wl_step\<^sup>*\<^sup>* (NewMemoryWhitelistRepo, {}) (r, seen)"
  shows "\<exists>res soon r'. RunWhitelistExpiryJob now clock later r = ((res, None, soon), r') \<and>
    ej_Expired res = int (length (filter (overdue now) (tbl_vals (wl_entries r)))) \<and>
    (\<forall>k. case tbl_get (wl_entries r) k of
       None \<Rightarrow> tbl_get (wl_entries r') k = None
     | Some e \<Rightarrow> if overdue now e then \<exists>e'. tbl_get (wl_entries r') k = Some e' \<and> expired_form e e'
         else tbl_get (wl_entries r') k = Some e) \<and>
    (\<forall>clock' later'. \<exists>res' soon'. RunWhitelistExpiryJob now clock' later' r' = ((res', None, soon'), r') \<and> ej_Expired res' = 0)"
proof -
  have ok: "wl_ok (r, seen)" by (rule wl_reachable_ok [OF assms])
  note D = wl_okD [OF ok, unfolded fst_conv snd_conv] and vals = tbl_vals_iff [OF wl_okD(1) [OF ok, unfolded fst_conv]]
  let ?es = "ListExpiringSoon now r 0"
  have stored: "tbl_get (wl_entries r) (we_ID e) = Some e" if "e \<in> set ?es" for e
    using that D(2) unfolding ListExpiringSoon_now(1) vals mem_Collect_eq by blast
  have "distinct (map we_ID (tbl_vals (wl_entries r)))"
    unfolding keyed_ids [OF ok, unfolded fst_conv] using D(1) unfolding tbl_wf_def .
  from expire_all_stored [OF stored ListExpiringSoon_now(3) [OF this], where clock = clock and n = 0] obtain r'
    where r': "expire_all clock ?es 0 r = (int (length ?es), None, r')" "tbl_wf (wl_entries r')"
    and k: "\<And>k. if k \<in> we_ID ` set ?es
      then \<exists>e e'. tbl_get (wl_entries r) k = Some e \<and> tbl_get (wl_entries r') k = Some e' \<and> expired_form e e'
      else tbl_get (wl_entries r') k = tbl_get (wl_entries r) k"
    using D(1) by auto
  have mem: "k \<in> we_ID ` set ?es \<longleftrightarrow> (\<exists>e. tbl_get (wl_entries r) k = Some e \<and> overdue now e)" for k
    unfolding ListExpiringSoon_now(1) image_iff Bex_def mem_Collect_eq vals using D(2) by metis
  have each: "case tbl_get (wl_entries r) k of
       None \<Rightarrow> tbl_get (wl_entries r') k = None
     | Some e \<Rightarrow> if overdue now e then \<exists>e'. tbl_get (wl_entries r') k = Some e' \<and> expired_form e e'
         else tbl_get (wl_entries r') k = Some e" for k
    using k [of k] unfolding mem by (auto split: option.split if_splits)
  have "\<not> overdue now e" if "e \<in> set (tbl_vals (wl_entries r'))" for e
  proof -
    from that obtain k where "tbl_get (wl_entries r') k = Some e" unfolding tbl_vals_iff [OF r'(2)] by blast
    with each [of k] show ?thesis
      by (auto simp: expired_form_def overdue_def split: option.splits if_splits dest!: arg_cong [where f = we_Status])
  qed
  from no_overdue_no_work [OF this] r'(1) each show ?thesis
    by (auto simp: RunWhitelistExpiryJob_def Let_def ListExpiringSoon_now(2))
qed

subsection \<open>A history\<close>

definition requester :: request where
  "requester = \<lparr>rq_Principal = Some (''maker'', []), rq_APIKey = None, rq_contextID = ''r1'', rq_headerID = [],
     rq_generated = [], rq_IP = [], rq_UserAgent = []\<rparr>"

definition approver :: request where
  "approver = requester\<lparr>rq_Principal := Some (''checker'', [])\<rparr>"

definition sample_requested :: MemoryWhitelistRepo where
  "sample_requested = snd (handleCreateWhitelistEntry 0 requester ''w1'' 0 (snd (Customer_Create NewMemoryCustomerRepo sample_customer))
     \<lparr>cw_CustomerID = ''c1'', cw_Reason = ''salary'', cw_ValidUntil = ''0001-01-02T00:00:00Z'', cw_ExcludedRuleIDs = []\<rparr>
     NewMemoryWhitelistRepo)"

definition sample_pending_entry :: WhitelistEntry where
  "sample_pending_entry = hd (tbl_vals (wl_entries sample_requested))"

definition sample_granted :: MemoryWhitelistRepo where
  "sample_granted = snd (approve_entry 1 2 approver sample_pending_entry sample_requested)"

lemma sample_reachable: "\<exists>seen. wl_step\<^sup>*\<^sup>* (NewMemoryWhitelistRepo, {}) (sample_granted, seen)"
proof -
  let ?s0 = "(NewMemoryWhitelistRepo, {}) :: wl_state"
  let ?s1 = "seen_with ?s0 sample_requested"
  have 1: "wl_step ?s0 ?s1"
    unfolding sample_requested_def
    using wl_step.request [of ?s0 "''w1''" 0 requester 0 "snd (Customer_Create NewMemoryCustomerRepo sample_customer)"
        "\<lparr>cw_CustomerID = ''c1'', cw_Reason = ''salary'', cw_ValidUntil = ''0001-01-02T00:00:00Z'', cw_ExcludedRuleIDs = []\<rparr>"]
    by (simp add: NewMemoryWhitelistRepo_def)
  have "length (tbl_vals (wl_entries sample_requested)) = 1" by code_simp
  then have "sample_pending_entry \<in> snd ?s1"
    unfolding sample_pending_entry_def seen_with_def by (cases "tbl_vals (wl_entries sample_requested)") auto
  from wl_step.approve [OF this, of 1 2 approver] have 2: "wl_step ?s1 (seen_with ?s1 sample_granted)"
    by (simp add: sample_granted_def seen_with_def)
  obtain seen where "seen_with ?s1 sample_granted = (sample_granted, seen)" by (simp add: seen_with_def)
  with 1 2 show ?thesis by (metis rtranclp.rtrancl_into_rtrancl rtranclp.rtrancl_refl)
qed

lemma sample_active: "map (\<lambda>e. (we_ID e, we_Status e, we_CustomerID e, we_ValidUntil e)) (tbl_vals (wl_entries sample_granted)) =
    [(''w1'', WhitelistEntryStatusActive, ''c1'', 86400000000000)]"
  by code_simp

lemma sample_entry:
  obtains e where "tbl_vals (wl_entries sample_granted) = [e]" "we_ID e = ''w1''" "we_Status e = WhitelistEntryStatusActive"
    "we_CustomerID e = ''c1''" "we_ValidUntil e = 86400000000000"
  using sample_active by (cases "tbl_vals (wl_entries sample_granted)") (auto simp del: map_map)

theorem whitelist_grants_witness:
  "\<exists>e \<in> set (tbl_vals (wl_entries sample_granted)). active_for ''c1'' e \<and> (\<exists>who. we_ApprovedBy e = Some who \<and> who \<noteq> we_RequestedBy e)"
proof -
  obtain seen where reach: "wl_step\<^sup>*\<^sup>* (NewMemoryWhitelistRepo, {}) (sample_granted, seen)" using sample_reachable by blast
  obtain e where e: "tbl_vals (wl_entries sample_granted) = [e]" "we_Status e = WhitelistEntryStatusActive" "we_CustomerID e = ''c1''"
    by (rule sample_entry)
  have "active_for ''c1'' e" using e by (simp add: active_for_def SameIdentifier_def)
  with whitelist_grants [OF reach, of e "''c1''"] e(1) show ?thesis by auto
qed

theorem suppression_exact_witness:
  "\<exists>reason. applyWhitelistSuppression 5 (Some sample_granted) (sample_alert\<lparr>al_CustomerID := ''c1''\<rparr>) =
     Inr (sample_alert\<lparr>al_CustomerID := ''c1'', al_Suppressed := True, al_SuppressionReason := reason, al_Status := AlertStatusSuppressed\<rparr>)"
proof -
  obtain seen where reach: "wl_step\<^sup>*\<^sup>* (NewMemoryWhitelistRepo, {}) (sample_granted, seen)" using sample_reachable by blast
  let ?a = "sample_alert\<lparr>al_CustomerID := ''c1''\<rparr>"
  have "list_ex (covers 5 ?a) (tbl_vals (wl_entries sample_granted)) = True" by code_simp
  then have "\<exists>e \<in> set (tbl_vals (wl_entries sample_granted)). covers 5 ?a e" unfolding list_ex_iff by simp
  with suppression_exact [OF reach, of 5 ?a] show ?thesis by auto
qed

theorem expiry_job_exact_witness:
  "\<exists>res soon r'. RunWhitelistExpiryJob 86400000000001 (\<lambda>n. 7) 7 sample_granted = ((res, None, soon), r') \<and> ej_Expired res = 1"
proof -
  obtain seen where reach: "wl_step\<^sup>*\<^sup>* (NewMemoryWhitelistRepo, {}) (sample_granted, seen)" using sample_reachable by blast
  obtain e where e: "tbl_vals (wl_entries sample_granted) = [e]" "we_Status e = WhitelistEntryStatusActive" "we_ValidUntil e = 86400000000000"
    by (rule sample_entry)
  have "length (filter (overdue 86400000000001) (tbl_vals (wl_entries sample_granted))) = 1"
    unfolding e(1) by (simp add: overdue_def e)
  with expiry_job_exact [OF reach, of 86400000000001 "\<lambda>n. 7" 7] show ?thesis by auto
qed

end
