(* ===== verification/Access.thy ===== *)
theory Access
  imports Sessions Requests
begin

text \<open>
  Who may do what: permissions by role and the password policy (\<^verbatim>\<open>auth/permission.go, password.go\<close>), API keys
  (\<^verbatim>\<open>domain/apikey.go\<close>, \<^verbatim>\<open>store/memory.go\<close>), the denylist of revoked tokens (\<^verbatim>\<open>auth/denylist.go\<close>), the rate
  limiter (\<^verbatim>\<open>server/ratelimit.go\<close>) and the authentication middleware over them and the session store
  (\<^verbatim>\<open>server/auth.go\<close>). The signature check of access tokens and the hash of API keys are arguments, and
  so is the route the router has found. The theorems show the limiter and the denylist
  equal to their declarative readings over the whole history of calls, and what an admitted request
  has proved.
\<close>

subsection \<open>Permissions\<close>

datatype Permission =
  PermWhitelistRequest | PermWhitelistApprove | PermAuditRead | PermUserManage | PermRuleWrite
| PermBatchExecuteLarge | PermCDDScore | PermCDDOverrideApprove

fun RolePermissions :: "Role \<Rightarrow> Permission list" where
  "RolePermissions RoleAdmin =
     [PermWhitelistRequest, PermWhitelistApprove, PermAuditRead, PermUserManage, PermRuleWrite, PermBatchExecuteLarge,
      PermCDDScore, PermCDDOverrideApprove]"
| "RolePermissions RoleAnalyst = [PermWhitelistRequest, PermCDDScore]"
| "RolePermissions RoleViewer = []"
| "RolePermissions (RoleOther _) = []"

definition HasPermission :: "Role \<Rightarrow> Permission \<Rightarrow> bool" where
  "HasPermission role p \<longleftrightarrow> p \<in> set (RolePermissions role)"

text \<open>The two gates of a route; \<open>role\<close> is the role in the context of the request.\<close>

definition RequirePermission :: "Permission \<Rightarrow> Role option \<Rightarrow> bool" where
  "RequirePermission p role = (case role of None \<Rightarrow> False | Some r \<Rightarrow> HasPermission r p)"

definition requireRolePermission :: "bool \<Rightarrow> Permission \<Rightarrow> Role option \<Rightarrow> bool" where
  "requireRolePermission configured p role \<longleftrightarrow> \<not> configured \<or> RequirePermission p role"

definition MinPasswordLength :: nat where "MinPasswordLength = 12"

definition ValidatePasswordPolicy :: "string \<Rightarrow> unit result" where
  "ValidatePasswordPolicy plain =
    (if length plain < MinPasswordLength
     then Inl (ErrText (''password must be at least '' @ int_string (int MinPasswordLength) @ '' characters'')) else Inr ())"

subsection \<open>API keys\<close>

record APIKey =
  ak_ID :: string
  ak_Name :: string
  ak_KeyHash :: string
  ak_Role :: Role
  ak_Active :: bool
  ak_CreatedAt :: time
  ak_LastUsed :: "time option"

type_synonym MemoryAPIKeyRepo = "APIKey tbl"

definition APIKey_GetByHash :: "MemoryAPIKeyRepo \<Rightarrow> string \<Rightarrow> APIKey result" where
  "APIKey_GetByHash r keyHash =
    (case tbl_get r keyHash of None \<Rightarrow> Inl (ErrNotFound ''api_key'' keyHash) | Some k \<Rightarrow> Inr k)"

definition APIKey_Create :: "MemoryAPIKeyRepo \<Rightarrow> APIKey \<Rightarrow> unit result \<times> MemoryAPIKeyRepo" where
  "APIKey_Create r key = (Inr (), tbl_put (ak_KeyHash key) key r)"

definition APIKey_List :: "MemoryAPIKeyRepo \<Rightarrow> APIKey list" where
  "APIKey_List r = tbl_vals r"

fun revoke_first :: "string \<Rightarrow> MemoryAPIKeyRepo \<Rightarrow> MemoryAPIKeyRepo option" where
  "revoke_first i [] = None"
| "revoke_first i ((h, k) # r) =
    (if ak_ID k = i then Some ((h, k\<lparr>ak_Active := False\<rparr>) # r) else map_option (Cons (h, k)) (revoke_first i r))"

definition APIKey_Revoke :: "MemoryAPIKeyRepo \<Rightarrow> string \<Rightarrow> unit result \<times> MemoryAPIKeyRepo" where
  "APIKey_Revoke r i =
    (case revoke_first i r of None \<Rightarrow> (Inl (ErrNotFound ''api_key'' i), r) | Some r' \<Rightarrow> (Inr (), r'))"

subsection \<open>Denylist\<close>

type_synonym InMemoryDenylist = "time tbl"

definition denylist_revoke :: "time \<Rightarrow> InMemoryDenylist \<Rightarrow> string \<Rightarrow> duration \<Rightarrow> InMemoryDenylist" where
  "denylist_revoke now d identifier ttl =
    (let expiresAt = now + ttl in
     case tbl_get d identifier of
       None \<Rightarrow> tbl_put identifier expiresAt d
     | Some current \<Rightarrow> if expiresAt > current then tbl_put identifier expiresAt d else d)"

definition denylist_isRevoked :: "time \<Rightarrow> InMemoryDenylist \<Rightarrow> string \<Rightarrow> bool \<times> InMemoryDenylist" where
  "denylist_isRevoked now d identifier =
    (case tbl_get d identifier of
       None \<Rightarrow> (False, d)
     | Some expiresAt \<Rightarrow> if now > expiresAt then (False, AList.delete identifier d) else (True, d))"

definition RevokeToken :: "time \<Rightarrow> InMemoryDenylist \<Rightarrow> string \<Rightarrow> duration \<Rightarrow> InMemoryDenylist" where
  "RevokeToken now d tokenID ttl = denylist_revoke now d (''token:'' @ tokenID) ttl"

definition RevokeSession :: "time \<Rightarrow> InMemoryDenylist \<Rightarrow> string \<Rightarrow> duration \<Rightarrow> InMemoryDenylist" where
  "RevokeSession now d sessionID ttl = denylist_revoke now d (''session:'' @ sessionID) ttl"

definition IsTokenRevoked :: "time \<Rightarrow> InMemoryDenylist \<Rightarrow> string \<Rightarrow> bool \<times> InMemoryDenylist" where
  "IsTokenRevoked now d tokenID = denylist_isRevoked now d (''token:'' @ tokenID)"

definition IsSessionRevoked :: "time \<Rightarrow> InMemoryDenylist \<Rightarrow> string \<Rightarrow> bool \<times> InMemoryDenylist" where
  "IsSessionRevoked now d sessionID = denylist_isRevoked now d (''session:'' @ sessionID)"

subsection \<open>Rate limiter\<close>

record rateLimiter =
  rl_requests :: "time list tbl"
  rl_limit :: int
  rl_window :: duration
  rl_lastSweep :: time

definition newRateLimiter :: "int \<Rightarrow> duration \<Rightarrow> rateLimiter" where
  "newRateLimiter limit window = \<lparr>rl_requests = [], rl_limit = limit, rl_window = window, rl_lastSweep = 0\<rparr>"

definition requests_of :: "rateLimiter \<Rightarrow> string \<Rightarrow> time list" where
  "requests_of rl key = (case tbl_get (rl_requests rl) key of None \<Rightarrow> [] | Some ts \<Rightarrow> ts)"

definition sweep :: "time \<Rightarrow> rateLimiter \<Rightarrow> rateLimiter" where
  "sweep now rl =
    (if IsZero (rl_lastSweep rl) \<or> \<not> now < rl_lastSweep rl + rl_window rl
     then rl\<lparr>rl_requests := filter (\<lambda>(k, ts). \<not> (ts = [] \<or> \<not> last ts > now - rl_window rl)) (rl_requests rl), rl_lastSweep := now\<rparr>
     else rl)"

definition allowAt :: "rateLimiter \<Rightarrow> string \<Rightarrow> time \<Rightarrow> (bool \<times> int) \<times> rateLimiter" where
  "allowAt rl key now =
    (let rl = sweep now rl;
         valid = filter (\<lambda>t. t > now - rl_window rl) (requests_of rl key)
     in if int (length valid) \<ge> rl_limit rl
        then ((False, rl_limit rl - int (length valid)), rl\<lparr>rl_requests := tbl_put key valid (rl_requests rl)\<rparr>)
        else let valid = valid @ [now]
             in ((True, rl_limit rl - int (length valid)), rl\<lparr>rl_requests := tbl_put key valid (rl_requests rl)\<rparr>))"

text \<open>What the limiter does to a request: the headers it sets, and a refusal or \<open>None\<close> to pass it on.\<close>

definition rateLimitMiddleware ::
  "time \<Rightarrow> rateLimiter option \<Rightarrow> string \<Rightarrow> string \<Rightarrow> (unit response option \<times> (string \<times> string) list) \<times> rateLimiter option" where
  "rateLimitMiddleware now limiter path ip =
    (case limiter of None \<Rightarrow> ((None, []), None)
     | Some rl \<Rightarrow>
    if path \<in> {''/healthz'', ''/healthz/live'', ''/healthz/ready'', ''/metrics''} then ((None, []), Some rl)
    else (case allowAt rl ip now of
       ((allowed, remaining), rl') \<Rightarrow>
         let headers = [(''X-RateLimit-Limit'', int_string (rl_limit rl)), (''X-RateLimit-Remaining'', int_string remaining)]
         in if \<not> allowed
            then ((Some (Refuse 429 ''rate_limited'' ''rate limit exceeded''),
                   headers @ [(''Retry-After'', int_string (rl_window rl div Second))]), Some rl')
            else ((None, headers), Some rl')))"

subsection \<open>The middleware\<close>

record Principal =
  pl_Role :: Role
  pl_UserID :: string
  pl_APIKeyID :: string

record Claims =
  cl_UserID :: string
  cl_Role :: Role
  cl_JTI :: string
  cl_SessionID :: string

text \<open>
  The parts of the server the middleware uses, nil pointers as \<open>None\<close>. \<open>sv_verify\<close> is \<^verbatim>\<open>VerifyAccessToken\<close> at the
  time of the request, \<open>sv_hash\<close> is \<^verbatim>\<open>HashAPIKey\<close>.
\<close>

record Server =
  sv_apikeys :: "MemoryAPIKeyRepo option"
  sv_users :: "MemoryUserRepo option"
  sv_tokens :: "MemoryRefreshTokenRepo option"
  sv_denylist :: "InMemoryDenylist option"
  sv_verify :: "(string \<Rightarrow> Claims option) option"
  sv_hash :: "string \<Rightarrow> string"
  sv_bootstrapToken :: string

text \<open>\<open>hr_pattern\<close> is the pattern of the route, \<open>hr_Authorization\<close> is empty when the header is missing.\<close>

record http_request =
  hr_Method :: string
  hr_Path :: string
  hr_pattern :: string
  hr_Authorization :: string
  hr_accessToken :: "string option"
  hr_csrfCookie :: "string option"
  hr_csrfHeader :: string

definition isReservedServerPath :: "string \<Rightarrow> bool" where
  "isReservedServerPath path \<longleftrightarrow> path = ''/api'' \<or> HasPrefix path ''/api/'' \<or> path = ''/healthz'' \<or> HasPrefix path ''/healthz/'' \<or>
     path = ''/metrics'' \<or> HasPrefix path ''/metrics/''"

definition isPublicSPARequest :: "http_request \<Rightarrow> bool" where
  "isPublicSPARequest h \<longleftrightarrow> (hr_Method h = ''GET'' \<or> hr_Method h = ''HEAD'') \<and> \<not> isReservedServerPath (hr_Path h) \<and>
     (hr_pattern h = ''GET /'' \<or> hr_pattern h = ''GET /assets/'')"

definition isPublicAuthPath :: "http_request \<Rightarrow> bool" where
  "isPublicAuthPath h \<longleftrightarrow> hr_Method h = ''POST'' \<and>
     hr_Path h \<in> {''/api/v1/auth/login'', ''/api/v1/auth/refresh'', ''/api/v1/auth/logout'', ''/api/v1/setup''}"

definition isSafeMethod :: "string \<Rightarrow> bool" where
  "isSafeMethod m \<longleftrightarrow> m \<in> {''GET'', ''HEAD'', ''OPTIONS''}"

definition csrfTokenMatches :: "http_request \<Rightarrow> bool" where
  "csrfTokenMatches h =
    (case hr_csrfCookie h of None \<Rightarrow> False
     | Some c \<Rightarrow> c \<noteq> [] \<and> hr_csrfHeader h \<noteq> [] \<and> c = hr_csrfHeader h)"

definition bootstrapTokenAllowed :: "Server \<Rightarrow> bool" where
  "bootstrapTokenAllowed s =
    (case sv_apikeys s of None \<Rightarrow> False
     | Some keys \<Rightarrow> APIKey_List keys = [] \<and> (case sv_users s of None \<Rightarrow> True | Some users \<Rightarrow> User_Count users = 0))"

fun hasPermission :: "Role \<Rightarrow> string \<Rightarrow> string \<Rightarrow> bool" where
  "hasPermission RoleAdmin method path = True"
| "hasPermission RoleAnalyst method path = True"
| "hasPermission RoleViewer method path = (method = ''GET'')"
| "hasPermission (RoleOther _) method path = False"

type_synonym auth_error = "int \<times> string \<times> string"

definition unauthorized :: "string \<Rightarrow> auth_error" where
  "unauthorized message = (401, ''unauthorized'', message)"

definition authenticateAPIKey :: "Server \<Rightarrow> MemoryAPIKeyRepo \<Rightarrow> string \<Rightarrow> auth_error + Principal" where
  "authenticateAPIKey s keys header =
    (if \<not> HasPrefix header ''Bearer '' then Inl (unauthorized ''invalid Authorization format'')
     else (case APIKey_GetByHash keys (sv_hash s (drop 7 header)) of
       Inl err \<Rightarrow> if as_not_found err then Inl (unauthorized ''invalid API key'') else Inl (500, ''internal_error'', Error err)
     | Inr key \<Rightarrow>
         if \<not> ak_Active key then Inl (unauthorized ''API key revoked'')
         else Inr \<lparr>pl_Role = ak_Role key, pl_UserID = [], pl_APIKeyID = ak_ID key\<rparr>))"

text \<open>The denylist forgets entries that have expired when it is asked for them.\<close>

definition denied :: "time \<Rightarrow> Claims \<Rightarrow> InMemoryDenylist \<Rightarrow> string option \<times> InMemoryDenylist" where
  "denied now claims d =
    (case (if cl_JTI claims \<noteq> [] then IsTokenRevoked now d (cl_JTI claims) else (False, d)) of
       (True, d) \<Rightarrow> (Some ''access token has been revoked'', d)
     | (False, d) \<Rightarrow>
         (case IsSessionRevoked now d (cl_SessionID claims) of
            (True, d) \<Rightarrow> (Some ''session has been revoked'', d)
          | (False, d) \<Rightarrow> (None, d)))"

definition authenticateJWT :: "time \<Rightarrow> Server \<Rightarrow> http_request \<Rightarrow> string \<Rightarrow> (auth_error + Principal) \<times> Server" where
  "authenticateJWT now s h token =
    (case sv_verify s of None \<Rightarrow> (Inl (unauthorized ''JWT authentication not configured''), s)
     | Some verify \<Rightarrow>
    (case (sv_tokens s, sv_users s) of
       (Some tokens, Some users) \<Rightarrow>
         (case verify token of None \<Rightarrow> (Inl (unauthorized ''invalid or expired session''), s)
          | Some claims \<Rightarrow>
         if cl_SessionID claims = [] then (Inl (unauthorized ''session identifier missing''), s)
         else if \<not> IsFamilyActive now tokens (cl_SessionID claims) then (Inl (unauthorized ''session has been revoked''), s)
         else (case User_Get users (cl_UserID claims) of
           Inl err \<Rightarrow> (Inl (if as_not_found err then unauthorized ''session user no longer exists'' else (500, ''internal_error'', Error err)), s)
         | Inr user \<Rightarrow>
             if \<not> us_Active user \<or> us_Role user \<noteq> cl_Role claims then (Inl (unauthorized ''session authority has changed''), s)
             else let (refusal, s) = (case sv_denylist s of None \<Rightarrow> (None, s)
                    | Some d \<Rightarrow> (case denied now claims d of (x, d) \<Rightarrow> (x, s\<lparr>sv_denylist := Some d\<rparr>))) in
             (case refusal of
                Some message \<Rightarrow> (Inl (unauthorized message), s)
              | None \<Rightarrow>
                  if \<not> isSafeMethod (hr_Method h) \<and> \<not> csrfTokenMatches h
                  then (Inl (403, ''forbidden'', ''missing or invalid CSRF token''), s)
                  else (Inr \<lparr>pl_Role = cl_Role claims, pl_UserID = cl_UserID claims, pl_APIKeyID = []\<rparr>, s))))
     | _ \<Rightarrow> (Inl (503, ''service_unavailable'', ''authoritative session validation not configured''), s)))"

definition authenticate :: "time \<Rightarrow> Server \<Rightarrow> MemoryAPIKeyRepo \<Rightarrow> http_request \<Rightarrow> (auth_error + Principal) \<times> Server" where
  "authenticate now s keys h =
    (if hr_Authorization h \<noteq> [] then (authenticateAPIKey s keys (hr_Authorization h), s)
     else (case hr_accessToken h of
       Some token \<Rightarrow> authenticateJWT now s h token
     | None \<Rightarrow> (Inl (unauthorized ''missing Authorization header''), s)))"

text \<open>\<open>Inr p\<close> passes the request on, with the principal \<open>p\<close> in its context when it was authenticated.\<close>

definition authMiddleware :: "time \<Rightarrow> Server \<Rightarrow> http_request \<Rightarrow> (auth_error + Principal option) \<times> Server" where
  "authMiddleware now s h =
    (case sv_apikeys s of None \<Rightarrow> (Inr None, s)
     | Some keys \<Rightarrow>
    if hr_Path h = ''/healthz'' \<or> hr_Path h = ''/healthz/live'' \<or> hr_Path h = ''/healthz/ready'' \<or> isPublicSPARequest h then (Inr None, s)
    else if isPublicAuthPath h then (Inr None, s)
    else if sv_bootstrapToken s \<noteq> [] \<and> hr_Path h = ''/api/v1/admin/apikeys'' \<and> hr_Method h = ''POST'' \<and>
            hr_Authorization h = ''Bearer '' @ sv_bootstrapToken s
    then (if bootstrapTokenAllowed s then (Inr None, s) else (Inl (unauthorized ''bootstrap token has already been used''), s))
    else (case authenticate now s keys h of
       (Inl err, s) \<Rightarrow> (Inl err, s)
     | (Inr p, s) \<Rightarrow>
         if HasPrefix (hr_Path h) ''/api/v1/admin/'' \<and> pl_Role p \<noteq> RoleAdmin then (Inl (403, ''forbidden'', ''admin role required''), s)
         else if \<not> hasPermission (pl_Role p) (hr_Method h) (hr_Path h) then (Inl (403, ''forbidden'', ''insufficient permissions''), s)
         else (Inr (Some p), s)))"

text \<open>
  The administration of keys. \<open>body\<close> is the decoded request (\<open>Inl\<close> the error of the decoder), a missing role is
  \<open>RoleOther []\<close>, the empty text; the identifiers of \<^verbatim>\<open>generateID\<close> are arguments.
\<close>

record createAPIKeyRequest =
  car_Name :: string
  car_Role :: Role

record createAPIKeyResponse =
  cap_ID :: string
  cap_Name :: string
  cap_Role :: Role
  cap_Key :: string

definition not_configured :: "'a response" where
  "not_configured = Refuse 503 ''service_unavailable'' ''API key management not configured''"

definition handleCreateAPIKey ::
  "time \<Rightarrow> string \<times> string \<times> string \<Rightarrow> Server \<Rightarrow> go_error + createAPIKeyRequest \<Rightarrow> createAPIKeyResponse response \<times> Server" where
  "handleCreateAPIKey now generated s body =
    (case sv_apikeys s of None \<Rightarrow> (not_configured, s)
     | Some keys \<Rightarrow>
    (case body of Inl err \<Rightarrow> (Refuse 400 ''validation_failed'' (Error err), s)
     | Inr req \<Rightarrow>
    if car_Name req = [] then (Refuse 400 ''validation_failed'' ''name is required'', s)
    else let role = (if car_Role req = RoleOther [] then RoleViewer else car_Role req);
             (a, b, i) = generated;
             rawKey = a @ ''-'' @ b;
             key = \<lparr>ak_ID = i, ak_Name = car_Name req, ak_KeyHash = sv_hash s rawKey, ak_Role = role, ak_Active = True,
                    ak_CreatedAt = now, ak_LastUsed = None\<rparr>
         in (case APIKey_Create keys key of
               (Inl err, keys) \<Rightarrow> (Refuse 500 ''internal_error'' (Error err), s\<lparr>sv_apikeys := Some keys\<rparr>)
             | (Inr _, keys) \<Rightarrow>
                 (Reply 201 \<lparr>cap_ID = i, cap_Name = car_Name req, cap_Role = role, cap_Key = rawKey\<rparr>,
                  s\<lparr>sv_apikeys := Some keys\<rparr>))))"

definition handleListAPIKeys :: "Server \<Rightarrow> APIKey list response" where
  "handleListAPIKeys s =
    (case sv_apikeys s of None \<Rightarrow> not_configured | Some keys \<Rightarrow> Reply 200 (APIKey_List keys))"

definition handleRevokeAPIKey :: "Server \<Rightarrow> string \<Rightarrow> string response \<times> Server" where
  "handleRevokeAPIKey s i =
    (case sv_apikeys s of None \<Rightarrow> (not_configured, s)
     | Some keys \<Rightarrow>
    (case APIKey_Revoke keys i of
       (Inl err, keys) \<Rightarrow>
         (if as_not_found err then Refuse 404 ''not_found'' (Error (innermost err)) else Refuse 500 ''internal_error'' (Error err),
          s\<lparr>sv_apikeys := Some keys\<rparr>)
     | (Inr _, keys) \<Rightarrow> (Reply 200 ''revoked'', s\<lparr>sv_apikeys := Some keys\<rparr>)))"

subsection \<open>The limiter counts the accepted requests of the window\<close>

fun rate_run :: "rateLimiter \<Rightarrow> (string \<times> time) list \<Rightarrow> bool list" where
  "rate_run rl [] = []"
| "rate_run rl ((key, t) # calls) = (case allowAt rl key t of ((ok, _), rl') \<Rightarrow> ok # rate_run rl' calls)"

text \<open>The specification remembers every accepted request (\<open>acc\<close>) and forgets nothing.\<close>

fun rate_spec :: "int \<Rightarrow> duration \<Rightarrow> (string \<times> time) list \<Rightarrow> (string \<times> time) list \<Rightarrow> bool list" where
  "rate_spec limit window acc [] = []"
| "rate_spec limit window acc ((key, t) # calls) =
    (let ok = (int (length (filter (\<lambda>(k, u). k = key \<and> u > t - window) acc)) < limit)
     in ok # rate_spec limit window (if ok then acc @ [(key, t)] else acc) calls)"

definition accepted :: "(string \<times> time) list \<Rightarrow> string \<Rightarrow> time list" where
  "accepted acc key = map snd (filter (\<lambda>(k, u). k = key) acc)"

lemma accepted_snoc: "accepted (acc @ [(k, t)]) key = (if k = key then accepted acc key @ [t] else accepted acc key)"
  by (simp add: accepted_def)

lemma accepted_window: "length (filter (\<lambda>(k, u). k = key \<and> u > c) acc) = length (filter (\<lambda>u. u > c) (accepted acc key))"
  by (induction acc) (auto simp: accepted_def)

definition limiter_ok :: "rateLimiter \<Rightarrow> (string \<times> time) list \<Rightarrow> time \<Rightarrow> bool" where
  "limiter_ok rl acc clock \<longleftrightarrow> tbl_wf (rl_requests rl) \<and>
     (\<forall>key. sorted (requests_of rl key)) \<and>
     (\<forall>key c. c \<ge> clock - rl_window rl \<longrightarrow> filter (\<lambda>u. u > c) (requests_of rl key) = filter (\<lambda>u. u > c) (accepted acc key)) \<and>
     (\<forall>key u. u \<in> set (requests_of rl key) \<longrightarrow> u \<le> clock)"

lemma map_of_filter_wf:
  "tbl_wf t \<Longrightarrow> tbl_get (filter P t) k = (case tbl_get t k of None \<Rightarrow> None | Some v \<Rightarrow> if P (k, v) then Some v else None)"
proof (induction t)
  case (Cons p t)
  obtain a b where p: "p = (a, b)" by (cases p)
  with Cons.prems have "tbl_wf t" "tbl_get t a = None" by (auto simp: tbl_wf_def map_of_eq_None_iff)
  with Cons.IH p show ?case by (auto split: option.split)
qed simp

lemma sorted_last_bound: "sorted ts \<Longrightarrow> ts = [] \<or> \<not> last ts > (c :: int) \<Longrightarrow> filter (\<lambda>u. u > c) ts = []"
proof (cases "ts = []")
  case False
  assume "sorted ts" and "ts = [] \<or> \<not> last ts > c"
  then have "last ts \<le> c" using False by simp
  moreover have "\<forall>x \<in> set (butlast ts). x \<le> last ts"
    using \<open>sorted ts\<close> False sorted_append [of "butlast ts" "[last ts]"] by simp
  moreover have "set ts = set (butlast ts @ [last ts])" using False by simp
  ultimately have "\<forall>x \<in> set ts. x \<le> c" by force
  then show ?thesis by (force simp: filter_empty_conv)
qed simp

lemma sweep_ok:
  assumes ok: "limiter_ok rl acc clock" and now: "clock \<le> now"
  shows "limiter_ok (sweep now rl) acc now" and "rl_window (sweep now rl) = rl_window rl" and "rl_limit (sweep now rl) = rl_limit rl"
proof -
  show [simp]: "rl_window (sweep now rl) = rl_window rl" and "rl_limit (sweep now rl) = rl_limit rl" by (simp_all add: sweep_def)
  have wf: "tbl_wf (rl_requests rl)" and srt: "\<And>key. sorted (requests_of rl key)"
    and flt: "\<And>key c. c \<ge> clock - rl_window rl \<Longrightarrow> filter (\<lambda>u. u > c) (requests_of rl key) = filter (\<lambda>u. u > c) (accepted acc key)"
    and old: "\<And>key u. u \<in> set (requests_of rl key) \<Longrightarrow> u \<le> clock"
    using ok by (auto simp: limiter_ok_def)
  have "requests_of (sweep now rl) key = requests_of rl key \<or>
      requests_of (sweep now rl) key = [] \<and> (requests_of rl key = [] \<or> \<not> last (requests_of rl key) > now - rl_window rl)" for key
    by (auto simp: sweep_def requests_of_def map_of_filter_wf [OF wf] split: option.split)
  then have cases: "requests_of (sweep now rl) key = requests_of rl key \<or>
      requests_of (sweep now rl) key = [] \<and> filter (\<lambda>u. u > now - rl_window rl) (requests_of rl key) = []" for key
    using sorted_last_bound [OF srt] by blast
  have "filter (\<lambda>u. u > c) (requests_of (sweep now rl) key) = filter (\<lambda>u. u > c) (requests_of rl key)" if "c \<ge> now - rl_window rl" for c key
    using cases [of key] that by (fastforce simp: filter_empty_conv eq_commute [of "[]"])
  moreover have "c \<ge> clock - rl_window rl" if "c \<ge> now - rl_window rl" for c using that now by simp
  moreover have "tbl_wf (rl_requests (sweep now rl))"
    using wf by (auto simp: sweep_def tbl_wf_def distinct_map_filter)
  moreover have "sorted (requests_of (sweep now rl) key)" "u \<in> set (requests_of (sweep now rl) key) \<Longrightarrow> u \<le> now" for key u
    using cases [of key] srt [of key] old [of u key] now by auto
  ultimately show "limiter_ok (sweep now rl) acc now" by (simp add: limiter_ok_def flt)
qed

lemma allowAt_ok:
  assumes ok: "limiter_ok rl acc clock" and now: "clock \<le> now"
    and run: "allowAt rl key now = ((b, n), rl')"
  shows "b \<longleftrightarrow> int (length (filter (\<lambda>(k, u). k = key \<and> u > now - rl_window rl) acc)) < rl_limit rl"
    and "limiter_ok rl' (if b then acc @ [(key, now)] else acc) now"
    and "rl_window rl' = rl_window rl" and "rl_limit rl' = rl_limit rl"
proof -
  let ?w = "rl_window rl"
  let ?rl = "sweep now rl"
  let ?valid = "filter (\<lambda>t. t > now - ?w) (requests_of ?rl key)"
  note sw = sweep_ok [OF ok now]
  have valid: "?valid = filter (\<lambda>t. t > now - ?w) (accepted acc key)" using sw(1) by (simp add: limiter_ok_def sw(2))
  have b: "b \<longleftrightarrow> \<not> int (length ?valid) \<ge> rl_limit rl"
    and rl': "rl' = ?rl\<lparr>rl_requests := tbl_put key (?valid @ (if b then [now] else [])) (rl_requests ?rl)\<rparr>"
    using run by (auto simp: allowAt_def Let_def sw split: if_splits)
  show "b \<longleftrightarrow> int (length (filter (\<lambda>(k, u). k = key \<and> u > now - ?w) acc)) < rl_limit rl"
    unfolding accepted_window b valid by auto
  show "rl_window rl' = ?w" "rl_limit rl' = rl_limit rl" by (simp_all add: rl' sw)
  have req: "requests_of rl' k = (if k = key then ?valid @ (if b then [now] else []) else requests_of ?rl k)" for k
    by (simp add: rl' requests_of_def tbl_simps)
  have acc: "accepted (if b then acc @ [(key, now)] else acc) k = accepted acc k @ (if b \<and> k = key then [now] else [])" for k
    by (simp add: accepted_snoc)
  have ff: "filter (\<lambda>u. u > c) ?valid = filter (\<lambda>u. u > c) (accepted acc key)" if "c \<ge> now - ?w" for c
    unfolding valid using that by (auto intro: filter_cong)
  have srt: "sorted ?valid" "\<And>u. u \<in> set ?valid \<Longrightarrow> u \<le> now"
    using sw(1) by (auto simp: limiter_ok_def sorted_filter [where f = "\<lambda>x. x", simplified])
  show "limiter_ok rl' (if b then acc @ [(key, now)] else acc) now"
    unfolding limiter_ok_def req acc \<open>rl_window rl' = ?w\<close>
    using sw(1) ff srt unfolding limiter_ok_def sw(2) by (auto simp: rl' sorted_append)
qed

lemma rate_run_spec:
  "limiter_ok rl acc clock \<Longrightarrow> sorted (map snd calls) \<Longrightarrow> (\<And>c. c \<in> set calls \<Longrightarrow> clock \<le> snd c) \<Longrightarrow>
   rate_run rl calls = rate_spec (rl_limit rl) (rl_window rl) acc calls"
proof (induction calls arbitrary: rl acc clock)
  case (Cons call calls)
  obtain key t where c: "call = (key, t)" by (cases call)
  obtain b n rl' where run: "allowAt rl key t = ((b, n), rl')" by (metis prod.exhaust)
  have "clock \<le> t" using Cons.prems(3) [of call] c by simp
  note step = allowAt_ok [OF Cons.prems(1) this run]
  have "rate_run rl' calls = rate_spec (rl_limit rl') (rl_window rl') (if b then acc @ [(key, t)] else acc) calls"
    by (rule Cons.IH [OF step(2)]) (use Cons.prems(2) c in auto)
  with step show ?case by (simp add: c run Let_def)
qed simp

text \<open>
  C27. The rate limiter, which drops timestamps and whole keys as it goes, answers exactly as one that
  remembers everything: on any sequence of calls in the order of their times, a request is admitted if
  and only if fewer than \<open>limit\<close> requests of the same key have been admitted within the
  window before it.
\<close>

theorem rate_limiter_exact:
  assumes "sorted (map snd calls)"
  shows "rate_run (newRateLimiter limit window) calls = rate_spec limit window [] calls"
proof (cases calls)
  case (Cons c cs)
  have "limiter_ok (newRateLimiter limit window) [] (snd c)"
    by (simp add: limiter_ok_def newRateLimiter_def requests_of_def accepted_def)
  from rate_run_spec [OF this assms] assms Cons show ?thesis by (auto simp: newRateLimiter_def)
qed simp

theorem rate_limiter_exact_witness:
  "rate_run (newRateLimiter 2 10) [(''a'', 1), (''a'', 2), (''a'', 3), (''b'', 4), (''a'', 12)] = [True, True, False, True, True]"
proof -
  have "rate_spec 2 10 [] [(''a'', 1), (''a'', 2), (''a'', 3), (''b'', 4), (''a'', 12)] = [True, True, False, True, True]"
    by code_simp
  with rate_limiter_exact [of "[(''a'', 1), (''a'', 2), (''a'', 3), (''b'', 4), (''a'', 12)]" 2 10] show ?thesis by simp
qed

subsection \<open>The denylist remembers what has not expired\<close>

datatype deny_call = CallRevokeToken string duration | CallRevokeSession string duration | CallIsToken string | CallIsSession string

fun deny_run :: "InMemoryDenylist \<Rightarrow> (deny_call \<times> time) list \<Rightarrow> bool list" where
  "deny_run d [] = []"
| "deny_run d ((CallRevokeToken i ttl, t) # calls) = deny_run (RevokeToken t d i ttl) calls"
| "deny_run d ((CallRevokeSession i ttl, t) # calls) = deny_run (RevokeSession t d i ttl) calls"
| "deny_run d ((CallIsToken i, t) # calls) = (case IsTokenRevoked t d i of (b, d) \<Rightarrow> b # deny_run d calls)"
| "deny_run d ((CallIsSession i, t) # calls) = (case IsSessionRevoked t d i of (b, d) \<Rightarrow> b # deny_run d calls)"

text \<open>The specification: \<open>Inl\<close> is a token, \<open>Inr\<close> a session; \<open>past\<close> lists all revocations with the time they end.\<close>

fun deny_spec :: "((string + string) \<times> time) list \<Rightarrow> (deny_call \<times> time) list \<Rightarrow> bool list" where
  "deny_spec past [] = []"
| "deny_spec past ((CallRevokeToken i ttl, t) # calls) = deny_spec ((Inl i, t + ttl) # past) calls"
| "deny_spec past ((CallRevokeSession i ttl, t) # calls) = deny_spec ((Inr i, t + ttl) # past) calls"
| "deny_spec past ((CallIsToken i, t) # calls) = list_ex (\<lambda>(k, e). k = Inl i \<and> t \<le> e) past # deny_spec past calls"
| "deny_spec past ((CallIsSession i, t) # calls) = list_ex (\<lambda>(k, e). k = Inr i \<and> t \<le> e) past # deny_spec past calls"

definition deny_key :: "string + string \<Rightarrow> string" where
  "deny_key k = (case k of Inl i \<Rightarrow> ''token:'' @ i | Inr i \<Rightarrow> ''session:'' @ i)"

lemma deny_key_inj [simp]: "deny_key k = deny_key k' \<longleftrightarrow> k = k'"
  by (auto simp: deny_key_def split: sum.splits)

definition deny_ok :: "InMemoryDenylist \<Rightarrow> ((string + string) \<times> time) list \<Rightarrow> time \<Rightarrow> bool" where
  "deny_ok d past clock \<longleftrightarrow> (\<forall>k now. clock \<le> now \<longrightarrow>
     (\<exists>e. tbl_get d (deny_key k) = Some e \<and> now \<le> e) \<longleftrightarrow> (\<exists>e. (k, e) \<in> set past \<and> now \<le> e))"

lemma deny_ok_revoke:
  assumes ok: "deny_ok d past clock" and t: "clock \<le> t"
  shows "deny_ok (denylist_revoke t d (deny_key k) ttl) ((k, t + ttl) # past) t"
  unfolding deny_ok_def
proof (intro allI impI)
  fix k' now assume now: "t \<le> now"
  with t have past: "(\<exists>e. tbl_get d (deny_key x) = Some e \<and> now \<le> e) \<longleftrightarrow> (\<exists>e. (x, e) \<in> set past \<and> now \<le> e)" for x
    using ok by (simp add: deny_ok_def)
  have "(\<exists>e. tbl_get (denylist_revoke t d (deny_key k) ttl) (deny_key k') = Some e \<and> now \<le> e) \<longleftrightarrow>
      (k' = k \<and> now \<le> t + ttl) \<or> (\<exists>e. tbl_get d (deny_key k') = Some e \<and> now \<le> e)"
    by (auto simp: denylist_revoke_def Let_def tbl_simps split: option.split)
  then show "(\<exists>e. tbl_get (denylist_revoke t d (deny_key k) ttl) (deny_key k') = Some e \<and> now \<le> e) \<longleftrightarrow>
      (\<exists>e. (k', e) \<in> set ((k, t + ttl) # past) \<and> now \<le> e)"
    unfolding past by auto
qed

lemma deny_ok_ask:
  assumes ok: "deny_ok d past clock" and t: "clock \<le> t" and run: "denylist_isRevoked t d (deny_key k) = (b, d')"
  shows "b = list_ex (\<lambda>(k', e). k' = k \<and> t \<le> e) past" and "deny_ok d' past t"
proof -
  have at: "(\<exists>e. tbl_get d (deny_key x) = Some e \<and> now \<le> e) \<longleftrightarrow> (\<exists>e. (x, e) \<in> set past \<and> now \<le> e)" if "t \<le> now" for x now
    using ok t that by (simp add: deny_ok_def)
  have "b \<longleftrightarrow> (\<exists>e. tbl_get d (deny_key k) = Some e \<and> t \<le> e)"
    using run by (auto simp: denylist_isRevoked_def split: option.splits if_splits)
  then show "b = list_ex (\<lambda>(k', e). k' = k \<and> t \<le> e) past"
    unfolding at [OF order_refl] by (auto simp: list_ex_iff)
  have "(\<exists>e. tbl_get d' (deny_key x) = Some e \<and> now \<le> e) \<longleftrightarrow> (\<exists>e. tbl_get d (deny_key x) = Some e \<and> now \<le> e)" if "t \<le> now" for x now
    using run that by (auto simp: denylist_isRevoked_def delete_conv' split: option.splits if_splits)
  then show "deny_ok d' past t" unfolding deny_ok_def using at by blast
qed

lemma deny_run_spec:
  "deny_ok d past clock \<Longrightarrow> sorted (map snd calls) \<Longrightarrow> (\<And>c. c \<in> set calls \<Longrightarrow> clock \<le> snd c) \<Longrightarrow>
   deny_run d calls = deny_spec past calls"
proof (induction calls arbitrary: d past clock)
  case (Cons c calls)
  obtain call t where c: "c = (call, t)" by (cases c)
  have t: "clock \<le> t" using Cons.prems(3) [of c] c by simp
  have rest: "deny_run d' calls = deny_spec past' calls" if "deny_ok d' past' t" for d' past'
    by (rule Cons.IH [OF that]) (use Cons.prems(2) c in auto)
  have keys: "''token:'' @ i = deny_key (Inl i)" "''session:'' @ i = deny_key (Inr i)" for i by (simp_all add: deny_key_def)
  show ?case
  proof (cases call)
    case (CallRevokeToken i ttl)
    then show ?thesis using rest [OF deny_ok_revoke [OF Cons.prems(1) t]] by (simp add: c RevokeToken_def keys del: append.simps)
  next
    case (CallRevokeSession i ttl)
    then show ?thesis using rest [OF deny_ok_revoke [OF Cons.prems(1) t]] by (simp add: c RevokeSession_def keys del: append.simps)
  next
    case (CallIsToken i)
    obtain b d' where run: "denylist_isRevoked t d (deny_key (Inl i)) = (b, d')" by fastforce
    note deny_ok_ask [OF Cons.prems(1) t run]
    with rest run CallIsToken show ?thesis by (simp add: c IsTokenRevoked_def keys del: append.simps)
  next
    case (CallIsSession i)
    obtain b d' where run: "denylist_isRevoked t d (deny_key (Inr i)) = (b, d')" by fastforce
    note deny_ok_ask [OF Cons.prems(1) t run]
    with rest run CallIsSession show ?thesis by (simp add: c IsSessionRevoked_def keys del: append.simps)
  qed
qed simp

text \<open>
  C28. The denylist answers as a list of all revocations would: on any sequence of calls in the order of
  their times, a token (or session) counts as revoked exactly when one of its revocations has not run
  out yet. A shorter revocation never cuts a longer one, forgetting never
  loses a revocation that is still running, and tokens and sessions are never confused.
\<close>

theorem denylist_exact:
  assumes "sorted (map snd calls)"
  shows "deny_run [] calls = deny_spec [] calls"
proof (cases calls)
  case (Cons c cs)
  have "deny_ok [] [] (snd c)" by (simp add: deny_ok_def)
  from deny_run_spec [OF this assms] assms Cons show ?thesis by auto
qed simp

theorem denylist_exact_witness:
  "deny_run [] [(CallRevokeToken ''j'' 10, 1), (CallRevokeToken ''j'' 2, 2), (CallIsToken ''j'', 9), (CallIsSession ''j'', 9), (CallIsToken ''j'', 12)]
   = [True, False, False]"
proof -
  let ?calls = "[(CallRevokeToken ''j'' 10, 1), (CallRevokeToken ''j'' 2, 2), (CallIsToken ''j'', 9), (CallIsSession ''j'', 9), (CallIsToken ''j'', 12)]"
  have "deny_spec [] ?calls = [True, False, False]" by code_simp
  with denylist_exact [of ?calls] show ?thesis by simp
qed

subsection \<open>What an admitted request has proved\<close>

lemma authenticateAPIKey_Inr:
  assumes "authenticateAPIKey s keys header = Inr p"
  shows "\<exists>key. HasPrefix header ''Bearer '' \<and> tbl_get keys (sv_hash s (drop 7 header)) = Some key \<and> ak_Active key \<and>
    p = \<lparr>pl_Role = ak_Role key, pl_UserID = [], pl_APIKeyID = ak_ID key\<rparr>"
  using assms by (auto simp: authenticateAPIKey_def APIKey_GetByHash_def split: if_splits option.splits sum.splits)

text \<open>A session that may act: current claims of an active family and of an active user who still has the claimed role.\<close>

definition live_session :: "time \<Rightarrow> Server \<Rightarrow> Claims \<Rightarrow> bool" where
  "live_session now s claims \<longleftrightarrow> cl_SessionID claims \<noteq> [] \<and>
    (case (sv_tokens s, sv_users s) of
       (Some tokens, Some users) \<Rightarrow>
         IsFamilyActive now tokens (cl_SessionID claims) \<and>
         (case User_Get users (cl_UserID claims) of Inl _ \<Rightarrow> False | Inr user \<Rightarrow> us_Active user \<and> us_Role user = cl_Role claims)
     | _ \<Rightarrow> False) \<and>
    (case sv_denylist s of None \<Rightarrow> True
     | Some d \<Rightarrow> (cl_JTI claims \<noteq> [] \<longrightarrow> \<not> fst (IsTokenRevoked now d (cl_JTI claims))) \<and> \<not> fst (IsSessionRevoked now d (cl_SessionID claims)))"

lemma isRevoked_keeps_others:
  "k \<noteq> k' \<Longrightarrow> denylist_isRevoked now d k = (b, d') \<Longrightarrow> fst (denylist_isRevoked now d' k') = fst (denylist_isRevoked now d k')"
  by (auto simp: denylist_isRevoked_def delete_conv' split: option.splits if_splits)

lemma denied_None:
  "fst (denied now claims d) = None \<longleftrightarrow>
   (cl_JTI claims \<noteq> [] \<longrightarrow> \<not> fst (IsTokenRevoked now d (cl_JTI claims))) \<and> \<not> fst (IsSessionRevoked now d (cl_SessionID claims))"
proof -
  obtain b d' where run: "denylist_isRevoked now d (''token:'' @ cl_JTI claims) = (b, d')" by fastforce
  have "''token:'' @ cl_JTI claims \<noteq> ''session:'' @ cl_SessionID claims" by simp
  from isRevoked_keeps_others [OF this run] show ?thesis
    using run by (auto simp: denied_def IsTokenRevoked_def IsSessionRevoked_def split: prod.splits bool.splits)
qed

lemma authenticateJWT_Inr:
  assumes "authenticateJWT now s h token = (Inr p, s')"
  shows "\<exists>verify claims. sv_verify s = Some verify \<and> verify token = Some claims \<and> live_session now s claims \<and>
    (isSafeMethod (hr_Method h) \<or> csrfTokenMatches h) \<and>
    p = \<lparr>pl_Role = cl_Role claims, pl_UserID = cl_UserID claims, pl_APIKeyID = []\<rparr>"
proof -
  obtain verify claims tokens users where *: "sv_verify s = Some verify" "verify token = Some claims"
      "sv_tokens s = Some tokens" "sv_users s = Some users"
    using assms by (auto simp: authenticateJWT_def split: option.splits)
  show ?thesis
  proof (cases "sv_denylist s")
    case None
    with assms * show ?thesis
      by (auto simp: authenticateJWT_def live_session_def split: if_splits sum.splits)
  next
    case (Some d)
    with assms * denied_None [of now claims d] show ?thesis
      by (auto simp: authenticateJWT_def live_session_def split: if_splits sum.splits option.splits prod.splits)
  qed
qed

text \<open>
  C25. A request to a protected API route that the middleware lets through has proved who sends it. Either it is
  the bootstrap request, and no API key and no account exist yet; or it carries a key that is
  stored and active; or it carries a token with verified claims, whose session is not revoked, whose
  user is active and still has the claimed role, and, when it changes state, the CSRF token. The
  principal has the role of that key or account: administrators on admin routes,
  viewers only reading, unknown roles never.
\<close>

theorem admitted_request_proved:
  assumes keys: "sv_apikeys s = Some keys" and api: "HasPrefix (hr_Path h) ''/api/''" and "\<not> isPublicAuthPath h"
    and run: "authMiddleware now s h = (Inr admitted, s')"
  shows "case admitted of
      None \<Rightarrow> sv_bootstrapToken s \<noteq> [] \<and> hr_Method h = ''POST'' \<and> hr_Path h = ''/api/v1/admin/apikeys'' \<and>
        hr_Authorization h = ''Bearer '' @ sv_bootstrapToken s \<and> keys = [] \<and> sv_users s \<in> {None, Some []}
    | Some p \<Rightarrow>
        (pl_Role p = RoleAdmin \<or>
         \<not> HasPrefix (hr_Path h) ''/api/v1/admin/'' \<and> (pl_Role p = RoleAnalyst \<or> pl_Role p = RoleViewer \<and> hr_Method h = ''GET'')) \<and>
        ((\<exists>key. HasPrefix (hr_Authorization h) ''Bearer '' \<and> tbl_get keys (sv_hash s (drop 7 (hr_Authorization h))) = Some key \<and>
            ak_Active key \<and> p = \<lparr>pl_Role = ak_Role key, pl_UserID = [], pl_APIKeyID = ak_ID key\<rparr>) \<or>
         (\<exists>token verify claims. hr_Authorization h = [] \<and> hr_accessToken h = Some token \<and> sv_verify s = Some verify \<and>
            verify token = Some claims \<and> live_session now s claims \<and> (isSafeMethod (hr_Method h) \<or> csrfTokenMatches h) \<and>
            p = \<lparr>pl_Role = cl_Role claims, pl_UserID = cl_UserID claims, pl_APIKeyID = []\<rparr>))"
proof (cases admitted)
  case None
  have "hr_Path h \<notin> {''/healthz'', ''/healthz/live'', ''/healthz/ready''}" "\<not> isPublicSPARequest h"
    using api by (auto simp: HasPrefix_def isPublicSPARequest_def isReservedServerPath_def)
  with run keys assms(3) None show ?thesis
    by (auto simp: authMiddleware_def bootstrapTokenAllowed_def APIKey_List_def User_Count_def
        split: if_splits prod.splits sum.splits option.splits)
next
  case (Some p)
  with run keys have auth: "authenticate now s keys h = (Inr p, s')"
    and role: "\<not> (HasPrefix (hr_Path h) ''/api/v1/admin/'' \<and> pl_Role p \<noteq> RoleAdmin)"
      "hasPermission (pl_Role p) (hr_Method h) (hr_Path h)"
    by (auto simp: authMiddleware_def split: if_splits prod.splits sum.splits)
  from role have "pl_Role p = RoleAdmin \<or>
      \<not> HasPrefix (hr_Path h) ''/api/v1/admin/'' \<and> (pl_Role p = RoleAnalyst \<or> pl_Role p = RoleViewer \<and> hr_Method h = ''GET'')"
    by (cases "pl_Role p") auto
  moreover have "authenticateAPIKey s keys (hr_Authorization h) = Inr p \<or>
      hr_Authorization h = [] \<and> (\<exists>token. hr_accessToken h = Some token \<and> authenticateJWT now s h token = (Inr p, s'))"
    using auth by (auto simp: authenticate_def split: if_splits option.splits)
  ultimately show ?thesis
    using authenticateAPIKey_Inr [of s keys "hr_Authorization h" p] authenticateJWT_Inr [of now s h _ p s'] Some by fastforce
qed

definition sample_server :: Server where
  "sample_server = \<lparr>sv_apikeys = Some [(''h:k1'', \<lparr>ak_ID = ''K1'', ak_Name = ''ci'', ak_KeyHash = ''h:k1'', ak_Role = RoleAnalyst,
      ak_Active = True, ak_CreatedAt = 1, ak_LastUsed = None\<rparr>)],
    sv_users = Some [], sv_tokens = Some [], sv_denylist = Some [], sv_verify = None, sv_hash = (\<lambda>x. ''h:'' @ x),
    sv_bootstrapToken = ''boot''\<rparr>"

definition sample_post :: http_request where
  "sample_post = \<lparr>hr_Method = ''POST'', hr_Path = ''/api/v1/alerts'', hr_pattern = ''POST /api/v1/alerts'',
    hr_Authorization = ''Bearer k1'', hr_accessToken = None, hr_csrfCookie = None, hr_csrfHeader = []\<rparr>"

theorem admitted_request_proved_witness:
  "fst (authMiddleware 5 sample_server sample_post) = Inr (Some \<lparr>pl_Role = RoleAnalyst, pl_UserID = [], pl_APIKeyID = ''K1''\<rparr>) \<and>
   (\<exists>key. sv_apikeys sample_server = Some [(''h:k1'', key)] \<and> ak_Active key \<and> ak_Role key = RoleAnalyst)"
proof -
  let ?p = "\<lparr>pl_Role = RoleAnalyst, pl_UserID = [], pl_APIKeyID = ''K1''\<rparr>"
  obtain key where keys: "sv_apikeys sample_server = Some [(''h:k1'', key)]" by (simp add: sample_server_def)
  obtain s' where run: "authMiddleware 5 sample_server sample_post = (Inr (Some ?p), s')"
    by (simp add: authMiddleware_def authenticate_def authenticateAPIKey_def APIKey_GetByHash_def HasPrefix_def
        isPublicSPARequest_def isPublicAuthPath_def sample_server_def sample_post_def)
  have "HasPrefix (hr_Path sample_post) ''/api/''" "\<not> isPublicAuthPath sample_post"
    unfolding sample_post_def by code_simp+
  from admitted_request_proved [OF keys this run] keys run show ?thesis
    by (auto simp: sample_server_def sample_post_def split: if_splits)
qed

subsection \<open>The life of an API key\<close>

text \<open>
  The administrator's requests, and a history of them. The generated texts are fresh when neither the
  hash of the key nor the identifier is stored.
\<close>

datatype key_request =
  CreateKey time "string \<times> string \<times> string" "go_error + createAPIKeyRequest"
| RevokeKey string

fun key_run :: "Server \<Rightarrow> key_request list \<Rightarrow> Server" where
  "key_run s [] = s"
| "key_run s (CreateKey now generated body # reqs) = key_run (snd (handleCreateAPIKey now generated s body)) reqs"
| "key_run s (RevokeKey i # reqs) = key_run (snd (handleRevokeAPIKey s i)) reqs"

definition key_fresh :: "Server \<Rightarrow> key_request \<Rightarrow> bool" where
  "key_fresh s q = (case (q, sv_apikeys s) of
      (CreateKey now (a, b, i) body, Some keys) \<Rightarrow> tbl_get keys (sv_hash s (a @ ''-'' @ b)) = None \<and> i \<notin> ak_ID ` set (tbl_vals keys)
    | _ \<Rightarrow> True)"

fun key_fresh_run :: "Server \<Rightarrow> key_request list \<Rightarrow> bool" where
  "key_fresh_run s [] = True"
| "key_fresh_run s (q # reqs) \<longleftrightarrow> key_fresh s q \<and> key_fresh_run (key_run s [q]) reqs"

definition keys_ok :: "MemoryAPIKeyRepo \<Rightarrow> bool" where
  "keys_ok keys \<longleftrightarrow> tbl_wf keys \<and> distinct (map ak_ID (tbl_vals keys))"

lemma revoke_first_None: "revoke_first i r = None \<longleftrightarrow> i \<notin> ak_ID ` set (tbl_vals r)"
  by (induction i r rule: revoke_first.induct) auto

definition deactivate :: "string \<Rightarrow> APIKey \<Rightarrow> APIKey" where
  "deactivate i k = (if ak_ID k = i then k\<lparr>ak_Active := False\<rparr> else k)"

lemma deactivate_ID [simp]: "ak_ID (deactivate i k) = ak_ID k"
  by (simp add: deactivate_def)

lemma deactivate_absent: "i \<notin> ak_ID ` set (tbl_vals r) \<Longrightarrow> tbl_map (deactivate i) r = r"
  by (induction r) (auto simp: tbl_map_def deactivate_def)

lemma revoke_first_eq: "revoke_first i r = Some r' \<Longrightarrow> distinct (map ak_ID (tbl_vals r)) \<Longrightarrow> r' = tbl_map (deactivate i) r"
proof (induction i r arbitrary: r' rule: revoke_first.induct)
  case (2 i h k r)
  then show ?case
    using deactivate_absent [of i r] by (auto simp: tbl_map_def deactivate_def image_image split: if_splits)
qed simp

lemma revoke_keeps:
  assumes "keys_ok keys" and "APIKey_Revoke keys j = (res, keys')"
  shows "keys' = tbl_map (deactivate j) keys"
proof (cases "revoke_first j keys")
  case None
  with assms(2) deactivate_absent [of j keys] show ?thesis by (simp add: APIKey_Revoke_def revoke_first_None)
next
  case (Some r')
  with assms revoke_first_eq show ?thesis by (auto simp: APIKey_Revoke_def keys_ok_def)
qed

lemma key_step:
  assumes "sv_apikeys s = Some keys" and "keys_ok keys" and "key_fresh s q"
  shows "\<exists>keys'. sv_apikeys (key_run s [q]) = Some keys' \<and> sv_hash (key_run s [q]) = sv_hash s \<and> keys_ok keys' \<and>
    (\<forall>h k. tbl_get keys h = Some k \<longrightarrow> tbl_get keys' h = Some (if q = RevokeKey (ak_ID k) then deactivate (ak_ID k) k else k))"
proof (cases q)
  case (RevokeKey j)
  obtain res keys' where run: "APIKey_Revoke keys j = (res, keys')" by fastforce
  note keys' = revoke_keeps [OF assms(2) run]
  have "sv_apikeys (key_run s [q]) = Some keys' \<and> sv_hash (key_run s [q]) = sv_hash s"
    using assms(1) run by (simp add: RevokeKey handleRevokeAPIKey_def split: sum.split)
  moreover have "map ak_ID (tbl_vals keys') = map ak_ID (tbl_vals keys)" unfolding keys' by simp
  then have "keys_ok keys'" using assms(2) by (simp only: keys_ok_def) (simp add: keys')
  ultimately show ?thesis by (auto simp: RevokeKey deactivate_def keys' tbl_simps)
next
  case (CreateKey now generated body)
  obtain a b i where g: "generated = (a, b, i)" by (metis prod_cases3)
  have fresh: "tbl_get keys (sv_hash s (a @ ''-'' @ b)) = None" "i \<notin> ak_ID ` set (tbl_vals keys)"
    using assms(1,3) by (simp_all add: key_fresh_def CreateKey g)
  consider "sv_apikeys (key_run s [q]) = Some keys" "sv_hash (key_run s [q]) = sv_hash s" | req where "body = Inr req" "car_Name req \<noteq> []"
  proof (cases "\<exists>req. body = Inr req \<and> car_Name req \<noteq> []")
    case False
    then have "snd (handleCreateAPIKey now generated s body) = s" using assms(1) by (cases body) (simp_all add: handleCreateAPIKey_def)
    with assms(1) that(1) show ?thesis by (simp add: CreateKey)
  qed (use that(2) in blast)
  then show ?thesis
  proof cases
    case 1
    with assms(2) show ?thesis by (auto simp: CreateKey)
  next
    case 2
    define key where "key = \<lparr>ak_ID = i, ak_Name = car_Name req, ak_KeyHash = sv_hash s (a @ ''-'' @ b),
      ak_Role = (if car_Role req = RoleOther [] then RoleViewer else car_Role req), ak_Active = True, ak_CreatedAt = now, ak_LastUsed = None\<rparr>"
    have key: "ak_ID key = i" "sv_apikeys (key_run s [q]) = Some (tbl_put (sv_hash s (a @ ''-'' @ b)) key keys)"
        "sv_hash (key_run s [q]) = sv_hash s"
      using assms(1) 2 by (simp_all add: CreateKey g handleCreateAPIKey_def APIKey_Create_def key_def Let_def)
    have "tbl_vals (tbl_put (sv_hash s (a @ ''-'' @ b)) key keys) = tbl_vals keys @ [key]"
      unfolding tbl_put_new [OF fresh(1)] by simp
    then have "keys_ok (tbl_put (sv_hash s (a @ ''-'' @ b)) key keys)"
      using assms(2) fresh(2) key(1) unfolding keys_ok_def by (simp del: map_map)
    with key fresh(1) show ?thesis by (auto simp: CreateKey tbl_simps)
  qed
qed

lemma key_history:
  assumes "sv_apikeys s = Some keys" and "keys_ok keys" and "key_fresh_run s reqs"
  shows "\<exists>keys'. sv_apikeys (key_run s reqs) = Some keys' \<and> sv_hash (key_run s reqs) = sv_hash s \<and> keys_ok keys' \<and>
    (\<forall>h k. tbl_get keys h = Some k \<longrightarrow> tbl_get keys' h = Some (if RevokeKey (ak_ID k) \<in> set reqs then deactivate (ak_ID k) k else k))"
  using assms
proof (induction reqs arbitrary: s keys)
  case (Cons q reqs)
  have run: "key_run s (q # reqs) = key_run (key_run s [q]) reqs" by (cases q) simp_all
  from Cons.prems(3) have fr: "key_fresh s q" "key_fresh_run (key_run s [q]) reqs" by simp_all
  from key_step [OF Cons.prems(1,2) fr(1)] obtain keys1 where k1: "sv_apikeys (key_run s [q]) = Some keys1"
      "sv_hash (key_run s [q]) = sv_hash s" "keys_ok keys1"
      "\<forall>h k. tbl_get keys h = Some k \<longrightarrow> tbl_get keys1 h = Some (if q = RevokeKey (ak_ID k) then deactivate (ak_ID k) k else k)" by blast
  from Cons.IH [OF k1(1,3) fr(2)] obtain keys2 where k2: "sv_apikeys (key_run s (q # reqs)) = Some keys2"
      "sv_hash (key_run s (q # reqs)) = sv_hash s" "keys_ok keys2"
      "\<forall>h k. tbl_get keys1 h = Some k \<longrightarrow> tbl_get keys2 h = Some (if RevokeKey (ak_ID k) \<in> set reqs then deactivate (ak_ID k) k else k)"
    unfolding run k1(2) by blast
  have "tbl_get keys2 h = Some (if RevokeKey (ak_ID k) \<in> set (q # reqs) then deactivate (ak_ID k) k else k)" if "tbl_get keys h = Some k" for h k
    using k1(4) [rule_format, OF that] k2(4) by (cases "q = RevokeKey (ak_ID k)") (auto simp: deactivate_def)
  with k2 show ?case by blast
qed auto

lemma key_run_append: "key_run s (xs @ ys) = key_run (key_run s xs) ys"
proof (induction xs arbitrary: s)
  case (Cons q xs)
  then show ?case by (cases q) simp_all
qed simp

lemma key_fresh_run_append: "key_fresh_run s (xs @ ys) \<longleftrightarrow> key_fresh_run s xs \<and> key_fresh_run (key_run s xs) ys"
proof (induction xs arbitrary: s)
  case (Cons q xs)
  then show ?case by (cases q) simp_all
qed simp

text \<open>
  C26. The life of an API key, over any history of the administrator's requests that starts without keys
  and in which the generated texts and identifiers are fresh. The answer to the creation of a key
  carries its text; at any later moment this text, sent as a bearer token, authenticates with the
  created identifier and the requested role (viewer if none is given) if no request since has revoked
  that identifier, and is refused as revoked if one has, whichever other keys were created or revoked
  before, in between or afterwards.
\<close>

theorem api_key_life:
  assumes "sv_apikeys s = Some []" and "car_Name req \<noteq> []"
    and fresh: "key_fresh_run s (earlier @ CreateKey now (a, b, i) (Inr req) # later)"
    and create: "handleCreateAPIKey now (a, b, i) (key_run s earlier) (Inr req) = (answer, s1)"
  shows "\<exists>role keys. role = (if car_Role req = RoleOther [] then RoleViewer else car_Role req) \<and>
    answer = Reply 201 \<lparr>cap_ID = i, cap_Name = car_Name req, cap_Role = role, cap_Key = a @ ''-'' @ b\<rparr> \<and>
    sv_apikeys (key_run s1 later) = Some keys \<and>
    authenticateAPIKey (key_run s1 later) keys (''Bearer '' @ a @ ''-'' @ b) =
      (if RevokeKey i \<in> set later then Inl (unauthorized ''API key revoked'') else Inr \<lparr>pl_Role = role, pl_UserID = [], pl_APIKeyID = i\<rparr>)"
proof -
  define role where "role = (if car_Role req = RoleOther [] then RoleViewer else car_Role req)"
  define key where "key = \<lparr>ak_ID = i, ak_Name = car_Name req, ak_KeyHash = sv_hash s (a @ ''-'' @ b), ak_Role = role, ak_Active = True,
    ak_CreatedAt = now, ak_LastUsed = None\<rparr>"
  have "keys_ok []" by (simp add: keys_ok_def)
  with key_history [OF assms(1), of earlier] fresh obtain keys where keys: "sv_apikeys (key_run s earlier) = Some keys"
      "sv_hash (key_run s earlier) = sv_hash s" "keys_ok keys" by (auto simp: key_fresh_run_append)
  let ?q = "CreateKey now (a, b, i) (Inr req)"
  have s1: "s1 = key_run (key_run s earlier) [?q]" using create by simp
  have f: "key_fresh (key_run s earlier) ?q" "key_fresh_run s1 later" using fresh s1 by (simp_all add: key_fresh_run_append)
  from key_step [OF keys(1,3) f(1)] obtain keys1 where k1: "sv_apikeys s1 = Some keys1" "sv_hash s1 = sv_hash s" "keys_ok keys1"
    unfolding s1 [symmetric] keys(2) by auto
  have ans: "answer = Reply 201 \<lparr>cap_ID = i, cap_Name = car_Name req, cap_Role = role, cap_Key = a @ ''-'' @ b\<rparr>"
    and new: "tbl_get keys1 (sv_hash s (a @ ''-'' @ b)) = Some key"
    using create assms(2) k1(1) keys by (auto simp: handleCreateAPIKey_def APIKey_Create_def key_def role_def tbl_simps Let_def)
  from key_history [OF k1(1,3) f(2)] obtain keys2 where k2: "sv_apikeys (key_run s1 later) = Some keys2"
      "sv_hash (key_run s1 later) = sv_hash s"
      "tbl_get keys2 (sv_hash s (a @ ''-'' @ b)) = Some (if RevokeKey (ak_ID key) \<in> set later then deactivate (ak_ID key) key else key)"
    using new unfolding k1(2) by blast
  have "authenticateAPIKey (key_run s1 later) keys2 (''Bearer '' @ a @ ''-'' @ b) =
      (if RevokeKey i \<in> set later then Inl (unauthorized ''API key revoked'') else Inr \<lparr>pl_Role = role, pl_UserID = [], pl_APIKeyID = i\<rparr>)"
    using k2 by (simp add: authenticateAPIKey_def APIKey_GetByHash_def HasPrefix_def key_def deactivate_def)
  with ans k2(1) show ?thesis unfolding role_def by blast
qed

theorem api_key_life_witness:
  "\<exists>keys. sv_apikeys (key_run (sample_server\<lparr>sv_apikeys := Some []\<rparr>) [CreateKey 9 (''x'', ''y'', ''K2'') (Inr \<lparr>car_Name = ''new'', car_Role = RoleOther []\<rparr>),
        CreateKey 9 (''u'', ''v'', ''K3'') (Inr \<lparr>car_Name = ''other'', car_Role = RoleAdmin\<rparr>), RevokeKey ''K3'']) = Some keys \<and>
    authenticateAPIKey (key_run (sample_server\<lparr>sv_apikeys := Some []\<rparr>) [CreateKey 9 (''x'', ''y'', ''K2'') (Inr \<lparr>car_Name = ''new'', car_Role = RoleOther []\<rparr>),
        CreateKey 9 (''u'', ''v'', ''K3'') (Inr \<lparr>car_Name = ''other'', car_Role = RoleAdmin\<rparr>), RevokeKey ''K3'']) keys ''Bearer x-y'' =
      Inr \<lparr>pl_Role = RoleViewer, pl_UserID = [], pl_APIKeyID = ''K2''\<rparr>"
proof -
  let ?s = "sample_server\<lparr>sv_apikeys := Some []\<rparr>" and ?req = "\<lparr>car_Name = ''new'', car_Role = RoleOther []\<rparr>"
  let ?later = "[CreateKey 9 (''u'', ''v'', ''K3'') (Inr \<lparr>car_Name = ''other'', car_Role = RoleAdmin\<rparr>), RevokeKey ''K3'']"
  have "sv_apikeys ?s = Some []" "car_Name ?req \<noteq> []" by simp_all
  moreover have "key_fresh_run ?s ([] @ CreateKey 9 (''x'', ''y'', ''K2'') (Inr ?req) # ?later)"
    by (simp add: key_fresh_def handleCreateAPIKey_def APIKey_Create_def sample_server_def Let_def)
  moreover obtain answer s1 where "handleCreateAPIKey 9 (''x'', ''y'', ''K2'') (key_run ?s []) (Inr ?req) = (answer, s1)" by fastforce
  ultimately show ?thesis using api_key_life [of ?s ?req "[]" 9 "''x''" "''y''" "''K2''" ?later answer s1] by auto
qed

end
