(* ===== verification/Outcome_Matching.thy ===== *)
theory Outcome_Matching
  imports Case_Lifecycle Customers Detection
begin

text \<open>
  The matcher that backtests and coverage analyses share (\<^verbatim>\<open>outcome/matcher.go\<close>): detections of a replay are
  assigned one to one to alerts of the past, best overlap first, and labelled by what became of
  those alerts. The theorems show that the assignment is the only stable one and that the result does not
  depend on the order in which detections and alerts arrive.
\<close>

subsection \<open>Data\<close>

definition MatcherVersion :: string where "MatcherVersion = ''outcome-matcher-v2''"

datatype Label = LabelTP | LabelFP | LabelUnlabeled | LabelUnevaluable

fun Label_string :: "Label \<Rightarrow> string" where
  "Label_string LabelTP = ''TP''"
| "Label_string LabelFP = ''FP''"
| "Label_string LabelUnlabeled = ''unlabeled''"
| "Label_string LabelUnevaluable = ''unevaluable''"

datatype Mode = ModeBacktest | ModeCoverage | ModeOther string

definition MetricTransactions :: string where "MetricTransactions = ''transaction_jaccard''"
definition MetricInterval :: string where "MetricInterval = ''interval_overlap''"

record outcome_detection =
  dt_ID :: string
  dt_CustomerID :: string
  dt_ScenarioID :: string
  dt_TransactionIDs :: "string list"
  dt_WindowFrom :: "time option"
  dt_WindowTo :: "time option"
  dt_DetectedAt :: time
  dt_ScoreTier :: RiskTier
  dt_ScoreTierKnown :: bool

record AlertDecisionEvent =
  ad_ID :: string
  ad_AlertID :: string
  ad_FromStatus :: AlertStatus
  ad_ToStatus :: AlertStatus
  ad_Outcome :: string
  ad_Rationale :: string
  ad_Actor :: string
  ad_SupersedesID :: string
  ad_CreatedAt :: time

record HistoricalState =
  hs_AlertStatus :: AlertStatus
  hs_Decision :: "AlertDecisionEvent option"
  hs_CaseStatus :: CaseStatus
  hs_STRFiled :: bool
  hs_ScoreTier :: RiskTier
  hs_ScoreTierKnown :: bool

record outcome_reference = outcome_detection +
  rf_State :: HistoricalState
  rf_Provenance :: "string tbl"

record match_options =
  mo_Mode :: Mode
  mo_SnapshotAt :: time
  mo_MinOverlap :: float64
  mo_ResolveScoreTier :: "(string \<Rightarrow> time \<Rightarrow> RiskTier \<times> bool) option"

record outcome_match =
  mx_CandidateID :: string
  mx_ReferenceID :: string
  mx_CustomerID :: string
  mx_ScenarioID :: string
  mx_Score :: float64
  mx_Metric :: string
  mx_TimeDeltaMS :: int

record match_provenance =
  mp_MatcherVersion :: string
  mp_Mode :: Mode
  mp_SnapshotAt :: time
  mp_Assumptions :: "string list"
  mp_Source :: "string tbl"

record outcome_evaluation =
  el_CandidateID :: string
  el_ReferenceID :: string
  el_CustomerID :: string
  el_ScenarioID :: string
  el_Label :: Label
  el_Match :: "outcome_match option"
  el_ScoreTier :: RiskTier
  el_Denominator :: bool
  el_Provenance :: match_provenance

record match_result =
  res_MatcherVersion :: string
  res_Mode :: Mode
  res_SnapshotAt :: time
  res_Assumptions :: "string list"
  res_Matches :: "outcome_match list"
  res_Evaluations :: "outcome_evaluation list"
  res_UnmatchedCandidates :: "string list"
  res_UnmatchedReferences :: "string list"
  res_Denominator :: int

subsection \<open>Overlap of two detections\<close>

definition uniqueIDs :: "string list \<Rightarrow> string list" where
  "uniqueIDs xs = remdups (filter (\<lambda>x. x \<noteq> []) xs)"

definition uniqueSorted :: "string list \<Rightarrow> string list" where
  "uniqueSorted xs = sort (uniqueIDs xs)"

definition jaccard :: "string list \<Rightarrow> string list \<Rightarrow> float64" where
  "jaccard left right =
    (let a = uniqueIDs left; b = uniqueIDs right in
     if a = [] \<or> b = [] then F64 (- 1)
     else let intersection = int (length (filter (\<lambda>x. x \<in> set b) a));
              union = int (length a) + int (length b) - intersection
          in if union = 0 then F64 (- 1) else f64_div (f64_of_int intersection) (f64_of_int union))"

definition intervalOverlap :: "time option \<Rightarrow> time option \<Rightarrow> time option \<Rightarrow> time option \<Rightarrow> float64 option" where
  "intervalOverlap leftFrom leftTo rightFrom rightTo =
    (case (leftFrom, leftTo, rightFrom, rightTo) of
       (Some lf, Some lt, Some rf, Some rt) \<Rightarrow>
         if lt < lf \<or> rt < rf then None
         else let leftDuration = Sub lt lf; rightDuration = Sub rt rf in
           if leftDuration = 0 \<and> rightDuration = 0 then Some (if lf = rf then F64 1 else F64 0)
           else let from' = (if rf > lf then rf else lf);
                    to' = (if rt < lt then rt else lt) in
             if \<not> to' > from' then Some (F64 0)
             else let shorter = (if rightDuration < leftDuration then rightDuration else leftDuration) in
               if shorter \<le> 0 then Some (F64 0)
               else Some (f64_div (f64_of_int (Sub to' from')) (f64_of_int shorter))
     | _ \<Rightarrow> None)"

definition overlap :: "('a) outcome_detection_scheme \<Rightarrow> ('b) outcome_detection_scheme \<Rightarrow> (string \<times> float64) option" where
  "overlap candidate reference =
    (let score = jaccard (dt_TransactionIDs candidate) (dt_TransactionIDs reference) in
     if dt_TransactionIDs candidate \<noteq> [] \<and> dt_TransactionIDs reference \<noteq> [] \<and> f64_le (F64 0) score
     then Some (MetricTransactions, score)
     else map_option (Pair MetricInterval)
       (intervalOverlap (dt_WindowFrom candidate) (dt_WindowTo candidate) (dt_WindowFrom reference) (dt_WindowTo reference)))"

definition compatible :: "('a) outcome_detection_scheme \<Rightarrow> ('b) outcome_detection_scheme \<Rightarrow> Mode \<Rightarrow> bool" where
  "compatible candidate reference mode \<longleftrightarrow>
     dt_CustomerID candidate \<noteq> [] \<and> dt_CustomerID candidate = dt_CustomerID reference \<and>
     (mode \<noteq> ModeBacktest \<or> dt_ScenarioID candidate = dt_ScenarioID reference)"

text \<open>The negation of the least duration wraps around.\<close>

definition timeDelta :: "time \<Rightarrow> time \<Rightarrow> int" where
  "timeDelta left right =
    (if IsZero left \<or> IsZero right then 2 ^ 63 - 1
     else let delta = Sub left right; delta = (if delta < 0 then int64 (- delta) else delta)
          in quot delta 1000000)"

definition afterSnapshot :: "time \<Rightarrow> time \<Rightarrow> bool" where
  "afterSnapshot t snapshot \<longleftrightarrow> \<not> IsZero snapshot \<and> \<not> IsZero t \<and> t > snapshot"

definition normalise :: "('a) outcome_detection_scheme \<Rightarrow> ('a) outcome_detection_scheme" where
  "normalise d = d\<lparr>dt_TransactionIDs := uniqueSorted (dt_TransactionIDs d)\<rparr>"

definition filterCandidates :: "('a) outcome_detection_scheme list \<Rightarrow> time \<Rightarrow> ('a) outcome_detection_scheme list" where
  "filterCandidates input snapshot =
     map normalise (filter (\<lambda>d. \<not> afterSnapshot (dt_DetectedAt d) snapshot) input)"

definition LabelFromState :: "HistoricalState \<Rightarrow> Label" where
  "LabelFromState state =
    (if \<not> hs_ScoreTierKnown state \<or> hs_ScoreTier state = RiskTierOther [] then LabelUnevaluable
     else let status = (case hs_Decision state of Some d \<Rightarrow> ad_ToStatus d | None \<Rightarrow> hs_AlertStatus state) in
       if status = AlertStatusClosedTruePositive then LabelTP
       else if status = AlertStatusClosedFalsePositive then LabelFP
       else if hs_STRFiled state \<or> hs_CaseStatus state = CaseStatusEscalated \<or> hs_CaseStatus state = CaseStatusStrFiled then LabelTP
       else LabelUnlabeled)"

fun tier_at :: "time \<Rightarrow> ScoreRecord option \<Rightarrow> ScoreRecord list \<Rightarrow> ScoreRecord option" where
  "tier_at moment selected [] = selected"
| "tier_at moment selected (r # records) = tier_at moment
    (if IsZero (sc_ScoredAt r) \<or> sc_ScoredAt r > moment \<or> sc_Tier r = RiskTierOther [] then selected
     else case selected of None \<Rightarrow> Some r
       | Some s \<Rightarrow> if sc_ScoredAt r > sc_ScoredAt s \<or> sc_ScoredAt r = sc_ScoredAt s \<and> sc_ID r > sc_ID s then Some r else selected) records"

definition TierAt :: "ScoreRecord list \<Rightarrow> time \<Rightarrow> RiskTier \<times> bool" where
  "TierAt records moment =
    (case tier_at moment None records of None \<Rightarrow> (RiskTierOther [], False) | Some r \<Rightarrow> (sc_Tier r, True))"

subsection \<open>The assignment\<close>

record proposal =
  po_candidate :: outcome_detection
  po_reference :: outcome_reference
  po_metric :: string
  po_score :: float64

definition propose :: "match_options \<Rightarrow> outcome_detection list \<Rightarrow> outcome_reference list \<Rightarrow> proposal list" where
  "propose options candidates references =
     concat (map (\<lambda>c. concat (map (\<lambda>r.
       if \<not> compatible c r (mo_Mode options) then []
       else (case overlap c r of
           Some (metric, score) \<Rightarrow>
             if f64_le (mo_MinOverlap options) score
             then [\<lparr>po_candidate = c, po_reference = r, po_metric = metric, po_score = score\<rparr>] else []
         | None \<Rightarrow> [])) references)) candidates)"

definition proposal_delta :: "proposal \<Rightarrow> int" where
  "proposal_delta p = timeDelta (dt_DetectedAt (po_candidate p)) (dt_DetectedAt (po_reference p))"

definition proposal_less :: "proposal \<Rightarrow> proposal \<Rightarrow> bool" where
  "proposal_less p q =
    (if \<not> f64_eq (po_score p) (po_score q) then f64_lt (po_score q) (po_score p)
     else if proposal_delta p \<noteq> proposal_delta q then proposal_delta p < proposal_delta q
     else if dt_ID (po_candidate p) \<noteq> dt_ID (po_candidate q) then dt_ID (po_candidate p) < dt_ID (po_candidate q)
     else dt_ID (po_reference p) < dt_ID (po_reference q))"

fun assign :: "string list \<Rightarrow> string list \<Rightarrow> proposal list \<Rightarrow> proposal list" where
  "assign usedCandidates usedReferences [] = []"
| "assign usedCandidates usedReferences (p # ps) =
    (if dt_ID (po_candidate p) \<in> set usedCandidates \<or> dt_ID (po_reference p) \<in> set usedReferences
     then assign usedCandidates usedReferences ps
     else p # assign (dt_ID (po_candidate p) # usedCandidates) (dt_ID (po_reference p) # usedReferences) ps)"

definition match_of :: "proposal \<Rightarrow> outcome_match" where
  "match_of p = \<lparr>mx_CandidateID = dt_ID (po_candidate p), mx_ReferenceID = dt_ID (po_reference p),
     mx_CustomerID = dt_CustomerID (po_candidate p), mx_ScenarioID = dt_ScenarioID (po_candidate p),
     mx_Score = po_score p, mx_Metric = po_metric p, mx_TimeDeltaMS = proposal_delta p\<rparr>"

definition match_assumptions :: "Mode \<Rightarrow> string list" where
  "match_assumptions mode =
     [''alert is the primary matching granularity'',
      ''transaction-set Jaccard is authoritative when both sides provide transaction IDs; interval overlap is used only when either side lacks IDs'',
      ''candidate threshold is inclusive at 0.50'',
      ''one-to-one assignment sorts overlap descending, time delta ascending, then IDs'',
      ''unlabeled and unevaluable observations are excluded from rates''] @
     (if mode = ModeBacktest then [''backtest requires customer and scenario equality'']
      else [''coverage permits scenario-union matching within a customer''])"

definition candidate_tier :: "match_options \<Rightarrow> outcome_detection \<Rightarrow> RiskTier \<times> bool" where
  "candidate_tier options c =
    (if dt_ScoreTierKnown c then (dt_ScoreTier c, True)
     else (case mo_ResolveScoreTier options of
         Some resolve \<Rightarrow> resolve (dt_CustomerID c) (dt_DetectedAt c)
       | None \<Rightarrow> (dt_ScoreTier c, False)))"

definition evaluate_candidate ::
  "match_options \<Rightarrow> outcome_reference tbl \<Rightarrow> outcome_match tbl \<Rightarrow> outcome_detection \<Rightarrow> outcome_evaluation" where
  "evaluate_candidate options referencesByID matched c =
    (let item = tbl_get matched (dt_ID c);
         (tier, known) = candidate_tier options c;
         (label, source) =
           (case item of
              Some m \<Rightarrow> (case tbl_get referencesByID (mx_ReferenceID m) of
                  Some r \<Rightarrow> (if known then LabelFromState (rf_State r) else LabelUnevaluable, rf_Provenance r)
                | None \<Rightarrow> (LabelUnevaluable, []))
            | None \<Rightarrow> (if known then LabelUnlabeled else LabelUnevaluable, []))
     in \<lparr>el_CandidateID = dt_ID c, el_ReferenceID = (case item of Some m \<Rightarrow> mx_ReferenceID m | None \<Rightarrow> []),
         el_CustomerID = dt_CustomerID c, el_ScenarioID = dt_ScenarioID c, el_Label = label, el_Match = item,
         el_ScoreTier = tier, el_Denominator = (label = LabelTP \<or> label = LabelFP),
         el_Provenance = \<lparr>mp_MatcherVersion = MatcherVersion, mp_Mode = mo_Mode options, mp_SnapshotAt = mo_SnapshotAt options,
           mp_Assumptions = match_assumptions (mo_Mode options), mp_Source = source\<rparr>\<rparr>)"

definition default_options :: "match_options \<Rightarrow> match_options" where
  "default_options options = options
     \<lparr>mo_Mode := (if mo_Mode options = ModeOther [] then ModeBacktest else mo_Mode options),
      mo_MinOverlap := (if f64_le (mo_MinOverlap options) (F64 0) \<or> f64_lt (F64 1) (mo_MinOverlap options)
                        then F64 (1 / 2) else mo_MinOverlap options)\<rparr>"

definition id_less :: "('a) outcome_detection_scheme \<Rightarrow> ('a) outcome_detection_scheme \<Rightarrow> bool" where
  "id_less x y \<longleftrightarrow> dt_ID x < dt_ID y"

definition match_detections :: "outcome_detection list \<Rightarrow> outcome_reference list \<Rightarrow> match_options \<Rightarrow> match_result" where
  "match_detections candidates references options =
    (let options = default_options options;
         snapshot = mo_SnapshotAt options;
         cands = go_sort id_less (filterCandidates candidates snapshot);
         refs = go_sort id_less (filterCandidates references snapshot);
         referencesByID = foldl (\<lambda>m r. tbl_put (dt_ID r) r m) [] refs;
         chosen = assign [] [] (go_sort proposal_less (propose options cands refs));
         matched = foldl (\<lambda>m p. tbl_put (dt_ID (po_candidate p)) (match_of p) m) [] chosen;
         evaluations = map (evaluate_candidate options referencesByID matched) cands
     in \<lparr>res_MatcherVersion = MatcherVersion, res_Mode = mo_Mode options, res_SnapshotAt = snapshot,
         res_Assumptions = match_assumptions (mo_Mode options),
         res_Matches = go_sort (\<lambda>x y. mx_CandidateID x < mx_CandidateID y) (map match_of chosen),
         res_Evaluations = evaluations,
         res_UnmatchedCandidates = map dt_ID (filter (\<lambda>c. tbl_get matched (dt_ID c) = None) cands),
         res_UnmatchedReferences = map dt_ID (filter (\<lambda>r. dt_ID r \<notin> set (map (\<lambda>p. dt_ID (po_reference p)) chosen)) refs),
         res_Denominator = int (length (filter el_Denominator evaluations))\<rparr>)"

definition NewMatcher :: "match_options \<Rightarrow> match_options" where
  "NewMatcher options = default_options options"

definition MatchAlerts :: "outcome_detection list \<Rightarrow> outcome_reference list \<Rightarrow> match_options \<Rightarrow> match_result" where
  "MatchAlerts candidates references options = match_detections candidates references (NewMatcher options)"

subsection \<open>The assignment is the stable one\<close>

abbreviation cand :: "proposal \<Rightarrow> string" where "cand p \<equiv> dt_ID (po_candidate p)"
abbreviation refr :: "proposal \<Rightarrow> string" where "refr p \<equiv> dt_ID (po_reference p)"

text \<open>The pairs that may be matched, over the detections and alerts as they were given.\<close>

definition eligible_pairs :: "match_options \<Rightarrow> outcome_detection list \<Rightarrow> outcome_reference list \<Rightarrow> proposal set" where
  "eligible_pairs options candidates references =
    {p. \<exists>c \<in> set candidates. \<exists>r \<in> set references. po_candidate p = normalise c \<and> po_reference p = normalise r \<and>
       \<not> afterSnapshot (dt_DetectedAt c) (mo_SnapshotAt options) \<and> \<not> afterSnapshot (dt_DetectedAt r) (mo_SnapshotAt options) \<and>
       compatible c r (mo_Mode options) \<and> overlap (normalise c) (normalise r) = Some (po_metric p, po_score p) \<and>
       f64_le (mo_MinOverlap options) (po_score p)}"

definition stable_assignment :: "proposal set \<Rightarrow> proposal set \<Rightarrow> bool" where
  "stable_assignment E M \<longleftrightarrow> M \<subseteq> E \<and> inj_on cand M \<and> inj_on refr M \<and>
     (\<forall>p \<in> E - M. \<exists>q \<in> M. proposal_less q p \<and> (cand q = cand p \<or> refr q = refr p))"

lemma dt_normalise [simp]:
  "dt_ID (normalise d) = dt_ID d" "dt_DetectedAt (normalise d) = dt_DetectedAt d" "compatible (normalise c) (normalise r) m = compatible c r m"
  by (simp_all add: normalise_def compatible_def)

text \<open>Without NaN the comparator is a strict order; pairs with a NaN score are never proposed.\<close>

definition clamp :: "proposal \<Rightarrow> proposal" where
  "clamp p = (if po_score p = F64_NaN then p\<lparr>po_score := F64 0\<rparr> else p)"

lemma f64_lt_total: "x \<noteq> F64_NaN \<Longrightarrow> y \<noteq> F64_NaN \<Longrightarrow> x = y \<or> f64_lt x y \<or> f64_lt y x"
  by (cases x; cases y) auto

lemma clamp_score [simp]: "po_score (clamp p) \<noteq> F64_NaN"
  by (simp add: clamp_def)

lemma go_less_measure: "go_less (\<lambda>x y. (f x :: 'b :: linorder) < f y)"
  by unfold_locales auto

lemma go_less_lex:
  assumes "go_less lt" and "go_less lt'"
  shows "go_less (\<lambda>x y. lt x y \<or> \<not> lt y x \<and> lt' x y)"
proof
  note lt = go_less.lt_irrefl [OF assms(1)] go_less.lt_irrefl [OF assms(2)]
    and tr = go_less.lt_trans [OF assms(1)] go_less.lt_trans [OF assms(2)]
    and sp = go_less.lt_split [OF assms(1)] go_less.lt_split [OF assms(2)]
  show "\<not> (lt x x \<or> \<not> lt x x \<and> lt' x x)" for x using lt by blast
  show "lt x z \<or> \<not> lt z x \<and> lt' x z" if "lt x y \<or> \<not> lt y x \<and> lt' x y" "lt y z \<or> \<not> lt z y \<and> lt' y z" for x y z
  proof -
    have "lt x y \<Longrightarrow> lt x z \<or> lt z y" "lt y z \<Longrightarrow> lt y x \<or> lt x z" "lt z x \<Longrightarrow> lt z y \<or> lt y x" by (fact sp(1))+
    with that tr(1) [of x y z] tr(2) [of x y z] show ?thesis by argo
  qed
  show "(lt x y \<or> \<not> lt y x \<and> lt' x y) \<or> (lt y z \<or> \<not> lt z y \<and> lt' y z)" if "lt x z \<or> \<not> lt z x \<and> lt' x z" for x y z
  proof -
    have "lt y x \<Longrightarrow> lt y z \<or> lt z x" "lt z y \<Longrightarrow> lt z x \<or> lt x y" "lt x z \<Longrightarrow> lt x y \<or> lt y z" by (fact sp(1))+
    with that sp(2) [of x z y] show ?thesis by argo
  qed
qed

lemma go_less_score: "go_less (\<lambda>p q. f64_lt (po_score (clamp q)) (po_score (clamp p)))"
proof
  show "f64_lt (po_score (clamp y)) (po_score (clamp x)) \<or> f64_lt (po_score (clamp z)) (po_score (clamp y))"
    if "f64_lt (po_score (clamp z)) (po_score (clamp x))" for x y z
    using that f64_lt_total [of "po_score (clamp x)" "po_score (clamp y)"] f64_lt_trans by auto
qed (auto dest: f64_lt_trans)

lemma proposal_less_lex:
  "proposal_less (clamp p) (clamp q) \<longleftrightarrow>
     f64_lt (po_score (clamp q)) (po_score (clamp p)) \<or> \<not> f64_lt (po_score (clamp p)) (po_score (clamp q)) \<and>
     (proposal_delta (clamp p) < proposal_delta (clamp q) \<or> \<not> proposal_delta (clamp q) < proposal_delta (clamp p) \<and>
      (cand (clamp p) < cand (clamp q) \<or> \<not> cand (clamp q) < cand (clamp p) \<and> refr (clamp p) < refr (clamp q)))"
  using f64_lt_total [of "po_score (clamp p)" "po_score (clamp q)"]
  by (auto simp: proposal_less_def f64_eq_def dest: f64_lt_trans)

interpretation best: go_less "\<lambda>p q. proposal_less (clamp p) (clamp q)"
  unfolding proposal_less_lex by (intro go_less_lex go_less_score go_less_measure)

lemma go_sort_cong:
  "(\<And>x y. x \<in> set xs \<Longrightarrow> y \<in> set xs \<Longrightarrow> lt x y = lt' x y) \<Longrightarrow> go_sort lt xs = go_sort lt' xs"
proof (induction xs)
  case (Cons x xs)
  have "set ys \<subseteq> set xs \<Longrightarrow> go_insert lt x ys = go_insert lt' x ys" for ys
    using Cons.prems by (induction ys) auto
  with Cons show ?case by simp
qed simp

lemma assign_subset: "set (assign uc ur ps) \<subseteq> set ps"
  by (induction uc ur ps rule: assign.induct) auto

lemma assign_one_to_one:
  "distinct (map cand (assign uc ur ps)) \<and> cand ` set (assign uc ur ps) \<inter> set uc = {} \<and>
   distinct (map refr (assign uc ur ps)) \<and> refr ` set (assign uc ur ps) \<inter> set ur = {}"
  by (induction uc ur ps rule: assign.induct) auto

lemma assign_blocked:
  "sorted_wrt P ps \<Longrightarrow> p \<in> set ps \<Longrightarrow> p \<notin> set (assign uc ur ps) \<Longrightarrow> cand p \<in> set uc \<or> refr p \<in> set ur \<or>
   (\<exists>q \<in> set (assign uc ur ps). P q p \<and> (cand q = cand p \<or> refr q = refr p))"
proof (induction uc ur ps rule: assign.induct)
  case (2 uc ur x ps)
  show ?case
  proof (cases "cand x \<in> set uc \<or> refr x \<in> set ur")
    case True
    with 2 show ?thesis by auto
  next
    case False
    with 2 show ?thesis by auto
  qed
qed simp

lemma stable_unique:
  assumes fin: "finite E"
    and asym: "asymp_on E proposal_less" and trans: "transp_on E proposal_less"
    and tot: "\<And>p q. p \<in> E \<Longrightarrow> q \<in> E \<Longrightarrow> p \<noteq> q \<Longrightarrow> proposal_less p q \<or> proposal_less q p"
    and M: "stable_assignment E M" and N: "stable_assignment E N"
  shows "M = N"
proof (rule ccontr)
  let ?D = "(M - N) \<union> (N - M)"
  assume "M \<noteq> N"
  moreover have sub: "?D \<subseteq> E" using M N by (auto simp: stable_assignment_def)
  ultimately obtain p where p: "p \<in> ?D" and least: "\<And>q. q \<in> ?D \<Longrightarrow> q \<noteq> p \<Longrightarrow> \<not> proposal_less q p"
    using Finite_Set.bex_min_element [of ?D proposal_less] finite_subset [OF sub fin] asymp_on_subset [OF asym sub] transp_on_subset [OF trans sub] by blast
  have False if X: "stable_assignment E X" and Y: "stable_assignment E Y" and p: "p \<in> X - Y" and XY: "(X - Y) \<union> (Y - X) = ?D" for X Y
  proof -
    have "p \<in> E - Y" using p X by (auto simp: stable_assignment_def)
    then obtain q where q: "q \<in> Y" "proposal_less q p" "cand q = cand p \<or> refr q = refr p"
      using Y by (auto simp: stable_assignment_def)
    have "q \<noteq> p" using q(1) p by blast
    then have "q \<in> X" using least [of q] q(1,2) XY by blast
    with q(3) p X \<open>q \<noteq> p\<close> show False by (auto simp: stable_assignment_def dest: inj_onD)
  qed
  from this [of M N] this [of N M] p M N show False by blast
qed

lemma in_propose: "p \<in> set (propose options cs rs) \<longleftrightarrow>
    po_candidate p \<in> set cs \<and> po_reference p \<in> set rs \<and> compatible (po_candidate p) (po_reference p) (mo_Mode options) \<and>
    overlap (po_candidate p) (po_reference p) = Some (po_metric p, po_score p) \<and> f64_le (mo_MinOverlap options) (po_score p)"
  by (cases p) (auto simp: propose_def split: option.split; force)

lemma set_filterCandidates:
  "set (filterCandidates xs t) = {normalise x | x. x \<in> set xs \<and> \<not> afterSnapshot (dt_DetectedAt x) t}"
  by (auto simp: filterCandidates_def)

lemma propose_eligible:
  "set (propose options (go_sort lt (filterCandidates cs (mo_SnapshotAt options))) (go_sort lt' (filterCandidates rs (mo_SnapshotAt options)))) =
   eligible_pairs options cs rs" (is "?L = _")
proof (intro equalityI subsetI)
  fix p assume "p \<in> ?L"
  then obtain c r where "po_candidate p = normalise c" "c \<in> set cs" "\<not> afterSnapshot (dt_DetectedAt c) (mo_SnapshotAt options)"
      and "po_reference p = normalise r" "r \<in> set rs" "\<not> afterSnapshot (dt_DetectedAt r) (mo_SnapshotAt options)"
      and "compatible (po_candidate p) (po_reference p) (mo_Mode options)"
        "overlap (po_candidate p) (po_reference p) = Some (po_metric p, po_score p)" "f64_le (mo_MinOverlap options) (po_score p)"
    unfolding in_propose set_filterCandidates set_go_sort by blast
  then show "p \<in> eligible_pairs options cs rs"
    unfolding eligible_pairs_def mem_Collect_eq by (intro bexI [where x = c] bexI [where x = r]) simp_all
qed (auto simp: in_propose set_filterCandidates eligible_pairs_def)

lemma distinct_filterCandidates: "distinct (map dt_ID xs) \<Longrightarrow> distinct (map dt_ID (filterCandidates xs t))"
  by (simp add: filterCandidates_def comp_def distinct_map_filter)

lemma eligible_ids:
  assumes "distinct (map dt_ID cs)" and "distinct (map dt_ID rs)" and "p \<in> eligible_pairs options cs rs" and "q \<in> eligible_pairs options cs rs"
    and "cand p = cand q" and "refr p = refr q"
  shows "p = q"
proof -
  obtain c r c' r' where *: "c \<in> set cs" "c' \<in> set cs" "r \<in> set rs" "r' \<in> set rs"
      "po_candidate p = normalise c" "po_reference p = normalise r" "po_candidate q = normalise c'" "po_reference q = normalise r'"
      "overlap (normalise c) (normalise r) = Some (po_metric p, po_score p)"
      "overlap (normalise c') (normalise r') = Some (po_metric q, po_score q)"
    using assms(3,4) unfolding eligible_pairs_def by blast
  then have "c = c'" "r = r'" using assms(1,2,5,6) by (auto simp: distinct_map dest: inj_onD)
  with * show ?thesis by (auto intro: proposal.equality)
qed

lemma eligible_order:
  fixes options :: match_options
  assumes "distinct (map dt_ID cs)" and "distinct (map dt_ID rs)"
  defines "E \<equiv> eligible_pairs options cs rs"
  shows "p \<in> E \<Longrightarrow> clamp p = p" and "asymp_on E proposal_less" and "transp_on E proposal_less"
    and "p \<in> E \<Longrightarrow> q \<in> E \<Longrightarrow> p \<noteq> q \<Longrightarrow> proposal_less p q \<or> proposal_less q p"
proof -
  show clamp: "clamp p = p" if "p \<in> E" for p
  proof -
    have "\<not> f64_le x F64_NaN" for x by (cases x) (simp_all add: f64_le_def f64_eq_def)
    then have "po_score p \<noteq> F64_NaN" using that by (auto simp: E_def eligible_pairs_def)
    then show ?thesis by (simp add: clamp_def)
  qed
  show "asymp_on E proposal_less" by (rule asymp_onI) (metis clamp best.lt_asym)
  show "transp_on E proposal_less" by (rule transp_onI) (metis clamp best.lt_trans)
  show "proposal_less p q \<or> proposal_less q p" if "p \<in> E" "q \<in> E" "p \<noteq> q"
  proof -
    have "cand p \<noteq> cand q \<or> refr p \<noteq> refr q" using eligible_ids [OF assms(1,2)] that unfolding E_def by blast
    then show ?thesis using proposal_less_lex [of p q] proposal_less_lex [of q p] clamp [OF that(1)] clamp [OF that(2)] by auto
  qed
qed

text \<open>The assignment of \<open>match_detections\<close> on its own.\<close>

definition chosen_pairs :: "match_options \<Rightarrow> outcome_detection list \<Rightarrow> outcome_reference list \<Rightarrow> proposal list" where
  "chosen_pairs options cs rs = assign [] [] (go_sort proposal_less (propose options
     (go_sort id_less (filterCandidates cs (mo_SnapshotAt options))) (go_sort id_less (filterCandidates rs (mo_SnapshotAt options)))))"

lemma chosen_stable:
  assumes dist: "distinct (map dt_ID cs)" "distinct (map dt_ID rs)"
  shows "stable_assignment (eligible_pairs options cs rs) (set (chosen_pairs options cs rs))"
proof -
  let ?ps = "propose options (go_sort id_less (filterCandidates cs (mo_SnapshotAt options)))
    (go_sort id_less (filterCandidates rs (mo_SnapshotAt options)))"
  let ?E = "eligible_pairs options cs rs"
  have E: "set ?ps = ?E" by (rule propose_eligible)
  note order = eligible_order [OF dist, where options = options]
  have "go_sort proposal_less ?ps = go_sort (\<lambda>p q. proposal_less (clamp p) (clamp q)) ?ps"
    by (rule go_sort_cong) (simp add: E order(1))
  then have "sorted_wrt (\<lambda>p q. \<not> proposal_less (clamp q) (clamp p)) (go_sort proposal_less ?ps)"
    using best.go_sort_sorted by simp
  note blocked = assign_blocked [OF this, of _ "[]" "[]"]
  have sub: "set (chosen_pairs options cs rs) \<subseteq> ?E"
    using assign_subset [of "[]" "[]" "go_sort proposal_less ?ps"] by (simp add: chosen_pairs_def E)
  moreover have "\<exists>q \<in> set (chosen_pairs options cs rs). proposal_less q p \<and> (cand q = cand p \<or> refr q = refr p)"
    if p: "p \<in> ?E - set (chosen_pairs options cs rs)" for p
  proof -
    obtain q where q: "q \<in> set (chosen_pairs options cs rs)" "\<not> proposal_less (clamp p) (clamp q)" "cand q = cand p \<or> refr q = refr p"
      using blocked [of p] p by (auto simp: chosen_pairs_def E)
    then have "q \<noteq> p" "q \<in> ?E" using p sub by auto
    then show ?thesis using order(1) [of p] order(1) [of q] order(4) [of p q] q p by auto
  qed
  ultimately show ?thesis
    using assign_one_to_one [of "[]" "[]" "go_sort proposal_less ?ps"] unfolding stable_assignment_def chosen_pairs_def
    by (auto simp: distinct_map)
qed

lemma finite_eligible: "finite (eligible_pairs options cs rs)"
  unfolding propose_eligible [symmetric, where lt = id_less and lt' = id_less] by simp

text \<open>
  C29. The matcher finds the one stable assignment. Among the pairs of a detection and an alert that may
  be matched (both known at the snapshot, same customer, in a backtest the same scenario, overlap at
  least the threshold) there is exactly one choice that uses no detection and no alert twice and leaves
  out a pair only in favour of a chosen pair that is strictly better and shares the detection or the
  alert; the matches reported, in the order of the detections, are that choice. Better means more
  overlap, then closer in time, then smaller identifiers.
\<close>

theorem matching_stable:
  assumes "distinct (map dt_ID candidates)" and "distinct (map dt_ID references)"
  shows "\<exists>M. (\<forall>N. stable_assignment (eligible_pairs (default_options options) candidates references) N \<longleftrightarrow> N = M) \<and>
    set (res_Matches (match_detections candidates references options)) = match_of ` M \<and>
    sorted_wrt (\<lambda>x y. mx_CandidateID x < mx_CandidateID y) (res_Matches (match_detections candidates references options))"
proof (intro exI conjI allI)
  let ?o = "default_options options"
  let ?M = "chosen_pairs ?o candidates references"
  note order = eligible_order [OF assms, where options = ?o]
  show "stable_assignment (eligible_pairs ?o candidates references) N \<longleftrightarrow> N = set ?M" for N
    using chosen_stable [OF assms] stable_unique [OF finite_eligible order(2-4)] by blast
  have matches: "res_Matches (match_detections candidates references options) =
      go_sort (\<lambda>x y. mx_CandidateID x < mx_CandidateID y) (map match_of ?M)"
    by (simp add: match_detections_def chosen_pairs_def Let_def)
  then show "set (res_Matches (match_detections candidates references options)) = match_of ` set ?M" by simp
  have inj: "distinct (map mx_CandidateID (map match_of ?M))"
    using assign_one_to_one [of "[]" "[]"] unfolding chosen_pairs_def by (simp add: match_of_def comp_def)
  then have "distinct (map match_of ?M)" by (simp only: distinct_map)
  moreover have "mx_CandidateID x < mx_CandidateID y \<or> mx_CandidateID y < mx_CandidateID x"
    if "x \<in> set (map match_of ?M)" "y \<in> set (map match_of ?M)" "x \<noteq> y" for x y
    using that inj unfolding distinct_map [of mx_CandidateID] by (metis inj_onD neq_iff)
  ultimately show "sorted_wrt (\<lambda>x y. mx_CandidateID x < mx_CandidateID y) (res_Matches (match_detections candidates references options))"
    unfolding matches
    by (intro go_less.sorted_strict [OF go_less_measure go_less.go_sort_sorted [OF go_less_measure]]) simp_all
qed

definition sample_detection :: "string \<Rightarrow> string list \<Rightarrow> time \<Rightarrow> outcome_detection" where
  "sample_detection i txns t = \<lparr>dt_ID = i, dt_CustomerID = ''c1'', dt_ScenarioID = ''s1'', dt_TransactionIDs = txns,
    dt_WindowFrom = None, dt_WindowTo = None, dt_DetectedAt = t, dt_ScoreTier = RiskTierHigh, dt_ScoreTierKnown = True\<rparr>"

definition sample_reference :: "string \<Rightarrow> string list \<Rightarrow> AlertStatus \<Rightarrow> outcome_reference" where
  "sample_reference i txns status = outcome_detection.extend (sample_detection i txns 5)
    \<lparr>rf_State = \<lparr>hs_AlertStatus = status, hs_Decision = None, hs_CaseStatus = CaseStatusOther [], hs_STRFiled = False,
       hs_ScoreTier = RiskTierHigh, hs_ScoreTierKnown = True\<rparr>, rf_Provenance = []\<rparr>"

definition sample_candidates :: "outcome_detection list" where
  "sample_candidates = [sample_detection ''d2'' [''t1'', ''t2'', ''t3''] 9, sample_detection ''d1'' [''t1'', ''t2''] 9]"

definition sample_references :: "outcome_reference list" where
  "sample_references = [sample_reference ''a1'' [''t1'', ''t2'', ''t3''] AlertStatusClosedTruePositive,
     sample_reference ''a2'' [''t1'', ''t2'', ''t4''] AlertStatusClosedFalsePositive]"

definition sample_match_options :: match_options where
  "sample_match_options = \<lparr>mo_Mode = ModeBacktest, mo_SnapshotAt = 100, mo_MinOverlap = F64 0, mo_ResolveScoreTier = None\<rparr>"

lemma sample_ids: "distinct (map dt_ID sample_candidates)" "distinct (map dt_ID sample_references)"
  by code_simp+

theorem matching_stable_witness:
  "map (\<lambda>m. (mx_CandidateID m, mx_ReferenceID m)) (res_Matches (match_detections sample_candidates sample_references sample_match_options)) =
     [(''d1'', ''a2''), (''d2'', ''a1'')] \<and>
   (\<exists>M. stable_assignment (eligible_pairs (default_options sample_match_options) sample_candidates sample_references) M \<and>
     set (res_Matches (match_detections sample_candidates sample_references sample_match_options)) = match_of ` M)"
proof
  show "map (\<lambda>m. (mx_CandidateID m, mx_ReferenceID m)) (res_Matches (match_detections sample_candidates sample_references sample_match_options)) =
     [(''d1'', ''a2''), (''d2'', ''a1'')]" by code_simp
  from matching_stable [OF sample_ids, of sample_match_options]
  show "\<exists>M. stable_assignment (eligible_pairs (default_options sample_match_options) sample_candidates sample_references) M \<and>
     set (res_Matches (match_detections sample_candidates sample_references sample_match_options)) = match_of ` M" by blast
qed

subsection \<open>The result does not depend on the order of the input\<close>

lemma sort_by_id:
  assumes "mset xs = mset ys" and "distinct (map dt_ID xs)"
  shows "go_sort id_less (filterCandidates xs t) = go_sort id_less (filterCandidates ys t)"
proof -
  have "mset (filterCandidates xs t) = mset (filterCandidates ys t)"
    using assms(1) by (simp add: filterCandidates_def mset_filter)
  moreover have "id_less x y \<or> id_less y x" if "x \<in> set (filterCandidates xs t)" "y \<in> set (filterCandidates xs t)" "x \<noteq> y" for x y
    using that distinct_filterCandidates [OF assms(2), of t] unfolding distinct_map id_less_def by (metis inj_onD neq_iff)
  ultimately show ?thesis
    using go_less.go_sort_unique [OF go_less_measure, of "filterCandidates xs t" "filterCandidates ys t" dt_ID]
    unfolding id_less_def [abs_def] by blast
qed

text \<open>
  Matching is deterministic: detections and alerts that arrive in another order give the
  same matches, the same evaluations with the same labels in the same order, the same unmatched identifiers and the same
  denominator.
\<close>

theorem matching_order_free:
  assumes "mset candidates = mset candidates'" and "mset references = mset references'"
    and "distinct (map dt_ID candidates)" and "distinct (map dt_ID references)"
  shows "match_detections candidates references options = match_detections candidates' references' options"
  unfolding match_detections_def by (simp only: sort_by_id [OF assms(1,3)] sort_by_id [OF assms(2,4)])

theorem matching_order_free_witness:
  "match_detections (rev sample_candidates) (rev sample_references) sample_match_options =
   match_detections sample_candidates sample_references sample_match_options"
proof (rule matching_order_free)
  show "distinct (map dt_ID (rev sample_candidates))" "distinct (map dt_ID (rev sample_references))" by code_simp+
qed simp_all

end
