(* ===== verification/Reports.thy ===== *)
theory Reports
  imports Case_Lifecycle Customers Transactions Requests
begin

text \<open>
  Suspicious transaction reports: the repository (\<^verbatim>\<open>store/report_memory.go\<close>, \<^verbatim>\<open>domain/report.go\<close>) and what
  the handlers do before they store and before they export (\<^verbatim>\<open>server/report.go\<close>). The theorems show that
  a submitted report never changes and a draft only in its wording, and that every report the create
  handler drafts passes the check its export will make.
\<close>

subsection \<open>Data\<close>

record STRTransactionSnapshot =
  ts_ID :: string
  ts_ExternalID :: string
  ts_Amount :: float64
  ts_Currency :: string
  ts_Direction :: TransactionDirection
  ts_CounterpartyID :: string
  ts_CounterpartyCountry :: string
  ts_Channel :: string
  ts_AccountID :: "string option"
  ts_Counterparty :: "Counterparty option"
  ts_Metadata :: "(string \<times> any) list"
  ts_ExecutedAt :: time
  ts_CreatedAt :: time

record STRAlertSnapshot =
  sas_ID :: string
  sas_CustomerID :: string
  sas_ScenarioID :: string
  sas_Severity :: AlertSeverity
  sas_Status :: AlertStatus
  sas_Score :: float64
  sas_Description :: string
  sas_TransactionIDs :: "string list"
  sas_DetectedAt :: time

record STRCustomerSnapshot =
  scs_ID :: string
  scs_ExternalID :: string
  scs_CustomerType :: CustomerType
  scs_CountryCode :: string

record STRReport =
  str_ID :: string
  str_AlertID :: string
  str_CustomerID :: string
  str_CaseID :: string
  str_CorrectsReportID :: string
  str_SupersedesReportID :: string
  str_ReportType :: ReportType
  str_Status :: ReportStatus
  str_SuspiciousPoint :: string
  str_AlertSnapshot :: STRAlertSnapshot
  str_CustomerSnapshot :: STRCustomerSnapshot
  str_TransactionIDs :: "string list"
  str_TransactionSnapshot :: "STRTransactionSnapshot list"
  str_TotalAmount :: float64
  str_Currency :: string
  str_CreatedAt :: time
  str_UpdatedAt :: time
  str_SubmittedAt :: "time option"
  str_CreatedBy :: string
  str_SubmittedBy :: string
  str_SubmissionEvidence :: string

record STRReportEvent =
  ste_ID :: string
  ste_ReportID :: string
  ste_EventType :: string
  ste_Actor :: string
  ste_Reason :: string
  ste_Before :: "(string \<times> any) list"
  ste_After :: "(string \<times> any) list"
  ste_CorrelationID :: string
  ste_CreatedAt :: time

record ReportListFilter =
  rlf_Status :: ReportStatus
  rlf_CustomerID :: string
  rlf_AlertID :: string
  rlf_Cursor :: "Cursor option"
  rlf_Limit :: int
  rlf_Offset :: int

record MemorySTRReportRepo =
  rr_data :: "STRReport tbl"
  rr_events :: "STRReportEvent list"
  rr_eventFailure :: "go_error option"

definition NewMemorySTRReportRepo :: MemorySTRReportRepo where
  "NewMemorySTRReportRepo = \<lparr>rr_data = [], rr_events = [], rr_eventFailure = None\<rparr>"

subsection \<open>The repository\<close>

definition normalizeReportEventIdentifiers :: "STRReportEvent \<Rightarrow> STRReportEvent" where
  "normalizeReportEventIdentifiers e = e\<lparr>ste_ID := CanonicalIdentifier (ste_ID e), ste_ReportID := CanonicalIdentifier (ste_ReportID e)\<rparr>"

definition AppendReportEvent :: "time \<Rightarrow> MemorySTRReportRepo \<Rightarrow> STRReportEvent option \<Rightarrow> unit result \<times> MemorySTRReportRepo" where
  "AppendReportEvent now r event =
    (case event of None \<Rightarrow> (Inl (ErrText ''STR report event is nil''), r)
     | Some e \<Rightarrow>
    if TrimSpace (ste_ID e) = [] then (Inl (ErrText ''STR report event id is required''), r)
    else let e = normalizeReportEventIdentifiers e in
    (case rr_eventFailure r of Some err \<Rightarrow> (Inl err, r)
     | None \<Rightarrow>
    if list_ex (\<lambda>x. ste_ID x = ste_ID e) (rr_events r)
    then (Inl (ErrConflict ''str_report_event'' (ste_ID e) ''event already exists''), r)
    else (Inr (), r\<lparr>rr_events := rr_events r @
       [e\<lparr>ste_CreatedAt := (if IsZero (ste_CreatedAt e) then Truncate now Microsecond else ste_CreatedAt e)\<rparr>]\<rparr>)))"

definition ListReportEvents :: "MemorySTRReportRepo \<Rightarrow> string \<Rightarrow> STRReportEvent list" where
  "ListReportEvents r reportID =
    (let reportID = CanonicalIdentifier reportID
     in go_sort (asc_less ste_CreatedAt ste_ID)
          (filter (\<lambda>e. reportID = [] \<or> SameIdentifier (ste_ReportID e) reportID) (rr_events r)))"

definition Report_Get :: "MemorySTRReportRepo \<Rightarrow> string \<Rightarrow> STRReport result" where
  "Report_Get r i =
    (let i = CanonicalIdentifier i in
     case tbl_get (rr_data r) i of None \<Rightarrow> Inl (ErrNotFound ''str_report'' i) | Some x \<Rightarrow> Inr x)"

definition filterReportsAfterCursor :: "STRReport list \<Rightarrow> Cursor \<Rightarrow> STRReport list" where
  "filterReportsAfterCursor reports cursor =
     filter (\<lambda>x. str_CreatedAt x < cur_CreatedAt cursor \<or> str_CreatedAt x = cur_CreatedAt cursor \<and> str_ID x < cur_ID cursor) reports"

definition Report_List :: "MemorySTRReportRepo \<Rightarrow> ReportListFilter \<Rightarrow> STRReport list" where
  "Report_List r flt =
    (let reports = go_sort (desc_less str_CreatedAt str_ID) (filter (\<lambda>x.
           (rlf_Status flt = ReportStatusOther [] \<or> str_Status x = rlf_Status flt) \<and>
           (rlf_CustomerID flt = [] \<or> SameIdentifier (str_CustomerID x) (rlf_CustomerID flt)) \<and>
           (rlf_AlertID flt = [] \<or> SameIdentifier (str_AlertID x) (rlf_AlertID flt))) (tbl_vals (rr_data r)));
         reports = (case rlf_Cursor flt of None \<Rightarrow> reports | Some c \<Rightarrow> filterReportsAfterCursor reports c)
     in if rlf_Offset flt > 0 \<and> rlf_Offset flt \<ge> int (length reports) then []
        else let reports = (if rlf_Offset flt > 0 then drop (nat (rlf_Offset flt)) reports else reports)
             in if rlf_Limit flt > 0 \<and> rlf_Limit flt < int (length reports) then take (nat (rlf_Limit flt)) reports else reports)"

definition canonical_alert_snapshot :: "STRAlertSnapshot \<Rightarrow> STRAlertSnapshot" where
  "canonical_alert_snapshot s = s\<lparr>sas_ID := CanonicalUUID (sas_ID s), sas_CustomerID := CanonicalUUID (sas_CustomerID s),
     sas_TransactionIDs := map CanonicalUUID (sas_TransactionIDs s)\<rparr>"

definition canonical_transaction_snapshot :: "STRTransactionSnapshot \<Rightarrow> STRTransactionSnapshot" where
  "canonical_transaction_snapshot s = s\<lparr>ts_ID := CanonicalUUID (ts_ID s), ts_AccountID := map_option CanonicalUUID (ts_AccountID s)\<rparr>"

definition prepareSTRReportForCreate :: "time \<Rightarrow> STRReport \<Rightarrow> STRReport result" where
  "prepareSTRReportForCreate now x =
    (if TrimSpace (str_ID x) = [] then Inl (ErrText ''str_report id is required'')
     else let x = x\<lparr>str_ID := CanonicalIdentifier (str_ID x), str_AlertID := CanonicalUUID (str_AlertID x),
            str_CustomerID := CanonicalUUID (str_CustomerID x), str_CaseID := CanonicalIdentifier (str_CaseID x),
            str_CorrectsReportID := CanonicalIdentifier (str_CorrectsReportID x),
            str_SupersedesReportID := CanonicalIdentifier (str_SupersedesReportID x),
            str_ReportType := (if str_ReportType x = ReportTypeOther [] then ReportTypeSTR else str_ReportType x)\<rparr> in
     if str_ReportType x \<noteq> ReportTypeSTR
     then Inl (ErrText (''unsupported STR report type: '' @ (case str_ReportType x of ReportTypeOther t \<Rightarrow> t | _ \<Rightarrow> ''str'')))
     else let x = x\<lparr>str_Status := (if str_Status x = ReportStatusOther [] then ReportStatusDraft else str_Status x)\<rparr> in
     if str_Status x \<noteq> ReportStatusDraft \<and> str_Status x \<noteq> ReportStatusSubmitted
     then Inl (ErrText (''unsupported STR report status: '' @ ReportStatus_string (str_Status x)))
     else let x = x\<lparr>str_SubmittedBy := TrimSpace (str_SubmittedBy x), str_SubmissionEvidence := TrimSpace (str_SubmissionEvidence x)\<rparr> in
     if str_Status x = ReportStatusSubmitted \<and> (str_SubmittedAt x = None \<or> str_SubmissionEvidence x = [])
     then Inl (ErrText ''submitted STR report requires submitted_at and submission evidence'')
     else let created = Truncate (if IsZero (str_CreatedAt x) then Truncate now Microsecond else str_CreatedAt x) Microsecond
       in Inr (x\<lparr>str_CreatedAt := created,
          str_UpdatedAt := Truncate (if IsZero (str_UpdatedAt x) then created else str_UpdatedAt x) Microsecond,
          str_SubmittedAt := map_option (\<lambda>t. Truncate t Microsecond) (str_SubmittedAt x),
          str_AlertSnapshot := canonical_alert_snapshot (str_AlertSnapshot x),
          str_CustomerSnapshot := (str_CustomerSnapshot x)\<lparr>scs_ID := CanonicalUUID (scs_ID (str_CustomerSnapshot x))\<rparr>,
          str_TransactionIDs := map CanonicalUUID (str_TransactionIDs x),
          str_TransactionSnapshot := map canonical_transaction_snapshot (str_TransactionSnapshot x)\<rparr>))"

text \<open>The operations write the stored report back through their argument: the result is that report.\<close>

definition Report_Create :: "time \<Rightarrow> MemorySTRReportRepo \<Rightarrow> STRReport option \<Rightarrow> STRReport result \<times> MemorySTRReportRepo" where
  "Report_Create now r report =
    (case report of None \<Rightarrow> (Inl (ErrText ''str_report is nil''), r)
     | Some x \<Rightarrow>
    (case prepareSTRReportForCreate now x of Inl err \<Rightarrow> (Inl err, r)
     | Inr x \<Rightarrow>
         if tbl_get (rr_data r) (str_ID x) \<noteq> None
         then (Inl (ErrConflict ''str_report'' (str_ID x) ''report already exists''), r)
         else (Inr x, r\<lparr>rr_data := tbl_put (str_ID x) x (rr_data r)\<rparr>)))"

definition edit_draft :: "time \<Rightarrow> MemorySTRReportRepo \<Rightarrow> STRReport \<Rightarrow> STRReport \<Rightarrow> STRReport result \<times> MemorySTRReportRepo" where
  "edit_draft now r x current =
    (if str_Status current \<noteq> ReportStatusDraft
     then (Inl (ErrConflict ''str_report'' (str_ID x) ''submitted report is immutable''), r)
     else let updated = current\<lparr>str_SuspiciousPoint := str_SuspiciousPoint x, str_UpdatedAt := Truncate now Microsecond\<rparr>
          in (Inr updated, r\<lparr>rr_data := tbl_put (str_ID x) updated (rr_data r)\<rparr>))"

definition Report_Update :: "time \<Rightarrow> MemorySTRReportRepo \<Rightarrow> STRReport option \<Rightarrow> STRReport result \<times> MemorySTRReportRepo" where
  "Report_Update now r report =
    (case report of None \<Rightarrow> (Inl (ErrText ''str_report is nil''), r)
     | Some x \<Rightarrow>
    (case tbl_get (rr_data r) (str_ID x) of
       None \<Rightarrow> (Inl (ErrNotFound ''str_report'' (str_ID x)), r)
     | Some current \<Rightarrow> edit_draft now r x current))"

definition Report_UpdateIfUnmodified ::
  "time \<Rightarrow> MemorySTRReportRepo \<Rightarrow> STRReport option \<Rightarrow> time \<Rightarrow> STRReport result \<times> MemorySTRReportRepo" where
  "Report_UpdateIfUnmodified now r report expectedUpdatedAt =
    (case report of None \<Rightarrow> (Inl (ErrText ''str_report is nil''), r)
     | Some x \<Rightarrow>
    (case tbl_get (rr_data r) (str_ID x) of
       None \<Rightarrow> (Inl (ErrNotFound ''str_report'' (str_ID x)), r)
     | Some current \<Rightarrow>
         if str_UpdatedAt current \<noteq> expectedUpdatedAt
         then (Inl (ErrConflict ''str_report'' (str_ID x) ''updated_at mismatch''), r)
         else edit_draft now r x current))"

definition Report_Submit ::
  "time \<Rightarrow> MemorySTRReportRepo \<Rightarrow> string \<Rightarrow> string \<Rightarrow> string \<Rightarrow> STRReport result \<times> MemorySTRReportRepo" where
  "Report_Submit now r i submittedBy submissionEvidence =
    (let evidence = TrimSpace submissionEvidence; by' = TrimSpace submittedBy; i = CanonicalIdentifier i in
     if evidence = [] then (Inl (ErrText ''submission evidence is required''), r)
     else (case tbl_get (rr_data r) i of
       None \<Rightarrow> (Inl (ErrNotFound ''str_report'' i), r)
     | Some current \<Rightarrow>
         if str_Status current = ReportStatusSubmitted
         then (if str_SubmissionEvidence current = evidence then (Inr current, r)
               else (Inl (ErrConflict ''str_report'' i ''submitted report has different submission evidence''), r))
         else if str_Status current \<noteq> ReportStatusDraft
         then (Inl (ErrInvalidStateTransition ''str_report'' i (ReportStatus_string (str_Status current)) (ReportStatus_string ReportStatusSubmitted)), r)
         else let t = Truncate now Microsecond;
                  updated = current\<lparr>str_Status := ReportStatusSubmitted, str_SubmittedAt := Some t, str_UpdatedAt := t,
                    str_SubmittedBy := by', str_SubmissionEvidence := evidence\<rparr>
              in (Inr updated, r\<lparr>rr_data := tbl_put i updated (rr_data r)\<rparr>)))"

subsection \<open>Drafting a report\<close>

record CreateSTRRequest =
  csr_AlertID :: string
  csr_CaseID :: string
  csr_SuspiciousPoint :: string
  csr_CreatedBy :: string
  csr_CorrectsReportID :: string
  csr_SupersedesReportID :: string

definition transaction_snapshot :: "Transaction \<Rightarrow> STRTransactionSnapshot" where
  "transaction_snapshot t = \<lparr>ts_ID = tx_ID t, ts_ExternalID = tx_ExternalID t, ts_Amount = tx_Amount t, ts_Currency = tx_Currency t,
     ts_Direction = tx_Direction t, ts_CounterpartyID = tx_CounterpartyID t, ts_CounterpartyCountry = tx_CounterpartyCountry t,
     ts_Channel = tx_Channel t, ts_AccountID = tx_AccountID t, ts_Counterparty = tx_Counterparty t, ts_Metadata = tx_Metadata t,
     ts_ExecutedAt = tx_ExecutedAt t, ts_CreatedAt = tx_CreatedAt t\<rparr>"

fun snapshot_loop ::
  "MemoryTransactionRepo \<Rightarrow> string list \<Rightarrow> STRTransactionSnapshot list \<times> float64 \<times> string \<Rightarrow>
     (STRTransactionSnapshot list \<times> float64 \<times> string) result" where
  "snapshot_loop r [] (snapshot, totalAmount, currency) =
    (if currency = [] then Inl (ErrText ''STR requires at least one available transaction'') else Inr (snapshot, totalAmount, currency))"
| "snapshot_loop r (i # is) (snapshot, totalAmount, currency) =
    (case Txn_Get r i of
       Inl _ \<Rightarrow> Inl (ErrText (''STR transaction '' @ i @ '' is unavailable''))
     | Inr t \<Rightarrow>
         if currency \<noteq> [] \<and> tx_Currency t \<noteq> currency then Inl (ErrText ''STR requires transactions in one currency'')
         else snapshot_loop r is (snapshot @ [transaction_snapshot t], f64_add totalAmount (tx_Amount t),
                (if currency = [] then tx_Currency t else currency)))"

definition buildSTRTransactionSnapshot ::
  "MemoryTransactionRepo \<Rightarrow> string list \<Rightarrow> (STRTransactionSnapshot list \<times> float64 \<times> string) result" where
  "buildSTRTransactionSnapshot r transactionIDs = snapshot_loop r transactionIDs ([], F64 0, [])"

text \<open>\<open>Inl\<close> is the reason of a \<^verbatim>\<open>caseWorkflowValidationError\<close>.\<close>

definition findSTRCase :: "MemoryCaseRepo option \<Rightarrow> Alert \<Rightarrow> string \<Rightarrow> string + string" where
  "findSTRCase cases a requestedID =
    (case cases of None \<Rightarrow> Inl ''case_id is required for an STR report''
     | Some repo \<Rightarrow>
    let requested = CanonicalIdentifier requestedID in
    if requested = [] then Inl ''case_id is required for an STR report''
    else let candidates = filter (\<lambda>k. SameIdentifier (ca_CustomerID k) (al_CustomerID a) \<and>
               list_ex (\<lambda>i. SameIdentifier i (al_ID a)) (ca_AlertIDs k) \<and> ca_STRCandidate k \<and> IsCaseUnresolved (ca_Status k) \<and>
               requested = CanonicalIdentifier (ca_ID k)) (Case_ListByCustomer repo (al_CustomerID a))
         in (case find (\<lambda>k. CanonicalIdentifier (ca_ID k) = requested) candidates of
               Some k \<Rightarrow> Inr (CanonicalIdentifier (ca_ID k))
             | None \<Rightarrow> Inl ''case_id is not an active STR candidate linked to the alert and customer''))"

definition alert_snapshot :: "Alert \<Rightarrow> STRAlertSnapshot" where
  "alert_snapshot a = \<lparr>sas_ID = al_ID a, sas_CustomerID = al_CustomerID a, sas_ScenarioID = al_ScenarioID a, sas_Severity = al_Severity a,
     sas_Status = al_Status a, sas_Score = al_Score a, sas_Description = al_Description a, sas_TransactionIDs = al_TransactionIDs a,
     sas_DetectedAt = al_DetectedAt a\<rparr>"

definition customer_snapshot :: "Customer \<Rightarrow> STRCustomerSnapshot" where
  "customer_snapshot c = \<lparr>scs_ID = cu_ID c, scs_ExternalID = cu_ExternalID c, scs_CustomerType = cu_CustomerType c, scs_CountryCode = cu_CountryCode c\<rparr>"

definition writeReportRepositoryError :: "go_error \<Rightarrow> 'a response" where
  "writeReportRepositoryError err =
    (if as_not_found err then Refuse 404 ''not_found'' (Error err)
     else if as_conflict err then Refuse 409 ''conflict'' (Error err)
     else (case innermost err of
         ErrInvalidStateTransition _ _ _ _ \<Rightarrow> Refuse 409 ''invalid_state_transition'' (Error err)
       | _ \<Rightarrow> Refuse 500 ''internal_error'' (Error err)))"

record str_sources =
  ss_alerts :: MemoryAlertRepo
  ss_transactions :: MemoryTransactionRepo
  ss_customers :: MemoryCustomerRepo
  ss_cases :: "MemoryCaseRepo option"
  ss_reports :: MemorySTRReportRepo

text \<open>The links of a correction to the report it replaces.\<close>

definition check_correction :: "MemorySTRReportRepo \<Rightarrow> STRReport \<Rightarrow> STRReport response + STRReport" where
  "check_correction reports x =
    (let x = (if str_CorrectsReportID x \<noteq> [] \<and> str_SupersedesReportID x = []
              then x\<lparr>str_SupersedesReportID := str_CorrectsReportID x\<rparr> else x) in
     if str_SupersedesReportID x = [] then Inr x
     else (case Report_Get reports (str_SupersedesReportID x) of
       Inl err \<Rightarrow> Inl (writeReportRepositoryError err)
     | Inr original \<Rightarrow>
         if \<not> SameIdentifier (str_CaseID original) (str_CaseID x) \<or> \<not> SameIdentifier (str_CustomerID original) (str_CustomerID x) \<or>
            \<not> SameIdentifier (str_AlertID original) (str_AlertID x)
         then Inl (Refuse 409 ''conflict'' ''STR correction must preserve the original case, customer, and alert'')
         else if str_Status original \<noteq> ReportStatusSubmitted
         then Inl (Refuse 409 ''conflict'' ''STR correction must reference a submitted original report'')
         else Inr (if str_CorrectsReportID x = [] then x\<lparr>str_CorrectsReportID := str_ID original\<rparr> else x)))"

text \<open>The part of \<^verbatim>\<open>handleCreateSTR\<close> that decides, up to the report it then stores.\<close>

definition draft_STR :: "time \<Rightarrow> string \<Rightarrow> request \<Rightarrow> str_sources \<Rightarrow> CreateSTRRequest option \<Rightarrow> STRReport response + STRReport" where
  "draft_STR now ident q s body =
    (case body of None \<Rightarrow> Inl (Refuse 400 ''validation_failed'' ''invalid JSON'')
     | Some req \<Rightarrow>
    if TrimSpace (csr_AlertID req) = [] then Inl (Refuse 400 ''validation_failed'' ''alert_id required'')
    else if TrimSpace (csr_SuspiciousPoint req) = [] then Inl (Refuse 400 ''validation_failed'' ''suspicious_point required'')
    else (case Alert_Get (ss_alerts s) (csr_AlertID req) of
       Inl err \<Rightarrow> Inl (if as_not_found err then Refuse 404 ''not_found'' (Error err) else Refuse 500 ''internal_error'' (Error err))
     | Inr a \<Rightarrow>
    (case buildSTRTransactionSnapshot (ss_transactions s) (al_TransactionIDs a) of
       Inl err \<Rightarrow> Inl (Refuse 422 ''validation_failed'' (Error err))
     | Inr (snapshot, totalAmount, currency) \<Rightarrow>
    (case findSTRCase (ss_cases s) a (csr_CaseID req) of
       Inl reason \<Rightarrow> Inl (Refuse 422 ''validation_failed'' reason)
     | Inr caseID \<Rightarrow>
    (case Customer_Get (ss_customers s) (al_CustomerID a) of
       Inl err \<Rightarrow> Inl (if as_not_found err then Refuse 422 ''validation_failed'' ''STR source customer is unavailable''
                      else Refuse 500 ''internal_error'' ''source customer lookup failed'')
     | Inr c \<Rightarrow>
         check_correction (ss_reports s)
           \<lparr>str_ID = ident, str_AlertID = al_ID a, str_CustomerID = al_CustomerID a, str_CaseID = caseID,
            str_CorrectsReportID = CanonicalIdentifier (csr_CorrectsReportID req),
            str_SupersedesReportID = CanonicalIdentifier (csr_SupersedesReportID req),
            str_ReportType = ReportTypeSTR, str_Status = ReportStatusDraft, str_SuspiciousPoint = TrimSpace (csr_SuspiciousPoint req),
            str_AlertSnapshot = alert_snapshot a, str_CustomerSnapshot = customer_snapshot c,
            str_TransactionIDs = al_TransactionIDs a, str_TransactionSnapshot = snapshot, str_TotalAmount = totalAmount,
            str_Currency = currency, str_CreatedAt = now, str_UpdatedAt = now, str_SubmittedAt = None,
            str_CreatedBy = (if TrimSpace (csr_CreatedBy req) = [] then resolveAuditUserID q else TrimSpace (csr_CreatedBy req)),
            str_SubmittedBy = [], str_SubmissionEvidence = []\<rparr>)))))"

record SubmitSTRRequest =
  ssr_SubmittedBy :: string
  ssr_SubmissionEvidence :: string
  ssr_FilingReference :: string

text \<open>Who submits and with which evidence.\<close>

definition submit_STR :: "request \<Rightarrow> SubmitSTRRequest option \<Rightarrow> STRReport response + string \<times> string" where
  "submit_STR q body =
    (case body of None \<Rightarrow> Inl (Refuse 400 ''validation_failed'' ''invalid JSON'')
     | Some req \<Rightarrow>
    let evidence = (if TrimSpace (ssr_SubmissionEvidence req) = [] then TrimSpace (ssr_FilingReference req)
                    else TrimSpace (ssr_SubmissionEvidence req))
    in if evidence = [] then Inl (Refuse 400 ''validation_failed'' ''submission_evidence required'')
       else Inr (if TrimSpace (ssr_SubmittedBy req) = [] then resolveAuditUserID q else TrimSpace (ssr_SubmittedBy req), evidence))"

definition parseSTRReportStatus :: "string \<Rightarrow> ReportStatus result" where
  "parseSTRReportStatus raw =
    (if raw = [] then Inr (ReportStatusOther [])
     else if raw = ''draft'' then Inr ReportStatusDraft else if raw = ''submitted'' then Inr ReportStatusSubmitted
     else Inl (ErrText ''status must be draft or submitted''))"

subsection \<open>Exporting a report\<close>

fun f64_abs :: "float64 \<Rightarrow> float64" where
  "f64_abs (F64 q) = F64 \<bar>q\<bar>"
| "f64_abs F64_NegInf = F64_PosInf"
| "f64_abs x = x"

fun check_snapshot :: "STRReport \<Rightarrow> nat \<Rightarrow> STRTransactionSnapshot list \<Rightarrow> float64 \<Rightarrow> float64 result" where
  "check_snapshot x k [] totalAmount = Inr totalAmount"
| "check_snapshot x k (t # ts) totalAmount =
    (if TrimSpace (ts_ID t) = [] \<or> TrimSpace (ts_Currency t) = [] then Inl (ErrText ''STR transaction snapshot is incomplete'')
     else if \<not> SameIdentifier (str_TransactionIDs x ! k) (ts_ID t)
     then Inl (ErrText ''STR transaction snapshot does not match transaction links'')
     else if \<not> SameIdentifier (sas_TransactionIDs (str_AlertSnapshot x) ! k) (ts_ID t)
     then Inl (ErrText ''STR alert transaction snapshot does not match transaction links'')
     else if str_Currency x \<noteq> [] \<and> str_Currency x \<noteq> ts_Currency t
     then Inl (ErrText ''STR transaction snapshot currency does not match report'')
     else check_snapshot x (Suc k) ts (f64_add totalAmount (ts_Amount t)))"

definition validateSTRReportSnapshot :: "STRReport option \<Rightarrow> go_error option" where
  "validateSTRReportSnapshot report =
    (case report of None \<Rightarrow> Some (ErrText ''STR report is unavailable'')
     | Some x \<Rightarrow>
    if sas_ID (str_AlertSnapshot x) = [] \<or> \<not> SameIdentifier (sas_ID (str_AlertSnapshot x)) (str_AlertID x)
    then Some (ErrText ''STR alert snapshot is unavailable'')
    else if scs_ID (str_CustomerSnapshot x) = [] \<or> \<not> SameIdentifier (scs_ID (str_CustomerSnapshot x)) (str_CustomerID x)
    then Some (ErrText ''STR customer snapshot is unavailable'')
    else if \<not> SameIdentifier (sas_CustomerID (str_AlertSnapshot x)) (str_CustomerID x)
    then Some (ErrText ''STR alert snapshot customer link is incomplete'')
    else if str_TransactionIDs x = [] \<or> str_TransactionSnapshot x = []
    then Some (ErrText ''STR transaction snapshot is unavailable'')
    else if length (str_TransactionIDs x) \<noteq> length (str_TransactionSnapshot x)
    then Some (ErrText ''STR transaction snapshot is incomplete'')
    else if sas_TransactionIDs (str_AlertSnapshot x) = [] \<or>
            length (sas_TransactionIDs (str_AlertSnapshot x)) \<noteq> length (str_TransactionSnapshot x)
    then Some (ErrText ''STR alert transaction snapshot is incomplete'')
    else (case check_snapshot x 0 (str_TransactionSnapshot x) (F64 0) of
       Inl err \<Rightarrow> Some err
     | Inr totalAmount \<Rightarrow>
         if f64_lt (f64_round (1 / 100)) (f64_abs (f64_sub totalAmount (str_TotalAmount x)))
         then Some (ErrText ''STR transaction snapshot total does not match report'') else None))"

definition sanitizeCSVCell :: "string \<Rightarrow> string" where
  "sanitizeCSVCell s =
    (case s of [] \<Rightarrow> s
     | c # _ \<Rightarrow> if c \<in> {CHR ''='', CHR ''+'', CHR ''-'', CHR ''@'', CHR 0x09, CHR 0x0D, CHR 0x0A} then CHR 0x27 # s else s)"

subsection \<open>Submitted reports are immutable\<close>

text \<open>
  The writes of the repository. The server makes all of them inside \<^verbatim>\<open>RunAtomic\<close>, one request at a time; a request
  that fails puts the records and the events back as they were when it began, so a rolled-back request is no step
  of this relation, and the relation describes the committed ones.
\<close>

inductive report_step :: "MemorySTRReportRepo \<Rightarrow> MemorySTRReportRepo \<Rightarrow> bool" where
  create: "report_step r (snd (Report_Create now r x))"
| update: "report_step r (snd (Report_Update now r x))"
| locked: "report_step r (snd (Report_UpdateIfUnmodified now r x expected))"
| submit: "report_step r (snd (Report_Submit now r i by' e))"
| event: "report_step r (snd (AppendReportEvent now r v))"

text \<open>What may become of a report: the wording of a draft, and the one transition to submitted.\<close>

definition reworded :: "STRReport \<Rightarrow> STRReport \<Rightarrow> bool" where
  "reworded x y \<longleftrightarrow> (\<exists>p t. y = x\<lparr>str_SuspiciousPoint := p, str_UpdatedAt := t\<rparr>)"

definition submitted_from :: "STRReport \<Rightarrow> STRReport \<Rightarrow> bool" where
  "submitted_from x y \<longleftrightarrow> (\<exists>p t u by' e. e \<noteq> [] \<and> y = x\<lparr>str_SuspiciousPoint := p, str_Status := ReportStatusSubmitted, str_SubmittedAt := Some u,
     str_UpdatedAt := t, str_SubmittedBy := by', str_SubmissionEvidence := e\<rparr>)"

definition report_evolves :: "STRReport \<Rightarrow> STRReport \<Rightarrow> bool" where
  "report_evolves x y \<longleftrightarrow> (if str_Status x = ReportStatusDraft then reworded x y \<or> submitted_from x y else y = x)"

definition report_ok :: "STRReport \<Rightarrow> bool" where
  "report_ok x \<longleftrightarrow> (str_Status x = ReportStatusDraft \<or>
     str_Status x = ReportStatusSubmitted \<and> str_SubmittedAt x \<noteq> None \<and> str_SubmissionEvidence x \<noteq> [])"

lemma reworded_refl: "reworded x x"
  unfolding reworded_def by (rule exI [where x = "str_SuspiciousPoint x"], rule exI [where x = "str_UpdatedAt x"]) simp

lemma reworded_step:
  "reworded x y \<Longrightarrow> str_Status y = str_Status x" "reworded x y \<Longrightarrow> reworded y z \<Longrightarrow> reworded x z"
  "reworded x y \<Longrightarrow> submitted_from y z \<Longrightarrow> submitted_from x z"
  by (auto simp: reworded_def submitted_from_def) fastforce+

lemma report_evolves_refl [simp]: "report_evolves x x"
  by (simp add: report_evolves_def reworded_refl)

lemma report_evolves_trans: "report_evolves x y \<Longrightarrow> report_evolves y z \<Longrightarrow> report_evolves x z"
proof -
  assume a: "report_evolves x y" "report_evolves y z"
  have "str_Status y = ReportStatusSubmitted" if "submitted_from x y" using that by (auto simp: submitted_from_def)
  with a reworded_step [of x y] reworded_step(2,3) [of x y z] show ?thesis by (auto simp: report_evolves_def split: if_splits)
qed

definition reports_ok :: "MemorySTRReportRepo \<Rightarrow> bool" where
  "reports_ok r \<longleftrightarrow> (\<forall>i x. tbl_get (rr_data r) i = Some x \<longrightarrow> report_ok x)"

lemma prepare_ok: "prepareSTRReportForCreate now x = Inr y \<Longrightarrow> report_ok y"
  by (auto simp: prepareSTRReportForCreate_def report_ok_def Let_def split: if_splits)

definition report_change :: "MemorySTRReportRepo \<Rightarrow> MemorySTRReportRepo \<Rightarrow> bool" where
  "report_change r r' \<longleftrightarrow> (\<forall>i. tbl_get (rr_data r') i = tbl_get (rr_data r) i) \<or>
    (\<exists>i y. (\<forall>k. tbl_get (rr_data r') k = (if k = i then Some y else tbl_get (rr_data r) k)) \<and>
      (tbl_get (rr_data r) i = None \<longrightarrow> report_ok y) \<and>
      (\<forall>x. tbl_get (rr_data r) i = Some x \<longrightarrow> str_Status x = ReportStatusDraft \<and> (reworded x y \<or> submitted_from x y)))"

lemma report_change_refl [simp]: "report_change r r"
  by (simp add: report_change_def)

lemma report_changeI:
  "rr_data r' = tbl_put i y (rr_data r) \<Longrightarrow>
   (tbl_get (rr_data r) i = None \<Longrightarrow> report_ok y) \<Longrightarrow>
   (\<And>x. tbl_get (rr_data r) i = Some x \<Longrightarrow> str_Status x = ReportStatusDraft \<and> (reworded x y \<or> submitted_from x y)) \<Longrightarrow>
   report_change r r'"
  unfolding report_change_def by (intro disjI2 exI [where x = i] exI [where x = y]) (simp add: tbl_simps)

lemma edit_draft_change:
  assumes "tbl_get (rr_data r) (str_ID x) = Some current"
  shows "report_change r (snd (edit_draft now r x current))"
proof (cases "str_Status current = ReportStatusDraft")
  case True
  have "reworded current (current\<lparr>str_SuspiciousPoint := str_SuspiciousPoint x, str_UpdatedAt := Truncate now Microsecond\<rparr>)"
    by (auto simp: reworded_def)
  with True assms show ?thesis by (intro report_changeI [where i = "str_ID x"]) (auto simp: edit_draft_def Let_def)
qed (simp add: edit_draft_def)

lemma report_step_change:
  assumes "report_step r r'"
  shows "report_change r r'"
  using assms
proof cases
  case (create now x)
  show ?thesis
  proof (cases "fst (Report_Create now r x)")
    case (Inr y)
    then have "rr_data r' = tbl_put (str_ID y) y (rr_data r)" "tbl_get (rr_data r) (str_ID y) = None" "report_ok y"
      unfolding create by (auto simp: Report_Create_def dest: prepare_ok split: option.splits sum.splits if_splits)
    then show ?thesis by (intro report_changeI [of _ "str_ID y" y]) (simp, simp, metis option.distinct(1))
  qed (auto simp: create Report_Create_def split: option.splits sum.splits if_splits)
next
  case (submit now i by' e)
  show ?thesis
  proof (cases "r' = r")
    case False
    then obtain x where x: "tbl_get (rr_data r) (CanonicalIdentifier i) = Some x" "str_Status x = ReportStatusDraft" "TrimSpace e \<noteq> []"
      unfolding submit by (auto simp: Report_Submit_def Let_def split: option.splits if_splits)
    let ?y = "x\<lparr>str_Status := ReportStatusSubmitted, str_SubmittedAt := Some (Truncate now Microsecond), str_UpdatedAt := Truncate now Microsecond,
      str_SubmittedBy := TrimSpace by', str_SubmissionEvidence := TrimSpace e\<rparr>"
    have "submitted_from x ?y" unfolding submitted_from_def
      by (rule exI [where x = "str_SuspiciousPoint x"], rule exI [where x = "Truncate now Microsecond"], rule exI [where x = "Truncate now Microsecond"],
          rule exI [where x = "TrimSpace by'"], rule exI [where x = "TrimSpace e"]) (simp add: x(3))
    moreover have "rr_data r' = tbl_put (CanonicalIdentifier i) ?y (rr_data r)"
      using x unfolding submit by (simp add: Report_Submit_def Let_def)
    ultimately show ?thesis using x(1,2)
      by (intro report_changeI [of _ "CanonicalIdentifier i" ?y]) (assumption, metis option.distinct(1), metis option.inject)
  qed simp
next
  case (event now v)
  then show ?thesis by (auto simp: AppendReportEvent_def report_change_def Let_def split: option.splits if_splits)
next
  case (update now x)
  then show ?thesis by (auto simp: Report_Update_def edit_draft_change split: option.splits)
next
  case (locked now x expected)
  then show ?thesis by (auto simp: Report_UpdateIfUnmodified_def edit_draft_change split: option.splits)
qed

lemma report_change_cases:
  assumes "report_change r r'"
  obtains (same) "\<And>k. tbl_get (rr_data r') k = tbl_get (rr_data r) k"
  | (put) i y where "\<And>k. tbl_get (rr_data r') k = (if k = i then Some y else tbl_get (rr_data r) k)"
      and "tbl_get (rr_data r) i = None \<Longrightarrow> report_ok y"
      and "\<And>x. tbl_get (rr_data r) i = Some x \<Longrightarrow> str_Status x = ReportStatusDraft \<and> (reworded x y \<or> submitted_from x y)"
  using assms unfolding report_change_def
proof (elim disjE exE conjE, goal_cases)
  case 1
  then show ?case by (intro same) (rule spec)
next
  case (2 i y)
  then show ?case by (intro put [of i y]) (rule spec, assumption, simp, simp)
qed

lemma report_change_keeps:
  assumes "report_change r r'" and "tbl_get (rr_data r) i = Some x"
  shows "\<exists>y. tbl_get (rr_data r') i = Some y \<and> report_evolves x y"
  using assms(1)
proof (cases rule: report_change_cases)
  case (put j y)
  with assms(2) show ?thesis by (cases "i = j") (auto simp: report_evolves_def reworded_refl)
qed (simp add: assms(2))

lemma report_change_ok:
  assumes "report_change r r'" and ok: "reports_ok r"
  shows "reports_ok r'"
  using assms(1)
proof (cases rule: report_change_cases)
  case (put i y)
  have "report_ok y" if "report_ok x" "str_Status x = ReportStatusDraft" "reworded x y \<or> submitted_from x y" for x
    using that by (auto simp: report_ok_def reworded_def submitted_from_def)
  with put(2,3) ok have "report_ok y" by (cases "tbl_get (rr_data r) i") (auto simp: reports_ok_def)
  with put(1) ok show ?thesis by (simp add: reports_ok_def)
next
  case same
  with ok show ?thesis by (simp add: reports_ok_def)
qed

lemma report_step_events: "report_step r r' \<Longrightarrow> prefix (rr_events r) (rr_events r')"
  by (induction rule: report_step.induct)
    (auto simp: Report_Create_def Report_Update_def Report_UpdateIfUnmodified_def Report_Submit_def AppendReportEvent_def edit_draft_def Let_def
      split: option.split sum.split)

lemma report_steps:
  assumes "report_step\<^sup>*\<^sup>* r r'"
  shows "reports_ok r \<Longrightarrow> reports_ok r'" and "tbl_get (rr_data r) i = Some x \<Longrightarrow> \<exists>y. tbl_get (rr_data r') i = Some y \<and> report_evolves x y"
    and "prefix (rr_events r) (rr_events r')"
  using assms
proof (induction rule: rtranclp_induct)
  case (step r' r'')
  { case 1 with step(2,3) report_step_change report_change_ok show ?case by blast }
  { case 2 with step(2,4) report_step_change report_change_keeps report_evolves_trans show ?case by meson }
  { case 3 from step(2,5) report_step_events prefix_order.trans show ?case by blast }
qed auto

text \<open>
  C32. Reports are append-only evidence. Whatever sequence of calls the repository has seen and sees
  next, a stored report stays stored under its identifier. Once submitted, with its evidence and time,
  no field of it ever changes: repeating the submission with the same evidence returns it, with other
  evidence is a conflict, and both write nothing. A draft changes only in its wording, or becomes
  submitted with all links and snapshots as they were. No recorded event is altered or dropped.
\<close>

theorem report_immutable:
  assumes past: "report_step\<^sup>*\<^sup>* NewMemorySTRReportRepo r" and later: "report_step\<^sup>*\<^sup>* r r'" and got: "Report_Get r i = Inr x"
  shows "prefix (rr_events r) (rr_events r') \<and>
    (if str_Status x = ReportStatusSubmitted
     then str_SubmittedAt x \<noteq> None \<and> str_SubmissionEvidence x \<noteq> [] \<and> Report_Get r' i = Inr x \<and>
       (\<forall>now by' e. Report_Submit now r' i by' e =
          (if TrimSpace e = str_SubmissionEvidence x then Inr x
           else if TrimSpace e = [] then Inl (ErrText ''submission evidence is required'')
           else Inl (ErrConflict ''str_report'' (CanonicalIdentifier i) ''submitted report has different submission evidence''), r'))
     else \<exists>y. Report_Get r' i = Inr y \<and> (reworded x y \<or> submitted_from x y))"
proof -
  have stored: "tbl_get (rr_data r) (CanonicalIdentifier i) = Some x"
    using got by (auto simp: Report_Get_def Let_def split: option.splits)
  have "reports_ok NewMemorySTRReportRepo" by (simp add: reports_ok_def NewMemorySTRReportRepo_def)
  from report_steps(1) [OF past this] stored have ok: "report_ok x" by (auto simp: reports_ok_def)
  from report_steps(2) [OF later stored] obtain y where y: "tbl_get (rr_data r') (CanonicalIdentifier i) = Some y" "report_evolves x y"
    by blast
  from report_steps(3) [OF later] y ok show ?thesis
    by (auto simp: Report_Get_def Report_Submit_def report_evolves_def report_ok_def Let_def)
qed

subsection \<open>What is drafted can be exported\<close>

lemma CanonicalUUID_Nil: "CanonicalUUID v = [] \<longleftrightarrow> TrimSpace v = []"
proof (cases "NormalizeUUID v")
  case (Inr s)
  then have "length s = 32" using NormalizeUUID_normal_form [OF Inr] by (simp add: uuid_compact_def)
  moreover have "TrimSpace v \<noteq> []" using Inr by (auto simp: NormalizeUUID_def ToLower_def Let_def)
  ultimately show ?thesis using Inr by (auto simp: CanonicalUUID_def)
qed (simp add: CanonicalUUID_def)

definition named_transactions :: "MemoryTransactionRepo \<Rightarrow> bool" where
  "named_transactions r \<longleftrightarrow> (\<forall>k t. tbl_get (mt_data r) k = Some t \<longrightarrow> tx_ID t = k \<and> TrimSpace (tx_ID t) \<noteq> [])"

lemma snapshot_loop_Inr:
  assumes "named_transactions r" and "snapshot_loop r is (snapshot, tot0, currency) = Inr (snapshot', tot', currency')"
  shows "\<exists>ts. map tx_ID ts = map CanonicalUUID is \<and> snapshot' = snapshot @ map transaction_snapshot ts \<and>
    tot' = foldl f64_add tot0 (map tx_Amount ts) \<and> (currency \<noteq> [] \<longrightarrow> currency' = currency) \<and> currency' \<noteq> [] \<and>
    (\<forall>t \<in> set ts. TrimSpace (tx_ID t) \<noteq> [] \<and> (tx_Currency t \<noteq> [] \<longrightarrow> tx_Currency t = currency'))"
  using assms(2)
proof (induction "is" arbitrary: snapshot tot0 currency)
  case Nil
  then show ?case by (intro exI [where x = "[]"]) (simp split: if_splits)
next
  case (Cons i "is")
  obtain t where t: "Txn_Get r i = Inr t" using Cons.prems by (auto split: sum.splits)
  then have named: "tx_ID t = CanonicalUUID i" "TrimSpace (tx_ID t) \<noteq> []"
    using assms(1) unfolding named_transactions_def by (auto simp: Txn_Get_def Let_def split: option.splits; metis)+
  let ?c = "if currency = [] then tx_Currency t else currency"
  have c: "?c = tx_Currency t" using Cons.prems t by (auto split: if_splits)
  have "snapshot_loop r is (snapshot @ [transaction_snapshot t], f64_add tot0 (tx_Amount t), ?c) = Inr (snapshot', tot', currency')"
    using Cons.prems t by (auto split: if_splits)
  from Cons.IH [OF this] obtain ts where ts: "map tx_ID ts = map CanonicalUUID is"
      "snapshot' = (snapshot @ [transaction_snapshot t]) @ map transaction_snapshot ts"
      "tot' = foldl f64_add (f64_add tot0 (tx_Amount t)) (map tx_Amount ts)" "?c \<noteq> [] \<longrightarrow> currency' = ?c" "currency' \<noteq> []"
      "\<forall>t \<in> set ts. TrimSpace (tx_ID t) \<noteq> [] \<and> (tx_Currency t \<noteq> [] \<longrightarrow> tx_Currency t = currency')"
    by blast
  show ?case
    by (rule exI [where x = "t # ts"]) (use ts named c in \<open>auto split: if_splits\<close>)
qed

lemma check_snapshot_blank: "t \<in> set ts \<Longrightarrow> TrimSpace (ts_Currency t) = [] \<Longrightarrow> \<exists>e. check_snapshot x n ts tot0 = Inl e"
  by (induction ts arbitrary: n tot0) auto

lemma check_snapshot_Inr:
  assumes "\<And>k t. k < length ts \<Longrightarrow> t = ts ! k \<Longrightarrow> TrimSpace (ts_ID t) \<noteq> [] \<and> TrimSpace (ts_Currency t) \<noteq> [] \<and>
      SameIdentifier (str_TransactionIDs x ! (n + k)) (ts_ID t) \<and> SameIdentifier (sas_TransactionIDs (str_AlertSnapshot x) ! (n + k)) (ts_ID t) \<and>
      str_Currency x = ts_Currency t"
  shows "check_snapshot x n ts tot0 = Inr (foldl f64_add tot0 (map ts_Amount ts))"
  using assms
proof (induction ts arbitrary: n tot0)
  case (Cons t ts)
  have "check_snapshot x (Suc n) ts (f64_add tot0 (ts_Amount t)) = Inr (foldl f64_add (f64_add tot0 (ts_Amount t)) (map ts_Amount ts))"
    by (rule Cons.IH) (use Cons.prems [of "Suc _"] in auto)
  with Cons.prems [of 0 t] show ?case by simp
qed simp

lemma f64_total_matches: "\<not> f64_lt (f64_round (1 / 100)) (f64_abs (f64_sub x x))"
proof (cases x)
  case (F64 q)
  obtain r where "f64_round (1 / 100) = F64 r" "0 \<le> r" using f64_round_unit [of "1 / 100"] by auto
  moreover have "f64_sub (F64 q) (F64 q) = F64 0" by (simp add: f64_sub_def f64_round_def)
  ultimately show ?thesis by (simp add: F64)
qed (cases "f64_round (1 / 100)"; simp add: f64_sub_def)+

lemma check_correction_Inr:
  "check_correction reports x = Inr y \<Longrightarrow> \<exists>a b. y = x\<lparr>str_CorrectsReportID := a, str_SupersedesReportID := b\<rparr>"
  by (cases x) (auto simp: check_correction_def Let_def split: if_splits sum.splits)

lemma prepare_fields:
  assumes "prepareSTRReportForCreate now x = Inr y"
  shows "str_ID y = CanonicalIdentifier (str_ID x)" "str_AlertID y = CanonicalUUID (str_AlertID x)" "str_CustomerID y = CanonicalUUID (str_CustomerID x)"
    "str_AlertSnapshot y = canonical_alert_snapshot (str_AlertSnapshot x)" "str_TotalAmount y = str_TotalAmount x" "str_Currency y = str_Currency x"
    "scs_ID (str_CustomerSnapshot y) = CanonicalUUID (scs_ID (str_CustomerSnapshot x))"
    "str_TransactionIDs y = map CanonicalUUID (str_TransactionIDs x)"
    "str_TransactionSnapshot y = map canonical_transaction_snapshot (str_TransactionSnapshot x)"
  using assms unfolding prepareSTRReportForCreate_def Let_def
  by (simp_all split: if_split_asm cong: if_cong) (hypsubst, simp)+

lemma draft_STR_Inr:
  assumes draft: "draft_STR now ident q s body = Inr x"
  obtains req a snapshot amount currency caseID c x0 where
      "body = Some req" "TrimSpace (csr_AlertID req) \<noteq> []" "Alert_Get (ss_alerts s) (csr_AlertID req) = Inr a"
      "buildSTRTransactionSnapshot (ss_transactions s) (al_TransactionIDs a) = Inr (snapshot, amount, currency)"
      "Customer_Get (ss_customers s) (al_CustomerID a) = Inr c"
      "check_correction (ss_reports s) x0 = Inr x" "str_ID x0 = ident" "str_AlertID x0 = al_ID a" "str_CustomerID x0 = al_CustomerID a"
      "str_AlertSnapshot x0 = alert_snapshot a" "str_CustomerSnapshot x0 = customer_snapshot c" "str_TransactionIDs x0 = al_TransactionIDs a"
      "str_TransactionSnapshot x0 = snapshot" "str_TotalAmount x0 = amount" "str_Currency x0 = currency"
proof -
  obtain req where body: "body = Some req" using draft by (cases body) (simp_all add: draft_STR_def)
  have guard: "TrimSpace (csr_AlertID req) \<noteq> []" "TrimSpace (csr_SuspiciousPoint req) \<noteq> []"
    using draft by (simp_all add: draft_STR_def body split: if_splits)
  note draft = draft [unfolded draft_STR_def body option.case if_not_P [OF guard(1)] if_not_P [OF guard(2)]]
  obtain a where a: "Alert_Get (ss_alerts s) (csr_AlertID req) = Inr a"
    using draft by (cases "Alert_Get (ss_alerts s) (csr_AlertID req)") simp_all
  note draft = draft [unfolded a sum.case]
  obtain snapshot amount currency where t: "buildSTRTransactionSnapshot (ss_transactions s) (al_TransactionIDs a) = Inr (snapshot, amount, currency)"
    using draft by (cases "buildSTRTransactionSnapshot (ss_transactions s) (al_TransactionIDs a)") auto
  note draft = draft [unfolded t sum.case prod.case]
  obtain caseID where k: "findSTRCase (ss_cases s) a (csr_CaseID req) = Inr caseID"
    using draft by (cases "findSTRCase (ss_cases s) a (csr_CaseID req)") simp_all
  note draft = draft [unfolded k sum.case]
  obtain c where c: "Customer_Get (ss_customers s) (al_CustomerID a) = Inr c"
    using draft by (cases "Customer_Get (ss_customers s) (al_CustomerID a)") simp_all
  note draft = draft [unfolded c sum.case]
  show thesis by (rule that [OF body guard(1) a t c draft]) simp_all
qed

text \<open>
  C33. What the create handler drafts can be exported unless a currency is blank. When every stored
  transaction, alert and customer is filed under its own identifier, and the identifiers of transactions
  and customers are not blank, a report that the handler drafts and the repository accepts is read back
  under its identifier, and it passes the check that an export makes later (its snapshots belong to its
  alert and customer, they list the linked transactions in order and in one currency, and they add up to
  its total) exactly when none of its transactions has a blank currency. Recording a transaction refuses
  only an empty currency, so a report that can be drafted but never exported is possible.
\<close>

theorem drafted_report_exports:
  assumes txns: "named_transactions (ss_transactions s)"
    and alerts: "\<And>k a. tbl_get (ar_data (ss_alerts s)) k = Some a \<Longrightarrow> al_ID a = k"
    and customers: "\<And>k c. tbl_get (cs_data (ss_customers s)) k = Some c \<Longrightarrow> cu_ID c = k \<and> TrimSpace k \<noteq> []"
    and draft: "draft_STR now ident q s body = Inr x"
    and create: "Report_Create now' r (Some x) = (Inr y, r')"
  shows "Report_Get r' ident = Inr y \<and>
    (validateSTRReportSnapshot (Some y) = None \<longleftrightarrow> (\<forall>t \<in> set (str_TransactionSnapshot y). TrimSpace (ts_Currency t) \<noteq> []))"
proof -
  obtain req a snapshot amount currency caseID c x0 where
      body: "body = Some req" "TrimSpace (csr_AlertID req) \<noteq> []" and a: "Alert_Get (ss_alerts s) (csr_AlertID req) = Inr a"
      and snap: "buildSTRTransactionSnapshot (ss_transactions s) (al_TransactionIDs a) = Inr (snapshot, amount, currency)"
      and c: "Customer_Get (ss_customers s) (al_CustomerID a) = Inr c"
      and x0: "check_correction (ss_reports s) x0 = Inr x" "str_ID x0 = ident" "str_AlertID x0 = al_ID a" "str_CustomerID x0 = al_CustomerID a"
        "str_AlertSnapshot x0 = alert_snapshot a" "str_CustomerSnapshot x0 = customer_snapshot c" "str_TransactionIDs x0 = al_TransactionIDs a"
        "str_TransactionSnapshot x0 = snapshot" "str_TotalAmount x0 = amount" "str_Currency x0 = currency"
    using draft by (rule draft_STR_Inr)
  from check_correction_Inr [OF x0(1)] x0(2-) have x: "str_ID x = ident" "str_AlertID x = al_ID a" "str_CustomerID x = al_CustomerID a"
      "str_AlertSnapshot x = alert_snapshot a" "str_CustomerSnapshot x = customer_snapshot c" "str_TransactionIDs x = al_TransactionIDs a"
      "str_TransactionSnapshot x = snapshot" "str_TotalAmount x = amount" "str_Currency x = currency" by auto
  have prep: "prepareSTRReportForCreate now' x = Inr y" and r': "rr_data r' = tbl_put (str_ID y) y (rr_data r)"
    using create by (auto simp: Report_Create_def split: sum.splits if_splits)
  note y = prepare_fields [OF prep, unfolded x]
  have "al_ID a = CanonicalUUID (csr_AlertID req)" "cu_ID c = CanonicalUUID (al_CustomerID a)" "TrimSpace (cu_ID c) \<noteq> []"
    using a c alerts customers by (auto simp: Alert_Get_def Customer_Get_def Let_def split: option.splits)
  then have ids: "CanonicalUUID (al_ID a) \<noteq> []" "CanonicalUUID (cu_ID c) \<noteq> []" "CanonicalUUID (cu_ID c) = CanonicalUUID (al_CustomerID a)"
    using body(2) CanonicalUUID_Nil CanonicalUUID_idem by metis+
  from snapshot_loop_Inr [OF txns snap [unfolded buildSTRTransactionSnapshot_def]]
  obtain ts where ts: "map tx_ID ts = map CanonicalUUID (al_TransactionIDs a)" "snapshot = map transaction_snapshot ts"
      "amount = foldl f64_add (F64 0) (map tx_Amount ts)"
      "currency \<noteq> []" "\<And>t. t \<in> set ts \<Longrightarrow> TrimSpace (tx_ID t) \<noteq> [] \<and> (tx_Currency t \<noteq> [] \<longrightarrow> tx_Currency t = currency)"
    by auto
  have "ts \<noteq> []" using snap ts(2,4) by (cases "al_TransactionIDs a") (use ts(1) in \<open>auto simp: buildSTRTransactionSnapshot_def\<close>)
  have len: "length ts = length (al_TransactionIDs a)" using ts(1) by (metis length_map)
  have id_at: "CanonicalUUID (tx_ID (ts ! k)) = CanonicalUUID (al_TransactionIDs a ! k)" if "k < length ts" for k
    using ts(1) that len by (metis nth_map CanonicalUUID_idem)
  have get: "Report_Get r' ident = Inr y" using y(1) by (simp add: Report_Get_def r' tbl_simps)
  have currencies: "map ts_Currency (str_TransactionSnapshot y) = map tx_Currency ts" "map ts_Amount (str_TransactionSnapshot y) = map tx_Amount ts"
    by (simp_all add: y(9) ts(2) canonical_transaction_snapshot_def transaction_snapshot_def comp_def)
  show ?thesis
  proof (cases "\<forall>t \<in> set (str_TransactionSnapshot y). TrimSpace (ts_Currency t) \<noteq> []")
    case False
    then obtain e where "check_snapshot y 0 (str_TransactionSnapshot y) (F64 0) = Inl e" using check_snapshot_blank by blast
    then show ?thesis using get False by (auto simp: validateSTRReportSnapshot_def)
  next
    case True
    then have cur: "TrimSpace (tx_Currency t) \<noteq> []" if "t \<in> set ts" for t
      using that currencies(1) by (metis (no_types, opaque_lifting) imageE imageI list.set_map)
    have named: "CanonicalUUID (al_TransactionIDs a ! k) \<noteq> []" "tx_Currency (ts ! k) = currency" "CanonicalUUID currency \<noteq> []" if "k < length ts" for k
    proof -
      have *: "tx_Currency (ts ! k) = currency" "TrimSpace (tx_ID (ts ! k)) \<noteq> []" "TrimSpace (tx_Currency (ts ! k)) \<noteq> []"
        using ts(5) [OF nth_mem [OF that]] cur [OF nth_mem [OF that]] by (auto simp: TrimSpace_def)
      show "tx_Currency (ts ! k) = currency" by (rule *(1))
      show "CanonicalUUID currency \<noteq> []" using *(3) unfolding *(1) CanonicalUUID_Nil .
      show "CanonicalUUID (al_TransactionIDs a ! k) \<noteq> []" using *(2) unfolding id_at [OF that, symmetric] by (simp add: CanonicalUUID_Nil)
    qed
    have "check_snapshot y 0 (str_TransactionSnapshot y) (F64 0) = Inr (foldl f64_add (F64 0) (map tx_Amount ts))"
      unfolding currencies(2) [symmetric]
      by (rule check_snapshot_Inr)
        (use id_at named len in \<open>auto simp: ts(2) y canonical_transaction_snapshot_def transaction_snapshot_def canonical_alert_snapshot_def
          alert_snapshot_def SameIdentifier_def CanonicalIdentifier_def CanonicalUUID_Nil [symmetric]\<close>)
    then have "validateSTRReportSnapshot (Some y) = None"
      using ids \<open>ts \<noteq> []\<close> len f64_total_matches [of amount]
      by (auto simp: validateSTRReportSnapshot_def y ts(2,3) canonical_alert_snapshot_def alert_snapshot_def customer_snapshot_def
          SameIdentifier_def CanonicalIdentifier_def)
    with get True show ?thesis by blast
  qed
qed

definition sample_sources :: str_sources where
  "sample_sources = \<lparr>ss_alerts = \<lparr>ar_data = [(''a1'', sample_alert\<lparr>al_TransactionIDs := [''t1'']\<rparr>)], ar_byCustomer = []\<rparr>,
    ss_transactions = \<lparr>mt_data = [(''t1'', sample_txn\<lparr>tx_ID := ''t1'', tx_Currency := ''JPY''\<rparr>)], mt_byCustomer = [], mt_external = [], mt_idempotencyKey = []\<rparr>,
    ss_customers = NewMemoryCustomerRepo\<lparr>cs_data := [(''c1'', sample_customer\<lparr>cu_ID := ''c1''\<rparr>)]\<rparr>,
    ss_cases = Some [(''k1'', sample_case\<lparr>ca_ID := ''k1'', ca_CustomerID := ''c1'', ca_AlertIDs := [''a1''], ca_STRCandidate := True,
      ca_Status := CaseStatusInvestigating\<rparr>)],
    ss_reports = NewMemorySTRReportRepo\<rparr>"

definition sample_str_request :: CreateSTRRequest where
  "sample_str_request = \<lparr>csr_AlertID = ''a1'', csr_CaseID = ''k1'', csr_SuspiciousPoint = '' rapid transfers '', csr_CreatedBy = ''ana'',
    csr_CorrectsReportID = [], csr_SupersedesReportID = []\<rparr>"

definition sample_q :: request where
  "sample_q = \<lparr>rq_Principal = None, rq_APIKey = None, rq_contextID = [], rq_headerID = [], rq_generated = ''g'', rq_IP = [], rq_UserAgent = []\<rparr>"

definition sample_report :: STRReport where
  "sample_report = (case draft_STR 5000 ''r1'' sample_q sample_sources (Some sample_str_request) of Inr x \<Rightarrow> x)"

theorem drafted_report_exports_witness:
  "\<exists>y r'. Report_Create 5000 NewMemorySTRReportRepo (Some sample_report) = (Inr y, r') \<and>
    str_SuspiciousPoint y = ''rapid transfers'' \<and> Report_Get r' ''r1'' = Inr y \<and> validateSTRReportSnapshot (Some y) = None"
proof -
  obtain y r' where create: "Report_Create 5000 NewMemorySTRReportRepo (Some sample_report) = (Inr y, r')" and "str_SuspiciousPoint y = ''rapid transfers''"
      and "\<forall>t \<in> set (str_TransactionSnapshot y). TrimSpace (ts_Currency t) \<noteq> []"
  proof -
    have "(case Report_Create 5000 NewMemorySTRReportRepo (Some sample_report) of
        (Inr y, _) \<Rightarrow> str_SuspiciousPoint y = ''rapid transfers'' \<and> list_all (\<lambda>t. TrimSpace (ts_Currency t) \<noteq> []) (str_TransactionSnapshot y) | _ \<Rightarrow> False)"
      by code_simp
    then show thesis using that by (auto simp: list_all_iff split: prod.splits sum.splits)
  qed
  moreover have draft: "draft_STR 5000 ''r1'' sample_q sample_sources (Some sample_str_request) = Inr sample_report" by code_simp
  have "named_transactions (ss_transactions sample_sources)"
    by (simp add: named_transactions_def sample_sources_def sample_txn_def TrimSpace_def is_space_def)
  moreover have "tbl_get (ar_data (ss_alerts sample_sources)) k = Some a \<Longrightarrow> al_ID a = k" for k a
    by (auto simp: sample_sources_def sample_alert_def split: if_splits)
  moreover have "tbl_get (cs_data (ss_customers sample_sources)) k = Some c \<Longrightarrow> cu_ID c = k \<and> TrimSpace k \<noteq> []" for k c
    by (auto simp: sample_sources_def TrimSpace_def is_space_def split: if_splits)
  ultimately show ?thesis using drafted_report_exports [OF _ _ _ draft create] by blast
qed

theorem report_immutable_witness:
  "\<exists>r r' x. Report_Get r ''r1'' = Inr x \<and> str_Status x = ReportStatusSubmitted \<and> str_SubmissionEvidence x = ''JAFIC-1'' \<and> r' \<noteq> r \<and>
    Report_Get r' ''r1'' = Inr x \<and> Report_Submit 9000 r' ''r1'' ''bob'' ''JAFIC-1 '' = (Inr x, r')"
proof -
  define r0 where "r0 = snd (Report_Create 5000 NewMemorySTRReportRepo (Some sample_report))"
  define r where "r = snd (Report_Submit 6000 r0 ''r1'' ''ana'' ''JAFIC-1'')"
  define r' where "r' = snd (Report_Create 7000 r (Some (sample_report\<lparr>str_ID := ''r2''\<rparr>)))"
  have past: "report_step\<^sup>*\<^sup>* NewMemorySTRReportRepo r" and later: "report_step\<^sup>*\<^sup>* r r'"
    unfolding r_def r0_def r'_def by (blast intro: report_step.intros rtranclp.intros)+
  have "(case Report_Get r ''r1'' of Inr x \<Rightarrow> str_Status x = ReportStatusSubmitted \<and> str_SubmissionEvidence x = ''JAFIC-1'' | _ \<Rightarrow> False)"
    unfolding r_def r0_def by code_simp
  then obtain x where x: "Report_Get r ''r1'' = Inr x" "str_Status x = ReportStatusSubmitted" "str_SubmissionEvidence x = ''JAFIC-1''"
    by (auto split: sum.splits)
  have "length (rr_data r') \<noteq> length (rr_data r)" unfolding r'_def r_def r0_def by code_simp
  then have "r' \<noteq> r" by auto
  moreover have "TrimSpace ''JAFIC-1 '' = ''JAFIC-1''" by code_simp
  ultimately show ?thesis using report_immutable [OF past later x(1)] x
    by (intro exI [where x = r] exI [where x = r'] exI [where x = x]) auto
qed

text \<open>
  The lock of a draft is its time to the microsecond, and unlike for customers nothing makes it move: when the first of two editors
  who read the same draft saves within the microsecond of its last change, the second save succeeds as well and
  the first text is lost.
\<close>

lemma report_lost_update:
  assumes "tbl_get (rr_data r) (str_ID x) = Some x" and "str_Status x = ReportStatusDraft"
    and "Truncate now Microsecond = str_UpdatedAt x"
  shows "\<exists>y1 r1 y2 r2. Report_UpdateIfUnmodified now r (Some (x\<lparr>str_SuspiciousPoint := first\<rparr>)) (str_UpdatedAt x) = (Inr y1, r1) \<and>
     Report_UpdateIfUnmodified now' r1 (Some (x\<lparr>str_SuspiciousPoint := second\<rparr>)) (str_UpdatedAt x) = (Inr y2, r2) \<and>
     str_SuspiciousPoint y1 = first \<and> tbl_get (rr_data r2) (str_ID x) = Some y2 \<and> str_SuspiciousPoint y2 = second"
  using assms by (simp add: Report_UpdateIfUnmodified_def edit_draft_def tbl_simps Let_def)

end
