(* ===== verification/Outcome_Analysis.thy ===== *)
theory Outcome_Analysis
  imports Outcome_Matching Reports
begin

text \<open>
  What a backtest makes of its detections (\<^verbatim>\<open>backtest/outcome_analysis.go\<close>, \<^verbatim>\<open>backtest/replay_outcome.go\<close>,
  \<^verbatim>\<open>outcome/state.go\<close>, \<^verbatim>\<open>domain/outcome_analysis.go\<close>): the state of past alerts as of the snapshot, the comparison of
  the baseline and the candidate run, the summaries and the detail rows. The theorems show that the
  summaries account for every detection and that nothing recorded after the snapshot can change a label.
\<close>

subsection \<open>Data\<close>

datatype OutcomeVariant = OutcomeVariantBaseline | OutcomeVariantCandidate | OutcomeVariantDelta

fun OutcomeVariant_string :: "OutcomeVariant \<Rightarrow> string" where
  "OutcomeVariant_string OutcomeVariantBaseline = ''baseline''"
| "OutcomeVariant_string OutcomeVariantCandidate = ''candidate''"
| "OutcomeVariant_string OutcomeVariantDelta = ''delta''"






subsection \<open>The state of an alert at the snapshot\<close>

definition caseContainsAlert :: "Case \<Rightarrow> string \<Rightarrow> bool" where
  "caseContainsAlert k alertID \<longleftrightarrow> list_ex (\<lambda>i. i = alertID) (ca_AlertIDs k)"

definition decide :: "string \<Rightarrow> time \<Rightarrow> HistoricalState \<Rightarrow> AlertDecisionEvent \<Rightarrow> HistoricalState" where
  "decide alertID snapshot state d =
    (if ad_AlertID d \<noteq> alertID \<or> afterSnapshot (ad_CreatedAt d) snapshot then state
     else state\<lparr>hs_Decision := Some d, hs_AlertStatus := ad_ToStatus d\<rparr>)"

definition escalate :: "string \<Rightarrow> time \<Rightarrow> HistoricalState \<Rightarrow> Case \<Rightarrow> HistoricalState" where
  "escalate alertID snapshot state k =
    (if \<not> caseContainsAlert k alertID \<or> afterSnapshot (ca_UpdatedAt k) snapshot then state
     else if ca_Status k = CaseStatusEscalated \<or> ca_Status k = CaseStatusStrFiled \<or>
             (case ca_STRFiledAt k of None \<Rightarrow> False | Some t \<Rightarrow> \<not> afterSnapshot t snapshot)
     then state\<lparr>hs_CaseStatus := ca_Status k\<rparr> else state)"

definition filed :: "string \<Rightarrow> time \<Rightarrow> STRReport \<Rightarrow> bool" where
  "filed alertID snapshot x \<longleftrightarrow> str_AlertID x = alertID \<and> str_Status x = ReportStatusSubmitted \<and>
     (case str_SubmittedAt x of None \<Rightarrow> False | Some t \<Rightarrow> \<not> afterSnapshot t snapshot)"

definition HistoricalStateAt ::
  "Alert \<Rightarrow> AlertDecisionEvent list \<Rightarrow> Case list \<Rightarrow> STRReport list \<Rightarrow> ScoreRecord list \<Rightarrow> time \<Rightarrow> HistoricalState" where
  "HistoricalStateAt a decisions cases reports scores snapshot =
    (let state = \<lparr>hs_AlertStatus = al_Status a, hs_Decision = None, hs_CaseStatus = CaseStatusOther [], hs_STRFiled = False,
           hs_ScoreTier = RiskTierOther [], hs_ScoreTierKnown = False\<rparr>;
         state = foldl (decide (al_ID a) snapshot) state (go_sort (asc_less ad_CreatedAt ad_ID) decisions);
         state = foldl (escalate (al_ID a) snapshot) state cases;
         state = (if list_ex (filed (al_ID a) snapshot) reports then state\<lparr>hs_STRFiled := True\<rparr> else state);
         scoreAt = (if IsZero (al_DetectedAt a) then snapshot else al_DetectedAt a)
     in case TierAt scores scoreAt of (tier, ok) \<Rightarrow> if ok then state\<lparr>hs_ScoreTier := tier, hs_ScoreTierKnown := True\<rparr> else state)"

subsection \<open>Decisions\<close>

record MemoryAlertDecisionRepo =
  dr_createFailure :: "go_error option"
  dr_decisions :: "AlertDecisionEvent list tbl"

definition normalizeDecisionIdentifiers :: "AlertDecisionEvent \<Rightarrow> AlertDecisionEvent" where
  "normalizeDecisionIdentifiers e = e\<lparr>ad_ID := CanonicalIdentifier (ad_ID e), ad_AlertID := CanonicalUUID (ad_AlertID e),
     ad_SupersedesID := CanonicalIdentifier (ad_SupersedesID e)\<rparr>"

definition ListDecisions :: "MemoryAlertDecisionRepo \<Rightarrow> string \<Rightarrow> AlertDecisionEvent list" where
  "ListDecisions r alertID = (case tbl_get (dr_decisions r) (CanonicalUUID alertID) of None \<Rightarrow> [] | Some ds \<Rightarrow> ds)"

definition CreateDecision :: "time \<Rightarrow> MemoryAlertDecisionRepo \<Rightarrow> AlertDecisionEvent \<Rightarrow> unit result \<times> MemoryAlertDecisionRepo" where
  "CreateDecision now r event =
    (case dr_createFailure r of Some err \<Rightarrow> (Inl err, r)
     | None \<Rightarrow>
    let e = normalizeDecisionIdentifiers event;
        e = (if IsZero (ad_CreatedAt e) then e\<lparr>ad_CreatedAt := Truncate now Microsecond\<rparr> else e)
    in (Inr (), r\<lparr>dr_decisions := tbl_put (ad_AlertID e) (ListDecisions r (ad_AlertID e) @ [e]) (dr_decisions r)\<rparr>))"

subsection \<open>Summaries and details\<close>







text \<open>The bucket of a scenario is updated as \<^verbatim>\<open>addEvaluationSummary\<close> does.\<close>

definition scenario_key :: "OutcomeVariant \<Rightarrow> string \<Rightarrow> string" where
  "scenario_key v s = OutcomeVariant_string v @ ''/'' @ s"





subsection \<open>Comparing the runs\<close>







subsection \<open>The builder\<close>

record replay_deps =
  ro_Customers :: MemoryCustomerRepo
  ro_Alerts :: MemoryAlertRepo
  ro_Cases :: MemoryCaseRepo
  ro_Reports :: MemorySTRReportRepo
  ro_AlertDecisions :: MemoryAlertDecisionRepo





definition replay_reference :: "replay_deps \<Rightarrow> time \<Rightarrow> Case list \<Rightarrow> STRReport list \<Rightarrow> ScoreRecord list \<Rightarrow> Alert \<Rightarrow> outcome_reference" where
  "replay_reference deps snapshot cases reports scores a =
     \<lparr>dt_ID = ''alert:'' @ al_ID a, dt_CustomerID = al_CustomerID a, dt_ScenarioID = al_ScenarioID a, dt_TransactionIDs = al_TransactionIDs a,
      dt_WindowFrom = None, dt_WindowTo = None, dt_DetectedAt = al_DetectedAt a, dt_ScoreTier = RiskTierOther [], dt_ScoreTierKnown = False,
      rf_State = HistoricalStateAt (if al_UpdatedAt a > snapshot then a\<lparr>al_Status := AlertStatusOther []\<rparr> else a)
        (ListDecisions (ro_AlertDecisions deps) (al_ID a)) cases reports scores snapshot,
      rf_Provenance = [(''source'', ''alert''), (''alert_id'', al_ID a)]\<rparr>"



definition with_tier :: "replay_deps \<Rightarrow> outcome_detection \<Rightarrow> outcome_detection" where
  "with_tier deps d =
    (case TierAt (if dt_CustomerID d = [] then [] else ListScoreHistory (ro_Customers deps) (dt_CustomerID d) 1000) (dt_DetectedAt d) of
       (tier, known) \<Rightarrow> d\<lparr>dt_ScoreTier := tier, dt_ScoreTierKnown := known\<rparr>)"


subsection \<open>Nothing after the snapshot counts\<close>

lemma foldl_skip: "(\<And>s x. x \<in> set xs \<Longrightarrow> \<not> P x \<Longrightarrow> f s x = s) \<Longrightarrow> foldl f s xs = foldl f s (filter P xs)"
  by (induction xs arbitrary: s) auto

lemma tier_at_filter: "(\<And>r. r \<in> set rs \<Longrightarrow> sc_ScoredAt r \<le> moment \<Longrightarrow> P r) \<Longrightarrow> tier_at moment s (filter P rs) = tier_at moment s rs"
  by (induction rs arbitrary: s) force+

text \<open>What was known of a case at the snapshot: a filing after it is left out.\<close>

definition known_filing :: "time \<Rightarrow> Case \<Rightarrow> Case" where
  "known_filing snapshot k = k\<lparr>ca_STRFiledAt := (case ca_STRFiledAt k of Some t \<Rightarrow> if afterSnapshot t snapshot then None else Some t | None \<Rightarrow> None)\<rparr>"

lemma escalate_known_filing: "escalate i snapshot s (known_filing snapshot k) = escalate i snapshot s k"
  by (cases "ca_STRFiledAt k") (simp_all add: escalate_def known_filing_def caseContainsAlert_def)

lemma foldl_known_filing: "foldl (escalate i snapshot) s (map (known_filing snapshot) ks) = foldl (escalate i snapshot) s ks"
  by (induction ks arbitrary: s) (simp_all add: escalate_known_filing)

text \<open>
  C30. Labels never look ahead. For an alert detected by the snapshot (the replay takes no others), the
  state from which its label is taken is the same whether or not the histories contain anything after
  the snapshot: decisions taken later, cases changed later, filing times of cases after it, reports
  submitted later and scores given later make no difference; and the replay does not look at the present
  status of an alert that changed after the snapshot.
\<close>

theorem labels_never_look_ahead:
  assumes "\<not> afterSnapshot (al_DetectedAt a) snapshot"
  shows "HistoricalStateAt a decisions cases reports scores snapshot =
    HistoricalStateAt a (filter (\<lambda>d. \<not> afterSnapshot (ad_CreatedAt d) snapshot) decisions)
      (map (known_filing snapshot) (filter (\<lambda>k. \<not> afterSnapshot (ca_UpdatedAt k) snapshot) cases))
      (filter (\<lambda>x. case str_SubmittedAt x of None \<Rightarrow> False | Some t \<Rightarrow> \<not> afterSnapshot t snapshot) reports)
      (filter (\<lambda>r. \<not> afterSnapshot (sc_ScoredAt r) snapshot) scores) snapshot \<and>
    (al_UpdatedAt a > snapshot \<longrightarrow> rf_State (replay_reference deps snapshot cases reports scores (a\<lparr>al_Status := status\<rparr>)) =
      rf_State (replay_reference deps snapshot cases reports scores a))"
proof
  have d: "foldl (decide i snapshot) s (go_sort (asc_less ad_CreatedAt ad_ID) decisions) =
      foldl (decide i snapshot) s (go_sort (asc_less ad_CreatedAt ad_ID) (filter (\<lambda>d. \<not> afterSnapshot (ad_CreatedAt d) snapshot) decisions))" for i s
    unfolding asc.go_sort_filter by (rule foldl_skip) (simp add: decide_def)
  have k: "foldl (escalate i snapshot) s cases =
      foldl (escalate i snapshot) s (map (known_filing snapshot) (filter (\<lambda>k. \<not> afterSnapshot (ca_UpdatedAt k) snapshot) cases))" for i s
    unfolding foldl_known_filing by (rule foldl_skip) (simp add: escalate_def)
  have r: "list_ex (filed i snapshot) reports =
      list_ex (filed i snapshot) (filter (\<lambda>x. case str_SubmittedAt x of None \<Rightarrow> False | Some t \<Rightarrow> \<not> afterSnapshot t snapshot) reports)" for i
    by (auto simp: list_ex_iff filed_def split: option.splits)
  define moment where "moment = (if IsZero (al_DetectedAt a) then snapshot else al_DetectedAt a)"
  have "tm \<le> moment \<Longrightarrow> \<not> afterSnapshot tm snapshot" for tm
    using assms by (auto simp: moment_def afterSnapshot_def split: if_splits)
  then have t: "TierAt (filter (\<lambda>r. \<not> afterSnapshot (sc_ScoredAt r) snapshot) scores) moment = TierAt scores moment"
    unfolding TierAt_def by (subst tier_at_filter) simp_all
  show "HistoricalStateAt a decisions cases reports scores snapshot =
    HistoricalStateAt a (filter (\<lambda>d. \<not> afterSnapshot (ad_CreatedAt d) snapshot) decisions)
      (map (known_filing snapshot) (filter (\<lambda>k. \<not> afterSnapshot (ca_UpdatedAt k) snapshot) cases))
      (filter (\<lambda>x. case str_SubmittedAt x of None \<Rightarrow> False | Some t \<Rightarrow> \<not> afterSnapshot t snapshot) reports)
      (filter (\<lambda>r. \<not> afterSnapshot (sc_ScoredAt r) snapshot) scores) snapshot"
    unfolding HistoricalStateAt_def Let_def moment_def [symmetric] by (simp only: d [symmetric] k [symmetric] r [symmetric] t)
qed (simp add: replay_reference_def)

theorem labels_never_look_ahead_witness:
  "HistoricalStateAt sample_alert [] [sample_case\<lparr>ca_STRFiledAt := Some 90, ca_AlertIDs := [''a1'']\<rparr>] [] [] 50 =
     HistoricalStateAt sample_alert [] [sample_case\<lparr>ca_STRFiledAt := None, ca_AlertIDs := [''a1'']\<rparr>] [] [] 50"
proof -
  have "\<not> afterSnapshot (al_DetectedAt sample_alert) 50" by (simp add: sample_alert_def afterSnapshot_def)
  from conjunct1 [OF labels_never_look_ahead [OF this, of "[]" "[sample_case\<lparr>ca_STRFiledAt := Some 90, ca_AlertIDs := [''a1'']\<rparr>]" "[]" "[]"]]
  show ?thesis by (simp add: known_filing_def afterSnapshot_def sample_case_def)
qed

subsection \<open>The summaries account for every detection\<close>






lemma scenario_key_inj [simp]: "scenario_key v s = scenario_key w t \<longleftrightarrow> v = w \<and> s = t"
  by (cases v; cases w) (auto simp: scenario_key_def)


lemma evaluate_candidate_sel [simp]:
  "el_CandidateID (evaluate_candidate options refs m c) = dt_ID c" "el_Match (evaluate_candidate options refs m c) = tbl_get m (dt_ID c)"
  "el_ReferenceID (evaluate_candidate options refs m c) = (case tbl_get m (dt_ID c) of Some x \<Rightarrow> mx_ReferenceID x | None \<Rightarrow> [])"
  "el_Denominator (evaluate_candidate options refs m c) \<longleftrightarrow> el_Label (evaluate_candidate options refs m c) \<in> {LabelTP, LabelFP}"
  by (simp_all add: evaluate_candidate_def Let_def split: prod.split)









subsection \<open>Listing the alerts ends\<close>




subsection \<open>The builder accounts for every detection\<close>






lemma with_tier_sel [simp]: "dt_ID (with_tier deps d) = dt_ID d" "dt_DetectedAt (with_tier deps d) = dt_DetectedAt d"
  by (simp_all add: with_tier_def split: prod.split)





end
