(* ===== verification/Spec2Isabelle.thy ===== *)
theory Spec2Isabelle
  imports Identifiers Status_Lifecycle Paging Alert_Store Case_Lifecycle Case_Workflow Consolidation
    Customers Policies Sessions User_Lifecycle Transactions Detection_Windows Scoring Screening Backtests
    Cursors Pending_Evaluation Event_Outbox Rules Atomic_Store Whitelist Access Outcome_Matching Reports Outcome_Analysis
begin

text \<open>
  Merlon is an anti-money-laundering backend: it keeps customers and their transactions, evaluates
  monitoring scenarios on them, scores customer risk, screens names against sanction lists, raises
  alerts, consolidates alerts into cases, lets analysts and supervisors work on both, and guards
  access by accounts and sessions. This library models the Go code under \<^verbatim>\<open>src/api/internal\<close>: the
  domain types, the memory repositories (the reference implementation of every repository
  interface), the native engine and the services written over the repository interfaces.

  \<^bold>\<open>Foundations.\<close> \<open>Prelude\<close>: errors as a datatype (\<^verbatim>\<open>domain/repository.go\<close>), results as sums, Go maps as
  association tables with a chosen iteration order, \<^verbatim>\<open>sort.Slice\<close>, ASCII text functions, wrapping
  64-bit arithmetic. \<open>Float64\<close>: the IEEE operations the engine uses, exact on whole numbers up to
  2^53. \<open>Formatting\<close> and \<open>Encoding\<close>: decimal printing and parsing, base64, RFC 3339 times and the
  calendar, with their round trips.

  \<^bold>\<open>Domain and repositories.\<close>
  \<^item> \<open>Identifiers\<close> (\<^verbatim>\<open>domain/uuid.go\<close>): the spellings of a UUID and their canonical form.
  \<^item> \<open>Status_Lifecycle\<close> (\<^verbatim>\<open>domain/alert.go, case.go, risk.go, report.go\<close>): the status machines.
  \<^item> \<open>Paging\<close>, \<open>Cursors\<close> (\<^verbatim>\<open>store/memory.go\<close>, \<^verbatim>\<open>server/pagination.go\<close>): offset and keyset paging; a walk
    along the cursors visits every item once; the opaque cursor text decodes to what was encoded.
  \<^item> \<open>Alert_Store\<close>, \<open>Case_Lifecycle\<close> (\<^verbatim>\<open>store/memory.go\<close>, \<^verbatim>\<open>store/lifecycle.go\<close>): alerts, their
    deduplication index, cases and the coordinated case/alert update; invariants over histories of
    operations (updates from stale reads and rollbacks included), atomicity and optimistic locking.
  \<^item> \<open>Customers\<close> (\<^verbatim>\<open>store/memory.go, cdd_override.go, edd_events.go\<close>): no lost updates, overrides
    decided once.
  \<^item> \<open>Transactions\<close> (\<^verbatim>\<open>store/memory.go\<close>, \<^verbatim>\<open>transactionhistory/history.go\<close>): creation exactly once, also
    over atomic sections that are rolled back, and the complete, terminating paged reader over either repository interface (a locale).
  \<^item> \<open>Sessions\<close>, \<open>User_Lifecycle\<close> (\<^verbatim>\<open>store/users.go\<close>, \<^verbatim>\<open>auth/refresh.go\<close>, \<^verbatim>\<open>store/user_lifecycle.go\<close>): token
    rotation, reuse detection, session limits, the last administrator.
  \<^item> \<open>Pending_Evaluation\<close> (\<^verbatim>\<open>store/memory_pending_evaluation.go\<close>): the queue of transactions that could
    not be evaluated, its audit trail and version checks.
  \<^item> \<open>Event_Outbox\<close> (\<^verbatim>\<open>store/event_outbox_memory.go\<close>, \<^verbatim>\<open>server/event_outbox_worker.go\<close>): the outbox and
    its worker keep an append-only log of which no committed entry is lost, deliver at most once as long
    as no atomic section is rolled back, and drain.
  \<^item> \<open>Rules\<close> (\<^verbatim>\<open>store/memory.go\<close>, \<^verbatim>\<open>server/rules.go\<close>): rule definitions and their versions; versions are
    append-only, an active rule was approved by someone other than its author, a bundle is imported
    as a whole or not at all.
  \<^item> \<open>Whitelist\<close> (\<^verbatim>\<open>store/whitelist.go\<close>, \<^verbatim>\<open>server/whitelist.go, alert_suppression.go\<close>,
    \<^verbatim>\<open>batch/whitelist_expiry.go\<close>): entries, their four-eyes approval under interleaved requests, and the exact
    condition for suppressing an alert.
  \<^item> \<open>Reports\<close> (\<^verbatim>\<open>store/report_memory.go\<close>, \<^verbatim>\<open>server/report.go\<close>): suspicious-transaction reports: submitted
    ones never change, and which drafts can be exported.
  \<^item> \<open>Atomic_Store\<close> (\<^verbatim>\<open>store/atomic_memory.go\<close>, \<^verbatim>\<open>server/transaction.go, cdd_override.go, customer_edd.go\<close>):
    the copy and the rollback of \<^verbatim>\<open>RunAtomic\<close> over the repositories above, and three mutations that run
    inside it; what a failure leaves behind.

  \<^bold>\<open>Access.\<close>
  \<^item> \<open>Access\<close> (\<^verbatim>\<open>server/auth.go, ratelimit.go\<close>, \<^verbatim>\<open>auth/*.go\<close>): the authentication middleware, API keys over
    histories of creations and revocations, permissions, the denylist and the rate limiter, each of the
    last two equivalent to one that forgets nothing.
  \<^item> \<open>Requests\<close> (\<^verbatim>\<open>server/audit.go, atomic.go, wave3_common.go\<close>): who a request acts for, and how errors become
    responses.

  \<^bold>\<open>Engine.\<close>
  \<^item> \<open>Detection\<close>, \<open>Detection_Windows\<close>, \<open>Engine_State\<close>, \<open>Monitoring\<close> (\<^verbatim>\<open>engine/native/native.go\<close>,
    \<^verbatim>\<open>provenance.go\<close>): the five detectors over sorted windows, the scenario parameters by risk tier, the
    evaluation request, the provenance of its alerts and the history a realtime evaluation needs. The
    sliding-window loops are shown equivalent to a declarative reading of the rule.
  \<^item> \<open>Scoring\<close>: weight sets, factor resolution, score and tier; unresolved factors raise the tier.
  \<^item> \<open>Edit_Distance\<close>, \<open>Screening\<close>: the two-row table computes the least alignment cost; screening reports
    exactly the entries that are similar enough.
  \<^item> \<open>Scenario_Config\<close>, \<open>Engine_Config\<close> (\<^verbatim>\<open>engine/native/native.go\<close>, \<^verbatim>\<open>config_validation.go\<close>): validation of
    scenarios, country-risk sets, weight sets and lists; what validation accepts is what loading loads.
  \<^item> \<open>Backtests\<close>: the replay and the accounts of its report.
  \<^item> \<open>Outcome_Matching\<close> (\<^verbatim>\<open>outcome/matcher.go\<close>): which past alert a replayed detection is credited with; the
    assignment is the only stable one.
  \<^item> \<open>Outcome_Analysis\<close> (\<^verbatim>\<open>backtest/outcome_analysis.go, replay_outcome.go\<close>, \<^verbatim>\<open>outcome/state.go\<close>,
    \<^verbatim>\<open>store/investigation_memory.go\<close>): the state of past alerts at a snapshot, which never looks ahead, and
    the summaries and rows of an analysis, which account for every detection.

  \<^bold>\<open>Workflow and policies.\<close>
  \<^item> \<open>Case_Workflow\<close> (\<^verbatim>\<open>server/case.go\<close>): planning the alert transitions of a case status change; the
    store accepts every plan.
  \<^item> \<open>Consolidation\<close> (\<^verbatim>\<open>casemgmt/consolidation.go\<close>): at most three attempts, with arbitrary interference of
    other requests between the steps.
  \<^item> \<open>Policies\<close> (\<^verbatim>\<open>policy/*.go\<close>, \<^verbatim>\<open>casemgmt/priority_policy.go\<close>): validation and evaluation of the policy
    documents.

  \<^bold>\<open>How code becomes definitions.\<close> A struct is a record whose fields carry a short prefix, an enumeration
  a datatype with a constructor for other texts, a method a function that takes the repository and
  returns the result with the new repository; \<open>Inl\<close> is the returned error. Each repository holds its
  lock for a whole method, so methods are atomic and concurrency is the interleaving of methods:
  step relations and interference parameters quantify over it. \<^verbatim>\<open>RunAtomic\<close> excludes other atomic sections
  and nothing else: where a property covers sections, its step relation has rules that open one with a
  copy, close it, and put the copy back while other requests run beside it (transactions, cases and
  alerts, the outbox); the other histories are those in which no section is rolled back. Clocks, random identifiers, hashes,
  JSON and YAML decoders and the event bus are parameters. Times and durations are nanoseconds as
  integers; where a product may leave 64 bits it is wrapped. Text is a list of bytes and the text
  functions are those of Go on ASCII. Contexts are either cancelled before a call or not at all. Loops
  are structural recursion, recursion with a measure, or partial functions in the option monad that are shown
  to return (the pages of the history reader). Two loops carry a bound: consolidation has the three attempts of
  the code, and the page loop of the replay builder takes a number of pages, instantiated with the number of
  stored alerts plus one, which \<open>listReplayAlerts_ends\<close> shows to be enough.

  \<^bold>\<open>Interfaces.\<close> Where code is written over an interface (the history reader, the consolidation, the
  outbox worker and its rollback, atomic mutations, the comparison functions of sorts, keyset paging) the interface is a locale with its
  laws, interpreted on the memory repositories.

  \<^bold>\<open>Not modelled.\<close> The PostgreSQL repositories (the meaning of their SQL is not in the sources); HTTP
  routing, decoding and rendering, the API description; file loading; batch runs and their scheduler; the
  backtest worker and the coverage service; the import of screening lists; retention; the travel-rule,
  rule-selection and screening-readiness policies; network delivery (webhooks, NATS, notifications); JWT
  signing, password hashing and AES-GCM (library code); commands, demo data and the web front end. Of the
  components above the queue lists of cases, the other mutations that run inside \<^verbatim>\<open>RunAtomic\<close> and the
  formats of exports are left out.
\<close>

end
